(* ===== verification/Prelude.thy ===== *)
theory Prelude
  imports
    Main
    "HOL-Library.Word"
    "HOL-Library.AList"
    "HOL-Library.Char_ord"
    "HOL-Library.List_Lexorder"
begin

text \<open>
  What the components of the development share.

  \<^item> The widths of the Go integers (\<open>u32\<close>, \<open>u64\<close>) and byte strings. A Go \<open>string\<close> and a Go
    \<open>[]byte\<close> are both sequences of bytes, and the conversions between them copy the bytes, so
    both are the type \<open>string\<close> (a list of \<open>char\<close>, which has 256 values). A nil slice is the
    empty list.
  \<^item> Go maps: an association list with distinct keys (\<open>mwf\<close>). The order of the list is one
    iteration order of the map; Go leaves that order open, so a statement about every
    well-formed list is a statement about every iteration order.
  \<^item> Go sets (\<open>map[string]struct{}\<close>): lists without repetitions.
  \<^item> Errors: the sentinel errors of the packages and formatted errors, with the text
    \<open>err.Error()\<close> returns.
  \<^item> The collections of simplification rules the component proofs use.
\<close>

named_theorems key_simps \<open>disequality of the keys the components store under\<close>
named_theorems kv_simps \<open>what a read returns after a write\<close>
named_theorems wf_intros \<open>preservation of the representation invariants\<close>

type_synonym u32 = "32 word"
type_synonym u64 = "64 word"
type_synonym bytes = string

section \<open>Errors\<close>

datatype err =
    ErrKVNotFound
  | ErrNotFound
  | ErrExists
  | ErrNotDir
  | ErrIsDir
  | ErrNotEmpty
  | ErrInvalidName
  | ErrParse string
  | ErrMsg string

type_synonym 'a res = "err + 'a"

text \<open>The text of an error, as \<open>err.Error()\<close> gives it.\<close>

fun error_string :: "err \<Rightarrow> string" where
  "error_string ErrKVNotFound = ''kv: key not found''"
| "error_string ErrNotFound = ''entry not found''"
| "error_string ErrExists = ''file exists''"
| "error_string ErrNotDir = ''not a directory''"
| "error_string ErrIsDir = ''is a directory''"
| "error_string ErrNotEmpty = ''directory not empty''"
| "error_string ErrInvalidName = ''invalid name''"
| "error_string (ErrParse s) = ''strconv.ParseUint: parsing '' @ s"
| "error_string (ErrMsg s) = s"

section \<open>Go maps\<close>

type_synonym ('k, 'v) gomap = "('k \<times> 'v) list"

abbreviation mget :: "('k, 'v) gomap \<Rightarrow> 'k \<Rightarrow> 'v option" where
  "mget \<equiv> map_of"

definition mput :: "'k \<Rightarrow> 'v \<Rightarrow> ('k, 'v) gomap \<Rightarrow> ('k, 'v) gomap" where
  "mput = AList.update"

definition mdel :: "'k \<Rightarrow> ('k, 'v) gomap \<Rightarrow> ('k, 'v) gomap" where
  "mdel = AList.delete"

definition mkeys :: "('k, 'v) gomap \<Rightarrow> 'k list" where
  "mkeys m = map fst m"

definition mwf :: "('k, 'v) gomap \<Rightarrow> bool" where
  "mwf m \<longleftrightarrow> distinct (map fst m)"

lemma mget_mput [simp, kv_simps]: "mget (mput k v m) k' = (if k' = k then Some v else mget m k')"
  by (simp add: mput_def update_conv)

lemma mget_mdel [simp, kv_simps]: "mget (mdel k m) k' = (if k' = k then None else mget m k')"
  by (simp add: mdel_def delete_conv)

lemma mwf_Nil [simp, wf_intros]: "mwf []"
  by (simp add: mwf_def)

lemma mwf_mput [simp, wf_intros]: "mwf m \<Longrightarrow> mwf (mput k v m)"
  by (simp add: mwf_def mput_def distinct_update)

lemma mwf_mdel [simp, wf_intros]: "mwf m \<Longrightarrow> mwf (mdel k m)"
  by (simp add: mwf_def mdel_def distinct_delete)

lemma set_mkeys [simp]: "set (mkeys m) = dom (mget m)"
  by (simp add: mkeys_def dom_map_of_conv_image_fst)

lemma distinct_mkeys [simp]: "distinct (mkeys m) \<longleftrightarrow> mwf m"
  by (simp add: mkeys_def mwf_def)

lemma mkeys_mem_iff: "k \<in> set (mkeys m) \<longleftrightarrow> (\<exists>v. mget m k = Some v)"
  by auto

lemma length_mkeys [simp]: "length (mkeys m) = length m"
  by (simp add: mkeys_def)

lemma mget_Nil_iff: "m = [] \<longleftrightarrow> (\<forall>k. mget m k = None)"
proof
  assume "\<forall>k. mget m k = None"
  then have "dom (mget m) = {}" by (simp add: dom_def)
  then show "m = []" by (simp add: dom_map_of_conv_image_fst)
qed simp

lemma mget_mem: "mwf m \<Longrightarrow> (k, v) \<in> set m \<longleftrightarrow> mget m k = Some v"
  by (simp add: mwf_def)

lemma length_mput: "length (mput k v m) = (case mget m k of None \<Rightarrow> Suc (length m) | Some _ \<Rightarrow> length m)"
  by (induction m) (auto simp: mput_def split: option.splits)

lemma card_dom_mget: "mwf m \<Longrightarrow> card (dom (mget m)) = length m"
  by (metis distinct_card distinct_mkeys length_mkeys set_mkeys)

lemma length_mdel: "mwf m \<Longrightarrow> mget m k = Some v \<Longrightarrow> Suc (length (mdel k m)) = length m"
proof -
  assume m: "mwf m" "mget m k = Some v"
  have "dom (mget (mdel k m)) = dom (mget m) - {k}" by (auto simp: dom_def)
  then show ?thesis
    using m card_dom_mget [OF m(1)] card_dom_mget [OF mwf_mdel [OF m(1), of k]] card_Suc_Diff1 [of "dom (mget m)" k]
    by (auto simp: finite_dom_map_of)
qed

text \<open>Two maps are the same Go map when every key has the same value in both.\<close>

definition meq :: "('k, 'v) gomap \<Rightarrow> ('k, 'v) gomap \<Rightarrow> bool" where
  "meq m n \<longleftrightarrow> mget m = mget n"

lemma meq_length: "mwf m \<Longrightarrow> mwf n \<Longrightarrow> meq m n \<Longrightarrow> length m = length n"
  by (metis card_dom_mget meq_def)

lemma meq_refl [simp]: "meq m m"
  by (simp add: meq_def)

section \<open>Go sets\<close>

type_synonym 'a goset = "'a list"

definition sput :: "'a \<Rightarrow> 'a goset \<Rightarrow> 'a goset" where
  "sput = List.insert"

definition sdel :: "'a \<Rightarrow> 'a goset \<Rightarrow> 'a goset" where
  "sdel = removeAll"

lemma set_sput [simp]: "set (sput x s) = insert x (set s)"
  by (simp add: sput_def)

lemma set_sdel [simp]: "set (sdel x s) = set s - {x}"
  by (simp add: sdel_def)

lemma distinct_sput [simp, wf_intros]: "distinct s \<Longrightarrow> distinct (sput x s)"
  by (simp add: sput_def)

lemma distinct_sdel [simp, wf_intros]: "distinct s \<Longrightarrow> distinct (sdel x s)"
  by (simp add: sdel_def distinct_removeAll)

lemma sdel_Nil_iff: "sdel x s = [] \<longleftrightarrow> set s \<subseteq> {x}"
  by (auto simp: sdel_def removeAll_id filter_empty_conv removeAll_filter_not_eq)

section \<open>Sorted key lists\<close>

text \<open>
  \<^verbatim>\<open>sort.Strings\<close> orders byte strings lexicographically by byte value, which is the order
  \<^verbatim>\<open>List_Lexorder\<close> gives to lists of \<open>char\<close>.
\<close>

lemma sort_unique:
  fixes xs ys :: "'a::linorder list"
  assumes "distinct xs" "distinct ys" "set xs = set ys"
  shows "sort xs = sort ys"
  by (metis assms sorted_list_of_set_sort_remdups distinct_remdups_id)

end
