(* ===== verification/Go_Strings.thy ===== *)
theory Go_Strings
  imports Prelude
begin

text \<open>
  The functions of Go's \<^verbatim>\<open>strings\<close> and \<^verbatim>\<open>strconv\<close> packages that the sources call, on byte
  strings: prefixes and suffixes, trimming, splitting, and the decimal format of unsigned
  integers with its parser. \<open>trim_space\<close> trims the ASCII white space characters.

  The lemmas say that the decimal format is injective and is read back by the parser at every
  width that holds the number, which is what makes the decimal keys and values that the
  components store in the key-value store unambiguous.
\<close>

section \<open>Package strings\<close>

definition has_prefix :: "string \<Rightarrow> string \<Rightarrow> bool" where
  "has_prefix s p \<longleftrightarrow> take (length p) s = p"

definition has_suffix :: "string \<Rightarrow> string \<Rightarrow> bool" where
  "has_suffix s p \<longleftrightarrow> has_prefix (rev s) (rev p)"

definition trim_prefix :: "string \<Rightarrow> string \<Rightarrow> string" where
  "trim_prefix s p = (if has_prefix s p then drop (length p) s else s)"

definition trim_suffix :: "string \<Rightarrow> string \<Rightarrow> string" where
  "trim_suffix s p = (if has_suffix s p then take (length s - length p) s else s)"

definition trim_left_char :: "(char \<Rightarrow> bool) \<Rightarrow> string \<Rightarrow> string" where
  "trim_left_char P s = dropWhile P s"

definition trim_right_char :: "(char \<Rightarrow> bool) \<Rightarrow> string \<Rightarrow> string" where
  "trim_right_char P s = rev (dropWhile P (rev s))"

definition trim_right_slash :: "string \<Rightarrow> string" where
  "trim_right_slash s = trim_right_char (\<lambda>c. c = CHR ''/'') s"

definition is_space :: "char \<Rightarrow> bool" where
  "is_space c \<longleftrightarrow> c \<in> {CHR '' '', CHR 0x09, CHR 0x0A, CHR 0x0B, CHR 0x0C, CHR 0x0D}"

definition trim_space :: "string \<Rightarrow> string" where
  "trim_space s = trim_right_char is_space (trim_left_char is_space s)"

fun contains_str :: "string \<Rightarrow> string \<Rightarrow> bool" where
  "contains_str [] p = (p = [])"
| "contains_str (c # s) p = (has_prefix (c # s) p \<or> contains_str s p)"

text \<open>\<^verbatim>\<open>strings.Split\<close> with a separator of one byte: never the empty list.\<close>

fun split_on :: "char \<Rightarrow> string \<Rightarrow> string list" where
  "split_on c [] = [[]]"
| "split_on c (x # s) =
     (if x = c then [] # split_on c s
      else (case split_on c s of [] \<Rightarrow> [[x]] | w # ws \<Rightarrow> (x # w) # ws))"

fun join_with :: "string \<Rightarrow> string list \<Rightarrow> string" where
  "join_with sep [] = []"
| "join_with sep [w] = w"
| "join_with sep (w # ws) = w @ sep @ join_with sep ws"

text \<open>The part of a string before the first occurrence of a byte (all of it if there is none).\<close>

definition before_char :: "char \<Rightarrow> string \<Rightarrow> string" where
  "before_char c s = takeWhile (\<lambda>x. x \<noteq> c) s"

lemma has_prefix_append [simp]: "has_prefix (p @ s) p"
  by (simp add: has_prefix_def)

lemma has_prefix_iff: "has_prefix s p \<longleftrightarrow> (\<exists>t. s = p @ t)"
  by (metis append_take_drop_id has_prefix_append has_prefix_def)

lemma trim_prefix_append [simp]: "trim_prefix (p @ s) p = s"
  by (simp add: trim_prefix_def)

lemma has_suffix_append [simp]: "has_suffix (s @ p) p"
  by (simp add: has_suffix_def)

lemma has_suffix_iff: "has_suffix s p \<longleftrightarrow> (\<exists>t. s = t @ p)"
proof
  assume "has_suffix s p"
  then obtain t where "rev s = rev p @ t"
    by (auto simp: has_suffix_def has_prefix_iff)
  then have "s = rev t @ p" by (metis rev_append rev_rev_ident)
  then show "\<exists>t. s = t @ p" by blast
qed auto

lemma trim_suffix_append [simp]: "trim_suffix (s @ p) p = s"
  by (simp add: trim_suffix_def)

lemma split_on_Nil_iff [simp]: "split_on c s \<noteq> []"
  by (induction s) (auto split: list.splits)

lemma split_on_no_sep: "c \<notin> set s \<Longrightarrow> split_on c s = [s]"
  by (induction s) auto

lemma split_on_append_sep:
  "c \<notin> set w \<Longrightarrow> split_on c (w @ c # s) = w # split_on c s"
  by (induction w) auto

lemma split_join:
  "ws \<noteq> [] \<Longrightarrow> (\<And>w. w \<in> set ws \<Longrightarrow> c \<notin> set w) \<Longrightarrow> split_on c (join_with [c] ws) = ws"
proof (induction ws rule: induct_list012)
  case (3 x y zs)
  then show ?case by (simp add: split_on_append_sep)
qed (auto simp: split_on_no_sep)

lemma trim_space_id:
  "s = [] \<or> \<not> is_space (hd s) \<and> \<not> is_space (last s) \<Longrightarrow> trim_space s = s"
  by (auto simp: trim_space_def trim_left_char_def trim_right_char_def hd_rev
      dropWhile_eq_self_iff [THEN iffD2])

lemma trim_space_no_space:
  "(\<And>c. c \<in> set s \<Longrightarrow> \<not> is_space c) \<Longrightarrow> trim_space s = s"
  by (cases "s = []") (auto intro!: trim_space_id)

lemma split_on_sep: "w \<in> set (split_on c s) \<Longrightarrow> c \<notin> set w"
proof (induction s arbitrary: w)
  case (Cons x s)
  then show ?case by (auto split: if_splits list.splits)
qed simp

lemma trim_space_ends:
  assumes "trim_space s \<noteq> []"
  shows "\<not> is_space (hd (trim_space s)) \<and> \<not> is_space (last (trim_space s))"
proof -
  let ?t = "dropWhile is_space s"
  have ts: "trim_space s = rev (dropWhile is_space (rev ?t))" by (simp add: trim_space_def trim_left_char_def trim_right_char_def)
  then have ne: "dropWhile is_space (rev ?t) \<noteq> []" using assms by (metis rev.simps(1))
  then have "?t \<noteq> []" by (metis dropWhile.simps(1) rev.simps(1))
  have "last (trim_space s) = hd (dropWhile is_space (rev ?t))" using ts ne by (simp only: last_rev)
  then have "\<not> is_space (last (trim_space s))" using hd_dropWhile [OF ne] by simp
  moreover have "rev ?t = takeWhile is_space (rev ?t) @ dropWhile is_space (rev ?t)" by simp
  then have "?t = trim_space s @ rev (takeWhile is_space (rev ?t))" unfolding ts by (metis rev_append rev_rev_ident)
  then have "hd (trim_space s) = hd ?t" using assms by (metis hd_append2)
  ultimately show ?thesis using hd_dropWhile [OF \<open>?t \<noteq> []\<close>] by simp
qed

lemma trim_space_idem: "trim_space (trim_space s) = trim_space s"
  using trim_space_ends [of s] by (intro trim_space_id) auto

section \<open>Decimal numbers\<close>

definition digit_char :: "nat \<Rightarrow> char" where
  "digit_char d = char_of (48 + d)"

definition digit_val :: "char \<Rightarrow> nat option" where
  "digit_val c = (let n = of_char c :: nat in if 48 \<le> n \<and> n \<le> 57 then Some (n - 48) else None)"

fun format_nat :: "nat \<Rightarrow> string" where
  "format_nat n = (if n < 10 then [digit_char n] else format_nat (n div 10) @ [digit_char (n mod 10)])"

declare format_nat.simps [simp del]

fun parse_digits :: "nat \<Rightarrow> string \<Rightarrow> nat option" where
  "parse_digits acc [] = Some acc"
| "parse_digits acc (c # s) =
     (case digit_val c of None \<Rightarrow> None | Some d \<Rightarrow> parse_digits (acc * 10 + d) s)"

text \<open>\<^verbatim>\<open>strconv.FormatUint(v, 10)\<close> and \<^verbatim>\<open>strconv.ParseUint(s, 10, bits)\<close>.\<close>

definition format_uint :: "u64 \<Rightarrow> string" where
  "format_uint v = format_nat (unat v)"

definition parse_uint :: "nat \<Rightarrow> string \<Rightarrow> nat res" where
  "parse_uint bits s =
     (if s = [] then Inl (ErrParse s)
      else case parse_digits 0 s of
        None \<Rightarrow> Inl (ErrParse s)
      | Some n \<Rightarrow> if n < 2 ^ bits then Inr n else Inl (ErrParse s))"

definition parse_u64 :: "string \<Rightarrow> u64 res" where
  "parse_u64 s = map_sum id of_nat (parse_uint 64 s)"

lemma digit_val_digit_char [simp]: "d < 10 \<Longrightarrow> digit_val (digit_char d) = Some d"
  by (simp add: digit_val_def digit_char_def)

lemma digit_char_inj: "d < 10 \<Longrightarrow> e < 10 \<Longrightarrow> digit_char d = digit_char e \<Longrightarrow> d = e"
  by (metis digit_val_digit_char option.inject)

lemma format_nat_nonempty [simp]: "format_nat n \<noteq> []"
  by (subst format_nat.simps) simp

lemma parse_digits_append:
  "parse_digits a (s @ t) = (case parse_digits a s of None \<Rightarrow> None | Some b \<Rightarrow> parse_digits b t)"
  by (induction s arbitrary: a) (auto split: option.splits)

lemma parse_digits_format_nat [simp]: "parse_digits 0 (format_nat n) = Some n"
proof (induction n rule: format_nat.induct)
  case (1 n)
  show ?case
  proof (cases "n < 10")
    case True
    then show ?thesis by (subst format_nat.simps) simp
  next
    case False
    with "1.IH" show ?thesis by (subst format_nat.simps) (simp add: parse_digits_append)
  qed
qed

lemma format_nat_inject [simp]: "format_nat m = format_nat n \<longleftrightarrow> m = n"
  by (metis option.inject parse_digits_format_nat)

lemma parse_uint_format_nat [simp]:
  "n < 2 ^ bits \<Longrightarrow> parse_uint bits (format_nat n) = Inr n"
  by (simp add: parse_uint_def)

lemma parse_u64_format_uint [simp]: "parse_u64 (format_uint v) = Inr v"
proof -
  have "unat v < 2 ^ 64" using unsigned_less [of v] by simp
  then show ?thesis by (simp add: parse_u64_def format_uint_def)
qed

lemma format_uint_inject [simp]: "format_uint v = format_uint w \<longleftrightarrow> v = w"
  by (simp add: format_uint_def word_unat_eq_iff)

lemma format_uint_nonempty [simp]: "format_uint v \<noteq> []"
  by (simp add: format_uint_def)

lemma format_nat_digits: "c \<in> set (format_nat n) \<Longrightarrow> (of_char c :: nat) \<in> {48..57}"
proof (induction n rule: format_nat.induct)
  case (1 n)
  show ?case
  proof (cases "n < 10")
    case True
    with "1.prems" have "c = digit_char n" by (simp add: format_nat.simps [of n])
    with True show ?thesis by (simp add: digit_char_def)
  next
    case False
    with "1.prems" have "c \<in> set (format_nat (n div 10)) \<or> c = digit_char (n mod 10)"
      by (auto simp: format_nat.simps [of n])
    then show ?thesis
    proof
      assume "c \<in> set (format_nat (n div 10))"
      with False "1.IH" show ?thesis by simp
    next
      assume c: "c = digit_char (n mod 10)"
      have "n mod 10 < 10" by simp
      then show ?thesis by (simp add: c digit_char_def)
    qed
  qed
qed

lemma underscore_notin_format_nat [simp]: "CHR ''_'' \<notin> set (format_nat n)"
  using format_nat_digits [of "CHR ''_''" n] by auto

lemma underscore_notin_format_uint [simp]: "CHR ''_'' \<notin> set (format_uint v)"
  by (simp add: format_uint_def)

text \<open>Fields joined by a separator that occurs in none of the leading ones are unambiguous.\<close>

lemma append_sep_inject:
  assumes "c \<notin> set a" "c \<notin> set b"
  shows "a @ c # s = b @ c # t \<longleftrightarrow> a = b \<and> s = t"
  using assms
proof (induction a arbitrary: b)
  case Nil
  then show ?case by (cases b) auto
next
  case (Cons x a)
  then show ?case by (cases b) auto
qed

end
