(* ===== verification/Json.thy ===== *)
theory Json
  imports Go_Strings
begin

text \<open>
  Go's \<^verbatim>\<open>encoding/json\<close>, as far as the sources use it: the text \<^verbatim>\<open>json.Marshal\<close> writes for a
  value (compact, with the HTML-safe escapes of the default encoder, invalid UTF-8 replaced by
  U+FFFD) and the parser behind \<^verbatim>\<open>json.Unmarshal\<close>. A number is kept as its literal, as the Go
  decoder does until it knows the field it goes to.

  The main result is \<open>json_parse_print\<close>: a value whose strings are valid UTF-8 is read back from
  the text written for it. The parser takes fuel for the nesting of its recursion; the length of
  the text is always enough, which the same lemma shows.
\<close>

datatype json =
    JNull
  | JBool bool
  | JNum string
  | JStr string
  | JArr "json list"
  | JObj "(string \<times> json) list"

section \<open>UTF-8\<close>

definition byte_in :: "char \<Rightarrow> nat \<Rightarrow> nat \<Rightarrow> bool" where
  "byte_in c lo hi \<longleftrightarrow> lo \<le> of_char c \<and> of_char c \<le> hi"

text \<open>Length of the well-formed UTF-8 sequence a string starts with; 0 if it starts with none.\<close>

definition utf8_need :: "nat \<Rightarrow> nat" where
  "utf8_need n =
     (if n < 128 then 1 else if n < 194 then 0 else if n < 224 then 2
      else if n < 240 then 3 else if n < 245 then 4 else 0)"

definition utf8_second :: "nat \<Rightarrow> char \<Rightarrow> bool" where
  "utf8_second n c =
     byte_in c (if n = 224 then 160 else if n = 240 then 144 else 128)
               (if n = 237 then 159 else if n = 244 then 143 else 191)"

definition utf8_len :: "string \<Rightarrow> nat" where
  "utf8_len s = (case s of [] \<Rightarrow> 0 | c # t \<Rightarrow>
     (let n = (of_char c :: nat); k = utf8_need n in
      if k \<le> length s \<and> (2 \<le> k \<longrightarrow> utf8_second n (s ! 1))
         \<and> (3 \<le> k \<longrightarrow> byte_in (s ! 2) 128 191) \<and> (4 \<le> k \<longrightarrow> byte_in (s ! 3) 128 191)
      then k else 0))"

lemma utf8_len_le: "utf8_len s \<le> length s"
  by (cases s) (auto simp: utf8_len_def Let_def)

lemma utf8_len_take:
  assumes "0 < utf8_len s"
  shows "utf8_len (take (utf8_len s) s @ t) = utf8_len s"
proof -
  obtain c u where s: "s = c # u" using assms by (cases s) (auto simp: utf8_len_def)
  define k where "k = utf8_need (of_char c)"
  have k: "utf8_len s = k" "0 < k" "k \<le> length s"
    and ok: "2 \<le> k \<longrightarrow> utf8_second (of_char c) (s ! 1)" "3 \<le> k \<longrightarrow> byte_in (s ! 2) 128 191"
      "4 \<le> k \<longrightarrow> byte_in (s ! 3) 128 191"
    using assms by (auto simp: s utf8_len_def Let_def k_def split: if_splits)
  have nth: "(take k s @ t) ! i = s ! i" if "i < k" for i
    using that k(3) by (simp add: nth_append)
  have hd: "take k s @ t = c # (take (k - 1) u @ t)"
    using k(2) by (cases k) (auto simp: s)
  have len: "k \<le> length (c # (take (k - 1) u @ t))"
    using k(3) by (simp add: s)
  have "utf8_len (take k s @ t) = k"
    using ok len nth [of 1] nth [of 2] nth [of 3]
    unfolding utf8_len_def hd list.case Let_def k_def [symmetric]
    by (auto simp: hd [symmetric])
  then show ?thesis by (simp only: k(1))
qed

lemma utf8_need_1: "utf8_need n = 1 \<longleftrightarrow> n < 128"
  by (simp add: utf8_need_def)

lemma utf8_len_ascii: "(of_char c :: nat) < 128 \<Longrightarrow> utf8_len (c # t) = 1"
  by (simp add: utf8_len_def utf8_need_def)

lemma utf8_len_1: "utf8_len (c # t) = 1 \<longleftrightarrow> (of_char c :: nat) < 128"
proof -
  have "utf8_len (c # t) = 0 \<or> utf8_len (c # t) = utf8_need (of_char c)"
    by (simp add: utf8_len_def Let_def)
  then show ?thesis using utf8_len_ascii [of c t] utf8_need_1 [of "of_char c"] by auto
qed

lemma utf8_len_append: "0 < utf8_len s \<Longrightarrow> utf8_len (s @ t) = utf8_len s"
  using utf8_len_take [of s "drop (utf8_len s) s @ t"] by (simp flip: append_assoc)

function valid_utf8 :: "string \<Rightarrow> bool" where
  "valid_utf8 s = (if s = [] then True else if utf8_len s = 0 then False
     else valid_utf8 (drop (utf8_len s) s))"
  by pat_completeness auto
termination
  by (relation "measure length") auto

declare valid_utf8.simps [simp del]

lemma valid_utf8_Nil [simp]: "valid_utf8 []"
  by (subst valid_utf8.simps) simp

lemma valid_utf8_Cons_ascii:
  "(of_char c :: nat) < 128 \<Longrightarrow> valid_utf8 (c # s) \<longleftrightarrow> valid_utf8 s"
  by (subst valid_utf8.simps) (simp add: utf8_len_ascii)

lemma valid_utf8_ascii: "(\<And>c. c \<in> set s \<Longrightarrow> (of_char c :: nat) < 128) \<Longrightarrow> valid_utf8 s"
  by (induction s) (auto simp: valid_utf8_Cons_ascii)

lemma valid_utf8_append: "valid_utf8 s \<Longrightarrow> valid_utf8 t \<Longrightarrow> valid_utf8 (s @ t)"
proof (induction s rule: valid_utf8.induct)
  case (1 s)
  show ?case
  proof (cases "s = []")
    case True
    with "1.prems" show ?thesis by simp
  next
    case False
    let ?k = "utf8_len s"
    from False "1.prems"(1) have k: "0 < ?k" "valid_utf8 (drop ?k s)"
      by (simp_all add: valid_utf8.simps [of s] split: if_splits)
    have "utf8_len (s @ t) = ?k"
      using k(1) by (rule utf8_len_append)
    moreover have "drop ?k (s @ t) = drop ?k s @ t"
      using utf8_len_le [of s] by simp
    moreover have "valid_utf8 (drop ?k s @ t)"
      using "1.IH" False k "1.prems"(2) by blast
    ultimately show ?thesis using k(1) by (subst valid_utf8.simps) simp
  qed
qed

text \<open>\<^verbatim>\<open>utf8.EncodeRune\<close>.\<close>

definition encode_rune :: "nat \<Rightarrow> string" where
  "encode_rune r =
     (if r < 128 then [char_of r]
      else if r < 2048 then [char_of (192 + r div 64), char_of (128 + r mod 64)]
      else if r < 65536 then
        [char_of (224 + r div 4096), char_of (128 + r div 64 mod 64), char_of (128 + r mod 64)]
      else [char_of (240 + r div 262144), char_of (128 + r div 4096 mod 64),
            char_of (128 + r div 64 mod 64), char_of (128 + r mod 64)])"

definition rune_error :: string where
  "rune_error = [CHR 0xEF, CHR 0xBF, CHR 0xBD]"

section \<open>Strings\<close>

definition hex_char :: "nat \<Rightarrow> char" where
  "hex_char d = (if d < 10 then char_of (48 + d) else char_of (87 + d))"

definition hex_val :: "char \<Rightarrow> nat option" where
  "hex_val c = (let n = (of_char c :: nat) in
     if 48 \<le> n \<and> n \<le> 57 then Some (n - 48)
     else if 97 \<le> n \<and> n \<le> 102 then Some (n - 87)
     else if 65 \<le> n \<and> n \<le> 70 then Some (n - 55) else None)"

definition hex4 :: "string \<Rightarrow> (nat \<times> string) option" where
  "hex4 s = (case s of
      a # b # c # d # t \<Rightarrow>
        (case (hex_val a, hex_val b, hex_val c, hex_val d) of
           (Some w, Some x, Some y, Some z) \<Rightarrow> Some (w * 4096 + x * 256 + y * 16 + z, t)
         | _ \<Rightarrow> None)
    | _ \<Rightarrow> None)"

definition u_escape :: "nat \<Rightarrow> string" where
  "u_escape n = [CHR 0x5C, CHR ''u'', CHR ''0'', CHR ''0'', hex_char (n div 16), hex_char (n mod 16)]"

definition escape_byte :: "char \<Rightarrow> string" where
  "escape_byte c =
     (if c = CHR 0x22 \<or> c = CHR 0x5C then [CHR 0x5C, c]
      else if c = CHR 0x08 then [CHR 0x5C, CHR ''b'']
      else if c = CHR 0x0C then [CHR 0x5C, CHR ''f'']
      else if c = CHR 0x0A then [CHR 0x5C, CHR ''n'']
      else if c = CHR 0x0D then [CHR 0x5C, CHR ''r'']
      else if c = CHR 0x09 then [CHR 0x5C, CHR ''t'']
      else if (of_char c :: nat) < 32 \<or> c = CHR ''<'' \<or> c = CHR ''>'' \<or> c = CHR ''&''
      then u_escape (of_char c)
      else [c])"

function json_escape :: "string \<Rightarrow> string" where
  "json_escape s = (case s of [] \<Rightarrow> [] | c # t \<Rightarrow>
     (let k = utf8_len s in
      if k = 0 then [CHR 0x5C] @ ''ufffd'' @ json_escape t
      else if k = 1 then escape_byte c @ json_escape t
      else if take 3 s = [CHR 0xE2, CHR 0x80, CHR 0xA8] then [CHR 0x5C] @ ''u2028'' @ json_escape (drop k s)
      else if take 3 s = [CHR 0xE2, CHR 0x80, CHR 0xA9] then [CHR 0x5C] @ ''u2029'' @ json_escape (drop k s)
      else take k s @ json_escape (drop k s)))"
  by pat_completeness auto
termination
  by (relation "measure length") auto

declare json_escape.simps [simp del]

definition json_quote :: "string \<Rightarrow> string" where
  "json_quote s = CHR 0x22 # json_escape s @ [CHR 0x22]"

definition simple_escape :: "char \<Rightarrow> char option" where
  "simple_escape e =
     (if e = CHR 0x22 \<or> e = CHR 0x5C \<or> e = CHR ''/'' then Some e
      else if e = CHR ''b'' then Some (CHR 0x08)
      else if e = CHR ''f'' then Some (CHR 0x0C)
      else if e = CHR ''n'' then Some (CHR 0x0A)
      else if e = CHR ''r'' then Some (CHR 0x0D)
      else if e = CHR ''t'' then Some (CHR 0x09) else None)"

text \<open>
  A \<^verbatim>\<open>\uXXXX\<close> escape after its first four digits: a high surrogate takes the low surrogate that
  follows it; a surrogate on its own is U+FFFD.
\<close>

definition decode_u :: "nat \<Rightarrow> string \<Rightarrow> string \<times> string" where
  "decode_u r t =
     (if 55296 \<le> r \<and> r < 57344 then
        (case t of
           a # b # u \<Rightarrow>
             if a = CHR 0x5C \<and> b = CHR ''u'' then
               (case hex4 u of
                  Some (r2, v) \<Rightarrow>
                    if r < 56320 \<and> 56320 \<le> r2 \<and> r2 < 57344
                    then (encode_rune (65536 + (r - 55296) * 1024 + (r2 - 56320)), v)
                    else (rune_error, t)
                | None \<Rightarrow> (rune_error, t))
             else (rune_error, t)
         | _ \<Rightarrow> (rune_error, t))
      else (encode_rune r, t))"

lemma hex4_length: "hex4 s = Some (r, t) \<Longrightarrow> length t < length s"
  by (auto simp: hex4_def split: list.splits option.splits)

lemma decode_u_length: "length (snd (decode_u r t)) \<le> length t"
  by (auto simp: decode_u_def dest: hex4_length split: list.splits option.splits)

lemma hex4_decode_u_length:
  "hex4 u = Some (r, v) \<Longrightarrow> length (snd (decode_u r v)) < length u"
  using decode_u_length [of r v] hex4_length [of u r v] by simp

text \<open>Reads a string literal after its opening quote: its value and what follows the closing one.\<close>

function json_unescape :: "string \<Rightarrow> (string \<times> string) option" where
  "json_unescape s = (case s of [] \<Rightarrow> None | c # t \<Rightarrow>
     (if c = CHR 0x22 then Some ([], t)
      else if c = CHR 0x5C then
        (case t of [] \<Rightarrow> None | e # u \<Rightarrow>
          (if e = CHR ''u'' then
             (case hex4 u of None \<Rightarrow> None | Some (r, v) \<Rightarrow>
                map_option (apfst (append (fst (decode_u r v)))) (json_unescape (snd (decode_u r v))))
           else (case simple_escape e of None \<Rightarrow> None | Some d \<Rightarrow>
                map_option (apfst (Cons d)) (json_unescape u))))
      else if (of_char c :: nat) < 32 then None
      else (let k = utf8_len s in
        if k = 0 then map_option (apfst (append rune_error)) (json_unescape t)
        else map_option (apfst (append (take k s))) (json_unescape (drop k s)))))"
  by pat_completeness auto
termination
  by (relation "measure length") (auto dest!: hex4_decode_u_length)

declare json_unescape.simps [simp del]


lemma hex_val_hex_char [simp]: "d < 16 \<Longrightarrow> hex_val (hex_char d) = Some d"
  by (simp add: hex_val_def hex_char_def)

lemma hex4_u_escape:
  assumes "n < 256"
  shows "hex4 (CHR ''0'' # CHR ''0'' # hex_char (n div 16) # hex_char (n mod 16) # t) = Some (n, t)"
proof -
  have "n div 16 < 16" "n mod 16 < 16" using assms by auto
  moreover have "hex_val (CHR ''0'') = Some 0" by (simp add: hex_val_def)
  ultimately show ?thesis by (simp add: hex4_def)
qed

lemma unescape_u_escape:
  "n < 128 \<Longrightarrow>
   json_unescape (u_escape n @ t) = map_option (apfst (Cons (char_of n))) (json_unescape t)"
  by (simp add: u_escape_def json_unescape.simps [of "CHR 0x5C # _"] hex4_u_escape decode_u_def
      encode_rune_def append_Cons [abs_def])

lemma unescape_simple:
  "simple_escape e = Some d \<Longrightarrow>
   json_unescape (CHR 0x5C # e # t) = map_option (apfst (Cons d)) (json_unescape t)"
  by (auto simp: json_unescape.simps [of "CHR 0x5C # _"] simple_escape_def split: if_splits)

lemma unescape_utf8:
  assumes "0 < utf8_len s" "\<not> (of_char (hd s) :: nat) < 32" "hd s \<noteq> CHR 0x22" "hd s \<noteq> CHR 0x5C"
  shows "json_unescape (take (utf8_len s) s @ t)
    = map_option (apfst (append (take (utf8_len s) s))) (json_unescape t)"
proof -
  let ?k = "utf8_len s"
  obtain c u where s: "s = c # u" using assms(1) by (cases s) (auto simp: utf8_len_def)
  define x where "x = take ?k s @ t"
  obtain w where hd: "x = c # w"
    unfolding x_def using assms(1) by (cases ?k) (auto simp: s)
  have "utf8_len x = ?k" "take ?k x = take ?k s" "drop ?k x = t"
    using utf8_len_le [of s] utf8_len_take [OF assms(1), of t] by (simp_all add: x_def)
  with assms hd have "json_unescape x = map_option (apfst (append (take ?k s))) (json_unescape t)"
    by (simp add: json_unescape.simps [of "c # w"] s Let_def)
  then show ?thesis by (simp only: x_def)
qed

lemma unescape_escape_byte:
  assumes "(of_char c :: nat) < 128"
  shows "json_unescape (escape_byte c @ t) = map_option (apfst (Cons c)) (json_unescape t)"
proof -
  have len: "utf8_len [c] = 1" using assms by (rule utf8_len_ascii)
  have app: "append [c] = Cons c" by (rule ext) simp
  have plain: "json_unescape (c # t) = map_option (apfst (Cons c)) (json_unescape t)"
    if "\<not> (of_char c :: nat) < 32" "c \<noteq> CHR 0x22" "c \<noteq> CHR 0x5C"
    using unescape_utf8 [of "[c]" t] that len app by simp
  have ctrl: "json_unescape (u_escape (of_char c) @ t) = map_option (apfst (Cons c)) (json_unescape t)"
    using unescape_u_escape [of "of_char c" t] assms by simp
  show ?thesis
    using plain ctrl by (auto simp: escape_byte_def unescape_simple simple_escape_def)
qed

lemma char_of_line_sep:
  "char_of (226 :: nat) = CHR 0xE2" "char_of (128 :: nat) = CHR 0x80"
  "char_of (168 :: nat) = CHR 0xA8" "char_of (169 :: nat) = CHR 0xA9"
  by code_simp+

lemma unescape_u2028:
  "json_unescape (CHR 0x5C # ''u2028'' @ t)
   = map_option (apfst (append [CHR 0xE2, CHR 0x80, CHR 0xA8])) (json_unescape t)"
  by (simp add: json_unescape.simps [of "CHR 0x5C # _"] hex4_def hex_val_def decode_u_def
      encode_rune_def char_of_line_sep)

lemma unescape_u2029:
  "json_unescape (CHR 0x5C # ''u2029'' @ t)
   = map_option (apfst (append [CHR 0xE2, CHR 0x80, CHR 0xA9])) (json_unescape t)"
  by (simp add: json_unescape.simps [of "CHR 0x5C # _"] hex4_def hex_val_def decode_u_def
      encode_rune_def char_of_line_sep)

lemma utf8_len_E2: "0 < utf8_len (CHR 0xE2 # t) \<Longrightarrow> utf8_len (CHR 0xE2 # t) = 3"
  by (auto simp: utf8_len_def utf8_need_def split: if_splits)

text \<open>The two line separators Go escapes are sequences of three bytes.\<close>

lemma line_sep_split:
  assumes "1 < utf8_len s" "take 3 s = [CHR 0xE2, CHR 0x80, x]"
  shows "[CHR 0xE2, CHR 0x80, x] @ drop (utf8_len s) s = s"
proof -
  obtain t where s: "s = CHR 0xE2 # t" using assms(2) by (cases s) auto
  have "utf8_len s = 3" using utf8_len_E2 [of t] assms(1) by (simp add: s)
  then show ?thesis using append_take_drop_id [of 3 s] assms(2) by simp
qed

text \<open>The first sequence of a valid string is read back, and the rest of the string behind it.\<close>

lemma unescape_first:
  assumes "0 < utf8_len s" "s = c # t"
  shows "json_unescape (json_escape s @ r)
    = map_option (apfst (append (take (utf8_len s) s))) (json_unescape (json_escape (drop (utf8_len s) s) @ r))"
proof -
  let ?k = "utf8_len s"
  consider (one) "?k = 1" | (l8) "1 < ?k" "take 3 s = [CHR 0xE2, CHR 0x80, CHR 0xA8]"
    | (l9) "1 < ?k" "take 3 s = [CHR 0xE2, CHR 0x80, CHR 0xA9]"
    | (raw) "1 < ?k" "take 3 s \<noteq> [CHR 0xE2, CHR 0x80, CHR 0xA8]" "take 3 s \<noteq> [CHR 0xE2, CHR 0x80, CHR 0xA9]"
    using assms(1) by linarith
  then show ?thesis
  proof cases
    case one
    have "append [c] = Cons c" by (rule ext) simp
    moreover have "(of_char c :: nat) < 128" using one utf8_len_1 assms(2) by simp
    ultimately show ?thesis using one by (simp add: json_escape.simps [of "c # t"] assms(2) unescape_escape_byte)
  next
    case l8
    have "json_escape s = CHR 0x5C # ''u2028'' @ json_escape (drop ?k s)"
      using l8 by (subst json_escape.simps) (simp add: assms(2) Let_def)
    moreover have "take ?k s = [CHR 0xE2, CHR 0x80, CHR 0xA8]"
      using line_sep_split [OF l8] by (metis append_take_drop_id append_same_eq)
    ultimately show ?thesis using unescape_u2028 [of "json_escape (drop ?k s) @ r"] by simp
  next
    case l9
    have "json_escape s = CHR 0x5C # ''u2029'' @ json_escape (drop ?k s)"
      using l9 by (subst json_escape.simps) (simp add: assms(2) Let_def)
    moreover have "take ?k s = [CHR 0xE2, CHR 0x80, CHR 0xA9]"
      using line_sep_split [OF l9] by (metis append_take_drop_id append_same_eq)
    ultimately show ?thesis using unescape_u2029 [of "json_escape (drop ?k s) @ r"] by simp
  next
    case raw
    then have "\<not> (of_char c :: nat) < 128" using utf8_len_1 [of c t] assms(2) by simp
    then have c: "\<not> (of_char c :: nat) < 32" "c \<noteq> CHR 0x22" "c \<noteq> CHR 0x5C" by auto
    have "json_escape s = take ?k s @ json_escape (drop ?k s)"
      using raw by (subst json_escape.simps) (auto simp: assms(2) Let_def)
    then show ?thesis using unescape_utf8 [OF assms(1), of "json_escape (drop ?k s) @ r"] c assms(2) by simp
  qed
qed

lemma json_unescape_escape:
  "valid_utf8 s \<Longrightarrow> json_unescape (json_escape s @ CHR 0x22 # r) = Some (s, r)"
proof (induction s rule: valid_utf8.induct)
  case (1 s)
  show ?case
  proof (cases s)
    case Nil
    then show ?thesis by (simp add: json_escape.simps json_unescape.simps [of "_ # _"])
  next
    case (Cons c t)
    have k: "0 < utf8_len s" "valid_utf8 (drop (utf8_len s) s)"
      using "1.prems" Cons by (simp_all add: valid_utf8.simps [of "c # t"] split: if_splits)
    then show ?thesis using 1 Cons unescape_first [OF k(1) Cons] by simp
  qed
qed


section \<open>Values\<close>

fun json_print :: "json \<Rightarrow> string"
and json_elems :: "json list \<Rightarrow> string"
and json_members :: "(string \<times> json) list \<Rightarrow> string" where
  "json_print JNull = ''null''"
| "json_print (JBool b) = (if b then ''true'' else ''false'')"
| "json_print (JNum lit) = lit"
| "json_print (JStr s) = json_quote s"
| "json_print (JArr vs) = CHR ''['' # json_elems vs @ [CHR '']'']"
| "json_print (JObj ms) = CHR 0x7B # json_members ms @ [CHR 0x7D]"
| "json_elems [] = []"
| "json_elems [v] = json_print v"
| "json_elems (v # vs) = json_print v @ CHR '','' # json_elems vs"
| "json_members [] = []"
| "json_members [(k, v)] = json_quote k @ CHR '':'' # json_print v"
| "json_members ((k, v) # ms) = json_quote k @ CHR '':'' # json_print v @ CHR '','' # json_members ms"

text \<open>
  The printer in general: \<open>nl d\<close> is what stands before each element and member at depth \<open>d\<close> and \<open>sp\<close> what follows a colon.
  \<^verbatim>\<open>json.Marshal\<close> is the layout with neither, \<^verbatim>\<open>json.MarshalIndent\<close> the one of \<open>json_indent\<close>.
\<close>

fun json_pp :: "(nat \<Rightarrow> string) \<Rightarrow> string \<Rightarrow> nat \<Rightarrow> json \<Rightarrow> string"
and json_pp_elems :: "(nat \<Rightarrow> string) \<Rightarrow> string \<Rightarrow> nat \<Rightarrow> json list \<Rightarrow> string"
and json_pp_members :: "(nat \<Rightarrow> string) \<Rightarrow> string \<Rightarrow> nat \<Rightarrow> (string \<times> json) list \<Rightarrow> string" where
  "json_pp nl sp d JNull = ''null''"
| "json_pp nl sp d (JBool b) = (if b then ''true'' else ''false'')"
| "json_pp nl sp d (JNum lit) = lit"
| "json_pp nl sp d (JStr s) = json_quote s"
| "json_pp nl sp d (JArr vs) = CHR ''['' # (if vs = [] then [] else json_pp_elems nl sp (Suc d) vs @ nl d) @ [CHR '']'']"
| "json_pp nl sp d (JObj ms) = CHR 0x7B # (if ms = [] then [] else json_pp_members nl sp (Suc d) ms @ nl d) @ [CHR 0x7D]"
| "json_pp_elems nl sp d [] = []"
| "json_pp_elems nl sp d (v # vs) = nl d @ json_pp nl sp d v @ (if vs = [] then [] else CHR '','' # json_pp_elems nl sp d vs)"
| "json_pp_members nl sp d [] = []"
| "json_pp_members nl sp d ((k, v) # ms) =
     nl d @ json_quote k @ CHR '':'' # sp @ json_pp nl sp d v @ (if ms = [] then [] else CHR '','' # json_pp_members nl sp d ms)"

definition indent_nl :: "nat \<Rightarrow> string" where
  "indent_nl d = CHR 0x0A # replicate (2 * d) (CHR '' '')"

definition json_indent :: "json \<Rightarrow> string" where
  "json_indent j = json_pp indent_nl '' '' 0 j"

definition json_ws :: "char \<Rightarrow> bool" where
  "json_ws c \<longleftrightarrow> c = CHR '' '' \<or> c = CHR 0x09 \<or> c = CHR 0x0A \<or> c = CHR 0x0D"

definition skip_ws :: "string \<Rightarrow> string" where
  "skip_ws s = dropWhile json_ws s"

definition is_digit :: "char \<Rightarrow> bool" where
  "is_digit c \<longleftrightarrow> digit_val c \<noteq> None"

text \<open>A number literal by the grammar of JSON, and what follows it.\<close>

definition scan_int :: "string \<Rightarrow> (string \<times> string) option" where
  "scan_int s =
     (let d = takeWhile is_digit s; r = dropWhile is_digit s in
      if d = [] \<or> hd d = CHR ''0'' \<and> 1 < length d then None else Some (d, r))"

definition scan_frac :: "string \<Rightarrow> (string \<times> string) option" where
  "scan_frac s = (case s of [] \<Rightarrow> Some ([], []) | c # t \<Rightarrow>
     if c = CHR ''.'' then
       (let d = takeWhile is_digit t in
        if d = [] then None else Some (c # d, dropWhile is_digit t))
     else Some ([], s))"

definition scan_exp :: "string \<Rightarrow> (string \<times> string) option" where
  "scan_exp s = (case s of [] \<Rightarrow> Some ([], []) | c # t \<Rightarrow>
     if c = CHR ''e'' \<or> c = CHR ''E'' then
       (let sg = takeWhile (\<lambda>x. x = CHR ''+'' \<or> x = CHR ''-'') (take 1 t);
            u = drop (length sg) t; d = takeWhile is_digit u in
        if d = [] then None else Some (c # sg @ d, dropWhile is_digit u))
     else Some ([], s))"

definition scan_number :: "string \<Rightarrow> (json \<times> string) option" where
  "scan_number s =
     (let sg = (if take 1 s = ''-'' then ''-'' else []) in
      case scan_int (drop (length sg) s) of None \<Rightarrow> None | Some (i, r) \<Rightarrow>
      (case scan_frac r of None \<Rightarrow> None | Some (f, r2) \<Rightarrow>
      (case scan_exp r2 of None \<Rightarrow> None | Some (e, r3) \<Rightarrow> Some (JNum (sg @ i @ f @ e), r3))))"

fun parse_value :: "nat \<Rightarrow> string \<Rightarrow> (json \<times> string) option"
and parse_elems :: "nat \<Rightarrow> string \<Rightarrow> (json list \<times> string) option"
and parse_members :: "nat \<Rightarrow> string \<Rightarrow> ((string \<times> json) list \<times> string) option" where
  "parse_value 0 s = None"
| "parse_value (Suc n) s = (case skip_ws s of [] \<Rightarrow> None | c # t \<Rightarrow>
     (if c = CHR 0x22 then map_option (apfst JStr) (json_unescape t)
      else if c = CHR ''['' then
        (case skip_ws t of
           d # r \<Rightarrow> if d = CHR '']'' then Some (JArr [], r)
                    else map_option (apfst JArr) (parse_elems n t)
         | [] \<Rightarrow> None)
      else if c = CHR 0x7B then
        (case skip_ws t of
           d # r \<Rightarrow> if d = CHR 0x7D then Some (JObj [], r)
                    else map_option (apfst JObj) (parse_members n t)
         | [] \<Rightarrow> None)
      else if has_prefix (c # t) ''null'' then Some (JNull, drop 4 (c # t))
      else if has_prefix (c # t) ''true'' then Some (JBool True, drop 4 (c # t))
      else if has_prefix (c # t) ''false'' then Some (JBool False, drop 5 (c # t))
      else scan_number (c # t)))"
| "parse_elems 0 s = None"
| "parse_elems (Suc n) s =
     (case parse_value n s of None \<Rightarrow> None | Some (v, r) \<Rightarrow>
      (case skip_ws r of [] \<Rightarrow> None | c # t \<Rightarrow>
        (if c = CHR '']'' then Some ([v], t)
         else if c = CHR '','' then map_option (apfst (Cons v)) (parse_elems n t)
         else None)))"
| "parse_members 0 s = None"
| "parse_members (Suc n) s =
     (case skip_ws s of [] \<Rightarrow> None | q # s1 \<Rightarrow>
      if q \<noteq> CHR 0x22 then None else
      (case json_unescape s1 of None \<Rightarrow> None | Some (k, s2) \<Rightarrow>
      (case skip_ws s2 of [] \<Rightarrow> None | d # s3 \<Rightarrow>
       if d \<noteq> CHR '':'' then None else
       (case parse_value n s3 of None \<Rightarrow> None | Some (v, r) \<Rightarrow>
        (case skip_ws r of [] \<Rightarrow> None | c # t \<Rightarrow>
          (if c = CHR 0x7D then Some ([(k, v)], t)
           else if c = CHR '','' then map_option (apfst (Cons (k, v))) (parse_members n t)
           else None))))))"

definition json_parse :: "string \<Rightarrow> json option" where
  "json_parse s =
     (case parse_value (Suc (length s)) s of
        Some (j, r) \<Rightarrow> if skip_ws r = [] then Some j else None
      | None \<Rightarrow> None)"


subsection \<open>Printed values are read back\<close>

definition num_ok :: "string \<Rightarrow> bool" where
  "num_ok lit \<longleftrightarrow> (\<exists>n. lit = format_nat n \<or> lit = CHR ''-'' # format_nat n)"

fun json_ok :: "json \<Rightarrow> bool" where
  "json_ok JNull = True"
| "json_ok (JBool b) = True"
| "json_ok (JNum lit) = num_ok lit"
| "json_ok (JStr s) = valid_utf8 s"
| "json_ok (JArr vs) = (\<forall>v \<in> set vs. json_ok v)"
| "json_ok (JObj ms) = (\<forall>(k, v) \<in> set ms. valid_utf8 k \<and> json_ok v)"

definition delim :: "string \<Rightarrow> bool" where
  "delim r \<longleftrightarrow> r = [] \<or> hd r \<in> {CHR '','', CHR '']'', CHR 0x7D} \<or> json_ws (hd r)"

lemma delim_simps [simp]:
  "delim []" "delim (CHR '','' # r)" "delim (CHR '']'' # r)" "delim (CHR 0x7D # r)"
  by (simp_all add: delim_def)

lemma is_digit_format_nat: "c \<in> set (format_nat n) \<Longrightarrow> is_digit c"
  using format_nat_digits [of c n] by (auto simp: is_digit_def digit_val_def)

lemma format_nat_hd_zero: "hd (format_nat n) = CHR ''0'' \<Longrightarrow> n = 0"
proof (induction n rule: format_nat.induct)
  case (1 n)
  show ?case
  proof (cases "n < 10")
    case True
    have "digit_val (CHR ''0'') = Some 0" by (simp add: digit_val_def)
    with True "1.prems" show ?thesis
      using digit_val_digit_char [of n] by (simp add: format_nat.simps [of n])
  next
    case False
    with "1.prems" have "hd (format_nat (n div 10)) = CHR ''0''"
      by (simp add: format_nat.simps [of n])
    with False "1.IH" have "n div 10 = 0" by blast
    with False show ?thesis by simp
  qed
qed

lemma scan_int_format_nat:
  "delim r \<Longrightarrow> scan_int (format_nat n @ r) = Some (format_nat n, r)"
proof -
  assume r: "delim r"
  have nd: "r = [] \<or> \<not> is_digit (hd r)"
    using r by (auto simp: delim_def json_ws_def is_digit_def digit_val_def)
  have all: "\<And>c. c \<in> set (format_nat n) \<Longrightarrow> is_digit c" by (rule is_digit_format_nat)
  have tw: "takeWhile is_digit r = []" and dw: "dropWhile is_digit r = r"
    using nd by (cases r; simp)+
  have "\<not> (hd (format_nat n) = CHR ''0'' \<and> 1 < length (format_nat n))"
  proof
    assume "hd (format_nat n) = CHR ''0'' \<and> 1 < length (format_nat n)"
    then have "n = 0" "1 < length (format_nat n)" using format_nat_hd_zero by auto
    then show False by (simp add: format_nat.simps [of 0])
  qed
  with all tw dw show ?thesis
    by (simp add: scan_int_def Let_def takeWhile_append2 dropWhile_append2)
qed

lemma scan_rest: "delim r \<Longrightarrow> scan_frac r = Some ([], r) \<and> scan_exp r = Some ([], r)"
  by (cases r) (auto simp: scan_frac_def scan_exp_def delim_def json_ws_def)

lemma format_nat_Cons: obtains c t where "format_nat n = c # t" "is_digit c"
  by (metis format_nat_nonempty is_digit_format_nat list.exhaust list.set_intros(1))

lemma scan_number_num_ok:
  assumes "num_ok lit" "delim r"
  shows "scan_number (lit @ r) = Some (JNum lit, r)"
proof -
  obtain n where n: "lit = format_nat n \<or> lit = CHR ''-'' # format_nat n"
    using assms(1) by (auto simp: num_ok_def)
  obtain c t where c: "format_nat n = c # t" "is_digit c" by (rule format_nat_Cons)
  have "\<not> is_digit (CHR ''-'')" by (simp add: is_digit_def digit_val_def)
  with c have "c \<noteq> CHR ''-''" by auto
  then have "take 1 (format_nat n @ r) \<noteq> ''-''" by (simp add: c)
  with n show ?thesis
    using scan_int_format_nat [OF assms(2), of n] scan_rest [OF assms(2)]
    by (auto simp: scan_number_def)
qed

text \<open>What the first character of a printed value can be.\<close>

definition value_start :: "char \<Rightarrow> bool" where
  "value_start c \<longleftrightarrow> c \<noteq> CHR '']'' \<and> c \<noteq> CHR 0x7D \<and> \<not> json_ws c"

lemma digit_start:
  assumes "is_digit c \<or> c = CHR ''-''"
  shows "value_start c" "c \<noteq> CHR 0x22" "c \<noteq> CHR ''[''" "c \<noteq> CHR 0x7B"
    "c \<noteq> CHR ''n''" "c \<noteq> CHR ''t''" "c \<noteq> CHR ''f''"
  using assms
  by (auto simp: is_digit_def digit_val_def value_start_def json_ws_def split: if_splits)

lemma num_ok_start: "num_ok lit \<Longrightarrow> \<exists>c t. lit = c # t \<and> (is_digit c \<or> c = CHR ''-'')"
  by (auto simp: num_ok_def) (metis format_nat_Cons)

lemma json_pp_start: "json_ok j \<Longrightarrow> \<exists>c t. json_pp nl sp d j = c # t \<and> value_start c"
  by (cases j) (auto simp: value_start_def json_ws_def json_quote_def dest!: num_ok_start digit_start(1))

lemma skip_ws_start [simp]: "value_start c \<Longrightarrow> skip_ws (c # t) = c # t"
  by (simp add: value_start_def skip_ws_def)

lemma skip_ws_delim [simp]:
  "skip_ws (CHR '','' # t) = CHR '','' # t" "skip_ws (CHR '']'' # t) = CHR '']'' # t"
  "skip_ws (CHR 0x7D # t) = CHR 0x7D # t" "skip_ws (CHR '':'' # t) = CHR '':'' # t"
  "skip_ws (CHR 0x22 # t) = CHR 0x22 # t" "skip_ws (CHR ''['' # t) = CHR ''['' # t"
  "skip_ws (CHR 0x7B # t) = CHR 0x7B # t" "skip_ws [] = []"
  by (simp_all add: skip_ws_def json_ws_def)

lemma json_print_pp:
  "json_print j = json_pp (\<lambda>_. []) [] d j"
  "json_elems vs = json_pp_elems (\<lambda>_. []) [] d vs"
  "json_members ms = json_pp_members (\<lambda>_. []) [] d ms"
  by (induction j and vs and ms arbitrary: d and d and d rule: json_print_json_elems_json_members.induct) auto

lemma json_print_start: "json_ok j \<Longrightarrow> \<exists>c t. json_print j = c # t \<and> value_start c"
  unfolding json_print_pp(1) [of j 0] by (rule json_pp_start)

lemma unescape_json_quote:
  "valid_utf8 k \<Longrightarrow> json_quote k @ t = CHR 0x22 # (json_escape k @ CHR 0x22 # t)"
  by (simp add: json_quote_def)

lemma parse_value_num:
  assumes "num_ok lit" "delim r"
  shows "parse_value (Suc n) (lit @ r) = Some (JNum lit, r)"
proof -
  obtain c t where c: "lit = c # t" "is_digit c \<or> c = CHR ''-''"
    using num_ok_start [OF assms(1)] by blast
  note d = digit_start [OF c(2)]
  have "skip_ws (lit @ r) = lit @ r" using d(1) by (simp add: c(1))
  then show ?thesis
    using d scan_number_num_ok [OF assms] by (simp add: c(1) has_prefix_def)
qed


lemma skip_ws_append: "list_all json_ws w \<Longrightarrow> skip_ws (w @ s) = skip_ws s"
  by (induction w) (simp_all add: skip_ws_def)

lemma parse_ws:
  assumes "list_all json_ws w"
  shows "parse_value n (w @ s) = parse_value n s" "parse_elems n (w @ s) = parse_elems n s"
    "parse_members n (w @ s) = parse_members n s"
proof -
  show v: "parse_value n (w @ s) = parse_value n s" for n by (cases n) (simp_all add: skip_ws_append [OF assms])
  show "parse_elems n (w @ s) = parse_elems n s" by (cases n) (simp_all add: v)
  show "parse_members n (w @ s) = parse_members n s" by (cases n) (simp_all add: skip_ws_append [OF assms])
qed

lemma delim_ws: "list_all json_ws w \<Longrightarrow> delim r \<Longrightarrow> delim (w @ r)"
  by (cases w) (auto simp: delim_def)

text \<open>Any layout whose fillings are white space is read back.\<close>

locale json_layout =
  fixes nl :: "nat \<Rightarrow> string" and sp :: string
  assumes nl_ws: "list_all json_ws (nl d)" and sp_ws: "list_all json_ws sp"
begin

abbreviation pp :: "nat \<Rightarrow> json \<Rightarrow> string" where
  "pp \<equiv> json_pp nl sp"

abbreviation pp_elems :: "nat \<Rightarrow> json list \<Rightarrow> string" where
  "pp_elems \<equiv> json_pp_elems nl sp"

abbreviation pp_members :: "nat \<Rightarrow> (string \<times> json) list \<Rightarrow> string" where
  "pp_members \<equiv> json_pp_members nl sp"

lemmas layout_ws = parse_ws [OF nl_ws] parse_ws [OF sp_ws] skip_ws_append [OF nl_ws] skip_ws_append [OF sp_ws]

lemma elems_step:
  assumes v: "\<And>r. delim r \<Longrightarrow> parse_value n (pp d v @ r) = Some (v, r)"
    and vs: "vs \<noteq> [] \<Longrightarrow> parse_elems n (pp_elems d vs @ w @ CHR '']'' # r) = Some (vs, r)" and w: "list_all json_ws w"
  shows "parse_elems (Suc n) (pp_elems d (v # vs) @ w @ CHR '']'' # r) = Some (v # vs, r)"
  using v [of "w @ CHR '']'' # r"] v [of "CHR '','' # pp_elems d vs @ w @ CHR '']'' # r"] vs delim_ws [OF w, of "CHR '']'' # r"]
  by (cases "vs = []") (simp_all add: layout_ws skip_ws_append [OF w])

lemma members_step:
  assumes k: "valid_utf8 k" and v: "\<And>r. delim r \<Longrightarrow> parse_value n (pp d v @ r) = Some (v, r)"
    and ms: "ms \<noteq> [] \<Longrightarrow> parse_members n (pp_members d ms @ w @ CHR 0x7D # r) = Some (ms, r)" and w: "list_all json_ws w"
  shows "parse_members (Suc n) (pp_members d ((k, v) # ms) @ w @ CHR 0x7D # r) = Some ((k, v) # ms, r)"
  using v [of "w @ CHR 0x7D # r"] v [of "CHR '','' # pp_members d ms @ w @ CHR 0x7D # r"] ms delim_ws [OF w, of "CHR 0x7D # r"]
    json_unescape_escape [OF k]
  by (cases "ms = []") (simp_all add: layout_ws json_quote_def skip_ws_append [OF w])

lemma value_arr:
  assumes "\<forall>v \<in> set vs. json_ok v" "vs \<noteq> [] \<Longrightarrow> parse_elems m (pp_elems (Suc d) vs @ nl d @ CHR '']'' # r) = Some (vs, r)"
  shows "parse_value (Suc m) (pp d (JArr vs) @ r) = Some (JArr vs, r)"
proof (cases vs)
  case (Cons v us)
  obtain c t where "pp (Suc d) v = c # t" "value_start c" using json_pp_start [of v nl sp "Suc d"] assms(1) Cons by auto
  with assms(2) Cons show ?thesis by (simp add: layout_ws value_start_def)
qed simp

lemma value_obj:
  assumes "ms \<noteq> [] \<Longrightarrow> parse_members m (pp_members (Suc d) ms @ nl d @ CHR 0x7D # r) = Some (ms, r)"
  shows "parse_value (Suc m) (pp d (JObj ms) @ r) = Some (JObj ms, r)"
proof (cases ms)
  case (Cons m' us)
  with assms show ?thesis by (cases m') (simp add: layout_ws json_quote_def)
qed simp

lemma length_pp_pos: "json_ok j \<Longrightarrow> 0 < length (pp d j)"
  using json_pp_start [of j nl sp d] by auto

lemma parse_pp:
  "json_ok j \<Longrightarrow> delim r \<Longrightarrow> length (pp d j) \<le> n \<Longrightarrow> parse_value n (pp d j @ r) = Some (j, r)"
  "vs \<noteq> [] \<Longrightarrow> \<forall>v \<in> set vs. json_ok v \<Longrightarrow> list_all json_ws w \<Longrightarrow> length (pp_elems d vs) < n \<Longrightarrow>
     parse_elems n (pp_elems d vs @ w @ CHR '']'' # r) = Some (vs, r)"
  "ms \<noteq> [] \<Longrightarrow> \<forall>(k, v) \<in> set ms. valid_utf8 k \<and> json_ok v \<Longrightarrow> list_all json_ws w \<Longrightarrow> length (pp_members d ms) < n \<Longrightarrow>
     parse_members n (pp_members d ms @ w @ CHR 0x7D # r) = Some (ms, r)"
proof (induction j and vs and ms arbitrary: d n r and d n r w and d n r w rule: json_print_json_elems_json_members.induct)
  case 1
  then show ?case by (cases n) (simp_all add: skip_ws_def json_ws_def has_prefix_def)
next
  case (2 b)
  then show ?case by (cases b; cases n) (simp_all add: skip_ws_def json_ws_def has_prefix_def)
next
  case (3 lit)
  then obtain m where "n = Suc m" using num_ok_start by (cases n) fastforce+
  with parse_value_num [of lit r m] 3 show ?case by (simp del: parse_value.simps)
next
  case (4 s)
  then show ?case by (cases n) (simp_all add: json_quote_def json_unescape_escape)
next
  case (5 vs)
  then obtain m where "n = Suc m" "vs \<noteq> [] \<longrightarrow> length (pp_elems (Suc d) vs) < m" by (cases n) (auto split: if_splits)
  with 5 value_arr [of vs m d r] nl_ws show ?case by (simp del: parse_value.simps json_pp.simps)
next
  case (6 ms)
  then obtain m where "n = Suc m" "ms \<noteq> [] \<longrightarrow> length (pp_members (Suc d) ms) < m" by (cases n) (auto split: if_splits)
  with 6 value_obj [of ms m d r] nl_ws show ?case by (simp del: parse_value.simps json_pp.simps)
next
  case (8 v)
  then obtain m where "n = Suc m" "length (pp d v) \<le> m" by (cases n) auto
  with 8 elems_step [of m d v "[]" w r] show ?case by (simp del: parse_elems.simps json_pp_elems.simps)
next
  case (9 v u us)
  then obtain m where "n = Suc m" "length (pp d v) \<le> m" "length (pp_elems d (u # us)) < m"
    using length_pp_pos [of v d] by (cases n) auto
  with 9 elems_step [of m d v "u # us" w r] show ?case by (simp del: parse_elems.simps json_pp_elems.simps)
next
  case (11 k v)
  then obtain m where "n = Suc m" "length (pp d v) \<le> m" by (cases n) auto
  with 11 members_step [of k m d v "[]" w r] show ?case by (simp del: parse_members.simps json_pp_members.simps)
next
  case (12 k v u us)
  then obtain m where "n = Suc m" "length (pp d v) \<le> m" "length (pp_members d (u # us)) < m" by (cases n) auto
  with 12 members_step [of k m d v "u # us" w r] show ?case by (simp del: parse_members.simps json_pp_members.simps)
qed simp_all

text \<open>An object is read whatever follows it.\<close>

lemma parse_object: "json_ok (JObj ms) \<Longrightarrow> length (pp d (JObj ms)) \<le> n \<Longrightarrow> parse_value n (pp d (JObj ms) @ r) = Some (JObj ms, r)"
proof -
  assume ok: "json_ok (JObj ms)" and "length (pp d (JObj ms)) \<le> n"
  then obtain m where "n = Suc m" "ms \<noteq> [] \<longrightarrow> length (pp_members (Suc d) ms) < m" by (cases n) (auto split: if_splits)
  with value_obj [of ms m d r] parse_pp(3) [of ms "nl d" "Suc d" m r] ok nl_ws show ?thesis by (simp del: parse_value.simps json_pp.simps)
qed

lemma parse_layout: "json_ok j \<Longrightarrow> list_all json_ws w \<Longrightarrow> json_parse (pp 0 j @ w) = Some j"
  using parse_pp(1) [of j w 0 "Suc (length (pp 0 j @ w))"] delim_ws [of w "[]"] skip_ws_append [of w "[]"]
  by (simp add: json_parse_def delim_def del: parse_value.simps)

end

interpretation compact: json_layout "\<lambda>_. []" "[]"
  by unfold_locales simp_all

interpretation indented: json_layout indent_nl "'' ''"
  by unfold_locales (simp_all add: indent_nl_def json_ws_def list_all_iff)

lemma json_parse_print: "json_ok j \<Longrightarrow> json_parse (json_print j) = Some j"
  using compact.parse_layout [of j "[]"] by (simp add: json_print_pp(1) [of j 0])

lemma json_parse_indent: "json_ok j \<Longrightarrow> json_parse (json_indent j @ [CHR 0x0A]) = Some j"
  using indented.parse_layout [of j "[CHR 0x0A]"] by (simp add: json_indent_def json_ws_def)

end
