(* ===== verification/Base64.thy ===== *)
theory Base64
  imports Json
begin

text \<open>
  The standard base64 encoding with padding: \<^verbatim>\<open>encoding/json\<close> writes a Go \<open>[]byte\<close> as the base64
  text of its bytes. \<open>b64_decode_encode\<close> is the round trip, \<open>b64_ascii\<close> says that the text
  is ASCII and so survives JSON.
\<close>

definition b64_char :: "nat \<Rightarrow> char" where
  "b64_char n =
     (if n < 26 then char_of (65 + n) else if n < 52 then char_of (71 + n)
      else if n < 62 then char_of (n - 4) else if n = 62 then CHR ''+'' else CHR ''/'')"

definition b64_val :: "char \<Rightarrow> nat option" where
  "b64_val c = (let n = (of_char c :: nat) in
     if 65 \<le> n \<and> n \<le> 90 then Some (n - 65)
     else if 97 \<le> n \<and> n \<le> 122 then Some (n - 71)
     else if 48 \<le> n \<and> n \<le> 57 then Some (n + 4)
     else if c = CHR ''+'' then Some 62 else if c = CHR ''/'' then Some 63 else None)"

fun b64_encode :: "bytes \<Rightarrow> string" where
  "b64_encode [] = []"
| "b64_encode [a] =
     (let x = (of_char a :: nat) in
      [b64_char (x div 4), b64_char (x mod 4 * 16), CHR ''='', CHR ''=''])"
| "b64_encode [a, b] =
     (let x = (of_char a :: nat); y = (of_char b :: nat) in
      [b64_char (x div 4), b64_char (x mod 4 * 16 + y div 16), b64_char (y mod 16 * 4), CHR ''=''])"
| "b64_encode (a # b # c # s) =
     (let x = (of_char a :: nat); y = (of_char b :: nat); z = (of_char c :: nat) in
      [b64_char (x div 4), b64_char (x mod 4 * 16 + y div 16),
       b64_char (y mod 16 * 4 + z div 64), b64_char (z mod 64)] @ b64_encode s)"

fun b64_decode :: "string \<Rightarrow> bytes option" where
  "b64_decode [] = Some []"
| "b64_decode (p # q # r # t # s) =
     (case (b64_val p, b64_val q) of
        (Some a, Some b) \<Rightarrow>
          (if r = CHR ''='' \<and> t = CHR ''='' \<and> s = [] then Some [char_of (a * 4 + b div 16)]
           else (case b64_val r of None \<Rightarrow> None | Some c \<Rightarrow>
             (if t = CHR ''='' \<and> s = []
              then Some [char_of (a * 4 + b div 16), char_of (b mod 16 * 16 + c div 4)]
              else (case (b64_val t, b64_decode s) of
                 (Some d, Some u) \<Rightarrow>
                   Some (char_of (a * 4 + b div 16) # char_of (b mod 16 * 16 + c div 4)
                         # char_of (c mod 4 * 64 + d) # u)
               | _ \<Rightarrow> None))))
      | _ \<Rightarrow> None)"
| "b64_decode s = None"

lemma of_char_lt [simp]: "(of_char c :: nat) < 256"
  by (fact nat_of_char_less_256)

lemma b64_val_char [simp]: "n < 64 \<Longrightarrow> b64_val (b64_char n) = Some n"
  by (cases "n < 26"; cases "n < 52"; cases "n < 62"; cases "n = 62")
     (auto simp: b64_val_def b64_char_def Let_def)

lemma b64_char_not_pad [simp]: "n < 64 \<Longrightarrow> b64_char n \<noteq> CHR ''=''"
proof
  assume "n < 64" "b64_char n = CHR ''=''"
  then have "b64_val (CHR ''='') = Some n" by (metis b64_val_char)
  then show False by (simp add: b64_val_def)
qed

text \<open>The arithmetic of regrouping three bytes into four groups of six bits.\<close>

lemma sextets_lt:
  fixes x y z :: nat
  shows "x < 256 \<Longrightarrow> x div 4 < 64" "x mod 4 * 16 < 64" "y mod 16 * 4 < 64" "z mod 64 < 64"
    "y < 256 \<Longrightarrow> x mod 4 * 16 + y div 16 < 64" "z < 256 \<Longrightarrow> y mod 16 * 4 + z div 64 < 64"
proof -
  have m: "x mod 4 < 4" "y mod 16 < 16" by auto
  then show "x < 256 \<Longrightarrow> x div 4 < 64" "x mod 4 * 16 < 64" "y mod 16 * 4 < 64" "z mod 64 < 64"
    by linarith+
  show "y < 256 \<Longrightarrow> x mod 4 * 16 + y div 16 < 64" "z < 256 \<Longrightarrow> y mod 16 * 4 + z div 64 < 64"
    using m by linarith+
qed

lemma sextets_join:
  fixes x y z :: nat
  shows "x div 4 * 4 + (x mod 4 * 16) div 16 = x"
    "y < 256 \<Longrightarrow> x div 4 * 4 + (x mod 4 * 16 + y div 16) div 16 = x"
    "y < 256 \<Longrightarrow> (x mod 4 * 16 + y div 16) mod 16 * 16 + (y mod 16 * 4) div 4 = y"
    "y < 256 \<Longrightarrow> z < 256 \<Longrightarrow>
       (x mod 4 * 16 + y div 16) mod 16 * 16 + (y mod 16 * 4 + z div 64) div 4 = y"
    "z < 256 \<Longrightarrow> (y mod 16 * 4 + z div 64) mod 4 * 64 + z mod 64 = z"
proof -
  have y: "(x mod 4 * 16 + y div 16) div 16 = x mod 4" "(x mod 4 * 16 + y div 16) mod 16 = y div 16"
    if "y < 256" using that by (auto simp: div_less_iff_less_mult)
  have z: "(y mod 16 * 4 + z div 64) div 4 = y mod 16" "(y mod 16 * 4 + z div 64) mod 4 = z div 64"
    if "z < 256" using that by (auto simp: div_less_iff_less_mult)
  show "x div 4 * 4 + (x mod 4 * 16) div 16 = x"
    "y < 256 \<Longrightarrow> x div 4 * 4 + (x mod 4 * 16 + y div 16) div 16 = x"
    "y < 256 \<Longrightarrow> (x mod 4 * 16 + y div 16) mod 16 * 16 + (y mod 16 * 4) div 4 = y"
    "y < 256 \<Longrightarrow> z < 256 \<Longrightarrow>
       (x mod 4 * 16 + y div 16) mod 16 * 16 + (y mod 16 * 4 + z div 64) div 4 = y"
    "z < 256 \<Longrightarrow> (y mod 16 * 4 + z div 64) mod 4 * 64 + z mod 64 = z"
    unfolding y z by simp_all
qed

lemma byte_quotients [simp]:
  fixes c :: char
  shows "(of_char c :: nat) div 16 div 16 = 0" "(of_char c :: nat) div 64 div 4 = 0"
    "(of_char c :: nat) div 16 mod 16 = of_char c div 16"
    "(of_char c :: nat) div 64 mod 4 = of_char c div 64"
  by (simp_all add: div_mult2_eq [symmetric] div_less_iff_less_mult)

lemma b64_decode_encode [simp]: "b64_decode (b64_encode s) = Some s"
proof (induction s rule: b64_encode.induct)
  case (4 a b c s)
  then show ?case by (simp add: Let_def sextets_lt sextets_join)
qed (simp_all add: Let_def sextets_lt sextets_join)

lemma b64_char_ascii: "(of_char (b64_char n) :: nat) < 128"
  by (auto simp: b64_char_def)

lemma b64_ascii: "c \<in> set (b64_encode s) \<Longrightarrow> (of_char c :: nat) < 128"
  by (induction s rule: b64_encode.induct) (auto simp: Let_def b64_char_ascii)

lemma valid_utf8_b64 [simp]: "valid_utf8 (b64_encode s)"
  by (rule valid_utf8_ascii) (rule b64_ascii)

end
