(* ===== verification/Codec.thy ===== *)
theory Codec
  imports Base64
begin

text \<open>
  How \<^verbatim>\<open>encoding/json\<close> maps Go values to JSON and back, for the kinds of fields the structs of the
  sources have: strings, unsigned and signed integers, byte slices (base64), slices and maps with
  string keys (written in the order of their keys). A struct is decoded member by member: the
  name of a member selects the field up to the case of ASCII letters, a later member overrides an
  earlier one, unknown members are skipped, and \<open>null\<close> leaves a scalar field alone.

  Each kind of field has a law that the encoding is read back; the structs of the components
  compose them.
\<close>

section \<open>Scalars\<close>

definition lower_char :: "char \<Rightarrow> char" where
  "lower_char c = (let n = (of_char c :: nat) in if 65 \<le> n \<and> n \<le> 90 then char_of (n + 32) else c)"

definition fold_name :: "string \<Rightarrow> string" where
  "fold_name s = map lower_char s"

definition json_err :: err where
  "json_err = ErrMsg ''json: cannot decode''"

definition enc_nat :: "nat \<Rightarrow> json" where
  "enc_nat n = JNum (format_nat n)"

definition enc_word :: "'a::len word \<Rightarrow> json" where
  "enc_word w = enc_nat (unat w)"

definition enc_int :: "int \<Rightarrow> json" where
  "enc_int i = JNum (if i < 0 then CHR ''-'' # format_nat (nat (- i)) else format_nat (nat i))"

definition enc_bytes :: "bytes \<Rightarrow> json" where
  "enc_bytes b = JStr (b64_encode b)"

definition dec_string :: "json \<Rightarrow> string \<Rightarrow> string res" where
  "dec_string j old = (case j of JStr s \<Rightarrow> Inr s | JNull \<Rightarrow> Inr old | _ \<Rightarrow> Inl json_err)"

definition dec_word :: "json \<Rightarrow> 'a::len word \<Rightarrow> 'a word res" where
  "dec_word j old = (case j of
     JNum lit \<Rightarrow> (case parse_uint LENGTH('a) lit of Inr n \<Rightarrow> Inr (of_nat n) | Inl _ \<Rightarrow> Inl json_err)
   | JNull \<Rightarrow> Inr old
   | _ \<Rightarrow> Inl json_err)"

definition parse_int64 :: "string \<Rightarrow> int res" where
  "parse_int64 s = (case s of
     [] \<Rightarrow> Inl json_err
   | c # t \<Rightarrow>
      (if c = CHR ''-'' then
         (case parse_uint 64 t of
            Inr n \<Rightarrow> if n \<le> 2 ^ 63 then Inr (- int n) else Inl json_err
          | Inl _ \<Rightarrow> Inl json_err)
       else
         (case parse_uint 64 s of
            Inr n \<Rightarrow> if n < 2 ^ 63 then Inr (int n) else Inl json_err
          | Inl _ \<Rightarrow> Inl json_err)))"

definition dec_int :: "json \<Rightarrow> int \<Rightarrow> int res" where
  "dec_int j old = (case j of JNum lit \<Rightarrow> parse_int64 lit | JNull \<Rightarrow> Inr old | _ \<Rightarrow> Inl json_err)"

definition dec_bytes :: "json \<Rightarrow> bytes \<Rightarrow> bytes res" where
  "dec_bytes j old = (case j of
     JStr s \<Rightarrow> (case b64_decode s of Some b \<Rightarrow> Inr b | None \<Rightarrow> Inl json_err)
   | JNull \<Rightarrow> Inr []
   | _ \<Rightarrow> Inl json_err)"

definition in_int64 :: "int \<Rightarrow> bool" where
  "in_int64 i \<longleftrightarrow> - (2 ^ 63) \<le> i \<and> i < 2 ^ 63"

section \<open>Slices, maps and structs\<close>

fun dec_elems :: "(json \<Rightarrow> 'a res) \<Rightarrow> json list \<Rightarrow> 'a list res" where
  "dec_elems f [] = Inr []"
| "dec_elems f (j # js) =
     (case f j of Inl e \<Rightarrow> Inl e | Inr x \<Rightarrow>
      (case dec_elems f js of Inl e \<Rightarrow> Inl e | Inr xs \<Rightarrow> Inr (x # xs)))"

definition dec_list :: "(json \<Rightarrow> 'a res) \<Rightarrow> json \<Rightarrow> 'a list \<Rightarrow> 'a list res" where
  "dec_list f j old = (case j of JArr js \<Rightarrow> dec_elems f js | JNull \<Rightarrow> Inr [] | _ \<Rightarrow> Inl json_err)"

fun dec_entries :: "(json \<Rightarrow> 'v res) \<Rightarrow> (string \<times> json) list \<Rightarrow> (string, 'v) gomap \<Rightarrow> (string, 'v) gomap res" where
  "dec_entries f [] m = Inr m"
| "dec_entries f ((k, j) # ms) m =
     (case f j of Inl e \<Rightarrow> Inl e | Inr v \<Rightarrow> dec_entries f ms (mput k v m))"

definition dec_map :: "(json \<Rightarrow> 'v res) \<Rightarrow> json \<Rightarrow> (string, 'v) gomap \<Rightarrow> (string, 'v) gomap res" where
  "dec_map f j old = (case j of JObj ms \<Rightarrow> dec_entries f ms old | JNull \<Rightarrow> Inr [] | _ \<Rightarrow> Inl json_err)"

definition enc_map :: "('v \<Rightarrow> json) \<Rightarrow> (string, 'v) gomap \<Rightarrow> json" where
  "enc_map f m = JObj (map (\<lambda>k. (k, f (the (mget m k)))) (sort (mkeys m)))"

fun dec_members :: "(string \<Rightarrow> json \<Rightarrow> 'r \<Rightarrow> 'r res) \<Rightarrow> (string \<times> json) list \<Rightarrow> 'r \<Rightarrow> 'r res" where
  "dec_members f [] r = Inr r"
| "dec_members f ((k, j) # ms) r =
     (case f (fold_name k) j r of Inl e \<Rightarrow> Inl e | Inr r' \<Rightarrow> dec_members f ms r')"

definition dec_struct :: "(string \<Rightarrow> json \<Rightarrow> 'r \<Rightarrow> 'r res) \<Rightarrow> json \<Rightarrow> 'r \<Rightarrow> 'r res" where
  "dec_struct f j r = (case j of JObj ms \<Rightarrow> dec_members f ms r | JNull \<Rightarrow> Inr r | _ \<Rightarrow> Inl json_err)"

text \<open>\<^verbatim>\<open>json.Unmarshal\<close> into a fresh value, and \<^verbatim>\<open>json.Marshal\<close>.\<close>

definition unmarshal :: "(json \<Rightarrow> 'r \<Rightarrow> 'r res) \<Rightarrow> 'r \<Rightarrow> bytes \<Rightarrow> 'r res" where
  "unmarshal f zero data = (case json_parse data of None \<Rightarrow> Inl json_err | Some j \<Rightarrow> f j zero)"

section \<open>Laws\<close>

lemma num_ok_format_nat [simp]: "num_ok (format_nat n)" "num_ok (CHR ''-'' # format_nat n)"
  by (auto simp: num_ok_def)

lemma json_ok_scalars [simp]:
  "json_ok (enc_nat n)" "json_ok (enc_word w)" "json_ok (enc_int i)" "json_ok (enc_bytes b)"
  by (simp_all add: enc_nat_def enc_word_def enc_int_def enc_bytes_def)

lemma dec_string_JStr [simp]: "dec_string (JStr s) old = Inr s"
  by (simp add: dec_string_def)

lemma dec_word_enc [simp]: "dec_word (enc_word (w :: 'a::len word)) old = Inr w"
  by (simp add: dec_word_def enc_word_def enc_nat_def unsigned_less)

lemma parse_int64_format: "in_int64 i \<Longrightarrow> dec_int (enc_int i) old = Inr i"
proof (cases "i < 0")
  case True
  assume "in_int64 i"
  then have "nat (- i) \<le> 2 ^ 63" by (simp add: in_int64_def nat_le_iff)
  then have "parse_uint 64 (format_nat (nat (- i))) = Inr (nat (- i))" "nat (- i) \<le> 2 ^ 63"
    by (simp_all add: parse_uint_def)
  with True show ?thesis by (simp add: dec_int_def enc_int_def parse_int64_def)
next
  case False
  assume "in_int64 i"
  then have "nat i < 2 ^ 63" using False by (simp add: in_int64_def nat_less_iff)
  then have p: "parse_uint 64 (format_nat (nat i)) = Inr (nat i)" "nat i < 2 ^ 63"
    by (simp_all add: parse_uint_def)
  obtain c t where ct: "format_nat (nat i) = c # t" by (cases "format_nat (nat i)") auto
  have "c \<noteq> CHR ''-''" using format_nat_digits [of c "nat i"] by (auto simp: ct)
  with False p ct show ?thesis by (simp add: dec_int_def enc_int_def parse_int64_def)
qed

lemma dec_bytes_enc [simp]: "dec_bytes (enc_bytes b) old = Inr b"
  by (simp add: dec_bytes_def enc_bytes_def)

lemma dec_elems_map:
  "(\<And>x. x \<in> set xs \<Longrightarrow> f (g x) = Inr (h x)) \<Longrightarrow> dec_elems f (map g xs) = Inr (map h xs)"
  by (induction xs) auto

lemma dec_entries_map:
  assumes "\<And>k. k \<in> set ks \<Longrightarrow> f (g k) = Inr (h k)"
  shows "\<exists>m'. dec_entries f (map (\<lambda>k. (k, g k)) ks) m = Inr m' \<and>
     mget m' = (\<lambda>k. if k \<in> set ks then Some (h k) else mget m k) \<and> (mwf m \<longrightarrow> mwf m')"
  using assms
proof (induction ks arbitrary: m)
  case (Cons k ks)
  from Cons.IH [of "mput k (h k) m"] Cons.prems
  obtain m' where "dec_entries f (map (\<lambda>k. (k, g k)) ks) (mput k (h k) m) = Inr m'"
    "mget m' = (\<lambda>q. if q \<in> set ks then Some (h q) else mget (mput k (h k) m) q)"
    "mwf (mput k (h k) m) \<longrightarrow> mwf m'" by auto
  with Cons.prems show ?case by (intro exI [of _ m']) (auto simp: fun_eq_iff)
qed auto

lemma dec_map_enc:
  assumes "\<And>k v. mget m k = Some v \<Longrightarrow> f (g v) = Inr (h v)"
  shows "\<exists>m'. dec_map f (enc_map g m) [] = Inr m' \<and> mwf m' \<and> (\<forall>k. mget m' k = map_option h (mget m k))"
proof -
  have "\<And>k. k \<in> set (sort (mkeys m)) \<Longrightarrow> f (g (the (mget m k))) = Inr (h (the (mget m k)))"
    using assms by auto
  from dec_entries_map [where g = "\<lambda>k. g (the (mget m k))" and h = "\<lambda>k. h (the (mget m k))"
      and ks = "sort (mkeys m)" and f = f and m = "[]", OF this]
  obtain m' where m': "dec_entries f (map (\<lambda>k. (k, g (the (mget m k)))) (sort (mkeys m))) [] = Inr m'"
    "mget m' = (\<lambda>k. if k \<in> set (sort (mkeys m)) then Some (h (the (mget m k))) else mget [] k)"
    "mwf m'" by auto
  have "mget m' k = map_option h (mget m k)" for k
    by (cases "mget m k") (auto simp: m'(2))
  with m' show ?thesis by (auto simp: dec_map_def enc_map_def)
qed

lemma json_ok_enc_map:
  "(\<And>k v. mget m k = Some v \<Longrightarrow> valid_utf8 k \<and> json_ok (g v)) \<Longrightarrow> json_ok (enc_map g m)"
  by (auto simp: enc_map_def)

lemma unmarshal_print: "json_ok j \<Longrightarrow> unmarshal f zero (json_print j) = f j zero"
  by (simp add: unmarshal_def json_parse_print)

end
