(* ===== verification/Kv.thy ===== *)
theory Kv
  imports Codec
begin

text \<open>
  Package \<^verbatim>\<open>kv\<close>: the operations (\<^verbatim>\<open>kv.go\<close>) and the in-memory store \<open>MemoryKV\<close>
  (\<^verbatim>\<open>memory.go\<close>). The store is the record \<open>memkv\<close> of its four maps; each method is a
  function on it. The methods take the mutex for their whole body, so a call is one step. A
  \<open>cloneBytes\<close> copy is the value itself. A mutator of \<open>MemoryKV\<close> cannot fail, apart from
  \<open>Batch\<close>, which stops at the first operation of unknown type and keeps what it has done
  before.

  \<open>mem_wf\<close> is the representation invariant, \<open>kv_eq\<close> the equality of stores as Go sees them
  (the order of the association lists is not observable), and the reads and writes respect it.
\<close>

section \<open>Operations\<close>

definition OpSet :: string where "OpSet = ''set''"
definition OpDel :: string where "OpDel = ''del''"
definition OpHSet :: string where "OpHSet = ''hset''"
definition OpHDel :: string where "OpHDel = ''hdel''"
definition OpIncr :: string where "OpIncr = ''incr''"
definition OpSAdd :: string where "OpSAdd = ''sadd''"
definition OpSRem :: string where "OpSRem = ''srem''"

lemmas op_types = OpSet_def OpDel_def OpHSet_def OpHDel_def OpIncr_def OpSAdd_def OpSRem_def

record op =
  op_type :: string
  op_key :: string
  op_field :: string
  op_value :: bytes
  op_member :: string

definition op_zero :: op where
  "op_zero = \<lparr>op_type = [], op_key = [], op_field = [], op_value = [], op_member = []\<rparr>"

text \<open>The literals \<^verbatim>\<open>kv.Op{...}\<close> of the callers.\<close>

definition op_set :: "string \<Rightarrow> bytes \<Rightarrow> op" where
  "op_set k v = op_zero\<lparr>op_type := OpSet, op_key := k, op_value := v\<rparr>"
definition op_del :: "string \<Rightarrow> op" where
  "op_del k = op_zero\<lparr>op_type := OpDel, op_key := k\<rparr>"
definition op_hset :: "string \<Rightarrow> string \<Rightarrow> bytes \<Rightarrow> op" where
  "op_hset k f v = op_zero\<lparr>op_type := OpHSet, op_key := k, op_field := f, op_value := v\<rparr>"
definition op_hdel :: "string \<Rightarrow> string \<Rightarrow> op" where
  "op_hdel k f = op_zero\<lparr>op_type := OpHDel, op_key := k, op_field := f\<rparr>"
definition op_incr :: "string \<Rightarrow> op" where
  "op_incr k = op_zero\<lparr>op_type := OpIncr, op_key := k\<rparr>"
definition op_sadd :: "string \<Rightarrow> string \<Rightarrow> op" where
  "op_sadd k x = op_zero\<lparr>op_type := OpSAdd, op_key := k, op_member := x\<rparr>"
definition op_srem :: "string \<Rightarrow> string \<Rightarrow> op" where
  "op_srem k x = op_zero\<lparr>op_type := OpSRem, op_key := k, op_member := x\<rparr>"

lemmas op_lits = op_set_def op_del_def op_hset_def op_hdel_def op_incr_def op_sadd_def op_srem_def

section \<open>MemoryKV\<close>

record memkv =
  kv_str :: "(string, bytes) gomap"
  kv_hash :: "(string, (string, bytes) gomap) gomap"
  kv_sets :: "(string, string goset) gomap"
  kv_incrs :: "(string, u64) gomap"

definition new_memory_kv :: memkv where
  "new_memory_kv = \<lparr>kv_str = [], kv_hash = [], kv_sets = [], kv_incrs = []\<rparr>"

definition mem_get :: "memkv \<Rightarrow> string \<Rightarrow> bytes res" where
  "mem_get m k = (case mget (kv_str m) k of None \<Rightarrow> Inl ErrKVNotFound | Some v \<Rightarrow> Inr v)"

definition mem_set :: "string \<Rightarrow> bytes \<Rightarrow> memkv \<Rightarrow> memkv" where
  "mem_set k v m = m\<lparr>kv_str := mput k v (kv_str m)\<rparr>"

definition mem_del1 :: "string \<Rightarrow> memkv \<Rightarrow> memkv" where
  "mem_del1 k m = m\<lparr>kv_str := mdel k (kv_str m), kv_hash := mdel k (kv_hash m),
                     kv_sets := mdel k (kv_sets m), kv_incrs := mdel k (kv_incrs m)\<rparr>"

definition mem_del :: "string list \<Rightarrow> memkv \<Rightarrow> memkv" where
  "mem_del ks m = fold mem_del1 ks m"

definition mem_exists :: "memkv \<Rightarrow> string \<Rightarrow> bool" where
  "mem_exists m k \<longleftrightarrow> mget (kv_str m) k \<noteq> None \<or> mget (kv_hash m) k \<noteq> None
     \<or> mget (kv_sets m) k \<noteq> None \<or> mget (kv_incrs m) k \<noteq> None"

definition mem_hget :: "memkv \<Rightarrow> string \<Rightarrow> string \<Rightarrow> bytes res" where
  "mem_hget m k f = (case mget (kv_hash m) k of
     None \<Rightarrow> Inl ErrKVNotFound
   | Some h \<Rightarrow> (case mget h f of None \<Rightarrow> Inl ErrKVNotFound | Some v \<Rightarrow> Inr v))"

definition mem_hset :: "string \<Rightarrow> string \<Rightarrow> bytes \<Rightarrow> memkv \<Rightarrow> memkv" where
  "mem_hset k f v m =
     (let h = (case mget (kv_hash m) k of None \<Rightarrow> [] | Some h \<Rightarrow> h)
      in m\<lparr>kv_hash := mput k (mput f v h) (kv_hash m)\<rparr>)"

definition mem_hgetall :: "memkv \<Rightarrow> string \<Rightarrow> (string, bytes) gomap" where
  "mem_hgetall m k = (case mget (kv_hash m) k of None \<Rightarrow> [] | Some h \<Rightarrow> h)"

definition mem_hdel :: "string \<Rightarrow> string list \<Rightarrow> memkv \<Rightarrow> memkv" where
  "mem_hdel k fs m = (case mget (kv_hash m) k of
     None \<Rightarrow> m
   | Some h \<Rightarrow>
      (let h' = fold mdel fs h in
       if h' = [] then m\<lparr>kv_hash := mdel k (kv_hash m)\<rparr> else m\<lparr>kv_hash := mput k h' (kv_hash m)\<rparr>))"

definition mem_hexists :: "memkv \<Rightarrow> string \<Rightarrow> string \<Rightarrow> bool" where
  "mem_hexists m k f = (case mget (kv_hash m) k of None \<Rightarrow> False | Some h \<Rightarrow> mget h f \<noteq> None)"

definition mem_hlen :: "memkv \<Rightarrow> string \<Rightarrow> nat" where
  "mem_hlen m k = (case mget (kv_hash m) k of None \<Rightarrow> 0 | Some h \<Rightarrow> length h)"

definition incr_val :: "memkv \<Rightarrow> string \<Rightarrow> u64" where
  "incr_val m k = (case mget (kv_incrs m) k of None \<Rightarrow> 0 | Some v \<Rightarrow> v)"

definition mem_incr :: "string \<Rightarrow> memkv \<Rightarrow> u64 \<times> memkv" where
  "mem_incr k m =
     (let v = incr_val m k + 1
      in (v, m\<lparr>kv_incrs := mput k v (kv_incrs m), kv_str := mput k (format_uint v) (kv_str m)\<rparr>))"

definition mem_sadd :: "string \<Rightarrow> string list \<Rightarrow> memkv \<Rightarrow> memkv" where
  "mem_sadd k xs m =
     (let s = (case mget (kv_sets m) k of None \<Rightarrow> [] | Some s \<Rightarrow> s)
      in m\<lparr>kv_sets := mput k (fold (\<lambda>x s. if x \<noteq> [] then sput x s else s) xs s) (kv_sets m)\<rparr>)"

definition mem_srem :: "string \<Rightarrow> string list \<Rightarrow> memkv \<Rightarrow> memkv" where
  "mem_srem k xs m = (case mget (kv_sets m) k of
     None \<Rightarrow> m
   | Some s \<Rightarrow>
      (let s' = fold sdel xs s in
       if s' = [] then m\<lparr>kv_sets := mdel k (kv_sets m)\<rparr> else m\<lparr>kv_sets := mput k s' (kv_sets m)\<rparr>))"

definition mem_smembers :: "memkv \<Rightarrow> string \<Rightarrow> string list" where
  "mem_smembers m k = (case mget (kv_sets m) k of None \<Rightarrow> [] | Some s \<Rightarrow> sort s)"

definition apply_locked :: "op \<Rightarrow> memkv \<Rightarrow> unit res \<times> memkv" where
  "apply_locked q m =
     (if op_type q = OpSet then (Inr (), m\<lparr>kv_str := mput (op_key q) (op_value q) (kv_str m)\<rparr>)
      else if op_type q = OpDel then
        (Inr (), m\<lparr>kv_str := mdel (op_key q) (kv_str m), kv_hash := mdel (op_key q) (kv_hash m),
                   kv_sets := mdel (op_key q) (kv_sets m), kv_incrs := mdel (op_key q) (kv_incrs m)\<rparr>)
      else if op_type q = OpHSet then
        (let h = (case mget (kv_hash m) (op_key q) of None \<Rightarrow> [] | Some h \<Rightarrow> h)
         in (Inr (), m\<lparr>kv_hash := mput (op_key q) (mput (op_field q) (op_value q) h) (kv_hash m)\<rparr>))
      else if op_type q = OpHDel then
        (case mget (kv_hash m) (op_key q) of
           None \<Rightarrow> (Inr (), m)
         | Some h \<Rightarrow>
            (let h' = mdel (op_field q) h in
             if h' = [] then (Inr (), m\<lparr>kv_hash := mdel (op_key q) (kv_hash m)\<rparr>)
             else (Inr (), m\<lparr>kv_hash := mput (op_key q) h' (kv_hash m)\<rparr>)))
      else if op_type q = OpIncr then
        (let v = incr_val m (op_key q) + 1
         in (Inr (), m\<lparr>kv_incrs := mput (op_key q) v (kv_incrs m),
                       kv_str := mput (op_key q) (format_uint v) (kv_str m)\<rparr>))
      else if op_type q = OpSAdd then
        (let s = (case mget (kv_sets m) (op_key q) of None \<Rightarrow> [] | Some s \<Rightarrow> s)
         in (Inr (), m\<lparr>kv_sets := mput (op_key q)
                (if op_member q \<noteq> [] then sput (op_member q) s else s) (kv_sets m)\<rparr>))
      else if op_type q = OpSRem then
        (case mget (kv_sets m) (op_key q) of
           None \<Rightarrow> (Inr (), m)
         | Some s \<Rightarrow>
            (let s' = sdel (op_member q) s in
             if s' = [] then (Inr (), m\<lparr>kv_sets := mdel (op_key q) (kv_sets m)\<rparr>)
             else (Inr (), m\<lparr>kv_sets := mput (op_key q) s' (kv_sets m)\<rparr>)))
      else (Inl (ErrMsg (''unknown op type: '' @ op_type q)), m))"

fun mem_batch :: "op list \<Rightarrow> memkv \<Rightarrow> unit res \<times> memkv" where
  "mem_batch [] m = (Inr (), m)"
| "mem_batch (q # qs) m =
     (case apply_locked q m of (Inl e, m') \<Rightarrow> (Inl e, m') | (Inr _, m') \<Rightarrow> mem_batch qs m')"

section \<open>The direct methods and the operations of a batch\<close>

text \<open>A batch of literals runs the methods of the same name.\<close>

lemma apply_locked_lits [simp, kv_simps]:
  "apply_locked (op_set k v) m = (Inr (), mem_set k v m)"
  "apply_locked (op_del k) m = (Inr (), mem_del1 k m)"
  "apply_locked (op_hset k f v) m = (Inr (), mem_hset k f v m)"
  "apply_locked (op_hdel k f) m = (Inr (), mem_hdel k [f] m)"
  "apply_locked (op_incr k) m = (Inr (), snd (mem_incr k m))"
  "apply_locked (op_sadd k x) m = (Inr (), mem_sadd k [x] m)"
  "apply_locked (op_srem k x) m = (Inr (), mem_srem k [x] m)"
  by (simp_all add: op_lits op_zero_def apply_locked_def op_types mem_set_def mem_del1_def mem_hset_def
      mem_hdel_def mem_incr_def mem_sadd_def mem_srem_def Let_def split: option.split)

lemma mem_batch_append:
  "mem_batch (ps @ qs) m =
     (case mem_batch ps m of (Inl e, m') \<Rightarrow> (Inl e, m') | (Inr _, m') \<Rightarrow> mem_batch qs m')"
  by (induction ps arbitrary: m) (auto split: prod.splits sum.splits)

section \<open>Representation invariant\<close>

definition hash_wf :: "(string, bytes) gomap \<Rightarrow> bool" where
  "hash_wf h \<longleftrightarrow> mwf h \<and> h \<noteq> []"

definition set_wf :: "string goset \<Rightarrow> bool" where
  "set_wf s \<longleftrightarrow> distinct s \<and> [] \<notin> set s"

definition mem_wf :: "memkv \<Rightarrow> bool" where
  "mem_wf m \<longleftrightarrow> mwf (kv_str m) \<and> mwf (kv_hash m) \<and> mwf (kv_sets m) \<and> mwf (kv_incrs m)
     \<and> (\<forall>k h. mget (kv_hash m) k = Some h \<longrightarrow> hash_wf h)
     \<and> (\<forall>k s. mget (kv_sets m) k = Some s \<longrightarrow> set_wf s)"

lemma mput_not_Nil [simp]: "mput k v m \<noteq> []"
  using mget_mput [of k v m k] by (metis map_of.simps(1) option.distinct(1))

lemma mwf_fold_mdel [simp]: "mwf m \<Longrightarrow> mwf (fold mdel ks m)"
  by (induction ks arbitrary: m) auto

lemma mget_fold_mdel: "mget (fold mdel ks m) k = (if k \<in> set ks then None else mget m k)"
  by (induction ks arbitrary: m) auto

lemma set_wf_fold_sdel: "set_wf s \<Longrightarrow> set_wf (fold sdel xs s)"
  by (induction xs arbitrary: s) (auto simp: set_wf_def)

lemma set_fold_sdel: "set (fold sdel xs s) = set s - set xs"
  by (induction xs arbitrary: s) auto

lemma set_wf_fold_sput: "set_wf s \<Longrightarrow> set_wf (fold (\<lambda>x s. if x \<noteq> [] then sput x s else s) xs s)"
  by (induction xs arbitrary: s) (auto simp: set_wf_def)

lemma set_fold_sput:
  "set (fold (\<lambda>x s. if x \<noteq> [] then sput x s else s) xs s) = set s \<union> (set xs - {[]})"
  by (induction xs arbitrary: s) auto

lemma mem_wf_new [simp, wf_intros]: "mem_wf new_memory_kv"
  by (simp add: mem_wf_def new_memory_kv_def)

lemma mem_wf_upd:
  assumes "mem_wf m"
  shows "hash_wf h \<Longrightarrow> mem_wf (m\<lparr>kv_hash := mput k h (kv_hash m)\<rparr>)"
    "mem_wf (m\<lparr>kv_hash := mdel k (kv_hash m)\<rparr>)"
    "set_wf s \<Longrightarrow> mem_wf (m\<lparr>kv_sets := mput k s (kv_sets m)\<rparr>)"
    "mem_wf (m\<lparr>kv_sets := mdel k (kv_sets m)\<rparr>)"
  using assms by (simp_all add: mem_wf_def)

lemma mem_wf_hash: "mem_wf m \<Longrightarrow> mget (kv_hash m) k = Some h \<Longrightarrow> mwf h \<and> h \<noteq> []"
  by (simp add: mem_wf_def hash_wf_def)

lemma mem_wf_sets: "mem_wf m \<Longrightarrow> mget (kv_sets m) k = Some s \<Longrightarrow> set_wf s"
  by (simp add: mem_wf_def)

lemma mem_wf_ops [simp, wf_intros]:
  assumes "mem_wf m"
  shows "mem_wf (mem_set k v m)" "mem_wf (mem_del1 k m)" "mem_wf (mem_hset k f v m)"
    "mem_wf (mem_hdel k fs m)" "mem_wf (snd (mem_incr k m))" "mem_wf (mem_sadd k xs m)"
    "mem_wf (mem_srem k xs m)"
proof -
  show "mem_wf (mem_set k v m)" "mem_wf (mem_del1 k m)" "mem_wf (snd (mem_incr k m))"
    using assms by (simp_all add: mem_wf_def mem_set_def mem_del1_def mem_incr_def Let_def)
  show "mem_wf (mem_hset k f v m)"
    using assms mem_wf_hash [OF assms, of k]
    by (cases "mget (kv_hash m) k") (simp_all add: mem_hset_def Let_def hash_wf_def mem_wf_upd)
  show "mem_wf (mem_hdel k fs m)"
    using assms mem_wf_hash [OF assms, of k]
    by (cases "mget (kv_hash m) k") (simp_all add: mem_hdel_def Let_def hash_wf_def mem_wf_upd)
  show "mem_wf (mem_sadd k xs m)"
    using assms mem_wf_sets [OF assms, of k]
    by (cases "mget (kv_sets m) k")
       (simp_all add: mem_sadd_def Let_def mem_wf_upd set_wf_fold_sput set_wf_def [of "[]"])
  show "mem_wf (mem_srem k xs m)"
    using assms mem_wf_sets [OF assms, of k]
    by (cases "mget (kv_sets m) k") (simp_all add: mem_srem_def Let_def mem_wf_upd set_wf_fold_sdel)
qed

lemma mem_wf_del [simp, wf_intros]: "mem_wf m \<Longrightarrow> mem_wf (mem_del ks m)"
  unfolding mem_del_def by (induction ks arbitrary: m) auto

text \<open>Every operation of a batch is one of the seven kinds, or is refused.\<close>

lemma apply_locked_kinds:
  "op_type q = OpSet \<Longrightarrow> apply_locked q m = (Inr (), mem_set (op_key q) (op_value q) m)"
  "op_type q = OpDel \<Longrightarrow> apply_locked q m = (Inr (), mem_del1 (op_key q) m)"
  "op_type q = OpHSet \<Longrightarrow> apply_locked q m = (Inr (), mem_hset (op_key q) (op_field q) (op_value q) m)"
  "op_type q = OpHDel \<Longrightarrow> apply_locked q m = (Inr (), mem_hdel (op_key q) [op_field q] m)"
  "op_type q = OpIncr \<Longrightarrow> apply_locked q m = (Inr (), snd (mem_incr (op_key q) m))"
  "op_type q = OpSAdd \<Longrightarrow> apply_locked q m = (Inr (), mem_sadd (op_key q) [op_member q] m)"
  "op_type q = OpSRem \<Longrightarrow> apply_locked q m = (Inr (), mem_srem (op_key q) [op_member q] m)"
  "op_type q \<notin> {OpSet, OpDel, OpHSet, OpHDel, OpIncr, OpSAdd, OpSRem} \<Longrightarrow>
     apply_locked q m = (Inl (ErrMsg (''unknown op type: '' @ op_type q)), m)"
  by (simp_all add: apply_locked_def mem_set_def mem_del1_def mem_hset_def mem_hdel_def mem_incr_def
      mem_sadd_def mem_srem_def op_types Let_def split: option.split)

lemma op_kinds:
  obtains "op_type q = OpSet" | "op_type q = OpDel" | "op_type q = OpHSet" | "op_type q = OpHDel"
    | "op_type q = OpIncr" | "op_type q = OpSAdd" | "op_type q = OpSRem"
    | "op_type q \<notin> {OpSet, OpDel, OpHSet, OpHDel, OpIncr, OpSAdd, OpSRem}"
  by blast

lemma mem_wf_apply: "mem_wf m \<Longrightarrow> mem_wf (snd (apply_locked q m))"
  by (cases rule: op_kinds [of q]) (simp_all add: apply_locked_kinds)

lemma mem_wf_batch [simp, wf_intros]: "mem_wf m \<Longrightarrow> mem_wf (snd (mem_batch qs m))"
proof (induction qs arbitrary: m)
  case (Cons q qs)
  obtain r m' where "apply_locked q m = (r, m')" by fastforce
  moreover from this have "mem_wf m'" using mem_wf_apply [OF Cons.prems, of q] by simp
  ultimately show ?case using Cons.IH by (auto split: sum.splits)
qed simp

section \<open>What the reads return after the writes\<close>

definition hash_fun :: "memkv \<Rightarrow> string \<Rightarrow> string \<Rightarrow> bytes option" where
  "hash_fun m k f = (case mget (kv_hash m) k of None \<Rightarrow> None | Some h \<Rightarrow> mget h f)"

definition set_fun :: "memkv \<Rightarrow> string \<Rightarrow> string set" where
  "set_fun m k = (case mget (kv_sets m) k of None \<Rightarrow> {} | Some s \<Rightarrow> set s)"

lemma mem_hget_fun: "mem_hget m k f = (case hash_fun m k f of None \<Rightarrow> Inl ErrKVNotFound | Some v \<Rightarrow> Inr v)"
  by (auto simp: mem_hget_def hash_fun_def split: option.splits)

lemma mem_hexists_fun: "mem_hexists m k f \<longleftrightarrow> hash_fun m k f \<noteq> None"
  by (auto simp: mem_hexists_def hash_fun_def split: option.splits)

lemma mem_hgetall_fun: "mget (mem_hgetall m k) = hash_fun m k"
  by (auto simp: mem_hgetall_def hash_fun_def split: option.splits)

lemma set_mem_smembers [simp]: "set (mem_smembers m k) = set_fun m k"
  by (auto simp: mem_smembers_def set_fun_def split: option.splits)

lemma mem_smembers_sorted: "sorted (mem_smembers m k)"
  by (auto simp: mem_smembers_def split: option.splits)

lemma mem_smembers_distinct: "mem_wf m \<Longrightarrow> distinct (mem_smembers m k)"
  using mem_wf_sets [of m k]
  by (cases "mget (kv_sets m) k") (simp_all add: mem_smembers_def set_wf_def)

lemma mem_hlen_card: "mem_wf m \<Longrightarrow> mem_hlen m k = card (dom (hash_fun m k))"
  using mem_wf_hash [of m k]
  by (cases "mget (kv_hash m) k")
     (simp_all add: mem_hlen_def mem_hgetall_fun [symmetric] mem_hgetall_def card_dom_mget)

lemma kv_str_ops [simp, kv_simps]:
  "mget (kv_str (mem_set k v m)) k' = (if k' = k then Some v else mget (kv_str m) k')"
  "mget (kv_str (mem_del1 k m)) k' = (if k' = k then None else mget (kv_str m) k')"
  "kv_str (mem_hset k f v m) = kv_str m"
  "kv_str (mem_hdel k fs m) = kv_str m"
  "mget (kv_str (snd (mem_incr k m))) k' = (if k' = k then Some (format_uint (incr_val m k + 1)) else mget (kv_str m) k')"
  "kv_str (mem_sadd k xs m) = kv_str m"
  "kv_str (mem_srem k xs m) = kv_str m"
  by (auto simp: mem_set_def mem_del1_def mem_hset_def mem_hdel_def mem_incr_def mem_sadd_def
      mem_srem_def Let_def split: option.splits)

lemma hash_fun_ops [simp, kv_simps]:
  "hash_fun (mem_set k v m) = hash_fun m"
  "hash_fun (mem_del1 k m) k' f' = (if k' = k then None else hash_fun m k' f')"
  "hash_fun (mem_hset k f v m) k' f' = (if k' = k \<and> f' = f then Some v else hash_fun m k' f')"
  "hash_fun (mem_hdel k fs m) k' f' = (if k' = k \<and> f' \<in> set fs then None else hash_fun m k' f')"
  "hash_fun (snd (mem_incr k m)) = hash_fun m"
  "hash_fun (mem_sadd k xs m) = hash_fun m"
  "hash_fun (mem_srem k xs m) = hash_fun m"
proof -
  show "hash_fun (mem_hdel k fs m) k' f' = (if k' = k \<and> f' \<in> set fs then None else hash_fun m k' f')"
  proof (cases "mget (kv_hash m) k")
    case None
    then show ?thesis by (simp add: mem_hdel_def hash_fun_def)
  next
    case (Some h)
    show ?thesis
    proof (cases "fold mdel fs h = []")
      case True
      then have "\<forall>f. f \<notin> set fs \<longrightarrow> mget h f = None"
        by (metis map_of.simps(1) mget_fold_mdel)
      with True Some show ?thesis by (simp add: mem_hdel_def hash_fun_def)
    next
      case False
      with Some show ?thesis by (simp add: mem_hdel_def hash_fun_def mget_fold_mdel)
    qed
  qed
qed (auto simp: mem_set_def mem_del1_def mem_hset_def mem_incr_def mem_sadd_def
      mem_srem_def Let_def hash_fun_def fun_eq_iff split: option.splits)

lemma set_fun_ops [simp, kv_simps]:
  "set_fun (mem_set k v m) = set_fun m"
  "set_fun (mem_del1 k m) k' = (if k' = k then {} else set_fun m k')"
  "set_fun (mem_hset k f v m) = set_fun m"
  "set_fun (mem_hdel k fs m) = set_fun m"
  "set_fun (snd (mem_incr k m)) = set_fun m"
  "set_fun (mem_sadd k xs m) k' = (if k' = k then set_fun m k \<union> (set xs - {[]}) else set_fun m k')"
  "set_fun (mem_srem k xs m) k' = (if k' = k then set_fun m k - set xs else set_fun m k')"
proof -
  show "set_fun (mem_sadd k xs m) k' = (if k' = k then set_fun m k \<union> (set xs - {[]}) else set_fun m k')"
    by (simp add: set_fun_def mem_sadd_def Let_def set_fold_sput split: option.split)
  show "set_fun (mem_srem k xs m) k' = (if k' = k then set_fun m k - set xs else set_fun m k')"
    using set_fold_sdel [of xs "the (mget (kv_sets m) k)"]
    by (cases "mget (kv_sets m) k") (auto simp: mem_srem_def set_fun_def Let_def)
qed (auto simp: mem_set_def mem_del1_def mem_hset_def mem_hdel_def mem_incr_def
      Let_def set_fun_def fun_eq_iff split: option.splits)

lemma incr_val_ops [simp, kv_simps]:
  "incr_val (mem_set k v m) k' = incr_val m k'"
  "incr_val (mem_del1 k m) k' = (if k' = k then 0 else incr_val m k')"
  "incr_val (mem_hset k f v m) k' = incr_val m k'"
  "incr_val (mem_hdel k fs m) k' = incr_val m k'"
  "incr_val (snd (mem_incr k m)) k' = (if k' = k then incr_val m k + 1 else incr_val m k')"
  "incr_val (mem_sadd k xs m) k' = incr_val m k'"
  "incr_val (mem_srem k xs m) k' = incr_val m k'"
  by (auto simp: mem_set_def mem_del1_def mem_hset_def mem_hdel_def mem_incr_def mem_sadd_def
      mem_srem_def Let_def incr_val_def split: option.splits)

lemma fst_mem_incr [simp]: "fst (mem_incr k m) = incr_val m k + 1"
  by (simp add: mem_incr_def Let_def)

lemmas kv_obs = mem_hget_fun mem_hexists_fun mem_get_def

section \<open>The equality of stores as the program sees it\<close>

definition kv_eq :: "memkv \<Rightarrow> memkv \<Rightarrow> bool" where
  "kv_eq m n \<longleftrightarrow> mget (kv_str m) = mget (kv_str n) \<and> mget (kv_incrs m) = mget (kv_incrs n)
     \<and> (\<forall>k. rel_option meq (mget (kv_hash m) k) (mget (kv_hash n) k))
     \<and> (\<forall>k. rel_option (\<lambda>s t. set s = set t) (mget (kv_sets m) k) (mget (kv_sets n) k))"

lemma kv_eq_refl [simp]: "kv_eq m m"
  by (simp add: kv_eq_def option.rel_refl)

lemma kv_eq_hash: "kv_eq m n \<Longrightarrow> rel_option meq (mget (kv_hash m) k) (mget (kv_hash n) k)"
  by (simp add: kv_eq_def)

lemma kv_eq_sets: "kv_eq m n \<Longrightarrow> rel_option (\<lambda>s t. set s = set t) (mget (kv_sets m) k) (mget (kv_sets n) k)"
  by (simp add: kv_eq_def)

lemma kv_eq_upd:
  assumes "kv_eq m n"
  shows "kv_eq (m\<lparr>kv_str := mput k v (kv_str m)\<rparr>) (n\<lparr>kv_str := mput k v (kv_str n)\<rparr>)"
    "meq h h' \<Longrightarrow> kv_eq (m\<lparr>kv_hash := mput k h (kv_hash m)\<rparr>) (n\<lparr>kv_hash := mput k h' (kv_hash n)\<rparr>)"
    "kv_eq (m\<lparr>kv_hash := mdel k (kv_hash m)\<rparr>) (n\<lparr>kv_hash := mdel k (kv_hash n)\<rparr>)"
    "set s = set s' \<Longrightarrow> kv_eq (m\<lparr>kv_sets := mput k s (kv_sets m)\<rparr>) (n\<lparr>kv_sets := mput k s' (kv_sets n)\<rparr>)"
    "kv_eq (m\<lparr>kv_sets := mdel k (kv_sets m)\<rparr>) (n\<lparr>kv_sets := mdel k (kv_sets n)\<rparr>)"
    "kv_eq (m\<lparr>kv_incrs := mput k c (kv_incrs m)\<rparr>) (n\<lparr>kv_incrs := mput k c (kv_incrs n)\<rparr>)"
  using assms by (simp_all add: kv_eq_def fun_eq_iff)

lemma meq_ops: "meq h h' \<Longrightarrow> meq (mput f v h) (mput f v h')" "meq h h' \<Longrightarrow> meq (fold mdel fs h) (fold mdel fs h')"
  by (simp_all add: meq_def fun_eq_iff mget_fold_mdel)

lemma meq_Nil: "meq h h' \<Longrightarrow> h = [] \<longleftrightarrow> h' = []"
  by (metis mget_Nil_iff meq_def)

lemma kv_eq_set: "kv_eq m n \<Longrightarrow> kv_eq (mem_set k v m) (mem_set k v n)"
  by (simp add: mem_set_def kv_eq_upd)

lemma kv_eq_del1: "kv_eq m n \<Longrightarrow> kv_eq (mem_del1 k m) (mem_del1 k n)"
  by (simp add: mem_del1_def kv_eq_def fun_eq_iff)

lemma kv_eq_hset: "kv_eq m n \<Longrightarrow> kv_eq (mem_hset k f v m) (mem_hset k f v n)"
  using kv_eq_hash [of m n k] by (cases rule: option.rel_cases) (auto simp: mem_hset_def kv_eq_upd meq_ops)

lemma kv_eq_hdel:
  assumes "kv_eq m n"
  shows "kv_eq (mem_hdel k fs m) (mem_hdel k fs n)"
proof -
  consider "mget (kv_hash m) k = None" "mget (kv_hash n) k = None"
    | h h' where "mget (kv_hash m) k = Some h" "mget (kv_hash n) k = Some h'" "meq h h'"
    using kv_eq_hash [OF assms, of k] by (cases rule: option.rel_cases) auto
  then show ?thesis
  proof cases
    case 2
    then have "meq (fold mdel fs h) (fold mdel fs h')" by (simp add: meq_ops)
    then show ?thesis using 2 assms meq_Nil [of "fold mdel fs h" "fold mdel fs h'"]
      by (cases "fold mdel fs h = []") (simp_all add: mem_hdel_def Let_def kv_eq_upd)
  qed (simp add: mem_hdel_def assms)
qed

lemma kv_eq_incr_val: "kv_eq m n \<Longrightarrow> incr_val m k = incr_val n k"
  by (simp add: kv_eq_def incr_val_def)

lemma kv_eq_incr:
  assumes "kv_eq m n"
  shows "fst (mem_incr k m) = fst (mem_incr k n) \<and> kv_eq (snd (mem_incr k m)) (snd (mem_incr k n))"
  using kv_eq_incr_val [OF assms, of k] assms by (simp add: mem_incr_def Let_def kv_eq_def fun_eq_iff)

lemma kv_eq_sadd: "kv_eq m n \<Longrightarrow> kv_eq (mem_sadd k xs m) (mem_sadd k xs n)"
  using kv_eq_sets [of m n k]
  by (cases rule: option.rel_cases) (simp_all add: mem_sadd_def kv_eq_upd set_fold_sput)

lemma kv_eq_srem:
  assumes "kv_eq m n"
  shows "kv_eq (mem_srem k xs m) (mem_srem k xs n)"
proof -
  consider "mget (kv_sets m) k = None" "mget (kv_sets n) k = None"
    | s t where "mget (kv_sets m) k = Some s" "mget (kv_sets n) k = Some t" "set s = set t"
    using kv_eq_sets [OF assms, of k] by (cases rule: option.rel_cases) auto
  then show ?thesis
  proof cases
    case 2
    have "set (fold sdel xs s) = set (fold sdel xs t)" by (simp add: set_fold_sdel 2)
    then show ?thesis using 2 assms
      by (cases "fold sdel xs s = []") (auto simp add: mem_srem_def Let_def kv_eq_upd)
  qed (simp add: mem_srem_def assms)
qed

lemma kv_eq_apply:
  assumes "kv_eq m n"
  shows "fst (apply_locked q m) = fst (apply_locked q n)
    \<and> kv_eq (snd (apply_locked q m)) (snd (apply_locked q n))"
  using assms by (cases rule: op_kinds [of q])
    (simp_all add: apply_locked_kinds kv_eq_set kv_eq_del1 kv_eq_hset kv_eq_hdel kv_eq_incr kv_eq_sadd kv_eq_srem)

lemma kv_eq_batch:
  "kv_eq m n \<Longrightarrow> fst (mem_batch qs m) = fst (mem_batch qs n) \<and> kv_eq (snd (mem_batch qs m)) (snd (mem_batch qs n))"
proof (induction qs arbitrary: m n)
  case (Cons q qs)
  obtain r m' where m': "apply_locked q m = (r, m')" by fastforce
  then obtain n' where n': "apply_locked q n = (r, n')" and "kv_eq m' n'"
    using kv_eq_apply [OF Cons.prems, of q] by (cases "apply_locked q n") auto
  with m' Cons.IH show ?case by (cases r) auto
qed simp

text \<open>Equal stores give the same answer to every read.\<close>

lemma kv_eq_reads:
  assumes "kv_eq m n" "mem_wf m" "mem_wf n"
  shows "mem_get m k = mem_get n k" "mem_exists m k = mem_exists n k" "mem_hget m k f = mem_hget n k f"
    "meq (mem_hgetall m k) (mem_hgetall n k)" "mem_hexists m k f = mem_hexists n k f"
    "mem_hlen m k = mem_hlen n k" "mem_smembers m k = mem_smembers n k"
proof -
  have h: "rel_option meq (mget (kv_hash m) k) (mget (kv_hash n) k)"
    and s: "rel_option (\<lambda>s t. set s = set t) (mget (kv_sets m) k) (mget (kv_sets n) k)"
    using assms by (simp_all add: kv_eq_hash kv_eq_sets)
  show "mem_get m k = mem_get n k" using assms by (simp add: kv_eq_def mem_get_def)
  show "mem_exists m k = mem_exists n k"
    using assms(1) option.rel_sel [THEN iffD1, OF h] option.rel_sel [THEN iffD1, OF s]
    by (simp add: kv_eq_def mem_exists_def)
  have f: "hash_fun m k = hash_fun n k"
    using h by (cases rule: option.rel_cases) (simp_all add: hash_fun_def meq_def fun_eq_iff)
  show "mem_hget m k f = mem_hget n k f" "mem_hexists m k f = mem_hexists n k f"
    by (simp_all add: mem_hget_fun mem_hexists_fun f)
  show "meq (mem_hgetall m k) (mem_hgetall n k)" by (simp add: meq_def mem_hgetall_fun f)
  show "mem_hlen m k = mem_hlen n k"
    by (simp add: mem_hlen_card assms f)
  show "mem_smembers m k = mem_smembers n k"
    using s
  proof (cases rule: option.rel_cases)
    case (Some x y)
    have "set_wf x" "set_wf y"
      by (rule mem_wf_sets [OF assms(2) Some(1)], rule mem_wf_sets [OF assms(3) Some(2)])
    then have "sort x = sort y" using Some(3) by (intro sort_unique) (simp_all add: set_wf_def)
    with Some(1,2) show ?thesis by (simp add: mem_smembers_def)
  qed (simp add: mem_smembers_def)
qed

section \<open>Methods with several arguments as batches\<close>

lemma mem_del_batch: "mem_batch (map op_del ks) m = (Inr (), mem_del ks m)"
  by (induction ks arbitrary: m) (simp_all add: mem_del_def)

lemma mdel_mput_same [simp]: "mdel k (mput k v m) = mdel k m"
  unfolding mdel_def mput_def by (induction m) auto

lemma mput_mput_same [simp]: "mput k v (mput k w m) = mput k v m"
  unfolding mput_def by (induction m) auto

lemma mput_mget_same [simp]: "mget m k = Some v \<Longrightarrow> mput k v m = m"
  unfolding mput_def by (induction m) auto

lemma fold_mdel_Nil [simp]: "fold mdel fs [] = []"
  by (induction fs) (simp_all add: mdel_def)

lemma fold_sdel_Nil [simp]: "fold sdel xs [] = []"
  by (induction xs) (simp_all add: sdel_def)

lemma mem_hdel_absent: "mget (kv_hash m) k = None \<Longrightarrow> mem_hdel k fs m = m"
  by (simp add: mem_hdel_def)

lemma mem_srem_absent: "mget (kv_sets m) k = None \<Longrightarrow> mem_srem k xs m = m"
  by (simp add: mem_srem_def)

lemma mem_hdel_Cons: "mem_wf m \<Longrightarrow> mem_hdel k (f # fs) m = mem_hdel k fs (mem_hdel k [f] m)"
  by (cases "mget (kv_hash m) k"; cases "mdel f (the (mget (kv_hash m) k)) = []")
     (simp_all add: mem_hdel_def Let_def)

lemma mem_srem_Cons: "mem_wf m \<Longrightarrow> mem_srem k (x # xs) m = mem_srem k xs (mem_srem k [x] m)"
  by (cases "mget (kv_sets m) k"; cases "sdel x (the (mget (kv_sets m) k)) = []")
     (simp_all add: mem_srem_def Let_def)

lemma mem_sadd_Cons: "xs \<noteq> [] \<Longrightarrow> mem_sadd k (x # xs) m = mem_sadd k xs (mem_sadd k [x] m)"
  by (simp add: mem_sadd_def Let_def)

lemma mem_hdel_batch: "mem_wf m \<Longrightarrow> mem_batch (map (op_hdel k) fs) m = (Inr (), mem_hdel k fs m)"
proof (induction fs arbitrary: m)
  case Nil
  then show ?case using mem_wf_hash [of m k]
    by (cases "mget (kv_hash m) k") (simp_all add: mem_hdel_def)
next
  case (Cons f fs)
  then show ?case by (simp add: mem_hdel_Cons [of m k f fs])
qed

lemma mem_srem_batch:
  "xs \<noteq> [] \<Longrightarrow> mem_wf m \<Longrightarrow> mem_batch (map (op_srem k) xs) m = (Inr (), mem_srem k xs m)"
proof (induction xs arbitrary: m)
  case (Cons x xs)
  have "mget (kv_sets (mem_srem k [x] m)) k \<noteq> Some []"
    by (cases "mget (kv_sets m) k") (auto simp: mem_srem_def Let_def)
  then have "mem_srem k [] (mem_srem k [x] m) = mem_srem k [x] m"
    by (cases "mget (kv_sets (mem_srem k [x] m)) k") (simp_all add: mem_srem_def [of k "[]"])
  with Cons show ?case by (cases "xs = []") (simp_all add: mem_srem_Cons [of m k x xs])
qed simp

lemma mem_sadd_batch: "xs \<noteq> [] \<Longrightarrow> mem_batch (map (op_sadd k) xs) m = (Inr (), mem_sadd k xs m)"
proof (induction xs arbitrary: m)
  case (Cons x xs)
  then show ?case by (cases "xs = []") (simp_all add: mem_sadd_Cons)
qed simp

end
