(* ===== verification/Kv_Codec.thy ===== *)
theory Kv_Codec
  imports Kv
begin

text \<open>
  The JSON forms of package \<^verbatim>\<open>kv\<close>: an operation (the payload of a Raft log entry) and a
  snapshot of a \<open>MemoryKV\<close> (\<open>Snapshot\<close> and \<open>Restore\<close>). A nil and an empty byte slice are
  not told apart.

  An operation is read back when its strings are valid UTF-8 (\<open>dec_op_enc\<close>), and restoring a
  snapshot gives a store that is equal to the one it was taken from (\<open>restore_snapshot_eq\<close>).
\<close>

section \<open>Operations\<close>

definition omit :: "string \<Rightarrow> json \<Rightarrow> bool \<Rightarrow> (string \<times> json) list" where
  "omit k j z = (if z then [] else [(k, j)])"

definition enc_op :: "op \<Rightarrow> json" where
  "enc_op q = JObj ([(''type'', JStr (op_type q)), (''key'', JStr (op_key q))]
     @ omit ''field'' (JStr (op_field q)) (op_field q = [])
     @ omit ''value'' (enc_bytes (op_value q)) (op_value q = [])
     @ omit ''member'' (JStr (op_member q)) (op_member q = []))"

definition set_op_field :: "string \<Rightarrow> json \<Rightarrow> op \<Rightarrow> op res" where
  "set_op_field k j q =
     (if k = ''type'' then map_sum id (\<lambda>s. q\<lparr>op_type := s\<rparr>) (dec_string j (op_type q))
      else if k = ''key'' then map_sum id (\<lambda>s. q\<lparr>op_key := s\<rparr>) (dec_string j (op_key q))
      else if k = ''field'' then map_sum id (\<lambda>s. q\<lparr>op_field := s\<rparr>) (dec_string j (op_field q))
      else if k = ''value'' then map_sum id (\<lambda>s. q\<lparr>op_value := s\<rparr>) (dec_bytes j (op_value q))
      else if k = ''member'' then map_sum id (\<lambda>s. q\<lparr>op_member := s\<rparr>) (dec_string j (op_member q))
      else Inr q)"

definition dec_op :: "json \<Rightarrow> op \<Rightarrow> op res" where
  "dec_op = dec_struct set_op_field"

definition dec_ops :: "json \<Rightarrow> op list \<Rightarrow> op list res" where
  "dec_ops = dec_list (\<lambda>j. dec_op j op_zero)"

definition op_utf8 :: "op \<Rightarrow> bool" where
  "op_utf8 q \<longleftrightarrow> valid_utf8 (op_type q) \<and> valid_utf8 (op_key q) \<and> valid_utf8 (op_field q)
     \<and> valid_utf8 (op_member q)"

text \<open>A member that is left out for a zero field is read back as that zero.\<close>

lemma omit_step:
  "f (fold_name k) j r = Inr r' \<Longrightarrow> (z \<Longrightarrow> r' = r) \<Longrightarrow> dec_members f (omit k j z @ ms) r = dec_members f ms r'"
  by (simp add: omit_def)

lemma omit_last: "f (fold_name k) j r = Inr r' \<Longrightarrow> (z \<Longrightarrow> r' = r) \<Longrightarrow> dec_members f (omit k j z) r = Inr r'"
  by (simp add: omit_def)

lemma valid_utf8_lits [simp]:
  "valid_utf8 ''type''" "valid_utf8 ''key''" "valid_utf8 ''field''" "valid_utf8 ''value''"
  "valid_utf8 ''member''" "valid_utf8 ''str''" "valid_utf8 ''hash''" "valid_utf8 ''sets''"
  "valid_utf8 ''incrs''"
  by (simp_all add: valid_utf8_Cons_ascii)

lemma fold_name_lits [simp]:
  "fold_name ''type'' = ''type''" "fold_name ''key'' = ''key''" "fold_name ''field'' = ''field''"
  "fold_name ''value'' = ''value''" "fold_name ''member'' = ''member''" "fold_name ''str'' = ''str''"
  "fold_name ''hash'' = ''hash''" "fold_name ''sets'' = ''sets''" "fold_name ''incrs'' = ''incrs''"
  by (simp_all add: fold_name_def lower_char_def)

lemma json_ok_enc_op: "op_utf8 q \<Longrightarrow> json_ok (enc_op q)"
  by (auto simp: enc_op_def op_utf8_def omit_def)

lemma dec_op_enc: "dec_op (enc_op q) op_zero = Inr q"
  by (cases q) (simp add: dec_op_def enc_op_def dec_struct_def set_op_field_def omit_def op_zero_def)

section \<open>Snapshots\<close>

record snapshot_data =
  sd_str :: "(string, bytes) gomap"
  sd_hash :: "(string, (string, bytes) gomap) gomap"
  sd_sets :: "(string, string list) gomap"
  sd_incrs :: "(string, u64) gomap"

definition sd_zero :: snapshot_data where
  "sd_zero = \<lparr>sd_str = [], sd_hash = [], sd_sets = [], sd_incrs = []\<rparr>"

definition snapshot_of :: "memkv \<Rightarrow> snapshot_data" where
  "snapshot_of m = \<lparr>sd_str = kv_str m, sd_hash = kv_hash m,
     sd_sets = map (\<lambda>(k, s). (k, sort s)) (kv_sets m), sd_incrs = kv_incrs m\<rparr>"

definition enc_snapshot :: "snapshot_data \<Rightarrow> json" where
  "enc_snapshot d = JObj
     [(''str'', enc_map enc_bytes (sd_str d)),
      (''hash'', enc_map (enc_map enc_bytes) (sd_hash d)),
      (''sets'', enc_map (\<lambda>xs. JArr (map JStr xs)) (sd_sets d)),
      (''incrs'', enc_map enc_word (sd_incrs d))]"

definition set_snapshot_field :: "string \<Rightarrow> json \<Rightarrow> snapshot_data \<Rightarrow> snapshot_data res" where
  "set_snapshot_field k j d =
     (if k = ''str'' then
        map_sum id (\<lambda>x. d\<lparr>sd_str := x\<rparr>) (dec_map (\<lambda>j. dec_bytes j []) j (sd_str d))
      else if k = ''hash'' then
        map_sum id (\<lambda>x. d\<lparr>sd_hash := x\<rparr>)
          (dec_map (\<lambda>j. dec_map (\<lambda>j. dec_bytes j []) j []) j (sd_hash d))
      else if k = ''sets'' then
        map_sum id (\<lambda>x. d\<lparr>sd_sets := x\<rparr>)
          (dec_map (\<lambda>j. dec_list (\<lambda>j. dec_string j []) j []) j (sd_sets d))
      else if k = ''incrs'' then
        map_sum id (\<lambda>x. d\<lparr>sd_incrs := x\<rparr>) (dec_map (\<lambda>j. dec_word j 0) j (sd_incrs d))
      else Inr d)"

definition mem_snapshot :: "memkv \<Rightarrow> bytes" where
  "mem_snapshot m = json_print (enc_snapshot (snapshot_of m))"

text \<open>\<open>Restore\<close> replaces the four maps, or leaves the store alone when the data does not decode.\<close>

definition mem_restore :: "bytes \<Rightarrow> memkv \<Rightarrow> unit res \<times> memkv" where
  "mem_restore raw m =
     (case unmarshal (dec_struct set_snapshot_field) sd_zero raw of
        Inl e \<Rightarrow> (Inl e, m)
      | Inr d \<Rightarrow> (Inr (), \<lparr>kv_str = sd_str d, kv_hash = sd_hash d,
           kv_sets = map (\<lambda>(k, xs). (k, fold sput xs [])) (sd_sets d), kv_incrs = sd_incrs d\<rparr>))"

text \<open>The strings a store is keyed with, all of which go through JSON in a snapshot.\<close>

definition mem_utf8 :: "memkv \<Rightarrow> bool" where
  "mem_utf8 m \<longleftrightarrow>
     (\<forall>k \<in> set (mkeys (kv_str m)). valid_utf8 k) \<and> (\<forall>k \<in> set (mkeys (kv_incrs m)). valid_utf8 k)
     \<and> (\<forall>(k, h) \<in> set (kv_hash m). valid_utf8 k \<and> (\<forall>f \<in> set (mkeys h). valid_utf8 f))
     \<and> (\<forall>(k, s) \<in> set (kv_sets m). valid_utf8 k \<and> (\<forall>x \<in> set s. valid_utf8 x))"

lemma mget_map_snd: "mget (map (\<lambda>(k, v). (k, f v)) m) k = map_option f (mget m k)"
  by (induction m) auto

lemma mwf_map_snd [simp]: "mwf (map (\<lambda>(k, v). (k, f v)) m) = mwf m"
  by (simp add: mwf_def comp_def case_prod_unfold)

lemma mem_utf8D:
  assumes "mem_utf8 m"
  shows "mget (kv_str m) k = Some v \<Longrightarrow> valid_utf8 k"
    "mget (kv_incrs m) k = Some c \<Longrightarrow> valid_utf8 k"
    "mget (kv_hash m) k = Some h \<Longrightarrow> valid_utf8 k"
    "mget (kv_hash m) k = Some h \<Longrightarrow> mget h f = Some b \<Longrightarrow> valid_utf8 f"
    "mget (kv_sets m) k = Some s \<Longrightarrow> valid_utf8 k"
    "mget (kv_sets m) k = Some s \<Longrightarrow> x \<in> set s \<Longrightarrow> valid_utf8 x"
proof -
  show "mget (kv_str m) k = Some v \<Longrightarrow> valid_utf8 k" "mget (kv_incrs m) k = Some c \<Longrightarrow> valid_utf8 k"
    using assms unfolding mem_utf8_def by (meson mkeys_mem_iff)+
  show "mget (kv_hash m) k = Some h \<Longrightarrow> valid_utf8 k"
    using assms map_of_SomeD [of "kv_hash m" k h] unfolding mem_utf8_def by blast
  show "mget (kv_hash m) k = Some h \<Longrightarrow> mget h f = Some b \<Longrightarrow> valid_utf8 f"
    using assms map_of_SomeD [of "kv_hash m" k h] mkeys_mem_iff [of f h] unfolding mem_utf8_def by blast
  show "mget (kv_sets m) k = Some s \<Longrightarrow> valid_utf8 k"
    "mget (kv_sets m) k = Some s \<Longrightarrow> x \<in> set s \<Longrightarrow> valid_utf8 x"
    using assms map_of_SomeD [of "kv_sets m" k s] unfolding mem_utf8_def by blast+
qed

lemma json_ok_snapshot:
  assumes "mem_utf8 m"
  shows "json_ok (enc_snapshot (snapshot_of m))"
proof -
  note D = mem_utf8D [OF assms]
  have "json_ok (enc_map enc_bytes (kv_str m))" "json_ok (enc_map enc_word (kv_incrs m))"
    by (intro json_ok_enc_map; simp add: D)+
  moreover have "json_ok (enc_map (enc_map enc_bytes) (kv_hash m))"
    by (intro json_ok_enc_map conjI) (auto dest: D(3,4))
  moreover have "json_ok (enc_map (\<lambda>xs. JArr (map JStr xs)) (sd_sets (snapshot_of m)))"
    by (intro json_ok_enc_map) (auto simp: snapshot_of_def mget_map_snd dest: D(5,6))
  ultimately show ?thesis by (simp add: enc_snapshot_def snapshot_of_def)
qed

lemma set_fold_sput_all: "set (fold sput xs s) = set xs \<union> set s"
  by (induction xs arbitrary: s) auto

lemma distinct_fold_sput: "distinct s \<Longrightarrow> distinct (fold sput xs s)"
  by (induction xs arbitrary: s) auto

text \<open>Decoding the four maps of a snapshot.\<close>

lemma dec_bytes_map:
  "\<exists>m'. dec_map (\<lambda>j. dec_bytes j []) (enc_map enc_bytes m) [] = Inr m' \<and> mwf m' \<and> meq m' m"
  using dec_map_enc [of m "\<lambda>j. dec_bytes j []" enc_bytes id]
  by (auto simp: meq_def fun_eq_iff option.map_id0)

definition dec_bytes_map_result :: "(string, bytes) gomap \<Rightarrow> (string, bytes) gomap" where
  "dec_bytes_map_result h =
     (case dec_map (\<lambda>j. dec_bytes j []) (enc_map enc_bytes h) [] of Inr x \<Rightarrow> x | Inl _ \<Rightarrow> [])"

lemma dec_bytes_map_result:
  "dec_map (\<lambda>j. dec_bytes j []) (enc_map enc_bytes h) [] = Inr (dec_bytes_map_result h)"
  "mwf (dec_bytes_map_result h)" "meq (dec_bytes_map_result h) h"
  using dec_bytes_map [of h] by (auto simp: dec_bytes_map_result_def)

lemma dec_snapshot_enc:
  obtains d where "dec_struct set_snapshot_field (enc_snapshot (snapshot_of m)) sd_zero = Inr d"
    "mget (sd_str d) = mget (kv_str m)" "mget (sd_incrs d) = mget (kv_incrs m)"
    "\<And>k. mget (sd_hash d) k = map_option dec_bytes_map_result (mget (kv_hash m) k)"
    "\<And>k. mget (sd_sets d) k = map_option sort (mget (kv_sets m) k)"
    "mwf (sd_str d)" "mwf (sd_incrs d)" "mwf (sd_hash d)" "mwf (sd_sets d)"
proof -
  let ?S = "\<lambda>j. dec_list (\<lambda>j. dec_string j []) j []"
  obtain a where a: "dec_map (\<lambda>j. dec_bytes j []) (enc_map enc_bytes (kv_str m)) [] = Inr a" "mwf a"
    "meq a (kv_str m)" using dec_bytes_map by blast
  obtain b where b: "dec_map (\<lambda>j. dec_map (\<lambda>j. dec_bytes j []) j []) (enc_map (enc_map enc_bytes) (kv_hash m)) [] = Inr b"
    "mwf b" "\<And>k. mget b k = map_option dec_bytes_map_result (mget (kv_hash m) k)"
    using dec_map_enc [of "kv_hash m" "\<lambda>j. dec_map (\<lambda>j. dec_bytes j []) j []" "enc_map enc_bytes"
        dec_bytes_map_result] dec_bytes_map_result(1) by blast
  have "?S (JArr (map JStr xs)) = Inr xs" for xs
    using dec_elems_map [of xs "\<lambda>j. dec_string j []" JStr id] by (simp add: dec_list_def)
  then obtain c where c: "dec_map ?S (enc_map (\<lambda>xs. JArr (map JStr xs)) (sd_sets (snapshot_of m))) [] = Inr c"
    "mwf c" "\<And>k. mget c k = mget (sd_sets (snapshot_of m)) k"
    using dec_map_enc [of "sd_sets (snapshot_of m)" ?S "\<lambda>xs. JArr (map JStr xs)" "\<lambda>xs. xs"]
    by (auto simp: option.map_ident)
  obtain e :: "(string, u64) gomap" where e: "dec_map (\<lambda>j. dec_word j 0) (enc_map enc_word (kv_incrs m)) [] = Inr e" "mwf e"
    "\<And>k. mget e k = mget (kv_incrs m) k"
    using dec_map_enc [of "kv_incrs m" "\<lambda>j. dec_word j 0" enc_word "\<lambda>x. x"] by (auto simp: option.map_ident)
  let ?d = "\<lparr>sd_str = a, sd_hash = b, sd_sets = c, sd_incrs = e\<rparr>"
  have "dec_struct set_snapshot_field (enc_snapshot (snapshot_of m)) sd_zero = Inr ?d"
    using a(1) b(1) c(1) e(1)
    by (simp add: dec_struct_def enc_snapshot_def set_snapshot_field_def sd_zero_def snapshot_of_def)
  moreover have "mget c k = map_option sort (mget (kv_sets m) k)" for k
    by (simp add: c(3) snapshot_of_def mget_map_snd)
  ultimately show thesis using that [of ?d] a b c(2) e by (simp add: meq_def fun_eq_iff)
qed

text \<open>A store restored from a snapshot is the store the snapshot was taken of.\<close>

lemma restore_snapshot_eq:
  assumes "mem_wf m" "mem_utf8 m"
  shows "\<exists>m'. mem_restore (mem_snapshot m) n = (Inr (), m') \<and> kv_eq m' m \<and> mem_wf m'"
proof -
  obtain d where d: "dec_struct set_snapshot_field (enc_snapshot (snapshot_of m)) sd_zero = Inr d"
    "mget (sd_str d) = mget (kv_str m)" "mget (sd_incrs d) = mget (kv_incrs m)"
    "\<And>k. mget (sd_hash d) k = map_option dec_bytes_map_result (mget (kv_hash m) k)"
    "\<And>k. mget (sd_sets d) k = map_option sort (mget (kv_sets m) k)"
    "mwf (sd_str d)" "mwf (sd_incrs d)" "mwf (sd_hash d)" "mwf (sd_sets d)"
    using dec_snapshot_enc [of m] by blast
  let ?m = "\<lparr>kv_str = sd_str d, kv_hash = sd_hash d,
           kv_sets = map (\<lambda>(k, xs). (k, fold sput xs [])) (sd_sets d), kv_incrs = sd_incrs d\<rparr>"
  have r: "mem_restore (mem_snapshot m) n = (Inr (), ?m)"
    by (simp add: mem_restore_def mem_snapshot_def unmarshal_print json_ok_snapshot assms d(1))
  have eq: "kv_eq ?m m"
    by (auto simp: kv_eq_def d mget_map_snd option.rel_map dec_bytes_map_result set_fold_sput_all
        intro: option.rel_refl)
  have "hash_wf h" if "mget (sd_hash d) k = Some h" for k h
    using that mem_wf_hash [OF assms(1), of k]
    by (auto simp: d(4) hash_wf_def dec_bytes_map_result(2) meq_Nil [OF dec_bytes_map_result(3)])
  moreover have "set_wf s" if s: "mget (kv_sets ?m) k = Some s" for k s
  proof -
    obtain t where t: "mget (kv_sets m) k = Some t" "s = fold sput (sort t) []"
      using s by (cases "mget (kv_sets m) k") (simp_all add: mget_map_snd d(5))
    then show ?thesis using mem_wf_sets [OF assms(1) t(1)]
      by (simp add: set_wf_def distinct_fold_sput set_fold_sput_all)
  qed
  ultimately have "mem_wf ?m" using d(6-9) by (simp add: mem_wf_def)
  with r eq show ?thesis by blast
qed

end
