(* ===== verification/Raft_Kv.thy ===== *)
theory Raft_Kv
  imports Kv_Codec
begin

text \<open>
  The replicated store: \<^verbatim>\<open>kv/raft_kv.go\<close> (\<open>RaftKV\<close>) and the state machine behind it,
  \<^verbatim>\<open>raftnode/fsm.go\<close> (\<open>FSM\<close>).

  The Raft library is not part of the sources. What it does with the calls of this code is a
  parameter of the model: the plan of a \<open>raft\<close> value gives the outcome of each proposal in turn.
  A proposal can find the node not to be the leader, be committed and applied to the local state
  machine, be refused and never applied, or report an error although it is applied.

  A value of type \<open>kv\<close> is what a component holds as its \<^verbatim>\<open>kv.KV\<close>: a plain \<open>MemoryKV\<close>, or a
  \<open>RaftKV\<close> with its Raft instance. The locale \<open>kv_backend\<close> states what clients rely on: a batch
  takes effect as a whole or not at all, and a batch that reports success has taken effect.
\<close>

section \<open>The state machine\<close>

definition fsm_apply :: "bytes \<Rightarrow> memkv \<Rightarrow> unit res \<times> memkv" where
  "fsm_apply data m =
     (if data = [] then (Inr (), m)
      else case unmarshal dec_ops [] data of
        Inr (b # bs) \<Rightarrow>
          if op_type b \<noteq> [] then mem_batch (b # bs) m
          else (case unmarshal dec_op op_zero data of Inl e \<Rightarrow> (Inl e, m) | Inr q \<Rightarrow> mem_batch [q] m)
      | _ \<Rightarrow> (case unmarshal dec_op op_zero data of Inl e \<Rightarrow> (Inl e, m) | Inr q \<Rightarrow> mem_batch [q] m))"

definition fsm_snapshot :: "memkv \<Rightarrow> bytes" where
  "fsm_snapshot m = mem_snapshot m"

definition fsm_restore :: "bytes \<Rightarrow> memkv \<Rightarrow> unit res \<times> memkv" where
  "fsm_restore data m = mem_restore data m"

text \<open>A replica applies the entries of the log in order.\<close>

definition fsm_replay :: "bytes list \<Rightarrow> memkv \<Rightarrow> memkv" where
  "fsm_replay log m = fold (\<lambda>d m. snd (fsm_apply d m)) log m"

definition marshal_op :: "op \<Rightarrow> bytes" where
  "marshal_op q = json_print (enc_op q)"

definition marshal_ops :: "op list \<Rightarrow> bytes" where
  "marshal_ops qs = json_print (JArr (map enc_op qs))"

section \<open>RaftKV\<close>

datatype outcome = NotLeader | Commit | Abort err | Ambiguous err

record raft =
  r_plan :: "nat \<Rightarrow> outcome"
  r_tick :: nat

record kv =
  kv_raft :: "raft option"
  kv_mem :: memkv

definition mem_store :: "memkv \<Rightarrow> kv" where
  "mem_store m = \<lparr>kv_raft = None, kv_mem = m\<rparr>"

definition is_leader :: "raft \<Rightarrow> bool" where
  "is_leader r \<longleftrightarrow> r_plan r (r_tick r) \<noteq> NotLeader"

text \<open>The check of the leadership, \<^verbatim>\<open>raft.Apply\<close> and \<^verbatim>\<open>future.Error()\<close>.\<close>

definition raft_submit :: "bytes \<Rightarrow> raft \<Rightarrow> memkv \<Rightarrow> unit res \<times> raft \<times> memkv" where
  "raft_submit data r m =
     (let r' = r\<lparr>r_tick := Suc (r_tick r)\<rparr> in
      case r_plan r (r_tick r) of
        NotLeader \<Rightarrow> (Inl (ErrMsg ''not leader''), r', m)
      | Commit \<Rightarrow> (Inr (), r', snd (fsm_apply data m))
      | Abort e \<Rightarrow> (Inl e, r', m)
      | Ambiguous e \<Rightarrow> (Inl e, r', snd (fsm_apply data m)))"

definition raft_apply :: "op \<Rightarrow> raft \<Rightarrow> memkv \<Rightarrow> unit res \<times> raft \<times> memkv" where
  "raft_apply q r m = raft_submit (marshal_op q) r m"

definition raft_apply_batch :: "op list \<Rightarrow> raft \<Rightarrow> memkv \<Rightarrow> unit res \<times> raft \<times> memkv" where
  "raft_apply_batch qs r m = raft_submit (marshal_ops qs) r m"

fun raft_each :: "op list \<Rightarrow> raft \<Rightarrow> memkv \<Rightarrow> unit res \<times> raft \<times> memkv" where
  "raft_each [] r m = (Inr (), r, m)"
| "raft_each (q # qs) r m =
     (case raft_apply q r m of
        (Inl e, r', m') \<Rightarrow> (Inl e, r', m')
      | (Inr _, r', m') \<Rightarrow> raft_each qs r' m')"

text \<open>\<^verbatim>\<open>fmt.Sscanf(s, "%d", &v)\<close> for an unsigned \<open>v\<close>.\<close>

definition sscanf_uint :: "string \<Rightarrow> u64 res" where
  "sscanf_uint s = parse_u64 (takeWhile is_digit (trim_left_char is_space s))"

definition raft_incr :: "string \<Rightarrow> raft \<Rightarrow> memkv \<Rightarrow> u64 res \<times> raft \<times> memkv" where
  "raft_incr k r m =
     (case raft_apply (op_incr k) r m of
        (Inl e, r', m') \<Rightarrow> (Inl e, r', m')
      | (Inr _, r', m') \<Rightarrow>
          (case mem_get m' k of Inl e \<Rightarrow> (Inl e, r', m') | Inr d \<Rightarrow> (sscanf_uint d, r', m')))"

definition raft_batch :: "op list \<Rightarrow> raft \<Rightarrow> memkv \<Rightarrow> unit res \<times> raft \<times> memkv" where
  "raft_batch qs r m = (if qs = [] then (Inr (), r, m) else raft_apply_batch qs r m)"

section \<open>The interface kv.KV\<close>

definition with_raft :: "kv \<Rightarrow> ('a \<times> memkv) \<Rightarrow> (raft \<Rightarrow> memkv \<Rightarrow> 'a \<times> raft \<times> memkv) \<Rightarrow> 'a \<times> kv" where
  "with_raft s plain repl =
     (case kv_raft s of
        None \<Rightarrow> (fst plain, s\<lparr>kv_mem := snd plain\<rparr>)
      | Some r \<Rightarrow> (case repl r (kv_mem s) of (x, r', m') \<Rightarrow> (x, \<lparr>kv_raft = Some r', kv_mem = m'\<rparr>)))"

definition kv_get :: "kv \<Rightarrow> string \<Rightarrow> bytes res" where
  "kv_get s k = mem_get (kv_mem s) k"
definition kv_exists :: "kv \<Rightarrow> string \<Rightarrow> bool" where
  "kv_exists s k = mem_exists (kv_mem s) k"
definition kv_hget :: "kv \<Rightarrow> string \<Rightarrow> string \<Rightarrow> bytes res" where
  "kv_hget s k f = mem_hget (kv_mem s) k f"
definition kv_hgetall :: "kv \<Rightarrow> string \<Rightarrow> (string, bytes) gomap" where
  "kv_hgetall s k = mem_hgetall (kv_mem s) k"
definition kv_hexists :: "kv \<Rightarrow> string \<Rightarrow> string \<Rightarrow> bool" where
  "kv_hexists s k f = mem_hexists (kv_mem s) k f"
definition kv_hlen :: "kv \<Rightarrow> string \<Rightarrow> nat" where
  "kv_hlen s k = mem_hlen (kv_mem s) k"
definition kv_smembers :: "kv \<Rightarrow> string \<Rightarrow> string list" where
  "kv_smembers s k = mem_smembers (kv_mem s) k"

lemmas kv_reads = kv_get_def kv_exists_def kv_hget_def kv_hgetall_def kv_hexists_def kv_hlen_def
  kv_smembers_def

definition kv_set :: "string \<Rightarrow> bytes \<Rightarrow> kv \<Rightarrow> unit res \<times> kv" where
  "kv_set k v s = with_raft s (Inr (), mem_set k v (kv_mem s)) (raft_apply (op_set k v))"
definition kv_del :: "string list \<Rightarrow> kv \<Rightarrow> unit res \<times> kv" where
  "kv_del ks s = with_raft s (Inr (), mem_del ks (kv_mem s)) (raft_each (map op_del ks))"
definition kv_hset :: "string \<Rightarrow> string \<Rightarrow> bytes \<Rightarrow> kv \<Rightarrow> unit res \<times> kv" where
  "kv_hset k f v s = with_raft s (Inr (), mem_hset k f v (kv_mem s)) (raft_apply (op_hset k f v))"
definition kv_hdel :: "string \<Rightarrow> string list \<Rightarrow> kv \<Rightarrow> unit res \<times> kv" where
  "kv_hdel k fs s = with_raft s (Inr (), mem_hdel k fs (kv_mem s)) (raft_each (map (op_hdel k) fs))"
definition kv_incr :: "string \<Rightarrow> kv \<Rightarrow> u64 res \<times> kv" where
  "kv_incr k s = with_raft s (apfst Inr (mem_incr k (kv_mem s))) (raft_incr k)"
definition kv_sadd :: "string \<Rightarrow> string list \<Rightarrow> kv \<Rightarrow> unit res \<times> kv" where
  "kv_sadd k xs s = with_raft s (Inr (), mem_sadd k xs (kv_mem s)) (raft_each (map (op_sadd k) xs))"
definition kv_srem :: "string \<Rightarrow> string list \<Rightarrow> kv \<Rightarrow> unit res \<times> kv" where
  "kv_srem k xs s = with_raft s (Inr (), mem_srem k xs (kv_mem s)) (raft_each (map (op_srem k) xs))"
definition kv_batch :: "op list \<Rightarrow> kv \<Rightarrow> unit res \<times> kv" where
  "kv_batch qs s = with_raft s (mem_batch qs (kv_mem s)) (raft_batch qs)"

section \<open>The payload of a log entry\<close>

definition op_known :: "op \<Rightarrow> bool" where
  "op_known q \<longleftrightarrow> op_type q \<in> {OpSet, OpDel, OpHSet, OpHDel, OpIncr, OpSAdd, OpSRem}"

definition op_good :: "op \<Rightarrow> bool" where
  "op_good q \<longleftrightarrow> op_known q \<and> op_utf8 q"

lemma valid_utf8_op_types [simp]:
  "valid_utf8 OpSet" "valid_utf8 OpDel" "valid_utf8 OpHSet" "valid_utf8 OpHDel" "valid_utf8 OpIncr"
  "valid_utf8 OpSAdd" "valid_utf8 OpSRem"
  by (simp_all add: op_types valid_utf8_Cons_ascii)

lemma op_good_lits [simp]:
  "op_good (op_set k v) \<longleftrightarrow> valid_utf8 k" "op_good (op_del k) \<longleftrightarrow> valid_utf8 k"
  "op_good (op_hset k f v) \<longleftrightarrow> valid_utf8 k \<and> valid_utf8 f"
  "op_good (op_hdel k f) \<longleftrightarrow> valid_utf8 k \<and> valid_utf8 f"
  "op_good (op_incr k) \<longleftrightarrow> valid_utf8 k"
  "op_good (op_sadd k x) \<longleftrightarrow> valid_utf8 k \<and> valid_utf8 x"
  "op_good (op_srem k x) \<longleftrightarrow> valid_utf8 k \<and> valid_utf8 x"
  by (simp_all add: op_good_def op_known_def op_utf8_def op_lits op_zero_def)

lemma op_known_type: "op_known q \<Longrightarrow> op_type q \<noteq> []"
  by (auto simp: op_known_def op_types)

lemma json_print_nonempty: "json_ok j \<Longrightarrow> json_print j \<noteq> []"
  using json_print_start [of j] by auto

lemma mem_batch_known: "(\<And>q. q \<in> set qs \<Longrightarrow> op_known q) \<Longrightarrow> fst (mem_batch qs m) = Inr ()"
proof (induction qs arbitrary: m)
  case (Cons q qs)
  have "op_known q" by (simp add: Cons.prems)
  then obtain m' where "apply_locked q m = (Inr (), m')"
    by (cases rule: op_kinds [of q]) (auto simp: apply_locked_kinds op_known_def)
  with Cons show ?case by simp
qed simp

text \<open>The state machine decodes what \<open>RaftKV\<close> proposes, and applies exactly that.\<close>

lemma fsm_apply_marshal_op:
  assumes "op_good q"
  shows "fsm_apply (marshal_op q) m = mem_batch [q] m"
proof -
  have ok: "json_ok (enc_op q)" using assms by (simp add: op_good_def json_ok_enc_op)
  have "unmarshal dec_ops [] (marshal_op q) = Inl json_err"
    unfolding marshal_op_def unmarshal_print [OF ok] by (simp add: dec_ops_def dec_list_def enc_op_def)
  moreover have "unmarshal dec_op op_zero (marshal_op q) = Inr q"
    by (simp add: marshal_op_def unmarshal_print ok dec_op_enc)
  ultimately show ?thesis
    using json_print_nonempty [OF ok] by (simp add: fsm_apply_def marshal_op_def)
qed

lemma fsm_apply_marshal_ops_utf8:
  assumes "qs \<noteq> []" "op_type (hd qs) \<noteq> []" "\<And>q. q \<in> set qs \<Longrightarrow> op_utf8 q"
  shows "fsm_apply (marshal_ops qs) m = mem_batch qs m"
proof -
  have ok: "json_ok (JArr (map enc_op qs))"
    using assms by (auto simp: json_ok_enc_op)
  have "unmarshal dec_ops [] (marshal_ops qs) = Inr qs"
    using dec_elems_map [of qs "\<lambda>j. dec_op j op_zero" enc_op id]
    unfolding marshal_ops_def unmarshal_print [OF ok] by (simp add: dec_ops_def dec_list_def dec_op_enc)
  then show ?thesis
    using json_print_nonempty [OF ok] assms(1,2) by (cases qs) (simp_all add: fsm_apply_def marshal_ops_def)
qed

lemma fsm_apply_marshal_ops:
  assumes "qs \<noteq> []" "\<And>q. q \<in> set qs \<Longrightarrow> op_good q"
  shows "fsm_apply (marshal_ops qs) m = mem_batch qs m"
  using assms by (intro fsm_apply_marshal_ops_utf8) (auto simp: op_good_def op_known_type)

lemma kv_eq_fsm_apply: "kv_eq m n \<Longrightarrow> kv_eq (snd (fsm_apply d m)) (snd (fsm_apply d n))"
  by (auto simp: fsm_apply_def kv_eq_batch simp del: mem_batch.simps split: sum.split list.split)

lemma mem_wf_fsm_apply: "mem_wf m \<Longrightarrow> mem_wf (snd (fsm_apply d m))"
  by (auto simp: fsm_apply_def simp del: mem_batch.simps split: sum.split list.split)

lemma kv_eq_replay: "kv_eq m n \<Longrightarrow> kv_eq (fsm_replay log m) (fsm_replay log n)"
  unfolding fsm_replay_def by (induction log arbitrary: m n) (simp_all add: kv_eq_fsm_apply)

lemma mem_wf_replay: "mem_wf m \<Longrightarrow> mem_wf (fsm_replay log m)"
  unfolding fsm_replay_def by (induction log arbitrary: m) (simp_all add: mem_wf_fsm_apply)

section \<open>The contract of a key-value backend\<close>

locale kv_backend =
  fixes view :: "'s \<Rightarrow> memkv"
    and batch :: "op list \<Rightarrow> 's \<Rightarrow> unit res \<times> 's"
  assumes batch_ok:
      "\<lbrakk>\<forall>q \<in> set qs. op_good q; batch qs s = (Inr u, s')\<rbrakk> \<Longrightarrow> view s' = snd (mem_batch qs (view s))"
    and batch_fail:
      "\<lbrakk>\<forall>q \<in> set qs. op_good q; batch qs s = (Inl e, s')\<rbrakk> \<Longrightarrow>
         view s' = view s \<or> view s' = snd (mem_batch qs (view s))"
begin

lemma batch_atomic:
  "\<forall>q \<in> set qs. op_good q \<Longrightarrow>
     view (snd (batch qs s)) = view s \<or> view (snd (batch qs s)) = snd (mem_batch qs (view s))"
  using batch_ok [of qs s] batch_fail [of qs s]
  by (cases "batch qs s"; cases "fst (batch qs s)") auto

lemma batch_invariant:
  assumes "\<forall>q \<in> set qs. op_good q" "P (view s)" "P (view s) \<Longrightarrow> P (snd (mem_batch qs (view s)))"
  shows "P (view (snd (batch qs s)))"
  using batch_atomic [OF assms(1), of s] assms(2,3) by auto

lemma batch_wf:
  "\<forall>q \<in> set qs. op_good q \<Longrightarrow> mem_wf (view s) \<Longrightarrow> mem_wf (view (snd (batch qs s)))"
  by (rule batch_invariant) simp_all

end

text \<open>A plain \<open>MemoryKV\<close> keeps the contract, and never fails on good operations.\<close>

interpretation mem: kv_backend "\<lambda>m. m" mem_batch
proof unfold_locales
  fix qs s e s'
  assume "\<forall>q \<in> set qs. op_good q" "mem_batch qs s = (Inl e, s')"
  then show "s' = s \<or> s' = snd (mem_batch qs s)" by simp
qed simp

text \<open>So does every \<open>kv\<close>, whatever the Raft library answers.\<close>

interpretation kvb: kv_backend kv_mem kv_batch
proof unfold_locales
  fix qs s u s'
  assume g: "\<forall>q \<in> set qs. op_good q" and "kv_batch qs s = (Inr u, s')"
  then show "kv_mem s' = snd (mem_batch qs (kv_mem s))"
    by (auto simp: kv_batch_def with_raft_def raft_batch_def raft_apply_batch_def raft_submit_def Let_def
        fsm_apply_marshal_ops split: option.splits if_splits outcome.splits)
next
  fix qs s e s'
  assume g: "\<forall>q \<in> set qs. op_good q" and "kv_batch qs s = (Inl e, s')"
  then show "kv_mem s' = kv_mem s \<or> kv_mem s' = snd (mem_batch qs (kv_mem s))"
    by (auto simp: kv_batch_def with_raft_def raft_batch_def raft_apply_batch_def raft_submit_def Let_def
        fsm_apply_marshal_ops split: option.splits if_splits outcome.splits)
qed

section \<open>The single operations of a key-value store\<close>

text \<open>
  What a call leaves behind: a prefix of its operations (all of them, or none, for the calls that
  propose one entry), and all of them when it reports success.
\<close>

definition kv_effect :: "'a res \<Rightarrow> op list \<Rightarrow> memkv \<Rightarrow> memkv \<Rightarrow> bool" where
  "kv_effect r qs m m' \<longleftrightarrow>
     (\<exists>ps rest. qs = ps @ rest \<and> m' = snd (mem_batch ps m)) \<and> (isl r \<or> m' = snd (mem_batch qs m))"

lemma kv_effect_refl: "kv_effect (Inl e) qs m m"
  unfolding kv_effect_def by (auto intro: exI [of _ "[]"])

lemma kv_effect_full: "kv_effect r qs m (snd (mem_batch qs m))"
  unfolding kv_effect_def by (auto intro: exI [of _ qs])

lemma kv_effect_single: "kv_effect r [q] m m' \<Longrightarrow> m' = m \<or> m' = snd (mem_batch [q] m)"
  unfolding kv_effect_def by (auto simp: Cons_eq_append_conv simp del: mem_batch.simps(2))

lemma raft_apply_effect:
  assumes "op_good q" "raft_apply q r m = (x, r', m')"
  shows "kv_effect x [q] m m'"
  using assms fsm_apply_marshal_op [OF assms(1), of m] kv_effect_full [of x "[q]" m] kv_effect_refl
  by (auto simp: raft_apply_def raft_submit_def Let_def simp del: mem_batch.simps split: outcome.splits)

lemma kv_effect_Cons:
  assumes "snd (mem_batch [q] m) = m1" "op_known q" "kv_effect r qs m1 m'"
  shows "kv_effect r (q # qs) m m'"
proof -
  have *: "snd (mem_batch (q # ps) m) = snd (mem_batch ps m1)" for ps
    using assms(1) mem_batch_known [of "[q]" m] assms(2) mem_batch_append [of "[q]" ps m]
    by (cases "mem_batch [q] m") (auto split: sum.splits)
  obtain ps rest where "qs = ps @ rest" "m' = snd (mem_batch ps m1)"
    using assms(3) by (auto simp: kv_effect_def)
  then have "q # qs = (q # ps) @ rest" "m' = snd (mem_batch (q # ps) m)" using * by auto
  moreover have "isl r \<or> m' = snd (mem_batch (q # qs) m)"
    using assms(3) * by (simp only: kv_effect_def)
  ultimately show ?thesis unfolding kv_effect_def by blast
qed

lemma raft_each_effect:
  "(\<And>q. q \<in> set qs \<Longrightarrow> op_good q) \<Longrightarrow> raft_each qs r m = (x, r', m') \<Longrightarrow> kv_effect x qs m m'"
proof (induction qs arbitrary: r m)
  case Nil
  then show ?case using kv_effect_full [of x "[]" m] by simp
next
  case (Cons q qs)
  obtain y r1 m1 where a: "raft_apply q r m = (y, r1, m1)" by (cases "raft_apply q r m") auto
  have good: "op_good q" using Cons.prems by simp
  note e = raft_apply_effect [OF good a]
  show ?case
  proof (cases y)
    case (Inl err)
    have "m1 = m \<or> m1 = snd (mem_batch [q] m)" using e by (rule kv_effect_single)
    moreover have "kv_effect x (q # qs) m m" "kv_effect x (q # qs) m (snd (mem_batch [q] m))"
      if "x = Inl err" using that kv_effect_refl unfolding kv_effect_def
      by (auto intro: exI [of _ "[q]"] simp del: mem_batch.simps(2))
    ultimately show ?thesis using Cons.prems(2) a Inl by auto
  next
    case (Inr u)
    then have "snd (mem_batch [q] m) = m1" using e by (simp add: kv_effect_def del: mem_batch.simps)
    moreover have "kv_effect x qs m1 m'" using Cons a Inr by simp
    ultimately show ?thesis using good by (intro kv_effect_Cons) (auto simp: op_good_def)
  qed
qed

lemma raft_each_commit:
  assumes "\<forall>n. r_plan r n = Commit" "\<forall>q \<in> set qs. op_good q"
  shows "\<exists>r'. raft_each qs r m = (Inr (), r', snd (mem_batch qs m))"
  using assms
proof (induction qs arbitrary: r m)
  case (Cons q qs)
  let ?r = "r\<lparr>r_tick := Suc (r_tick r)\<rparr>"
  have good: "op_good q" using Cons.prems by simp
  then have a: "raft_apply q r m = (Inr (), ?r, snd (mem_batch [q] m))"
    using Cons.prems(1) by (simp add: raft_apply_def raft_submit_def Let_def fsm_apply_marshal_op del: mem_batch.simps)
  have "\<exists>r'. raft_each qs ?r (snd (mem_batch [q] m)) = (Inr (), r', snd (mem_batch qs (snd (mem_batch [q] m))))"
    using Cons by (intro Cons.IH) simp_all
  moreover have "mem_batch (q # qs) m = mem_batch qs (snd (mem_batch [q] m))"
    using mem_batch_known [of "[q]" m] good mem_batch_append [of "[q]" qs m]
    by (cases "mem_batch [q] m") (auto simp: op_good_def split: sum.splits)
  ultimately show ?case using a by (simp del: mem_batch.simps)
qed simp

lemma with_raft_effect:
  assumes "fst (with_raft s (Inr x, snd (mem_batch qs (kv_mem s))) f) = y"
    and "\<And>r z r' m'. f r (kv_mem s) = (z, r', m') \<Longrightarrow> kv_effect z qs (kv_mem s) m'"
  shows "kv_effect y qs (kv_mem s) (kv_mem (snd (with_raft s (Inr x, snd (mem_batch qs (kv_mem s))) f)))"
  using assms kv_effect_full by (auto simp: with_raft_def split: option.splits prod.splits)

lemma kv_set_effect: "valid_utf8 k \<Longrightarrow> kv_effect (fst (kv_set k v s)) [op_set k v] (kv_mem s) (kv_mem (snd (kv_set k v s)))"
  using with_raft_effect [of s "()" "[op_set k v]" "raft_apply (op_set k v)"] raft_apply_effect
  by (simp add: kv_set_def)

lemma kv_hset_effect:
  "valid_utf8 k \<Longrightarrow> valid_utf8 f \<Longrightarrow>
     kv_effect (fst (kv_hset k f v s)) [op_hset k f v] (kv_mem s) (kv_mem (snd (kv_hset k f v s)))"
  using with_raft_effect [of s "()" "[op_hset k f v]" "raft_apply (op_hset k f v)"] raft_apply_effect
  by (simp add: kv_hset_def)

lemma kv_del_effect:
  assumes "\<And>k. k \<in> set ks \<Longrightarrow> valid_utf8 k"
  shows "kv_effect (fst (kv_del ks s)) (map op_del ks) (kv_mem s) (kv_mem (snd (kv_del ks s)))"
proof -
  have "kv_effect z (map op_del ks) (kv_mem s) m'" if "raft_each (map op_del ks) r (kv_mem s) = (z, r', m')"
    for r z r' m' using that assms by (intro raft_each_effect) auto
  then show ?thesis
    using with_raft_effect [of s "()" "map op_del ks" "raft_each (map op_del ks)"]
    by (simp add: kv_del_def mem_del_batch)
qed

lemma kv_sadd_effect:
  "valid_utf8 k \<Longrightarrow> valid_utf8 x \<Longrightarrow>
     kv_effect (fst (kv_sadd k [x] s)) [op_sadd k x] (kv_mem s) (kv_mem (snd (kv_sadd k [x] s)))"
  using with_raft_effect [of s "()" "[op_sadd k x]" "raft_each [op_sadd k x]"]
    raft_each_effect [of "[op_sadd k x]"] by (simp add: kv_sadd_def)

lemma kv_srem_effect:
  "valid_utf8 k \<Longrightarrow> valid_utf8 x \<Longrightarrow>
     kv_effect (fst (kv_srem k [x] s)) [op_srem k x] (kv_mem s) (kv_mem (snd (kv_srem k [x] s)))"
  using with_raft_effect [of s "()" "[op_srem k x]" "raft_each [op_srem k x]"]
    raft_each_effect [of "[op_srem k x]"] by (simp add: kv_srem_def)

lemma sscanf_format [simp]: "sscanf_uint (format_uint v) = Inr v"
proof -
  have d: "is_digit c" if "c \<in> set (format_uint v)" for c
    using that is_digit_format_nat by (auto simp: format_uint_def)
  have "\<not> is_space c" if "c \<in> set (format_uint v)" for c
    using format_nat_digits [of c "unat v"] that by (auto simp: is_space_def format_uint_def)
  then have "dropWhile is_space (format_uint v) = format_uint v"
    by (cases "format_uint v") auto
  then have "sscanf_uint (format_uint v) = parse_u64 (takeWhile is_digit (format_uint v))"
    by (simp add: sscanf_uint_def trim_left_char_def)
  also have "takeWhile is_digit (format_uint v) = format_uint v"
    using d by simp
  finally show ?thesis by simp
qed

lemma kv_incr_ok:
  assumes "valid_utf8 k" "kv_incr k s = (Inr v, s')"
  shows "v = incr_val (kv_mem s) k + 1" "kv_mem s' = snd (mem_incr k (kv_mem s))"
  using assms fsm_apply_marshal_op [of "op_incr k" "kv_mem s"]
  by (auto simp: kv_incr_def with_raft_def raft_incr_def raft_apply_def raft_submit_def Let_def mem_get_def
      split: option.splits outcome.splits)

lemma kv_incr_fail:
  assumes "valid_utf8 k" "kv_incr k s = (Inl e, s')"
  shows "kv_mem s' = kv_mem s \<or> kv_mem s' = snd (mem_incr k (kv_mem s))"
  using assms fsm_apply_marshal_op [of "op_incr k" "kv_mem s"]
  by (auto simp: kv_incr_def with_raft_def raft_incr_def raft_apply_def raft_submit_def Let_def mem_get_def
      split: option.splits outcome.splits)

section \<open>Properties\<close>

text \<open>
  C8. A replica that joins late ends in the state of the replicas that saw the whole log: it
  restores, over whatever it held, the snapshot a replica took after the first part of the log,
  and applies the rest. Restoring succeeds, and the result answers every read as the store that
  replayed the whole log does (\<open>kv_eq\<close>, and both stores are well formed).
\<close>

theorem snapshot_then_replay:
  assumes "mem_wf m0" "mem_utf8 (fsm_replay log1 m0)"
  shows "\<exists>m. fsm_restore (fsm_snapshot (fsm_replay log1 m0)) old = (Inr (), m)
     \<and> kv_eq (fsm_replay log2 m) (fsm_replay (log1 @ log2) m0)
     \<and> mem_wf (fsm_replay log2 m)"
proof -
  obtain m where m: "mem_restore (mem_snapshot (fsm_replay log1 m0)) old = (Inr (), m)"
    "kv_eq m (fsm_replay log1 m0)" "mem_wf m"
    using restore_snapshot_eq [OF mem_wf_replay [OF assms(1)] assms(2)] by blast
  have "fsm_replay (log1 @ log2) m0 = fsm_replay log2 (fsm_replay log1 m0)"
    by (simp add: fsm_replay_def)
  with m show ?thesis
    using kv_eq_replay [OF m(2), of log2] mem_wf_replay [OF m(3)]
    by (auto simp: fsm_restore_def fsm_snapshot_def)
qed

theorem snapshot_then_replay_witness:
  "\<exists>m. fsm_restore (fsm_snapshot (fsm_replay [marshal_op (op_set ''a'' ''1'')] new_memory_kv)) new_memory_kv
      = (Inr (), m)
     \<and> kv_eq (fsm_replay [marshal_op (op_incr ''n'')] m)
         (fsm_replay ([marshal_op (op_set ''a'' ''1'')] @ [marshal_op (op_incr ''n'')]) new_memory_kv)
     \<and> mem_wf (fsm_replay [marshal_op (op_incr ''n'')] m)"
proof (rule snapshot_then_replay)
  have "valid_utf8 ''a''" by (simp add: valid_utf8_Cons_ascii)
  then show "mem_utf8 (fsm_replay [marshal_op (op_set ''a'' ''1'')] new_memory_kv)"
    by (simp add: fsm_replay_def fsm_apply_marshal_op mem_set_def new_memory_kv_def mem_utf8_def mput_def)
qed simp





text \<open>
  An operation of unknown type stops a batch half way: \<open>MemoryKV\<close> keeps the effects of the
  operations before it, drops the ones after it, and returns the error. Over Raft the same entry
  is committed, the error stays in the state machine's answer, and the caller is told of success.
\<close>

lemma batch_unknown_type:
  assumes "\<forall>q \<in> set ps. op_good q" "op_utf8 q" "\<forall>q \<in> set rest. op_utf8 q" "\<not> op_known q" "ps \<noteq> []"
    and "r_plan r (r_tick r) = Commit"
  shows "mem_batch (ps @ q # rest) m
       = (Inl (ErrMsg (''unknown op type: '' @ op_type q)), snd (mem_batch ps m))
    \<and> fst (kv_batch (ps @ q # rest) \<lparr>kv_raft = Some r, kv_mem = m\<rparr>) = Inr ()
    \<and> kv_mem (snd (kv_batch (ps @ q # rest) \<lparr>kv_raft = Some r, kv_mem = m\<rparr>)) = snd (mem_batch ps m)"
proof -
  obtain m1 where ps: "mem_batch ps m = (Inr (), m1)"
    using mem_batch_known [of ps m] assms(1) by (cases "mem_batch ps m") (auto simp: op_good_def)
  have 1: "mem_batch (ps @ q # rest) m
       = (Inl (ErrMsg (''unknown op type: '' @ op_type q)), snd (mem_batch ps m))"
    using assms(4) by (simp add: mem_batch_append ps apply_locked_kinds(8) op_known_def)
  have 2: "fsm_apply (marshal_ops (ps @ q # rest)) m = mem_batch (ps @ q # rest) m"
    using assms(1-3,5) op_known_type [of "hd ps"] by (intro fsm_apply_marshal_ops_utf8) (auto simp: op_good_def)
  have "kv_batch (ps @ q # rest) \<lparr>kv_raft = Some r, kv_mem = m\<rparr>
      = (Inr (), \<lparr>kv_raft = Some (r\<lparr>r_tick := Suc (r_tick r)\<rparr>), kv_mem = snd (mem_batch ps m)\<rparr>)"
    using assms(6) by (simp add: kv_batch_def with_raft_def raft_batch_def raft_apply_batch_def
        raft_submit_def 2 1)
  with 1 show ?thesis by simp
qed

end
