(* ===== verification/Layout.thy ===== *)
theory Layout
  imports Codec
begin

text \<open>
  \<^verbatim>\<open>meta/layout.go\<close>: how a file offset maps to a logical chunk of 64 MiB, a block of 4 MiB in
  it and an offset in the block, and the names of chunks and blocks. Go's \<open>int\<close> and \<open>int64\<close> are
  \<open>int\<close> here; the offsets are non-negative and below \<open>2 ^ 63\<close>, so nothing overflows.
\<close>

definition BlockSize :: int where "BlockSize = 4194304"
definition ChunkSize :: int where "ChunkSize = 67108864"
definition BlocksPerChunk :: int where "BlocksPerChunk = ChunkSize div BlockSize"

definition format_int :: "int \<Rightarrow> string" where
  "format_int i = (if i < 0 then CHR ''-'' # format_nat (nat (- i)) else format_nat (nat i))"

definition ChunkID :: "u64 \<Rightarrow> int \<Rightarrow> string" where
  "ChunkID ino chunkIdx = format_uint ino @ ''_'' @ format_int chunkIdx"

definition BlockID :: "u64 \<Rightarrow> int \<Rightarrow> int \<Rightarrow> string" where
  "BlockID ino chunkIdx blockIdx = format_uint ino @ ''_'' @ format_int chunkIdx @ ''_'' @ format_int blockIdx"

definition LegacyChunkID :: "u64 \<Rightarrow> int \<Rightarrow> string" where
  "LegacyChunkID ino legacyIdx = format_uint ino @ ''_'' @ format_int legacyIdx"

definition LocateBlock :: "int \<Rightarrow> int \<times> int \<times> int" where
  "LocateBlock offset =
     (let offset = (if offset < 0 then 0 else offset);
          chunkIdx = offset div ChunkSize;
          chunkOff = offset mod ChunkSize;
          blockIdx = chunkOff div BlockSize;
          blockOff = chunkOff mod BlockSize
      in (chunkIdx, blockIdx, blockOff))"

definition LegacyBlockIndex :: "int \<Rightarrow> int \<Rightarrow> int" where
  "LegacyBlockIndex chunkIdx blockIdx = chunkIdx * BlocksPerChunk + blockIdx"

lemmas layout_sizes = BlockSize_def ChunkSize_def BlocksPerChunk_def

lemma format_int_inject [simp]: "format_int i = format_int j \<longleftrightarrow> i = j"
proof -
  have "CHR ''-'' \<notin> set (format_nat n)" for n
    using format_nat_digits [of "CHR ''-''" n] by auto
  then have neg: "CHR ''-'' # s \<noteq> format_nat n" for s n
    by (metis list.set_intros(1))
  show ?thesis by (auto simp: format_int_def neg neg [symmetric])
qed

lemma underscore_notin_format_int [simp]: "CHR ''_'' \<notin> set (format_int i)"
  by (simp add: format_int_def)

text \<open>
  C39. The layout of a file is a bijection: a block number below \<open>BlocksPerChunk\<close> and an offset
  below \<open>BlockSize\<close> are computed for every offset, they give the offset back, the position in the
  old layout (one slice of \<open>BlockSize\<close> per index) is the quotient of the offset, and different
  offsets have different positions.
\<close>

theorem locate_block_correct:
  assumes "0 \<le> off"
  shows "case LocateBlock off of (c, b, r) \<Rightarrow>
      0 \<le> c \<and> 0 \<le> b \<and> b < BlocksPerChunk \<and> 0 \<le> r \<and> r < BlockSize
      \<and> c * ChunkSize + b * BlockSize + r = off
      \<and> LegacyBlockIndex c b = off div BlockSize \<and> r = off mod BlockSize
      \<and> (\<forall>off' \<ge> 0. LocateBlock off' = (c, b, r) \<longrightarrow> off' = off)"
proof -
  have eq: "c * ChunkSize + b * BlockSize + r = x" if "LocateBlock x = (c, b, r)" "0 \<le> x" for x c b r
    using that by (auto simp: LocateBlock_def Let_def layout_sizes)
  obtain c b r where l: "LocateBlock off = (c, b, r)" by (cases "LocateBlock off")
  have c: "c = off div ChunkSize" "b = off mod ChunkSize div BlockSize"
    "r = off mod ChunkSize mod BlockSize"
    using l assms by (auto simp: LocateBlock_def Let_def)
  have bnd: "0 \<le> c" "0 \<le> b" "b < BlocksPerChunk" "0 \<le> r" "r < BlockSize"
    using assms by (auto simp: c layout_sizes)
  have off: "off = BlockSize * LegacyBlockIndex c b + r"
    using eq [OF l assms] by (simp add: layout_sizes LegacyBlockIndex_def)
  have "off div BlockSize = LegacyBlockIndex c b" "off mod BlockSize = r"
    by (rule int_div_pos_eq [OF off bnd(4,5)], rule int_mod_pos_eq [OF off bnd(4,5)])
  moreover have "\<forall>off' \<ge> 0. LocateBlock off' = (c, b, r) \<longrightarrow> off' = off"
    using eq [OF l assms] eq by blast
  ultimately show ?thesis using bnd eq [OF l assms] unfolding l by simp
qed

theorem locate_block_correct_witness:
  "case LocateBlock 71303173 of (c, b, r) \<Rightarrow>
      0 \<le> c \<and> 0 \<le> b \<and> b < BlocksPerChunk \<and> 0 \<le> r \<and> r < BlockSize
      \<and> c * ChunkSize + b * BlockSize + r = 71303173
      \<and> LegacyBlockIndex c b = 71303173 div BlockSize \<and> r = 71303173 mod BlockSize
      \<and> (\<forall>off' \<ge> 0. LocateBlock off' = (c, b, r) \<longrightarrow> off' = 71303173)"
  by (rule locate_block_correct) simp

text \<open>
  Block names identify blocks: two names are equal only for the same inode, chunk and block,
  and no block name is a chunk name, so the two kinds of ids never meet in a chunk store.
\<close>

lemma block_id_injective:
  "(BlockID i c b = BlockID i' c' b' \<longleftrightarrow> i = i' \<and> c = c' \<and> b = b')
   \<and> (ChunkID i c = ChunkID i' c' \<longleftrightarrow> i = i' \<and> c = c')
   \<and> BlockID i c b \<noteq> ChunkID i' c' \<and> BlockID i c b \<noteq> LegacyChunkID i' c'"
proof -
  have split: "split_on CHR ''_'' (BlockID i c b) = [format_uint i, format_int c, format_int b]" for i c b
    by (simp add: BlockID_def split_on_append_sep split_on_no_sep)
  have split2: "split_on CHR ''_'' (ChunkID i c) = [format_uint i, format_int c]" for i c
    by (simp add: ChunkID_def split_on_append_sep split_on_no_sep)
  have eq: "LegacyChunkID = ChunkID" by (simp add: fun_eq_iff LegacyChunkID_def ChunkID_def)
  have "i = i' \<and> c = c' \<and> b = b'" if "BlockID i c b = BlockID i' c' b'"
    using split [of i c b] unfolding that split by simp
  moreover have "i = i' \<and> c = c'" if "ChunkID i c = ChunkID i' c'"
    using split2 [of i c] unfolding that split2 by simp
  moreover have "BlockID i c b \<noteq> ChunkID i' c'" using split [of i c b] split2 [of i' c'] by auto
  ultimately show ?thesis by (metis eq)
qed

end
