(* ===== verification/Chunk_Store.thy ===== *)
theory Chunk_Store
  imports Layout
begin

text \<open>
  The local chunk stores of package \<^verbatim>\<open>chunk\<close>: in memory (\<^verbatim>\<open>memory.go\<close>, \<^verbatim>\<open>prealloc.go\<close>), on
  disk (\<^verbatim>\<open>disk.go\<close>) and with a byte quota (\<^verbatim>\<open>memory.go\<close>, \<^verbatim>\<open>store_open.go\<close>), the choice
  between them, and the removal of orphans.

  A chunk in memory is a Go slice: a backing array and a length. \<open>Put\<close> reuses the array of the
  old chunk when it is large enough, so the model keeps both. A disk is a map from paths to
  contents; what the operating system does with a call (success, or an error at one of its steps)
  is an argument. Chunk ids are taken to be single path components.
\<close>

section \<open>Memory\<close>

record slice =
  sl_buf :: bytes
  sl_len :: nat

definition slice_bytes :: "slice \<Rightarrow> bytes" where
  "slice_bytes sl = take (sl_len sl) (sl_buf sl)"

type_synonym mem_chunks = "(string, slice) gomap"

definition ms_get :: "mem_chunks \<Rightarrow> string \<Rightarrow> bytes option" where
  "ms_get c k = (case mget c k of None \<Rightarrow> None | Some sl \<Rightarrow> Some (slice_bytes sl))"

definition ms_put :: "string \<Rightarrow> bytes \<Rightarrow> mem_chunks \<Rightarrow> mem_chunks" where
  "ms_put k d c =
     (case mget c k of
        Some old \<Rightarrow>
          if length d \<le> length (sl_buf old)
          then mput k \<lparr>sl_buf = d @ drop (length d) (sl_buf old), sl_len = length d\<rparr> c
          else mput k \<lparr>sl_buf = d, sl_len = length d\<rparr> c
      | None \<Rightarrow> mput k \<lparr>sl_buf = d, sl_len = length d\<rparr> c)"

definition ms_delete :: "string \<Rightarrow> mem_chunks \<Rightarrow> mem_chunks" where
  "ms_delete k c = mdel k c"

definition ms_list :: "mem_chunks \<Rightarrow> string list" where
  "ms_list c = sort (mkeys c)"

definition ms_count :: "mem_chunks \<Rightarrow> nat" where
  "ms_count c = length c"

definition ms_usage :: "mem_chunks \<Rightarrow> int" where
  "ms_usage c = fold (\<lambda>(k, sl) n. n + int (length (slice_bytes sl))) c 0"

definition qm_put :: "int \<Rightarrow> string \<Rightarrow> bytes \<Rightarrow> mem_chunks \<Rightarrow> unit res \<times> mem_chunks" where
  "qm_put quota k d c =
     (let used = ms_usage c; old = (case ms_get c k of None \<Rightarrow> 0 | Some x \<Rightarrow> int (length x)) in
      if 0 < quota \<and> quota < used - old + int (length d) then (Inl (ErrMsg ''memory quota exceeded''), c)
      else (Inr (), ms_put k d c))"

section \<open>Disk\<close>

record disk =
  dk_dir :: string
  dk_files :: "(string, bytes) gomap"

definition chunkPath :: "disk \<Rightarrow> string \<Rightarrow> string" where
  "chunkPath d k =
     (if 2 \<le> length k then dk_dir d @ ''/'' @ take 2 k @ ''/'' @ k else dk_dir d @ ''/'' @ k)"

text \<open>What the operating system answers to the three calls of a write, and to a removal.\<close>

datatype os_put = OsOk | OsMkdirErr err | OsWriteErr err nat | OsRenameErr err

definition ds_get :: "disk \<Rightarrow> string \<Rightarrow> bytes option" where
  "ds_get d k = mget (dk_files d) (chunkPath d k)"

definition ds_put :: "os_put \<Rightarrow> string \<Rightarrow> bytes \<Rightarrow> disk \<Rightarrow> unit res \<times> disk" where
  "ds_put os k v d =
     (let path = chunkPath d k; tmp = path @ ''.tmp'' in
      case os of
        OsMkdirErr e \<Rightarrow> (Inl e, d)
      | OsWriteErr e n \<Rightarrow> (Inl e, d\<lparr>dk_files := mput tmp (take n v) (dk_files d)\<rparr>)
      | OsRenameErr e \<Rightarrow> (Inl e, d\<lparr>dk_files := mput tmp v (dk_files d)\<rparr>)
      | OsOk \<Rightarrow> (Inr (), d\<lparr>dk_files := mput path v (mdel tmp (mput tmp v (dk_files d)))\<rparr>))"

definition ds_delete :: "err option \<Rightarrow> string \<Rightarrow> disk \<Rightarrow> unit res \<times> disk" where
  "ds_delete os k d =
     (case os of
        Some e \<Rightarrow> (Inl e, d)
      | None \<Rightarrow> (Inr (), d\<lparr>dk_files := mdel (chunkPath d k) (dk_files d)\<rparr>))"

text \<open>\<^verbatim>\<open>filepath.Base\<close> and the walk over the files under the directory.\<close>

definition base_name :: "string \<Rightarrow> string" where
  "base_name p = last (split_on CHR ''/'' p)"

definition ds_walk :: "disk \<Rightarrow> (string \<times> bytes) list" where
  "ds_walk d = filter (\<lambda>(p, v). has_prefix p (dk_dir d @ ''/'') \<and> \<not> has_suffix p ''.tmp'') (dk_files d)"

definition ds_list :: "disk \<Rightarrow> string list" where
  "ds_list d = sort (map (\<lambda>(p, v). base_name p) (ds_walk d))"

definition ds_count :: "disk \<Rightarrow> nat" where
  "ds_count d = length (ds_list d)"

definition ds_usage :: "disk \<Rightarrow> int" where
  "ds_usage d = fold (\<lambda>(p, v) n. n + int (length v)) (ds_walk d) 0"

definition qd_put :: "int \<Rightarrow> os_put \<Rightarrow> string \<Rightarrow> bytes \<Rightarrow> disk \<Rightarrow> unit res \<times> disk" where
  "qd_put quota os k v d =
     (let used = ds_usage d; old = (case ds_get d k of None \<Rightarrow> 0 | Some x \<Rightarrow> int (length x)) in
      if 0 < quota \<and> quota < used - old + int (length v) then (Inl (ErrMsg ''disk quota exceeded''), d)
      else ds_put os k v d)"

section \<open>The interface chunk.Store\<close>

datatype store =
    MemoryStore mem_chunks
  | QuotaMemory int mem_chunks
  | PreallocMemory int mem_chunks
  | DiskStore disk
  | QuotaDisk int disk

fun st_get :: "store \<Rightarrow> string \<Rightarrow> bytes option" where
  "st_get (MemoryStore c) k = ms_get c k"
| "st_get (QuotaMemory q c) k = ms_get c k"
| "st_get (PreallocMemory q c) k = ms_get c k"
| "st_get (DiskStore d) k = ds_get d k"
| "st_get (QuotaDisk q d) k = ds_get d k"

fun st_put :: "os_put \<Rightarrow> string \<Rightarrow> bytes \<Rightarrow> store \<Rightarrow> unit res \<times> store" where
  "st_put os k v (MemoryStore c) = (Inr (), MemoryStore (ms_put k v c))"
| "st_put os k v (QuotaMemory q c) = apsnd (QuotaMemory q) (qm_put q k v c)"
| "st_put os k v (PreallocMemory q c) = apsnd (PreallocMemory q) (qm_put q k v c)"
| "st_put os k v (DiskStore d) = apsnd DiskStore (ds_put os k v d)"
| "st_put os k v (QuotaDisk q d) = apsnd (QuotaDisk q) (qd_put q os k v d)"

fun st_delete :: "err option \<Rightarrow> string \<Rightarrow> store \<Rightarrow> unit res \<times> store" where
  "st_delete os k (MemoryStore c) = (Inr (), MemoryStore (ms_delete k c))"
| "st_delete os k (QuotaMemory q c) = (Inr (), QuotaMemory q (ms_delete k c))"
| "st_delete os k (PreallocMemory q c) = (Inr (), PreallocMemory q (ms_delete k c))"
| "st_delete os k (DiskStore d) = apsnd DiskStore (ds_delete os k d)"
| "st_delete os k (QuotaDisk q d) = apsnd (QuotaDisk q) (ds_delete os k d)"

fun st_list :: "store \<Rightarrow> string list" where
  "st_list (MemoryStore c) = ms_list c"
| "st_list (QuotaMemory q c) = ms_list c"
| "st_list (PreallocMemory q c) = ms_list c"
| "st_list (DiskStore d) = ds_list d"
| "st_list (QuotaDisk q d) = ds_list d"

fun st_count :: "store \<Rightarrow> nat" where
  "st_count (MemoryStore c) = ms_count c"
| "st_count (QuotaMemory q c) = ms_count c"
| "st_count (PreallocMemory q c) = ms_count c"
| "st_count (DiskStore d) = ds_count d"
| "st_count (QuotaDisk q d) = ds_count d"

text \<open>\<open>GCOrphans\<close> stops at the first deletion that fails; the number counts those that did not.\<close>

fun gc_loop :: "(string \<Rightarrow> err option) \<Rightarrow> string list \<Rightarrow> string list \<Rightarrow> nat \<Rightarrow> store \<Rightarrow> (nat \<times> unit res) \<times> store" where
  "gc_loop os index [] n st = ((n, Inr ()), st)"
| "gc_loop os index (k # ks) n st =
     (if k \<in> set index then gc_loop os index ks n st
      else case st_delete (os k) k st of
        (Inl e, st') \<Rightarrow> ((n, Inl e), st')
      | (Inr _, st') \<Rightarrow> gc_loop os index ks (Suc n) st')"

definition GCOrphans :: "(string \<Rightarrow> err option) \<Rightarrow> string list \<Rightarrow> store \<Rightarrow> (nat \<times> unit res) \<times> store" where
  "GCOrphans os indexed st = gc_loop os indexed (st_list st) 0 st"

text \<open>
  \<open>OpenStoreWithOptions\<close>: the quota in bytes is an \<open>int64\<close> shift. The directory may hold the files
  of an earlier run, and creating it may fail.
\<close>

definition shift_gb :: "int \<Rightarrow> int" where
  "shift_gb gb = sint (push_bit 30 (word_of_int gb :: 64 word))"

definition NewDiskStore :: "err option \<Rightarrow> string \<Rightarrow> (string, bytes) gomap \<Rightarrow> disk res" where
  "NewDiskStore os dir files =
     (case os of Some e \<Rightarrow> Inl (ErrMsg (''create chunk dir: '' @ error_string e))
      | None \<Rightarrow> Inr \<lparr>dk_dir = dir, dk_files = files\<rparr>)"

definition OpenStoreWithOptions ::
    "err option \<Rightarrow> (string, bytes) gomap \<Rightarrow> string \<Rightarrow> string \<Rightarrow> int \<Rightarrow> store res" where
  "OpenStoreWithOptions os files backend dir quota_gb =
     (if backend = [] \<or> backend = ''memory'' then
        Inr (if 0 < quota_gb then PreallocMemory (shift_gb quota_gb) [] else MemoryStore [])
      else if backend = ''disk'' then
        (if dir = [] then Inl (ErrMsg ''disk backend requires chunk directory'')
         else case NewDiskStore os dir files of
           Inl e \<Rightarrow> Inl e
         | Inr d \<Rightarrow> Inr (if 0 < quota_gb then QuotaDisk (shift_gb quota_gb) d else DiskStore d))
      else Inl (ErrMsg (''unknown chunk backend '' @ [CHR 0x22] @ backend @ [CHR 0x22] @ '' (expected: memory, disk)'')))"

section \<open>The contract of a store\<close>

text \<open>Ids that are one path component and do not look like a temporary file.\<close>

definition id_ok :: "string \<Rightarrow> bool" where
  "id_ok k \<longleftrightarrow> k \<noteq> [] \<and> CHR ''/'' \<notin> set k \<and> \<not> has_suffix k ''.tmp''"

locale chunk_store =
  fixes inv :: "'s \<Rightarrow> bool"
    and get :: "'s \<Rightarrow> string \<Rightarrow> bytes option"
    and put :: "'o \<Rightarrow> string \<Rightarrow> bytes \<Rightarrow> 's \<Rightarrow> unit res \<times> 's"
    and del :: "err option \<Rightarrow> string \<Rightarrow> 's \<Rightarrow> unit res \<times> 's"
    and lst :: "'s \<Rightarrow> string list"
    and cnt :: "'s \<Rightarrow> nat"
  assumes put_inv: "\<lbrakk>inv s; id_ok k\<rbrakk> \<Longrightarrow> inv (snd (put os k v s))"
    and put_get: "\<lbrakk>inv s; id_ok k; id_ok j\<rbrakk> \<Longrightarrow>
      get (snd (put os k v s)) j = (if j = k \<and> \<not> isl (fst (put os k v s)) then Some v else get s j)"
    and del_inv: "\<lbrakk>inv s; id_ok k\<rbrakk> \<Longrightarrow> inv (snd (del oe k s))"
    and del_get: "\<lbrakk>inv s; id_ok k; id_ok j\<rbrakk> \<Longrightarrow>
      get (snd (del oe k s)) j = (if j = k \<and> \<not> isl (fst (del oe k s)) then None else get s j)"
    and list_sorted: "inv s \<Longrightarrow> sorted (lst s) \<and> distinct (lst s)"
    and list_mem: "inv s \<Longrightarrow> k \<in> set (lst s) \<longleftrightarrow> id_ok k \<and> get s k \<noteq> None"
    and count: "inv s \<Longrightarrow> cnt s = length (lst s)"
begin

lemma put_failed: "\<lbrakk>inv s; id_ok k; id_ok j; isl (fst (put os k v s))\<rbrakk> \<Longrightarrow> get (snd (put os k v s)) j = get s j"
  by (simp add: put_get)

lemma list_put:
  assumes "inv s" "id_ok k" "\<not> isl (fst (put os k v s))"
  shows "set (lst (snd (put os k v s))) = insert k (set (lst s))"
  using assms by (auto simp: list_mem put_inv put_get split: if_splits)

lemma list_del:
  assumes "inv s" "id_ok k" "\<not> isl (fst (del oe k s))"
  shows "set (lst (snd (del oe k s))) = set (lst s) - {k}"
  using assms by (auto simp: list_mem del_inv del_get split: if_splits)

lemma count_put:
  assumes "inv s" "id_ok k" "\<not> isl (fst (put os k v s))"
  shows "cnt (snd (put os k v s)) = (if get s k = None then Suc (cnt s) else cnt s)"
proof -
  let ?s = "snd (put os k v s)"
  have "cnt ?s = card (set (lst ?s))" "cnt s = card (set (lst s))"
    using assms list_sorted [of s] list_sorted [of ?s] by (simp_all add: count put_inv distinct_card)
  moreover have "k \<in> set (lst s) \<longleftrightarrow> get s k \<noteq> None" using assms by (simp add: list_mem)
  ultimately show ?thesis using list_put [OF assms] by (simp add: insert_absorb)
qed

end

section \<open>The stores keep the contract\<close>

definition slice_ok :: "slice \<Rightarrow> bool" where
  "slice_ok sl \<longleftrightarrow> sl_len sl \<le> length (sl_buf sl)"

definition ms_inv :: "mem_chunks \<Rightarrow> bool" where
  "ms_inv c \<longleftrightarrow> mwf c \<and> (\<forall>k sl. mget c k = Some sl \<longrightarrow> id_ok k \<and> slice_ok sl)"

lemma ms_get_put: "ms_get (ms_put k v c) j = (if j = k then Some v else ms_get c j)"
  by (auto simp: ms_get_def ms_put_def slice_bytes_def split: option.split)

lemma ms_inv_put: "ms_inv c \<Longrightarrow> id_ok k \<Longrightarrow> ms_inv (ms_put k v c)"
  by (auto simp: ms_inv_def ms_put_def slice_ok_def split: option.split if_splits)

lemma ms_get_delete: "ms_get (ms_delete k c) j = (if j = k then None else ms_get c j)"
  by (simp add: ms_get_def ms_delete_def)

lemma ms_inv_delete: "ms_inv c \<Longrightarrow> ms_inv (ms_delete k c)"
  by (simp add: ms_inv_def ms_delete_def)

lemma ms_get_None: "ms_get c k = None \<longleftrightarrow> mget c k = None"
  by (simp add: ms_get_def split: option.split)

lemma ms_list_facts:
  assumes "ms_inv c"
  shows "sorted (ms_list c) \<and> distinct (ms_list c)" "k \<in> set (ms_list c) \<longleftrightarrow> id_ok k \<and> ms_get c k \<noteq> None"
    "ms_count c = length (ms_list c)"
  using assms by (auto simp: ms_list_def ms_count_def ms_inv_def ms_get_None)

interpretation ms: chunk_store ms_inv ms_get "\<lambda>u k v c. (Inr (), ms_put k v c)"
  "\<lambda>oe k c. (Inr (), ms_delete k c)" ms_list ms_count
  by unfold_locales (simp_all add: ms_inv_put ms_get_put ms_inv_delete ms_get_delete ms_list_facts)

lemma qm_put_cases:
  "qm_put q k v c = (Inr (), ms_put k v c) \<or> qm_put q k v c = (Inl (ErrMsg ''memory quota exceeded''), c)"
  by (auto simp: qm_put_def Let_def)

interpretation qm: chunk_store ms_inv ms_get qm_put "\<lambda>oe k c. (Inr (), ms_delete k c)" ms_list ms_count
proof unfold_locales
  fix s k v os and j
  assume "ms_inv s" "id_ok k"
  then show "ms_inv (snd (qm_put os k v s))"
    using qm_put_cases [of os k v s] by (auto simp: ms_inv_put)
  show "id_ok j \<Longrightarrow> ms_get (snd (qm_put os k v s)) j
      = (if j = k \<and> \<not> isl (fst (qm_put os k v s)) then Some v else ms_get s j)"
    using qm_put_cases [of os k v s] by (auto simp: ms_get_put)
qed (simp_all add: ms_inv_delete ms_get_delete ms_list_facts)

text \<open>Paths on disk.\<close>

lemma split_on_last: "c \<notin> set k \<Longrightarrow> \<exists>w ws. split_on c (xs @ c # k) = w # ws @ [k]"
proof (induction xs)
  case (Cons a xs)
  then obtain w ws where "split_on c (xs @ c # k) = w # ws @ [k]" by blast
  then have "split_on c ((a # xs) @ c # k) = (if a = c then [] else a # w) # (if a = c then w # ws else ws) @ [k]"
    by simp
  then show ?case by blast
qed (simp add: split_on_no_sep)

lemma last_split_on: "c \<notin> set k \<Longrightarrow> last (split_on c (xs @ c # k)) = k"
  using split_on_last [of c k xs] by auto

lemma chunkPath_slash: "\<exists>xs. chunkPath d k = xs @ CHR ''/'' # k"
proof (cases "2 \<le> length k")
  case True
  then have "chunkPath d k = (dk_dir d @ ''/'' @ take 2 k) @ CHR ''/'' # k" by (simp add: chunkPath_def)
  then show ?thesis by blast
qed (simp add: chunkPath_def)

lemma base_chunkPath [simp]: "id_ok k \<Longrightarrow> base_name (chunkPath d k) = k"
  using chunkPath_slash [of d k] last_split_on [of "CHR ''/''" k] by (auto simp: base_name_def id_ok_def)

lemma chunkPath_inject [simp]: "id_ok k \<Longrightarrow> id_ok j \<Longrightarrow> chunkPath d k = chunkPath d j \<longleftrightarrow> k = j"
  by (metis base_chunkPath)

lemma tmp_inject [simp]: "id_ok k \<Longrightarrow> id_ok j \<Longrightarrow> chunkPath d k @ ''.tmp'' = chunkPath d j @ ''.tmp'' \<longleftrightarrow> k = j"
  by simp

lemma chunkPath_not_tmp:
  assumes "id_ok k"
  shows "\<not> has_suffix (chunkPath d k) ''.tmp''"
proof
  assume "has_suffix (chunkPath d k) ''.tmp''"
  then obtain t xs where t: "xs @ CHR ''/'' # k = t @ ''.tmp''"
    using chunkPath_slash [of d k] by (auto simp: has_suffix_iff)
  then obtain u where "CHR ''/'' # k = u @ ''.tmp'' \<or> u @ CHR ''/'' # k = ''.tmp''"
    by (auto simp: append_eq_append_conv2)
  then show False
  proof
    assume u: "CHR ''/'' # k = u @ ''.tmp''"
    then obtain w where "k = w @ ''.tmp''" by (cases u) auto
    with assms show False by (auto simp: id_ok_def has_suffix_iff)
  next
    assume "u @ CHR ''/'' # k = ''.tmp''"
    then have "CHR ''/'' \<in> set ''.tmp''" by (metis in_set_conv_decomp)
    then show False by simp
  qed
qed

lemma chunkPath_tmp [simp]: "id_ok k \<Longrightarrow> id_ok j \<Longrightarrow> chunkPath d k \<noteq> chunkPath d j @ ''.tmp''"
  "id_ok k \<Longrightarrow> id_ok j \<Longrightarrow> chunkPath d j @ ''.tmp'' \<noteq> chunkPath d k"
  using chunkPath_not_tmp [of k d] by (metis has_suffix_append)+

lemma chunkPath_upd [simp]: "chunkPath (d\<lparr>dk_files := x\<rparr>) k = chunkPath d k"
  by (simp add: chunkPath_def)

definition ds_inv :: "disk \<Rightarrow> bool" where
  "ds_inv d \<longleftrightarrow> mwf (dk_files d) \<and>
     (\<forall>p v. mget (dk_files d) p = Some v \<longrightarrow> (\<exists>k. id_ok k \<and> (p = chunkPath d k \<or> p = chunkPath d k @ ''.tmp'')))"

lemma ds_inv_put: "ds_inv d \<Longrightarrow> id_ok k \<Longrightarrow> ds_inv (snd (ds_put os k v d))"
  by (cases os) (auto simp: ds_inv_def ds_put_def Let_def split: if_splits)

lemma ds_get_put:
  "id_ok k \<Longrightarrow> id_ok j \<Longrightarrow>
     ds_get (snd (ds_put os k v d)) j = (if j = k \<and> \<not> isl (fst (ds_put os k v d)) then Some v else ds_get d j)"
  by (cases os) (auto simp: ds_get_def ds_put_def Let_def)

lemma ds_inv_delete: "ds_inv d \<Longrightarrow> ds_inv (snd (ds_delete oe k d))"
  by (cases oe) (auto simp: ds_inv_def ds_delete_def)

lemma ds_get_delete:
  "id_ok k \<Longrightarrow> id_ok j \<Longrightarrow>
     ds_get (snd (ds_delete oe k d)) j = (if j = k \<and> \<not> isl (fst (ds_delete oe k d)) then None else ds_get d j)"
  by (cases oe) (auto simp: ds_get_def ds_delete_def)

lemma chunkPath_prefix: "has_prefix (chunkPath d k) (dk_dir d @ ''/'')"
  by (auto simp: chunkPath_def has_prefix_iff)

lemma ds_walk_mem:
  assumes "ds_inv d"
  shows "(p, v) \<in> set (ds_walk d) \<longleftrightarrow> (\<exists>k. id_ok k \<and> p = chunkPath d k \<and> ds_get d k = Some v)"
proof
  assume "(p, v) \<in> set (ds_walk d)"
  then have m: "mget (dk_files d) p = Some v" "\<not> has_suffix p ''.tmp''"
    using assms by (auto simp: ds_walk_def ds_inv_def mget_mem)
  then obtain k where "id_ok k" "p = chunkPath d k" using assms unfolding ds_inv_def by (metis has_suffix_append)
  with m show "\<exists>k. id_ok k \<and> p = chunkPath d k \<and> ds_get d k = Some v" by (auto simp: ds_get_def)
next
  assume "\<exists>k. id_ok k \<and> p = chunkPath d k \<and> ds_get d k = Some v"
  then show "(p, v) \<in> set (ds_walk d)"
    using assms by (auto simp: ds_walk_def ds_inv_def mget_mem ds_get_def chunkPath_prefix chunkPath_not_tmp)
qed

lemma ds_list_facts:
  assumes "ds_inv d"
  shows "sorted (ds_list d) \<and> distinct (ds_list d)" "k \<in> set (ds_list d) \<longleftrightarrow> id_ok k \<and> ds_get d k \<noteq> None"
proof -
  have "distinct (map fst (ds_walk d))"
    using assms unfolding ds_walk_def ds_inv_def mwf_def by (meson distinct_map_filter)
  moreover have "inj_on base_name (set (map fst (ds_walk d)))"
    using ds_walk_mem [OF assms] by (fastforce intro!: inj_onI)
  ultimately have "distinct (map base_name (map fst (ds_walk d)))" by (simp add: distinct_map comp_inj_on)
  then show "sorted (ds_list d) \<and> distinct (ds_list d)"
    by (simp add: ds_list_def case_prod_unfold comp_def)
  show "k \<in> set (ds_list d) \<longleftrightarrow> id_ok k \<and> ds_get d k \<noteq> None"
    using ds_walk_mem [OF assms] by (force simp: ds_list_def image_iff)
qed

interpretation ds: chunk_store ds_inv ds_get ds_put ds_delete ds_list ds_count
  by unfold_locales (simp_all add: ds_inv_put ds_get_put ds_inv_delete ds_get_delete ds_list_facts ds_count_def)

section \<open>Usage and quota\<close>

text \<open>A store whose usage is the sum of the sizes of its chunks.\<close>

locale sized_store = chunk_store +
  fixes usage :: "'a \<Rightarrow> int"
  assumes usage_sum: "inv s \<Longrightarrow> usage s = (\<Sum>k \<in> set (lst s). int (length (the (get s k))))"
begin

lemma usage_put:
  assumes "inv s" "id_ok k" "\<not> isl (fst (put os k v s))"
  shows "usage (snd (put os k v s))
     = usage s - (case get s k of None \<Rightarrow> 0 | Some x \<Rightarrow> int (length x)) + int (length v)"
proof -
  let ?s = "snd (put os k v s)" and ?L = "\<lambda>s k. int (length (the (get s k)))"
  have inv: "inv ?s" using assms by (simp add: put_inv)

  have same: "?L ?s j = ?L s j" if "j \<in> set (lst s) - {k}" for j
    using that assms put_get [OF assms(1,2), of j] list_mem [OF assms(1)] by auto
  have "usage ?s = ?L ?s k + (\<Sum>j \<in> set (lst s) - {k}. ?L ?s j)"
    unfolding usage_sum [OF inv] list_put [OF assms] by (simp add: sum.insert_remove)
  also have "?L ?s k = int (length v)" using assms by (simp add: put_get)
  also have "(\<Sum>j \<in> set (lst s) - {k}. ?L ?s j) = (\<Sum>j \<in> set (lst s) - {k}. ?L s j)"
    using same by (intro sum.cong) auto
  also have "\<dots> = usage s - (case get s k of None \<Rightarrow> 0 | Some x \<Rightarrow> int (length x))"
  proof (cases "get s k")
    case None
    then have "k \<notin> set (lst s)" using assms by (simp add: list_mem)
    with None show ?thesis by (simp add: usage_sum [OF assms(1)])
  next
    case (Some x)
    then have "k \<in> set (lst s)" using assms by (simp add: list_mem)
    with Some show ?thesis by (simp add: usage_sum [OF assms(1)] sum_diff1)
  qed
  finally show ?thesis by simp
qed

end

lemma fold_plus_int: "fold (\<lambda>x n. n + f x) xs (a :: int) = a + (\<Sum>x \<leftarrow> xs. f x)"
  by (induction xs arbitrary: a) auto

lemma ms_usage_sum: "ms_inv c \<Longrightarrow> ms_usage c = (\<Sum>k \<in> set (ms_list c). int (length (the (ms_get c k))))"
proof -
  assume inv: "ms_inv c"
  then have d: "distinct c" by (simp add: ms_inv_def mwf_def distinct_map)
  have "ms_usage c = (\<Sum>x \<leftarrow> c. int (length (slice_bytes (snd x))))"
    by (simp add: ms_usage_def case_prod_unfold fold_plus_int)
  also have "\<dots> = (\<Sum>x \<in> set c. int (length (slice_bytes (snd x))))" using d by (rule sum_list_distinct_conv_sum_set)
  also have "\<dots> = (\<Sum>k \<in> fst ` set c. int (length (the (ms_get c k))))"
  proof (rule sum.reindex_cong [of fst, symmetric])
    show "inj_on fst (set c)" using inv by (simp add: ms_inv_def mwf_def distinct_map)
    show "int (length (the (ms_get c (fst x)))) = int (length (slice_bytes (snd x)))" if "x \<in> set c" for x
      using that inv mget_mem [of c "fst x" "snd x"] by (simp add: ms_inv_def ms_get_def)
  qed simp
  also have "fst ` set c = set (ms_list c)" by (simp add: ms_list_def mkeys_def del: set_mkeys)
  finally show ?thesis .
qed

interpretation qms: sized_store ms_inv ms_get qm_put "\<lambda>oe k c. (Inr (), ms_delete k c)" ms_list ms_count ms_usage
  by unfold_locales (rule ms_usage_sum)

lemma ds_usage_sum:
  assumes "ds_inv d"
  shows "ds_usage d = (\<Sum>k \<in> set (ds_list d). int (length (the (ds_get d k))))"
proof -
  have k: "distinct (map fst (ds_walk d))"
    using assms unfolding ds_walk_def ds_inv_def mwf_def by (meson distinct_map_filter)
  have "ds_usage d = (\<Sum>x \<leftarrow> ds_walk d. int (length (snd x)))"
    by (simp add: ds_usage_def case_prod_unfold fold_plus_int)
  also have "\<dots> = (\<Sum>x \<in> set (ds_walk d). int (length (snd x)))"
    using k by (intro sum_list_distinct_conv_sum_set) (simp add: distinct_map)
  also have "\<dots> = (\<Sum>k \<in> set (ds_list d). int (length (the (ds_get d k))))"
  proof (rule sum.reindex_cong [of "\<lambda>k. (chunkPath d k, the (ds_get d k))"])
    show "inj_on (\<lambda>k. (chunkPath d k, the (ds_get d k))) (set (ds_list d))"
      using ds_list_facts(2) [OF assms] by (auto intro!: inj_onI)
    show "set (ds_walk d) = (\<lambda>k. (chunkPath d k, the (ds_get d k))) ` set (ds_list d)"
      using ds_list_facts(2) [OF assms] ds_walk_mem [OF assms] by force
  qed simp
  finally show ?thesis .
qed

lemma qd_put_cases:
  "qd_put q os k v d = ds_put os k v d \<or> qd_put q os k v d = (Inl (ErrMsg ''disk quota exceeded''), d)"
  by (auto simp: qd_put_def Let_def)

interpretation qds: sized_store ds_inv ds_get "\<lambda>(q, os). qd_put q os" ds_delete ds_list ds_count ds_usage
proof unfold_locales
  fix s k v and os :: "int \<times> os_put" and j
  assume "ds_inv s" "id_ok k"
  moreover obtain q o' where [simp]: "os = (q, o')" by fastforce
  ultimately show "ds_inv (snd ((case os of (q, os) \<Rightarrow> qd_put q os) k v s))"
    using qd_put_cases [of q o' k v s] by (auto simp: ds_inv_put)
  show "id_ok j \<Longrightarrow> ds_get (snd ((case os of (q, os) \<Rightarrow> qd_put q os) k v s)) j
      = (if j = k \<and> \<not> isl (fst ((case os of (q, os) \<Rightarrow> qd_put q os) k v s)) then Some v else ds_get s j)"
    using qd_put_cases [of q o' k v s] \<open>id_ok k\<close> by (auto simp: ds_get_put)
qed (simp_all add: ds_inv_delete ds_get_delete ds_list_facts ds_count_def ds_usage_sum)

section \<open>Every store\<close>

fun st_inv :: "store \<Rightarrow> bool" where
  "st_inv (MemoryStore c) = ms_inv c"
| "st_inv (QuotaMemory q c) = ms_inv c"
| "st_inv (PreallocMemory q c) = ms_inv c"
| "st_inv (DiskStore d) = ds_inv d"
| "st_inv (QuotaDisk q d) = ds_inv d"

fun st_usage :: "store \<Rightarrow> int" where
  "st_usage (MemoryStore c) = ms_usage c"
| "st_usage (QuotaMemory q c) = ms_usage c"
| "st_usage (PreallocMemory q c) = ms_usage c"
| "st_usage (DiskStore d) = ds_usage d"
| "st_usage (QuotaDisk q d) = ds_usage d"

interpretation st: sized_store st_inv st_get st_put st_delete st_list st_count st_usage
proof unfold_locales
  fix s k v j os oe
  assume inv: "st_inv s"
  show "id_ok k \<Longrightarrow> st_inv (snd (st_put os k v s))"
    using inv qm.put_inv ms.put_inv ds.put_inv qds.put_inv [of _ k "(q, os)" for q] by (cases s) auto
  show "id_ok k \<Longrightarrow> id_ok j \<Longrightarrow> st_get (snd (st_put os k v s)) j
      = (if j = k \<and> \<not> isl (fst (st_put os k v s)) then Some v else st_get s j)"
    using inv qm.put_get ms.put_get ds.put_get qds.put_get [of _ k j "(q, os)" for q] by (cases s) auto
  show "id_ok k \<Longrightarrow> st_inv (snd (st_delete oe k s))"
    using inv ms.del_inv ds.del_inv by (cases s) auto
  show "id_ok k \<Longrightarrow> id_ok j \<Longrightarrow> st_get (snd (st_delete oe k s)) j
      = (if j = k \<and> \<not> isl (fst (st_delete oe k s)) then None else st_get s j)"
    using inv ms.del_get ds.del_get by (cases s) auto
  show "sorted (st_list s) \<and> distinct (st_list s)" "st_count s = length (st_list s)"
    using inv ms_list_facts ds_list_facts by (cases s; simp add: ds_count_def)+
  show "k \<in> set (st_list s) \<longleftrightarrow> id_ok k \<and> st_get s k \<noteq> None"
    using inv ms_list_facts ds_list_facts by (cases s) auto
  show "st_usage s = (\<Sum>k \<in> set (st_list s). int (length (the (st_get s k))))"
    using inv ms_usage_sum ds_usage_sum by (cases s) auto
qed

fun st_quota :: "store \<Rightarrow> int" where
  "st_quota (QuotaMemory q c) = q"
| "st_quota (PreallocMemory q c) = q"
| "st_quota (QuotaDisk q d) = q"
| "st_quota _ = 0"

section \<open>Properties\<close>





lemma gc_loop_facts:
  assumes "st_inv st" "\<And>k. k \<in> set ks \<Longrightarrow> id_ok k" "distinct ks" "gc_loop os index ks n st = ((n', r), st')"
  shows "st_inv st' \<and> (\<forall>j. id_ok j \<longrightarrow> j \<in> set index \<longrightarrow> st_get st' j = st_get st j)
    \<and> (\<not> isl r \<longrightarrow> n' = n + length (filter (\<lambda>k. k \<notin> set index) ks)
        \<and> (\<forall>j. id_ok j \<longrightarrow> st_get st' j = (if j \<in> set ks \<and> j \<notin> set index then None else st_get st j)))"
  using assms
proof (induction ks arbitrary: n st)
  case (Cons k ks)
  show ?case
  proof (cases "k \<in> set index")
    case True
    with Cons.IH [of st n] Cons.prems show ?thesis by auto
  next
    case False
    obtain x st1 where d: "st_delete (os k) k st = (x, st1)" by fastforce
    have k: "id_ok k" using Cons.prems by simp
    have st1: "st_inv st1" "\<And>j. id_ok j \<Longrightarrow> st_get st1 j = (if j = k \<and> \<not> isl x then None else st_get st j)"
      using st.del_inv [OF Cons.prems(1) k, of "os k"] st.del_get [OF Cons.prems(1) k, of _ "os k"] d by simp_all
    show ?thesis
    proof (cases x)
      case (Inl e)
      with Cons.prems False d st1 show ?thesis by auto
    next
      case (Inr u)
      with Cons.IH [of st1 "Suc n"] Cons.prems False d st1 show ?thesis by auto
    qed
  qed
qed simp

text \<open>
  C34. The removal of orphans deletes only what the index does not list: every indexed chunk keeps
  its bytes, whatever the deletions do; and when no deletion fails, exactly the chunks that are
  not indexed are gone and their number is returned.
\<close>

theorem gc_orphans_correct:
  assumes "st_inv st" "GCOrphans os index st = ((n, r), st')" "id_ok j"
  shows "(j \<in> set index \<longrightarrow> st_get st' j = st_get st j)
    \<and> (\<not> isl r \<longrightarrow> st_get st' j = (if j \<in> set index then st_get st j else None)
        \<and> n = card {k. id_ok k \<and> st_get st k \<noteq> None \<and> k \<notin> set index})"
proof -
  have d: "distinct (st_list st)" and mem: "\<And>k. k \<in> set (st_list st) \<longleftrightarrow> id_ok k \<and> st_get st k \<noteq> None"
    using st.list_sorted [OF assms(1)] st.list_mem [OF assms(1)] by auto
  note G = gc_loop_facts [OF assms(1) _ d assms(2) [unfolded GCOrphans_def], unfolded mem]
  have "{k. id_ok k \<and> st_get st k \<noteq> None \<and> k \<notin> set index} = set (filter (\<lambda>k. k \<notin> set index) (st_list st))"
    using mem by auto
  then have "card {k. id_ok k \<and> st_get st k \<noteq> None \<and> k \<notin> set index} = length (filter (\<lambda>k. k \<notin> set index) (st_list st))"
    using d distinct_card [of "filter (\<lambda>k. k \<notin> set index) (st_list st)"] by simp
  with G assms(3) show ?thesis by (cases "st_get st j") auto
qed

theorem gc_orphans_correct_witness:
  "let st = MemoryStore (ms_put ''1_0_0'' ''a'' (ms_put ''2_0_0'' ''b'' []));
       ((n, r), st') = GCOrphans (\<lambda>_. None) [''1_0_0''] st
   in st_get st' ''1_0_0'' = Some ''a''"
proof -
  let ?st = "MemoryStore (ms_put ''1_0_0'' ''a'' (ms_put ''2_0_0'' ''b'' []))"
  have ok: "id_ok ''1_0_0''" "id_ok ''2_0_0''" by (simp_all add: id_ok_def has_suffix_def has_prefix_def)
  have "ms_inv []" by (simp add: ms_inv_def)
  then have inv: "st_inv ?st" using ok by (simp add: ms_inv_put)
  obtain n r st' where g: "GCOrphans (\<lambda>_. None) [''1_0_0''] ?st = ((n, r), st')"
    by (cases "GCOrphans (\<lambda>_. None) [''1_0_0''] ?st") auto
  from gc_orphans_correct [OF inv g ok(1)] show ?thesis by (simp add: g ms_get_put)
qed

text \<open>
  The quota option overflows silently. The number of gigabytes is shifted in 64 bits, so
  \<open>2 ^ 34\<close> gigabytes become a quota of 0, which means unlimited: the store then accepts every write.
\<close>

lemma quota_shift_overflow:
  "OpenStoreWithOptions None [] ''memory'' [] (2 ^ 34) = Inr (PreallocMemory 0 [])
   \<and> fst (st_put os k v (PreallocMemory 0 c)) = Inr ()
   \<and> OpenStoreWithOptions None [] ''memory'' [] (2 ^ 33) = Inr (PreallocMemory (- (2 ^ 63)) [])"
  by (simp add: OpenStoreWithOptions_def shift_gb_def qm_put_def)

end
