(* ===== verification/Chain.thy ===== *)
theory Chain
  imports Layout
begin

text \<open>
  \<^verbatim>\<open>chunk/chain.go\<close>: the chain table, derived from the sorted list of nodes, and the choice of a
  chain for a chunk by the FNV-1a hash of its id. The hash is a 32-bit word; the number of chains is
  the number of nodes, which is below \<open>2 ^ 32\<close>.
\<close>

unbundle bit_operations_syntax

datatype target_role = RoleHead | RoleMiddle | RoleTail

fun role_string :: "target_role \<Rightarrow> string" where
  "role_string RoleHead = ''HEAD''"
| "role_string RoleTail = ''TAIL''"
| "role_string RoleMiddle = ''MIDDLE''"

record target =
  tg_url :: string
  tg_role :: target_role

record chain =
  ch_id :: u32
  ch_targets :: "target list"

type_synonym chain_table = "chain list"

text \<open>\<open>Head\<close> and \<open>Tail\<close> index the targets; a chain of the table always has one.\<close>

definition chain_head :: "chain \<Rightarrow> target" where
  "chain_head c = hd (ch_targets c)"

definition chain_tail :: "chain \<Rightarrow> target" where
  "chain_tail c = last (ch_targets c)"

fun next_of :: "string \<Rightarrow> target list \<Rightarrow> target option" where
  "next_of u (t # t' # ts) = (if tg_url t = u then Some t' else next_of u (t' # ts))"
| "next_of u ts = None"

definition NextOf :: "chain \<Rightarrow> string \<Rightarrow> target option" where
  "NextOf c u = next_of u (ch_targets c)"

definition NodeURLs :: "chain \<Rightarrow> string list" where
  "NodeURLs c = map tg_url (ch_targets c)"

definition chain_contains :: "chain \<Rightarrow> string \<Rightarrow> bool" where
  "chain_contains c u \<longleftrightarrow> (\<exists>t \<in> set (ch_targets c). tg_url t = u)"

definition role_at :: "nat \<Rightarrow> nat \<Rightarrow> target_role" where
  "role_at rf j = (if j = 0 then RoleHead else if j = rf - 1 then RoleTail else RoleMiddle)"

definition clamp_rf :: "int \<Rightarrow> nat \<Rightarrow> nat" where
  "clamp_rf rf n = (let rf = (if rf \<le> 0 then 1 else rf) in if int n < rf then n else nat rf)"

definition build_chain :: "string list \<Rightarrow> nat \<Rightarrow> nat \<Rightarrow> chain" where
  "build_chain srt rf i =
     \<lparr>ch_id = of_nat i,
      ch_targets = map (\<lambda>j. \<lparr>tg_url = srt ! ((i + j) mod length srt), tg_role = role_at rf j\<rparr>) [0..<rf]\<rparr>"

definition BuildChainTable :: "string list \<Rightarrow> int \<Rightarrow> chain_table res" where
  "BuildChainTable nodes rf =
     (if nodes = [] then Inl (ErrMsg ''no nodes available'')
      else let srt = sort nodes; n = clamp_rf rf (length nodes)
           in Inr (map (build_chain srt n) [0..<length srt]))"

definition fnv32a :: "bytes \<Rightarrow> u32" where
  "fnv32a s = fold (\<lambda>c h. (h XOR of_char c) * 16777619) s 2166136261"

definition SelectChain :: "chain_table \<Rightarrow> string \<Rightarrow> chain res" where
  "SelectChain t k =
     (if t = [] then Inl (ErrMsg ''chain table empty'')
      else Inr (t ! unat (fnv32a k mod of_nat (length t))))"

definition ChainFor :: "string list \<Rightarrow> string \<Rightarrow> int \<Rightarrow> chain res" where
  "ChainFor nodes k rf = (case BuildChainTable nodes rf of Inl e \<Rightarrow> Inl e | Inr t \<Rightarrow> SelectChain t k)"

definition SelectNodes :: "string list \<Rightarrow> string \<Rightarrow> int \<Rightarrow> string list res" where
  "SelectNodes nodes k rf = (case ChainFor nodes k rf of Inl e \<Rightarrow> Inl e | Inr c \<Rightarrow> Inr (NodeURLs c))"

definition NodeInReplicas :: "string list \<Rightarrow> string \<Rightarrow> string \<Rightarrow> int \<Rightarrow> (bool \<times> string list) res" where
  "NodeInReplicas nodes k u rf =
     (case SelectNodes nodes k rf of Inl e \<Rightarrow> Inl e | Inr rs \<Rightarrow> Inr (u \<in> set rs, rs))"

section \<open>The shape of a chain\<close>

lemma clamp_rf_bounds: "0 < n \<Longrightarrow> 0 < clamp_rf rf n \<and> clamp_rf rf n \<le> n"
  by (auto simp: clamp_rf_def Let_def nat_le_iff)

lemma clamp_rf_eq: "0 < rf \<Longrightarrow> rf \<le> int n \<Longrightarrow> clamp_rf rf n = nat rf"
  by (simp add: clamp_rf_def Let_def)

lemma NodeURLs_build: "NodeURLs (build_chain s rf i) = map (\<lambda>j. s ! ((i + j) mod length s)) [0..<rf]"
  by (simp add: NodeURLs_def build_chain_def comp_def)

lemma rot_inj:
  fixes n :: nat
  assumes "(i + j) mod n = (i + k) mod n" "j < n" "k < n"
  shows "j = k"
proof -
  have "(int i + int j) mod int n = (int i + int k) mod int n"
    using assms(1) by (metis of_nat_add of_nat_mod)
  then have "int n dvd int j - int k" by (simp add: mod_eq_dvd_iff)
  then have "int j - int k = 0 \<or> int n \<le> \<bar>int j - int k\<bar>" using dvd_imp_le_int [of "int j - int k" "int n"] by auto
  then show ?thesis using assms(2,3) by auto
qed

lemma build_chain_distinct:
  assumes "distinct s" "rf \<le> length s"
  shows "distinct (NodeURLs (build_chain s rf i))"
proof (cases "s = []")
  case False
  have "inj_on (\<lambda>j. s ! ((i + j) mod length s)) (set [0..<rf])"
  proof (rule inj_onI)
    fix j k
    assume jk: "j \<in> set [0..<rf]" "k \<in> set [0..<rf]"
      "s ! ((i + j) mod length s) = s ! ((i + k) mod length s)"
    then have "(i + j) mod length s = (i + k) mod length s"
      using assms(1) False by (simp add: nth_eq_iff_index_eq)
    then show "j = k" using jk assms(2) by (intro rot_inj [of i j "length s" k]) auto
  qed
  then show ?thesis by (simp add: NodeURLs_build distinct_map)
qed (use assms in \<open>simp add: NodeURLs_build\<close>)

lemma build_chain_nodes:
  assumes "s \<noteq> []"
  shows "set (NodeURLs (build_chain s rf i)) \<subseteq> set s"
  using assms by (auto simp: NodeURLs_build)

lemma build_chain_head:
  "i < length s \<Longrightarrow> 0 < rf \<Longrightarrow> chain_head (build_chain s rf i) = \<lparr>tg_url = s ! i, tg_role = RoleHead\<rparr>"
  by (simp add: chain_head_def build_chain_def role_at_def upt_rec [of 0 rf])

text \<open>The chains that hold the node at position \<open>a\<close>: one for each place in a chain.\<close>

lemma chains_of_node:
  fixes n :: nat
  assumes "a < n" "rf \<le> n"
  shows "{i. i < n \<and> (\<exists>j < rf. (i + j) mod n = a)} = (\<lambda>j. (a + (n - j)) mod n) ` {..<rf}"
proof
  have inv: "((a + (n - j)) mod n + j) mod n = a" if "j < n" for j
  proof -
    have "((a + (n - j)) mod n + j) mod n = (a + (n - j) + j) mod n" by (simp add: mod_add_left_eq)
    also have "a + (n - j) + j = a + n" using that by simp
    finally show ?thesis using assms(1) by simp
  qed
  show "(\<lambda>j. (a + (n - j)) mod n) ` {..<rf} \<subseteq> {i. i < n \<and> (\<exists>j < rf. (i + j) mod n = a)}"
    using assms inv by fastforce
  show "{i. i < n \<and> (\<exists>j < rf. (i + j) mod n = a)} \<subseteq> (\<lambda>j. (a + (n - j)) mod n) ` {..<rf}"
  proof
    fix i
    assume "i \<in> {i. i < n \<and> (\<exists>j < rf. (i + j) mod n = a)}"
    then obtain j where j: "i < n" "j < rf" "(i + j) mod n = a" by blast
    let ?k = "(a + (n - j)) mod n"
    have "(j + i) mod n = (j + ?k) mod n" using inv [of j] j assms(2) by (simp add: add.commute)
    moreover have "?k < n" using assms by simp
    ultimately have "i = ?k" using j(1) by (intro rot_inj [of j i n ?k]) auto
    with j(2) show "i \<in> (\<lambda>j. (a + (n - j)) mod n) ` {..<rf}" by blast
  qed
qed

lemma card_chains_of_node:
  fixes n :: nat
  assumes "a < n" "rf \<le> n"
  shows "card {i. i < n \<and> (\<exists>j < rf. (i + j) mod n = a)} = rf"
proof -
  have "inj_on (\<lambda>j. (a + (n - j)) mod n) {..<rf}"
  proof (rule inj_onI)
    fix j k
    assume jk: "j \<in> {..<rf}" "k \<in> {..<rf}" "(a + (n - j)) mod n = (a + (n - k)) mod n"
    have "((a + (n - j)) mod n + (j + k)) mod n = ((a + (n - k)) mod n + (j + k)) mod n" using jk(3) by simp
    then have "(a + (n - j) + (j + k)) mod n = (a + (n - k) + (j + k)) mod n" by (simp add: mod_add_left_eq)
    moreover have "a + (n - j) + (j + k) = (a + k) + n" "a + (n - k) + (j + k) = (a + j) + n"
      using jk assms(2) by auto
    ultimately have "(a + k) mod n = (a + j) mod n" by (metis mod_add_self2)
    then show "j = k" using jk assms(2) rot_inj [of a k n j] by auto
  qed
  then show ?thesis by (simp add: chains_of_node [OF assms] card_image)
qed

section \<open>Properties\<close>

text \<open>
  C35. The chain table places replicas evenly and on different nodes. For distinct nodes and any
  replication factor, every chain has as many targets as the factor asks for (at least one, at most
  the number of nodes), all on different nodes of the list, the chain with number \<open>i\<close> starts
  at the \<open>i\<close>-th node in sorted order, which has the role of the head, and every node is a target
  of equally many chains.
\<close>

theorem chain_table_balanced:
  assumes "nodes \<noteq> []" "distinct nodes"
  shows "\<exists>t. BuildChainTable nodes rf = Inr t \<and> length t = length nodes
     \<and> (\<forall>i < length t. ch_id (t ! i) = of_nat i \<and> length (ch_targets (t ! i)) = clamp_rf rf (length nodes)
          \<and> distinct (NodeURLs (t ! i)) \<and> set (NodeURLs (t ! i)) \<subseteq> set nodes
          \<and> chain_head (t ! i) = \<lparr>tg_url = sort nodes ! i, tg_role = RoleHead\<rparr>)
     \<and> (\<forall>u \<in> set nodes. card {i. i < length t \<and> chain_contains (t ! i) u} = clamp_rf rf (length nodes))"
proof -
  let ?s = "sort nodes" and ?n = "length nodes" and ?rf = "clamp_rf rf (length nodes)"
  let ?t = "map (build_chain ?s ?rf) [0..<?n]"
  have b: "0 < ?rf" "?rf \<le> ?n" using clamp_rf_bounds assms(1) by auto
  have "?s \<noteq> []" using assms(1) by (metis length_sort length_0_conv)
  then have s: "distinct ?s" "?s \<noteq> []" "length ?s = ?n" "set ?s = set nodes" using assms(2) by auto
  have shape: "ch_id (?t ! i) = of_nat i \<and> length (ch_targets (?t ! i)) = ?rf \<and> distinct (NodeURLs (?t ! i))
      \<and> set (NodeURLs (?t ! i)) \<subseteq> set nodes \<and> chain_head (?t ! i) = \<lparr>tg_url = ?s ! i, tg_role = RoleHead\<rparr>"
    if "i < ?n" for i
    using that b s build_chain_distinct [OF s(1), of ?rf i] build_chain_nodes [OF s(2), of ?rf i]
      build_chain_head [of i ?s ?rf] by (simp add: build_chain_def [of _ _ i] del: set_sort)
  have "card {i. i < ?n \<and> chain_contains (?t ! i) u} = ?rf" if u: "u \<in> set nodes" for u
  proof -
    obtain a where a: "a < ?n" "?s ! a = u" using u s by (metis in_set_conv_nth)
    have "chain_contains (?t ! i) u \<longleftrightarrow> (\<exists>j < ?rf. (i + j) mod ?n = a)" if "i < ?n" for i
    proof -
      have "chain_contains (?t ! i) u \<longleftrightarrow> (\<exists>j < ?rf. ?s ! ((i + j) mod ?n) = ?s ! a)"
        using that a by (auto simp: chain_contains_def build_chain_def)
      moreover have "?s ! ((i + j) mod ?n) = ?s ! a \<longleftrightarrow> (i + j) mod ?n = a" for j
        using a(1) s(1,3) mod_less_divisor [of ?n "i + j"] by (intro nth_eq_iff_index_eq) linarith+
      ultimately show ?thesis by simp
    qed
    then have "{i. i < ?n \<and> chain_contains (?t ! i) u} = {i. i < ?n \<and> (\<exists>j < ?rf. (i + j) mod ?n = a)}" by blast
    then show ?thesis using card_chains_of_node [OF a(1) b(2)] by simp
  qed
  moreover have "BuildChainTable nodes rf = Inr ?t" using assms(1) by (simp add: BuildChainTable_def Let_def)
  ultimately show ?thesis using shape by (intro exI [of _ ?t]) simp
qed

theorem chain_table_balanced_witness:
  "\<exists>t. BuildChainTable [''b'', ''a'', ''c''] 2 = Inr t \<and> length t = length [''b'', ''a'', ''c'']
     \<and> card {i. i < length t \<and> chain_contains (t ! i) ''a''} = 2"
  using chain_table_balanced [of "[''b'', ''a'', ''c'']" 2] by (auto simp: clamp_rf_def)

lemma select_nodes_facts:
  assumes "distinct nodes" "nodes \<noteq> []" "length nodes < 2 ^ 32"
  shows "\<exists>rs. SelectNodes nodes k rf = Inr rs \<and> distinct rs \<and> set rs \<subseteq> set nodes \<and> length rs = clamp_rf rf (length nodes)"
proof -
  let ?s = "sort nodes" and ?n = "length nodes" and ?rf = "clamp_rf rf (length nodes)"
  let ?i = "unat (fnv32a k mod of_nat ?n)"
  have "unat (of_nat ?n :: u32) = ?n" using assms(3) by (simp add: unsigned_of_nat take_bit_nat_eq_self)
  then have "?i < ?n" using assms(2) by (simp add: unat_mod)
  then have sel: "SelectNodes nodes k rf = Inr (NodeURLs (build_chain ?s ?rf ?i))"
    using assms(2) by (simp add: SelectNodes_def ChainFor_def BuildChainTable_def Let_def SelectChain_def)
  have "?s \<noteq> []" using assms(2) by (metis length_sort length_0_conv)
  then show ?thesis
    using sel assms clamp_rf_bounds [of ?n rf] build_chain_distinct [of ?s ?rf ?i] build_chain_nodes [of ?s ?rf ?i]
    by (intro exI [of _ "NodeURLs (build_chain ?s ?rf ?i)"]) (auto simp: NodeURLs_build)
qed

lemma select_nodes_sort:
  assumes "sort nodes = sort nodes'"
  shows "SelectNodes nodes k rf = SelectNodes nodes' k rf"
proof -
  have "length nodes = length nodes'" using assms by (metis length_sort)
  then show ?thesis using assms by (auto simp: SelectNodes_def ChainFor_def BuildChainTable_def Let_def)
qed

text \<open>
  C36. Every node computes the same replicas: the result of \<open>SelectNodes\<close> depends on the set of nodes
  only, not on the order they are listed in; it never fails for a non-empty list, and it gives
  as many different nodes of the list as the replication factor asks for, as far as there are.
\<close>

theorem select_nodes_deterministic:
  assumes "distinct nodes" "distinct nodes'" "set nodes = set nodes'" "nodes \<noteq> []" "length nodes < 2 ^ 32"
  shows "\<exists>rs. SelectNodes nodes k rf = Inr rs \<and> SelectNodes nodes' k rf = Inr rs \<and> distinct rs
     \<and> set rs \<subseteq> set nodes \<and> length rs = clamp_rf rf (length nodes)"
  using select_nodes_facts [OF assms(1,4,5), of k rf] select_nodes_sort [OF sort_unique [OF assms(1-3)], of k rf] by auto

theorem select_nodes_deterministic_witness:
  "\<exists>rs. SelectNodes [''b'', ''a''] ''1_0_0'' 2 = Inr rs \<and> SelectNodes [''a'', ''b''] ''1_0_0'' 2 = Inr rs
     \<and> distinct rs \<and> set rs \<subseteq> set [''b'', ''a''] \<and> length rs = clamp_rf 2 (length [''b'', ''a''])"
  by (rule select_nodes_deterministic) auto

end
