(* ===== verification/Chunk_Registry.thy ===== *)
theory Chunk_Registry
  imports Raft_Kv Chunk_Store Chain
begin

text \<open>
  The registry of chunk locations (\<^verbatim>\<open>chunk/replica.go\<close>), kept in the key-value store, and the
  rebuild of missing local chunks from peers (\<^verbatim>\<open>chunk/rebuild.go\<close>). Fetching a chunk from a
  peer is an argument of the rebuild.
\<close>

record location =
  lo_chunk :: string
  lo_replicas :: "string list"
  lo_epoch :: u64
  lo_chain :: u32
  lo_chain_ver :: u64
  lo_update_ver :: u64
  lo_commit_ver :: u64
  lo_state :: string

definition location_zero :: location where
  "location_zero = \<lparr>lo_chunk = [], lo_replicas = [], lo_epoch = 0, lo_chain = 0, lo_chain_ver = 0,
     lo_update_ver = 0, lo_commit_ver = 0, lo_state = []\<rparr>"

definition enc_location :: "location \<Rightarrow> json" where
  "enc_location l = JObj ([(''chunk_id'', JStr (lo_chunk l)), (''replicas'', JArr (map JStr (lo_replicas l))),
      (''epoch'', enc_word (lo_epoch l))]
     @ omit ''chain_id'' (enc_word (lo_chain l)) (lo_chain l = 0)
     @ omit ''chain_ver'' (enc_word (lo_chain_ver l)) (lo_chain_ver l = 0)
     @ omit ''update_ver'' (enc_word (lo_update_ver l)) (lo_update_ver l = 0)
     @ omit ''commit_ver'' (enc_word (lo_commit_ver l)) (lo_commit_ver l = 0)
     @ omit ''state'' (JStr (lo_state l)) (lo_state l = []))"

definition set_location_field :: "string \<Rightarrow> json \<Rightarrow> location \<Rightarrow> location res" where
  "set_location_field k j l =
     (if k = ''chunk_id'' then map_sum id (\<lambda>x. l\<lparr>lo_chunk := x\<rparr>) (dec_string j (lo_chunk l))
      else if k = ''replicas'' then
        map_sum id (\<lambda>x. l\<lparr>lo_replicas := x\<rparr>) (dec_list (\<lambda>j. dec_string j []) j (lo_replicas l))
      else if k = ''epoch'' then map_sum id (\<lambda>x. l\<lparr>lo_epoch := x\<rparr>) (dec_word j (lo_epoch l))
      else if k = ''chain_id'' then map_sum id (\<lambda>x. l\<lparr>lo_chain := x\<rparr>) (dec_word j (lo_chain l))
      else if k = ''chain_ver'' then map_sum id (\<lambda>x. l\<lparr>lo_chain_ver := x\<rparr>) (dec_word j (lo_chain_ver l))
      else if k = ''update_ver'' then map_sum id (\<lambda>x. l\<lparr>lo_update_ver := x\<rparr>) (dec_word j (lo_update_ver l))
      else if k = ''commit_ver'' then map_sum id (\<lambda>x. l\<lparr>lo_commit_ver := x\<rparr>) (dec_word j (lo_commit_ver l))
      else if k = ''state'' then map_sum id (\<lambda>x. l\<lparr>lo_state := x\<rparr>) (dec_string j (lo_state l))
      else Inr l)"

definition marshal_location :: "location \<Rightarrow> bytes" where
  "marshal_location l = json_print (enc_location l)"

definition unmarshal_location :: "bytes \<Rightarrow> location res" where
  "unmarshal_location d = unmarshal (dec_struct set_location_field) location_zero d"

definition chunkIndexKey :: string where "chunkIndexKey = ''memoryfs:chunkindex''"
definition chunkLocKey :: "string \<Rightarrow> string" where "chunkLocKey k = ''memoryfs:chunkloc:'' @ k"

definition SetLocation :: "location \<Rightarrow> kv \<Rightarrow> unit res \<times> kv" where
  "SetLocation l s =
     (if lo_chunk l = [] then (Inr (), s)
      else case kv_set (chunkLocKey (lo_chunk l)) (marshal_location l) s of
        (Inl e, s1) \<Rightarrow> (Inl e, s1)
      | (Inr _, s1) \<Rightarrow> kv_sadd chunkIndexKey [lo_chunk l] s1)"

definition reg_set :: "string \<Rightarrow> string list \<Rightarrow> u64 \<Rightarrow> kv \<Rightarrow> unit res \<times> kv" where
  "reg_set k replicas epoch s =
     SetLocation (location_zero\<lparr>lo_chunk := k, lo_replicas := replicas, lo_epoch := epoch\<rparr>) s"

definition reg_get :: "kv \<Rightarrow> string \<Rightarrow> location res" where
  "reg_get s k = (case kv_get s (chunkLocKey k) of Inl e \<Rightarrow> Inl e | Inr d \<Rightarrow> unmarshal_location d)"

definition reg_delete :: "string \<Rightarrow> kv \<Rightarrow> unit res \<times> kv" where
  "reg_delete k s = kv_del [chunkLocKey k] (snd (kv_srem chunkIndexKey [k] s))"

definition ListIndexed :: "kv \<Rightarrow> string list" where
  "ListIndexed s = kv_smembers s chunkIndexKey"

section \<open>Rebuild\<close>

type_synonym fetch = "string \<Rightarrow> string \<Rightarrow> bytes res"

fun pullFromPeers :: "fetch \<Rightarrow> (string \<Rightarrow> os_put) \<Rightarrow> string \<Rightarrow> string \<Rightarrow> string list \<Rightarrow> store \<Rightarrow> unit res \<times> store" where
  "pullFromPeers fetch os k self [] st = (Inl (ErrMsg (''no peer replica available for '' @ k)), st)"
| "pullFromPeers fetch os k self (u # us) st =
     (if u = self then pullFromPeers fetch os k self us st
      else case fetch u k of
        Inl _ \<Rightarrow> pullFromPeers fetch os k self us st
      | Inr d \<Rightarrow> st_put (os k) k d st)"

text \<open>The replicas of an indexed chunk: its record, or the chain its id hashes to.\<close>

definition rebuild_replicas :: "kv \<Rightarrow> string list \<Rightarrow> int \<Rightarrow> string \<Rightarrow> string list res" where
  "rebuild_replicas s nodes rf k =
     (case reg_get s k of Inr l \<Rightarrow> Inr (lo_replicas l) | Inl _ \<Rightarrow> SelectNodes nodes k rf)"

fun rebuild_loop :: "fetch \<Rightarrow> (string \<Rightarrow> os_put) \<Rightarrow> string \<Rightarrow> int \<Rightarrow> kv \<Rightarrow> string list \<Rightarrow> string list \<Rightarrow>
    string list \<Rightarrow> nat \<Rightarrow> store \<Rightarrow> (nat \<times> unit res) \<times> store" where
  "rebuild_loop fetch os self rf s nodes loc [] n st = ((n, Inr ()), st)"
| "rebuild_loop fetch os self rf s nodes loc (k # ks) n st =
     (if k \<in> set loc then rebuild_loop fetch os self rf s nodes loc ks n st
      else case rebuild_replicas s nodes rf k of
        Inl _ \<Rightarrow> rebuild_loop fetch os self rf s nodes loc ks n st
      | Inr rs \<Rightarrow>
          if self \<notin> set rs then rebuild_loop fetch os self rf s nodes loc ks n st
          else case pullFromPeers fetch os k self rs st of
            (Inl e, st') \<Rightarrow> ((n, Inl (ErrMsg (''rebuild '' @ k @ '': '' @ error_string e))), st')
          | (Inr _, st') \<Rightarrow> rebuild_loop fetch os self rf s nodes loc ks (Suc n) st')"

definition Rebuild :: "fetch \<Rightarrow> (string \<Rightarrow> os_put) \<Rightarrow> string \<Rightarrow> int \<Rightarrow> kv \<Rightarrow> string list \<Rightarrow> store \<Rightarrow>
    (nat \<times> unit res) \<times> store" where
  "Rebuild fetch os self rf s nodes st =
     rebuild_loop fetch os self rf s nodes (st_list st) (ListIndexed s) 0 st"

section \<open>Records are read back\<close>

definition location_ok :: "location \<Rightarrow> bool" where
  "location_ok l \<longleftrightarrow> valid_utf8 (lo_chunk l) \<and> (\<forall>r \<in> set (lo_replicas l). valid_utf8 r) \<and> valid_utf8 (lo_state l)"

lemma fold_name_location [simp]:
  "fold_name ''chunk_id'' = ''chunk_id''" "fold_name ''replicas'' = ''replicas''" "fold_name ''epoch'' = ''epoch''"
  "fold_name ''chain_id'' = ''chain_id''" "fold_name ''chain_ver'' = ''chain_ver''"
  "fold_name ''update_ver'' = ''update_ver''" "fold_name ''commit_ver'' = ''commit_ver''"
  "fold_name ''state'' = ''state''"
  by (simp_all add: fold_name_def lower_char_def)

lemma valid_utf8_location [simp]:
  "valid_utf8 ''chunk_id''" "valid_utf8 ''replicas''" "valid_utf8 ''epoch''" "valid_utf8 ''chain_id''"
  "valid_utf8 ''chain_ver''" "valid_utf8 ''update_ver''" "valid_utf8 ''commit_ver''" "valid_utf8 ''state''"
  by (simp_all add: valid_utf8_Cons_ascii)

lemma unmarshal_marshal_location:
  assumes "location_ok l"
  shows "unmarshal_location (marshal_location l) = Inr l"
proof -
  have ok: "json_ok (enc_location l)" using assms by (auto simp: enc_location_def location_ok_def omit_def)
  have l: "dec_list (\<lambda>j. dec_string j []) (JArr (map JStr xs)) old = Inr xs" for xs old
    using dec_elems_map [of xs "\<lambda>j. dec_string j []" JStr id] by (simp add: dec_list_def)
  have "dec_struct set_location_field (enc_location l) location_zero = Inr l"
    by (cases l) (simp add: dec_struct_def enc_location_def set_location_field_def location_zero_def omit_def l)
  then show ?thesis by (simp add: unmarshal_location_def marshal_location_def unmarshal_print ok)
qed

lemma registry_keys [simp, key_simps]:
  "chunkLocKey k = chunkLocKey j \<longleftrightarrow> k = j" "chunkLocKey k \<noteq> chunkIndexKey" "chunkIndexKey \<noteq> chunkLocKey k"
  by (simp_all add: chunkLocKey_def chunkIndexKey_def)

lemma valid_utf8_registry [simp]: "valid_utf8 chunkIndexKey" "valid_utf8 k \<Longrightarrow> valid_utf8 (chunkLocKey k)"
proof -
  have "valid_utf8 ''memoryfs:chunkloc:''" by (simp add: valid_utf8_Cons_ascii)
  then show "valid_utf8 k \<Longrightarrow> valid_utf8 (chunkLocKey k)" by (simp only: chunkLocKey_def valid_utf8_append)
qed (simp add: chunkIndexKey_def valid_utf8_Cons_ascii)

section \<open>Properties\<close>

lemma SetLocation_ok:
  assumes v: "valid_utf8 (lo_chunk l)" and "lo_chunk l \<noteq> []" "SetLocation l s = (Inr u, s')"
  shows "kv_mem s' = mem_sadd chunkIndexKey [lo_chunk l] (mem_set (chunkLocKey (lo_chunk l)) (marshal_location l) (kv_mem s))"
proof -
  obtain x s1 where s1: "kv_set (chunkLocKey (lo_chunk l)) (marshal_location l) s = (x, s1)" by fastforce
  with assms have x: "x = Inr ()" "kv_sadd chunkIndexKey [lo_chunk l] s1 = (Inr (), s')"
    by (cases x; simp add: SetLocation_def)+
  have "kv_mem s1 = mem_set (chunkLocKey (lo_chunk l)) (marshal_location l) (kv_mem s)"
    using kv_set_effect [of "chunkLocKey (lo_chunk l)" "marshal_location l" s] v s1 x by (simp add: kv_effect_def)
  moreover have "kv_mem s' = mem_sadd chunkIndexKey [lo_chunk l] (kv_mem s1)"
    using kv_sadd_effect [of chunkIndexKey "lo_chunk l" s1] v x by (simp add: kv_effect_def)
  ultimately show ?thesis by simp
qed

text \<open>Whatever its outcome, \<open>SetLocation\<close> leaves the records and index entries of other chunks in place.\<close>

lemma SetLocation_keeps:
  assumes v: "valid_utf8 (lo_chunk l)" and "j \<noteq> lo_chunk l"
  shows "kv_get (snd (SetLocation l s)) (chunkLocKey j) = kv_get s (chunkLocKey j)"
    and "set (ListIndexed s) \<subseteq> set (ListIndexed (snd (SetLocation l s)))"
proof -
  let ?k = "lo_chunk l" and ?K = "\<lambda>a b. mem_get a (chunkLocKey j) = mem_get b (chunkLocKey j)
     \<and> set (mem_smembers b chunkIndexKey) \<subseteq> set (mem_smembers a chunkIndexKey)"
  have set: "?K (kv_mem (snd (kv_set (chunkLocKey ?k) (marshal_location l) s))) (kv_mem s)"
    using kv_effect_single [OF kv_set_effect [of "chunkLocKey ?k" "marshal_location l" s]] v assms(2) by (auto simp: mem_get_def)
  have sadd: "?K (kv_mem (snd (kv_sadd chunkIndexKey [?k] t))) (kv_mem t)" for t
    using kv_effect_single [OF kv_sadd_effect [of chunkIndexKey ?k t]] v by (auto simp: mem_get_def)
  have "?K (kv_mem (snd (SetLocation l s))) (kv_mem s)"
  proof (cases "?k = []")
    case False
    then show ?thesis using set sadd [of "snd (kv_set (chunkLocKey ?k) (marshal_location l) s)"]
      by (auto simp: SetLocation_def split: prod.splits sum.splits)
  qed (simp add: SetLocation_def)
  then show "kv_get (snd (SetLocation l s)) (chunkLocKey j) = kv_get s (chunkLocKey j)"
    "set (ListIndexed s) \<subseteq> set (ListIndexed (snd (SetLocation l s)))" by (simp_all add: kv_reads ListIndexed_def)
qed

text \<open>
  C37. A chunk location is read back: after a successful \<open>SetLocation\<close>, over a plain or a replicated
  store, the record of the chunk is the one that was written, field by field, the chunk is
  indexed, and the records and index entries of all other chunks are as before.
\<close>

theorem registry_roundtrip:
  assumes "location_ok l" "lo_chunk l \<noteq> []" "SetLocation l s = (Inr (), s')"
  shows "reg_get s' (lo_chunk l) = Inr l \<and> lo_chunk l \<in> set (ListIndexed s')
    \<and> (\<forall>j. j \<noteq> lo_chunk l \<longrightarrow> reg_get s' j = reg_get s j \<and> (j \<in> set (ListIndexed s') \<longleftrightarrow> j \<in> set (ListIndexed s)))"
  using SetLocation_ok [OF _ assms(2,3)] assms(1,2) unmarshal_marshal_location [OF assms(1)]
  by (simp add: location_ok_def reg_get_def ListIndexed_def kv_reads mem_get_def)

theorem registry_roundtrip_witness:
  "let l = location_zero\<lparr>lo_chunk := ''1_0_0'', lo_replicas := [''n1'', ''n2''], lo_epoch := 3\<rparr>
   in \<exists>s'. SetLocation l (mem_store new_memory_kv) = (Inr (), s') \<and> reg_get s' ''1_0_0'' = Inr l"
proof -
  let ?l = "location_zero\<lparr>lo_chunk := ''1_0_0'', lo_replicas := [''n1'', ''n2''], lo_epoch := 3\<rparr>"
  have ok: "location_ok ?l" by (simp add: location_ok_def location_zero_def valid_utf8_Cons_ascii)
  obtain s' where "SetLocation ?l (mem_store new_memory_kv) = (Inr (), s')"
    by (simp add: SetLocation_def kv_set_def kv_sadd_def with_raft_def mem_store_def)
  with registry_roundtrip [OF ok _ this] show ?thesis by (auto simp: Let_def)
qed

text \<open>
  Deleting a record: a successful deletion leaves no record of the chunk and those of the
  others as they were. The removal from the index comes first and its error is dropped, so over
  Raft the chunk can stay indexed without a record; over a plain store it does not.
\<close>

lemma registry_delete_correct:
  assumes "valid_utf8 k" "reg_delete k s = (Inr (), s')"
  shows "reg_get s' k = Inl ErrKVNotFound \<and> (\<forall>j. j \<noteq> k \<longrightarrow> reg_get s' j = reg_get s j)
    \<and> (kv_raft s = None \<longrightarrow> k \<notin> set (ListIndexed s'))"
proof -
  obtain x s1 where s1: "kv_srem chunkIndexKey [k] s = (x, s1)" by fastforce
  have m1: "kv_mem s1 = kv_mem s \<or> kv_mem s1 = mem_srem chunkIndexKey [k] (kv_mem s)"
    using kv_effect_single [OF kv_srem_effect [of chunkIndexKey k s]] assms(1) s1 by simp
  have m2: "kv_mem s' = mem_del1 (chunkLocKey k) (kv_mem s1)"
    using kv_del_effect [of "[chunkLocKey k]" s1] assms s1 by (simp add: reg_delete_def kv_effect_def)
  have "kv_raft s = None \<Longrightarrow> kv_mem s1 = mem_srem chunkIndexKey [k] (kv_mem s)"
    using s1 by (auto simp: kv_srem_def with_raft_def)
  with m1 m2 show ?thesis by (auto simp: reg_get_def ListIndexed_def kv_reads mem_get_def)
qed

lemma pullFromPeers_facts:
  assumes "st_inv st" "id_ok k" "pullFromPeers fetch os k self us st = (r, st')"
  shows "st_inv st' \<and> (\<forall>j. id_ok j \<longrightarrow> j \<noteq> k \<longrightarrow> st_get st' j = st_get st j)
    \<and> (isl r \<longrightarrow> st_get st' k = st_get st k)
    \<and> (\<not> isl r \<longrightarrow> (\<exists>u d. u \<in> set us \<and> u \<noteq> self \<and> fetch u k = Inr d \<and> st_get st' k = Some d))"
  using assms(3)
proof (induction us)
  case (Cons u us)
  show ?case
  proof (cases "u = self \<or> isl (fetch u k)")
    case True
    then have "pullFromPeers fetch os k self us st = (r, st')"
      using Cons.prems by (cases "fetch u k") (auto split: if_splits)
    with Cons.IH show ?thesis by auto
  next
    case False
    then obtain d where d: "u \<noteq> self" "fetch u k = Inr d" by (cases "fetch u k") auto
    with Cons.prems have put: "st_put (os k) k d st = (r, st')" by simp
    have "st_get st' j = (if j = k \<and> \<not> isl r then Some d else st_get st j)" if "id_ok j" for j
      using st.put_get [OF assms(1,2) that, of "os k" d] put by simp
    with st.put_inv [OF assms(1,2), of "os k" d] put assms(2) d show ?thesis by auto
  qed
qed (use assms(1) in auto)

lemma rebuild_loop_facts:
  assumes "st_inv st" "\<And>k. k \<in> set ks \<Longrightarrow> id_ok k"
    and "rebuild_loop fetch os self rf s nodes loc ks n st = ((n', r), st')"
    and "\<And>k. k \<in> set loc \<Longrightarrow> st_get st k \<noteq> None \<and> id_ok k"
  shows "st_inv st' \<and> (\<forall>j. j \<in> set loc \<longrightarrow> st_get st' j = st_get st j)
    \<and> (\<forall>j. id_ok j \<longrightarrow> st_get st j \<noteq> None \<longrightarrow> st_get st' j \<noteq> None)
    \<and> (\<not> isl r \<longrightarrow> (\<forall>k rs. k \<in> set ks \<longrightarrow> rebuild_replicas s nodes rf k = Inr rs \<longrightarrow> self \<in> set rs \<longrightarrow> st_get st' k \<noteq> None))"
  using assms
proof (induction ks arbitrary: n st)
  case (Cons k ks)
  have kok: "id_ok k" using Cons.prems(2) by simp
  show ?case
  proof (cases "k \<in> set loc \<or> isl (rebuild_replicas s nodes rf k) \<or> (\<forall>rs. rebuild_replicas s nodes rf k = Inr rs \<longrightarrow> self \<notin> set rs)")
    case True
    then have "rebuild_loop fetch os self rf s nodes loc ks n st = ((n', r), st')"
      using Cons.prems(3) by (cases "rebuild_replicas s nodes rf k") (auto split: if_splits)
    with Cons.IH [OF Cons.prems(1) _ this] Cons.prems(2,4) True show ?thesis by auto
  next
    case False
    then obtain rs where rs: "k \<notin> set loc" "rebuild_replicas s nodes rf k = Inr rs" "self \<in> set rs"
      by (cases "rebuild_replicas s nodes rf k") auto
    obtain x st1 where p: "pullFromPeers fetch os k self rs st = (x, st1)" by fastforce
    note P = pullFromPeers_facts [OF Cons.prems(1) kok p]
    have keep: "st_get st1 j = st_get st j" if "j \<in> set loc" for j
      using P rs(1) Cons.prems(4) [OF that] that by metis
    show ?thesis
    proof (cases x)
      case (Inl e)
      have "st_get st1 j = st_get st j" if "id_ok j" for j using P Inl that by (cases "j = k") auto
      with Inl Cons.prems(3) rs p P keep show ?thesis by auto
    next
      case (Inr u)
      then have run: "rebuild_loop fetch os self rf s nodes loc ks (Suc n) st1 = ((n', r), st')"
        using Cons.prems(3) rs p by simp
      have "st_get st1 k \<noteq> None" using P Inr by auto
      moreover have "\<And>j. j \<in> set loc \<Longrightarrow> st_get st1 j \<noteq> None \<and> id_ok j" using keep Cons.prems(4) by simp
      ultimately show ?thesis
        using Cons.IH [OF _ _ run] Cons.prems(2) P kok keep by (metis list.set_intros set_ConsD)
    qed
  qed
qed simp

text \<open>
  C38. A rebuild restores the node's share: when it succeeds, every indexed chunk whose replicas
  (its record, or the chain its id hashes to) include this node is in the local store; and whether
  it succeeds or not, the chunks that were there keep their bytes.
\<close>

theorem rebuild_complete:
  assumes "st_inv st" "\<forall>k \<in> set (ListIndexed s). id_ok k" "Rebuild fetch os self rf s nodes st = ((n, r), st')"
  shows "(\<forall>j. j \<in> set (st_list st) \<longrightarrow> st_get st' j = st_get st j)
    \<and> (\<not> isl r \<longrightarrow> (\<forall>k rs. k \<in> set (ListIndexed s) \<longrightarrow> rebuild_replicas s nodes rf k = Inr rs \<longrightarrow> self \<in> set rs \<longrightarrow>
         st_get st' k \<noteq> None))"
  using rebuild_loop_facts [OF assms(1) _ assms(3) [unfolded Rebuild_def]] assms(2) st.list_mem [OF assms(1)] by auto

theorem rebuild_complete_witness:
  "\<exists>s n r st'. reg_set ''1_0_0'' [''n1'', ''n2''] 1 (mem_store new_memory_kv) = (Inr (), s)
     \<and> Rebuild (\<lambda>u k. Inr ''data'') (\<lambda>_. OsOk) ''n1'' 2 s [''n1'', ''n2''] (MemoryStore []) = ((n, r), st')
     \<and> r = Inr () \<and> st_get st' ''1_0_0'' \<noteq> None"
proof -
  let ?l = "location_zero\<lparr>lo_chunk := ''1_0_0'', lo_replicas := [''n1'', ''n2''], lo_epoch := 1\<rparr>"
  let ?m = "mem_sadd chunkIndexKey [''1_0_0''] (mem_set (chunkLocKey ''1_0_0'') (marshal_location ?l) new_memory_kv)"
  have set: "reg_set ''1_0_0'' [''n1'', ''n2''] 1 (mem_store new_memory_kv) = (Inr (), mem_store ?m)"
    by (simp add: reg_set_def SetLocation_def kv_set_def kv_sadd_def with_raft_def mem_store_def)
  have ok: "location_ok ?l" by (simp add: location_ok_def location_zero_def valid_utf8_Cons_ascii)
  have get: "rebuild_replicas (mem_store ?m) nodes rf ''1_0_0'' = Inr [''n1'', ''n2'']" for nodes rf
    by (simp add: rebuild_replicas_def reg_get_def kv_reads mem_get_def mem_store_def unmarshal_marshal_location [OF ok])
  have idx: "ListIndexed (mem_store ?m) = [''1_0_0'']"
    by (simp add: ListIndexed_def kv_reads mem_store_def mem_smembers_def mem_sadd_def mem_set_def new_memory_kv_def sput_def)
  obtain n st' where run: "Rebuild (\<lambda>u k. Inr ''data'') (\<lambda>_. OsOk) ''n1'' 2 (mem_store ?m) [''n1'', ''n2''] (MemoryStore [])
      = ((n, Inr ()), st')"
    by (simp add: Rebuild_def idx get ms_list_def mkeys_def)
  have "st_inv (MemoryStore [])" by (simp add: ms_inv_def)
  moreover have "\<forall>k \<in> set (ListIndexed (mem_store ?m)). id_ok k" by (simp add: idx id_ok_def has_suffix_def has_prefix_def)
  ultimately have "st_get st' ''1_0_0'' \<noteq> None"
    using rebuild_complete [OF _ _ run] get idx by simp
  with set run show ?thesis by blast
qed

end
