(* ===== verification/Meta_Store.thy ===== *)
theory Meta_Store
  imports Raft_Kv
begin

text \<open>
  Package \<^verbatim>\<open>meta\<close>, \<^verbatim>\<open>store.go\<close>: the metadata of the file system, kept in a \<^verbatim>\<open>kv.KV\<close>. The
  attributes of inode \<open>i\<close> are JSON under \<open>inoKey i\<close>, the entries of a directory are the fields of
  the hash \<open>direntKey i\<close> (name to decimal inode number, with \<open>.\<close> and \<open>..\<close>), \<open>inodeLinkKey i\<close> holds
  the parent and the name of \<open>i\<close>, the set \<open>inodeIndexKey\<close> lists the inodes, and
  \<open>nextInoKey\<close> is the counter inode numbers come from.

  Every operation takes the \<open>kv\<close> it runs on, so it is defined for both backends and for every
  behaviour of Raft. The current time and the ids of the process are arguments.
\<close>

unbundle bit_operations_syntax

section \<open>Data\<close>

record attr =
  at_ino :: u64
  at_mode :: u32
  at_size :: u64
  at_uid :: u32
  at_gid :: u32
  at_mtime :: int
  at_nlink :: u32
  at_expire :: int
  at_target :: string
  at_chunks :: "string list"

definition attr_zero :: attr where
  "attr_zero = \<lparr>at_ino = 0, at_mode = 0, at_size = 0, at_uid = 0, at_gid = 0, at_mtime = 0,
     at_nlink = 0, at_expire = 0, at_target = [], at_chunks = []\<rparr>"

definition enc_attr :: "attr \<Rightarrow> json" where
  "enc_attr a = JObj ([(''ino'', enc_word (at_ino a)), (''mode'', enc_word (at_mode a)),
      (''size'', enc_word (at_size a)), (''uid'', enc_word (at_uid a)), (''gid'', enc_word (at_gid a)),
      (''mtime'', enc_int (at_mtime a)), (''nlink'', enc_word (at_nlink a))]
     @ omit ''expire_at'' (enc_int (at_expire a)) (at_expire a = 0)
     @ omit ''target'' (JStr (at_target a)) (at_target a = [])
     @ omit ''chunks'' (JArr (map JStr (at_chunks a))) (at_chunks a = []))"

definition set_attr_field :: "string \<Rightarrow> json \<Rightarrow> attr \<Rightarrow> attr res" where
  "set_attr_field k j a =
     (if k = ''ino'' then map_sum id (\<lambda>x. a\<lparr>at_ino := x\<rparr>) (dec_word j (at_ino a))
      else if k = ''mode'' then map_sum id (\<lambda>x. a\<lparr>at_mode := x\<rparr>) (dec_word j (at_mode a))
      else if k = ''size'' then map_sum id (\<lambda>x. a\<lparr>at_size := x\<rparr>) (dec_word j (at_size a))
      else if k = ''uid'' then map_sum id (\<lambda>x. a\<lparr>at_uid := x\<rparr>) (dec_word j (at_uid a))
      else if k = ''gid'' then map_sum id (\<lambda>x. a\<lparr>at_gid := x\<rparr>) (dec_word j (at_gid a))
      else if k = ''mtime'' then map_sum id (\<lambda>x. a\<lparr>at_mtime := x\<rparr>) (dec_int j (at_mtime a))
      else if k = ''nlink'' then map_sum id (\<lambda>x. a\<lparr>at_nlink := x\<rparr>) (dec_word j (at_nlink a))
      else if k = ''expire_at'' then map_sum id (\<lambda>x. a\<lparr>at_expire := x\<rparr>) (dec_int j (at_expire a))
      else if k = ''target'' then map_sum id (\<lambda>x. a\<lparr>at_target := x\<rparr>) (dec_string j (at_target a))
      else if k = ''chunks'' then
        map_sum id (\<lambda>x. a\<lparr>at_chunks := x\<rparr>) (dec_list (\<lambda>j. dec_string j []) j (at_chunks a))
      else Inr a)"

definition marshal_attr :: "attr \<Rightarrow> bytes" where
  "marshal_attr a = json_print (enc_attr a)"

definition unmarshal_attr :: "bytes \<Rightarrow> attr res" where
  "unmarshal_attr d = unmarshal (dec_struct set_attr_field) attr_zero d"

record inode_link =
  il_parent :: u64
  il_name :: string

definition enc_inode_link :: "inode_link \<Rightarrow> json" where
  "enc_inode_link l = JObj [(''parent'', enc_word (il_parent l)), (''name'', JStr (il_name l))]"

definition set_link_field :: "string \<Rightarrow> json \<Rightarrow> inode_link \<Rightarrow> inode_link res" where
  "set_link_field k j l =
     (if k = ''parent'' then map_sum id (\<lambda>x. l\<lparr>il_parent := x\<rparr>) (dec_word j (il_parent l))
      else if k = ''name'' then map_sum id (\<lambda>x. l\<lparr>il_name := x\<rparr>) (dec_string j (il_name l))
      else Inr l)"

definition encodeInodeLink :: "u64 \<Rightarrow> string \<Rightarrow> bytes" where
  "encodeInodeLink p n = json_print (enc_inode_link \<lparr>il_parent = p, il_name = n\<rparr>)"

definition unmarshal_link :: "bytes \<Rightarrow> inode_link res" where
  "unmarshal_link d = unmarshal (dec_struct set_link_field) \<lparr>il_parent = 0, il_name = []\<rparr> d"

section \<open>Keys\<close>

definition rootIno :: u64 where "rootIno = 1"
definition inodeIndexKey :: string where "inodeIndexKey = ''memoryfs:inodeindex''"
definition inoKey :: "u64 \<Rightarrow> string" where "inoKey i = ''memoryfs:ino:'' @ format_uint i"
definition direntKey :: "u64 \<Rightarrow> string" where "direntKey i = ''memoryfs:dirent:'' @ format_uint i"
definition nextInoKey :: string where "nextInoKey = ''memoryfs:next_ino''"
definition inodeLinkKey :: "u64 \<Rightarrow> string" where "inodeLinkKey i = ''memoryfs:ilink:'' @ format_uint i"
definition raftnodeNodesKey :: string where "raftnodeNodesKey = ''memoryfs:nodes''"

section \<open>Reads\<close>

definition isNotLeaderErr :: "err \<Rightarrow> bool" where
  "isNotLeaderErr e = contains_str (error_string e) ''not leader''"

definition checkName :: "string \<Rightarrow> unit res" where
  "checkName n = (if n = [] \<or> n = ''.'' \<or> n = ''..'' then Inl ErrInvalidName else Inr ())"

definition GetAttr :: "kv \<Rightarrow> u64 \<Rightarrow> attr res" where
  "GetAttr s i = (case kv_get s (inoKey i) of Inl _ \<Rightarrow> Inl ErrNotFound | Inr d \<Rightarrow> unmarshal_attr d)"

definition Lookup :: "kv \<Rightarrow> u64 \<Rightarrow> string \<Rightarrow> attr res" where
  "Lookup s p n =
     (case kv_hget s (direntKey p) n of
        Inl _ \<Rightarrow> Inl ErrNotFound
      | Inr d \<Rightarrow> (case parse_u64 d of Inl e \<Rightarrow> Inl e | Inr i \<Rightarrow> GetAttr s i))"

text \<open>The loop over the entries of a directory, which stops at the first error.\<close>

fun readdir_loop :: "kv \<Rightarrow> (string \<times> bytes) list \<Rightarrow> (string, attr) gomap \<Rightarrow> (string, attr) gomap res" where
  "readdir_loop s [] out = Inr out"
| "readdir_loop s ((n, d) # es) out =
     (case parse_u64 d of Inl e \<Rightarrow> Inl e | Inr i \<Rightarrow>
      (case GetAttr s i of Inl e \<Rightarrow> Inl e | Inr a \<Rightarrow> readdir_loop s es (mput n a out)))"

definition Readdir :: "kv \<Rightarrow> u64 \<Rightarrow> (string, attr) gomap res" where
  "Readdir s p = readdir_loop s (kv_hgetall s (direntKey p)) []"

definition ListNodes :: "kv \<Rightarrow> string list" where
  "ListNodes s = map snd (kv_hgetall s raftnodeNodesKey)"

definition ListInos :: "kv \<Rightarrow> u64 list" where
  "ListInos s = concat (map (\<lambda>x. case parse_u64 x of Inl _ \<Rightarrow> [] | Inr i \<Rightarrow> [i]) (kv_smembers s inodeIndexKey))"

text \<open>
  \<^verbatim>\<open>path.Clean\<close> of a path that starts with a slash, as its list of components: empty components
  and \<open>.\<close> are dropped, \<open>..\<close> removes the component before it.
\<close>

fun clean_step :: "string \<Rightarrow> string list \<Rightarrow> string list" where
  "clean_step c acc =
     (if c = [] \<or> c = ''.'' then acc else if c = ''..'' then butlast acc else acc @ [c])"

definition clean_parts :: "string \<Rightarrow> string list" where
  "clean_parts p = fold clean_step (split_on CHR ''/'' p) []"

fun resolve_loop :: "kv \<Rightarrow> u64 \<Rightarrow> string list \<Rightarrow> attr res" where
  "resolve_loop s i [] = GetAttr s i"
| "resolve_loop s i (c # cs) =
     (case Lookup s i c of Inl e \<Rightarrow> Inl e | Inr a \<Rightarrow> resolve_loop s (at_ino a) cs)"

definition ResolvePath :: "kv \<Rightarrow> string \<Rightarrow> attr res" where
  "ResolvePath s p = resolve_loop s rootIno (clean_parts (CHR ''/'' # trim_prefix p ''/''))"

definition MapError :: "err \<Rightarrow> string" where
  "MapError e = (case e of
     ErrExists \<Rightarrow> ''file exists'' | ErrNotFound \<Rightarrow> ''entry not found''
   | ErrNotEmpty \<Rightarrow> ''directory not empty'' | ErrIsDir \<Rightarrow> ''is a directory''
   | ErrNotDir \<Rightarrow> ''not a directory'' | _ \<Rightarrow> error_string e)"

section \<open>Writes\<close>

definition root_attr :: "u32 \<Rightarrow> u32 \<Rightarrow> int \<Rightarrow> attr" where
  "root_attr uid gid now = attr_zero\<lparr>at_ino := rootIno, at_mode := 16877, at_uid := uid, at_gid := gid,
     at_mtime := now, at_nlink := 2\<rparr>"

definition initRoot :: "u32 \<Rightarrow> u32 \<Rightarrow> int \<Rightarrow> kv \<Rightarrow> unit res \<times> kv" where
  "initRoot uid gid now s =
     (if kv_exists s (inoKey rootIno) then (Inr (), s)
      else if (case kv_raft s of None \<Rightarrow> False | Some r \<Rightarrow> \<not> is_leader r) then (Inr (), s)
      else case kv_batch [op_set (inoKey rootIno) (marshal_attr (root_attr uid gid now)),
                          op_incr nextInoKey,
                          op_sadd inodeIndexKey (format_uint rootIno)] s of
        (Inl e, s') \<Rightarrow> if isNotLeaderErr e then (Inr (), s') else (Inl e, s')
      | (Inr _, s') \<Rightarrow> (Inr (), s'))"

definition allocIno :: "kv \<Rightarrow> u64 res \<times> kv" where
  "allocIno s = kv_incr nextInoKey s"

definition Mkdir :: "u64 \<Rightarrow> string \<Rightarrow> u32 \<Rightarrow> u32 \<Rightarrow> u32 \<Rightarrow> int \<Rightarrow> kv \<Rightarrow> attr res \<times> kv" where
  "Mkdir p n mode uid gid now s =
     (case checkName n of Inl e \<Rightarrow> (Inl e, s) | Inr _ \<Rightarrow>
      if kv_hexists s (direntKey p) n then (Inl ErrExists, s)
      else case allocIno s of
        (Inl e, s1) \<Rightarrow> (Inl e, s1)
      | (Inr i, s1) \<Rightarrow>
          (let a = attr_zero\<lparr>at_ino := i, at_mode := mode OR 16384, at_uid := uid, at_gid := gid,
                     at_mtime := now, at_nlink := 2\<rparr>
           in case kv_batch
                [op_hset (direntKey p) n (format_uint i),
                 op_set (inoKey i) (marshal_attr a),
                 op_hset (direntKey i) ''.'' (format_uint i),
                 op_hset (direntKey i) ''..'' (format_uint p),
                 op_sadd inodeIndexKey (format_uint i),
                 op_set (inodeLinkKey i) (encodeInodeLink p n)] s1 of
                (Inl e, s2) \<Rightarrow> (Inl e, s2)
              | (Inr _, s2) \<Rightarrow> (Inr a, s2)))"

definition Create :: "u64 \<Rightarrow> string \<Rightarrow> u32 \<Rightarrow> u32 \<Rightarrow> u32 \<Rightarrow> int \<Rightarrow> kv \<Rightarrow> attr res \<times> kv" where
  "Create p n mode uid gid now s =
     (case checkName n of Inl e \<Rightarrow> (Inl e, s) | Inr _ \<Rightarrow>
      if kv_hexists s (direntKey p) n then (Inl ErrExists, s)
      else case allocIno s of
        (Inl e, s1) \<Rightarrow> (Inl e, s1)
      | (Inr i, s1) \<Rightarrow>
          (let a = attr_zero\<lparr>at_ino := i, at_mode := mode OR 32768, at_uid := uid, at_gid := gid,
                     at_mtime := now, at_nlink := 1\<rparr>
           in case kv_batch
                [op_hset (direntKey p) n (format_uint i),
                 op_set (inoKey i) (marshal_attr a),
                 op_sadd inodeIndexKey (format_uint i),
                 op_set (inodeLinkKey i) (encodeInodeLink p n)] s1 of
                (Inl e, s2) \<Rightarrow> (Inl e, s2)
              | (Inr _, s2) \<Rightarrow> (Inr a, s2)))"

definition Symlink :: "u64 \<Rightarrow> string \<Rightarrow> string \<Rightarrow> u32 \<Rightarrow> u32 \<Rightarrow> int \<Rightarrow> kv \<Rightarrow> attr res \<times> kv" where
  "Symlink p n target uid gid now s =
     (case checkName n of Inl e \<Rightarrow> (Inl e, s) | Inr _ \<Rightarrow>
      if kv_hexists s (direntKey p) n then (Inl ErrExists, s)
      else case allocIno s of
        (Inl e, s1) \<Rightarrow> (Inl e, s1)
      | (Inr i, s1) \<Rightarrow>
          (let a = attr_zero\<lparr>at_ino := i, at_mode := 41471, at_uid := uid, at_gid := gid,
                     at_mtime := now, at_nlink := 1, at_target := target, at_size := of_nat (length target)\<rparr>
           in case kv_batch
                [op_hset (direntKey p) n (format_uint i),
                 op_set (inoKey i) (marshal_attr a),
                 op_sadd inodeIndexKey (format_uint i),
                 op_set (inodeLinkKey i) (encodeInodeLink p n)] s1 of
                (Inl e, s2) \<Rightarrow> (Inl e, s2)
              | (Inr _, s2) \<Rightarrow> (Inr a, s2)))"

definition is_dir :: "attr \<Rightarrow> bool" where
  "is_dir a \<longleftrightarrow> at_mode a AND 61440 = 16384"

definition Unlink :: "u64 \<Rightarrow> string \<Rightarrow> kv \<Rightarrow> attr res \<times> kv" where
  "Unlink p n s =
     (case kv_hget s (direntKey p) n of
        Inl _ \<Rightarrow> (Inl ErrNotFound, s)
      | Inr d \<Rightarrow> (case parse_u64 d of Inl e \<Rightarrow> (Inl e, s) | Inr i \<Rightarrow>
        (case GetAttr s i of Inl e \<Rightarrow> (Inl e, s) | Inr a \<Rightarrow>
          if is_dir a then (Inl ErrIsDir, s)
          else case kv_batch
             [op_hdel (direntKey p) n, op_del (inoKey i), op_srem inodeIndexKey (format_uint i),
              op_del (inodeLinkKey i)] s of
               (Inl e, s1) \<Rightarrow> (Inl e, s1)
             | (Inr _, s1) \<Rightarrow> (Inr a, s1))))"

definition Rmdir :: "u64 \<Rightarrow> string \<Rightarrow> kv \<Rightarrow> unit res \<times> kv" where
  "Rmdir p n s =
     (case kv_hget s (direntKey p) n of
        Inl _ \<Rightarrow> (Inl ErrNotFound, s)
      | Inr d \<Rightarrow> (case parse_u64 d of Inl e \<Rightarrow> (Inl e, s) | Inr i \<Rightarrow>
        (case GetAttr s i of Inl e \<Rightarrow> (Inl e, s) | Inr a \<Rightarrow>
          if \<not> is_dir a then (Inl ErrNotDir, s)
          else if 2 < kv_hlen s (direntKey i) then (Inl ErrNotEmpty, s)
          else kv_batch
             [op_hdel (direntKey p) n, op_del (inoKey i), op_del (direntKey i),
              op_srem inodeIndexKey (format_uint i), op_del (inodeLinkKey i)] s)))"

definition Rename :: "u64 \<Rightarrow> u64 \<Rightarrow> string \<Rightarrow> string \<Rightarrow> kv \<Rightarrow> unit res \<times> kv" where
  "Rename oldParent newParent oldName newName s =
     (case checkName newName of Inl e \<Rightarrow> (Inl e, s) | Inr _ \<Rightarrow>
      (case kv_hget s (direntKey oldParent) oldName of Inl _ \<Rightarrow> (Inl ErrNotFound, s) | Inr _ \<Rightarrow>
       if kv_hexists s (direntKey newParent) newName then (Inl ErrExists, s)
       else case kv_hget s (direntKey oldParent) oldName of Inl e \<Rightarrow> (Inl e, s) | Inr child \<Rightarrow>
        (case parse_u64 child of Inl e \<Rightarrow> (Inl e, s) | Inr i \<Rightarrow>
          kv_batch
            [op_hdel (direntKey oldParent) oldName, op_hset (direntKey newParent) newName child,
             op_set (inodeLinkKey i) (encodeInodeLink newParent newName)] s)))"

definition UpdateAttr :: "attr \<Rightarrow> kv \<Rightarrow> unit res \<times> kv" where
  "UpdateAttr a s = kv_set (inoKey (at_ino a)) (marshal_attr a) s"

definition PurgeInode :: "u64 \<Rightarrow> kv \<Rightarrow> unit res \<times> kv" where
  "PurgeInode i s =
     (if i = rootIno then (Inl (ErrMsg ''cannot purge root inode''), s)
      else
        (let ops = [op_del (inoKey i), op_srem inodeIndexKey (format_uint i), op_del (inodeLinkKey i)];
             link = (case kv_get s (inodeLinkKey i) of
               Inl _ \<Rightarrow> []
             | Inr d \<Rightarrow> (case unmarshal_link d of Inl _ \<Rightarrow> [] | Inr l \<Rightarrow>
                 [op_hdel (direntKey (il_parent l)) (il_name l)]))
         in kv_batch (link @ ops) s))"

section \<open>The codecs are read back\<close>

definition attr_ok :: "attr \<Rightarrow> bool" where
  "attr_ok a \<longleftrightarrow> in_int64 (at_mtime a) \<and> in_int64 (at_expire a) \<and> valid_utf8 (at_target a)
     \<and> (\<forall>c \<in> set (at_chunks a). valid_utf8 c)"

lemma fold_name_attr [simp]:
  "fold_name ''ino'' = ''ino''" "fold_name ''mode'' = ''mode''" "fold_name ''size'' = ''size''"
  "fold_name ''uid'' = ''uid''" "fold_name ''gid'' = ''gid''" "fold_name ''mtime'' = ''mtime''"
  "fold_name ''nlink'' = ''nlink''" "fold_name ''expire_at'' = ''expire_at''"
  "fold_name ''target'' = ''target''" "fold_name ''chunks'' = ''chunks''"
  "fold_name ''parent'' = ''parent''" "fold_name ''name'' = ''name''"
  by (simp_all add: fold_name_def lower_char_def)

lemma valid_utf8_attr [simp]:
  "valid_utf8 ''ino''" "valid_utf8 ''mode''" "valid_utf8 ''size''" "valid_utf8 ''uid''" "valid_utf8 ''gid''"
  "valid_utf8 ''mtime''" "valid_utf8 ''nlink''" "valid_utf8 ''expire_at''" "valid_utf8 ''target''"
  "valid_utf8 ''chunks''" "valid_utf8 ''parent''" "valid_utf8 ''name''"
  by (simp_all add: valid_utf8_Cons_ascii)

lemma unmarshal_marshal_attr:
  assumes "attr_ok a"
  shows "unmarshal_attr (marshal_attr a) = Inr a"
proof -
  have ok: "json_ok (enc_attr a)" using assms by (auto simp: enc_attr_def attr_ok_def omit_def)
  have l: "dec_list (\<lambda>j. dec_string j []) (JArr (map JStr xs)) old = Inr xs" for xs old
    using dec_elems_map [of xs "\<lambda>j. dec_string j []" JStr id] by (simp add: dec_list_def)
  have "dec_struct set_attr_field (enc_attr a) attr_zero = Inr a"
    using assms by (cases a)
      (simp add: dec_struct_def enc_attr_def set_attr_field_def attr_zero_def omit_def attr_ok_def
        parse_int64_format l)
  then show ?thesis by (simp add: unmarshal_attr_def marshal_attr_def unmarshal_print ok)
qed

lemma unmarshal_encode_link:
  "valid_utf8 n \<Longrightarrow> unmarshal_link (encodeInodeLink p n) = Inr \<lparr>il_parent = p, il_name = n\<rparr>"
proof -
  assume "valid_utf8 n"
  then have ok: "json_ok (enc_inode_link \<lparr>il_parent = p, il_name = n\<rparr>)" by (simp add: enc_inode_link_def)
  have "dec_struct set_link_field (enc_inode_link \<lparr>il_parent = p, il_name = n\<rparr>)
      \<lparr>il_parent = 0, il_name = []\<rparr> = Inr \<lparr>il_parent = p, il_name = n\<rparr>"
    by (simp add: dec_struct_def enc_inode_link_def set_link_field_def)
  then show ?thesis by (simp only: unmarshal_link_def encodeInodeLink_def unmarshal_print [OF ok])
qed

lemma keys_distinct [simp, key_simps]:
  "inoKey i = inoKey j \<longleftrightarrow> i = j" "direntKey i = direntKey j \<longleftrightarrow> i = j"
  "inodeLinkKey i = inodeLinkKey j \<longleftrightarrow> i = j"
  "inoKey i \<noteq> direntKey j" "direntKey i \<noteq> inoKey j" "inoKey i \<noteq> inodeLinkKey j" "inodeLinkKey i \<noteq> inoKey j"
  "direntKey i \<noteq> inodeLinkKey j" "inodeLinkKey i \<noteq> direntKey j"
  "inoKey i \<noteq> nextInoKey" "nextInoKey \<noteq> inoKey i" "direntKey i \<noteq> nextInoKey" "nextInoKey \<noteq> direntKey i"
  "inodeLinkKey i \<noteq> nextInoKey" "nextInoKey \<noteq> inodeLinkKey i"
  "inoKey i \<noteq> inodeIndexKey" "inodeIndexKey \<noteq> inoKey i" "direntKey i \<noteq> inodeIndexKey"
  "inodeIndexKey \<noteq> direntKey i" "inodeLinkKey i \<noteq> inodeIndexKey" "inodeIndexKey \<noteq> inodeLinkKey i"
  "nextInoKey \<noteq> inodeIndexKey" "inodeIndexKey \<noteq> nextInoKey"
  by (auto simp: inoKey_def direntKey_def inodeLinkKey_def nextInoKey_def inodeIndexKey_def)

lemma format_uint_ascii: "c \<in> set (format_uint v) \<Longrightarrow> (of_char c :: nat) < 128"
  using format_nat_digits [of c "unat v"] by (simp add: format_uint_def)

lemma valid_utf8_format_uint [simp]: "valid_utf8 (format_uint v)"
  by (rule valid_utf8_ascii) (rule format_uint_ascii)

lemma valid_utf8_keys [simp]:
  "valid_utf8 (inoKey i)" "valid_utf8 (direntKey i)" "valid_utf8 (inodeLinkKey i)" "valid_utf8 nextInoKey"
  "valid_utf8 inodeIndexKey" "valid_utf8 ''.''" "valid_utf8 ''..''"
proof -
  have l: "valid_utf8 ''memoryfs:ino:''" "valid_utf8 ''memoryfs:dirent:''" "valid_utf8 ''memoryfs:ilink:''"
    by (simp_all add: valid_utf8_Cons_ascii)
  show "valid_utf8 (inoKey i)" "valid_utf8 (direntKey i)" "valid_utf8 (inodeLinkKey i)"
    unfolding inoKey_def direntKey_def inodeLinkKey_def by (intro valid_utf8_append l valid_utf8_format_uint)+
qed (simp_all add: nextInoKey_def inodeIndexKey_def valid_utf8_Cons_ascii)

end
