(* ===== verification/Transport.thy ===== *)
theory Transport
  imports Json
begin

text \<open>
  Package \<^verbatim>\<open>transport\<close>: the options of a chunk write between the targets of a chain, how the HTTP
  transport puts them into the query of a URL (\<^verbatim>\<open>http.go\<close>), how the receiving node reads them
  back (\<^verbatim>\<open>parseReplicaWriteRequest\<close> of \<^verbatim>\<open>node/server.go\<close>), and the fallback over several
  transports (\<^verbatim>\<open>transport.go\<close>). The query encoding is that of Go's \<^verbatim>\<open>net/url\<close>.
\<close>

section \<open>Queries (net/url)\<close>

definition query_safe :: "char \<Rightarrow> bool" where
  "query_safe c \<longleftrightarrow> (let n = (of_char c :: nat) in
     48 \<le> n \<and> n \<le> 57 \<or> 65 \<le> n \<and> n \<le> 90 \<or> 97 \<le> n \<and> n \<le> 122 \<or> c \<in> {CHR ''-'', CHR ''_'', CHR ''.'', CHR ''~''})"

definition upper_hex :: "nat \<Rightarrow> char" where
  "upper_hex d = (if d < 10 then char_of (48 + d) else char_of (55 + d))"

definition escape_char :: "char \<Rightarrow> string" where
  "escape_char c =
     (if query_safe c then [c] else if c = CHR '' '' then ''+''
      else [CHR ''%'', upper_hex (of_char c div 16), upper_hex (of_char c mod 16)])"

definition QueryEscape :: "string \<Rightarrow> string" where
  "QueryEscape s = concat (map escape_char s)"

fun QueryUnescape :: "string \<Rightarrow> string option" where
  "QueryUnescape [] = Some []"
| "QueryUnescape (c # s) =
     (if c = CHR ''%'' then
        (case s of
           a # b # t \<Rightarrow>
             (case (hex_val a, hex_val b) of
                (Some x, Some y) \<Rightarrow> map_option ((#) (char_of (16 * x + y))) (QueryUnescape t)
              | _ \<Rightarrow> None)
         | _ \<Rightarrow> None)
      else map_option ((#) (if c = CHR ''+'' then CHR '' '' else c)) (QueryUnescape s))"

type_synonym url_values = "(string \<times> string) list"

definition values_get :: "url_values \<Rightarrow> string \<Rightarrow> string" where
  "values_get vs k = (case map_of vs k of None \<Rightarrow> [] | Some v \<Rightarrow> v)"

text \<open>\<^verbatim>\<open>Values.Encode\<close> sorts by key. The argument has its keys in that order already.\<close>

definition encode_pair :: "string \<times> string \<Rightarrow> string" where
  "encode_pair p = QueryEscape (fst p) @ ''='' @ QueryEscape (snd p)"

definition values_encode :: "url_values \<Rightarrow> string" where
  "values_encode vs = join_with ''&'' (map encode_pair (sort_key fst vs))"

text \<open>\<^verbatim>\<open>ParseQuery\<close>, which skips the empty and the malformed parts.\<close>

definition parse_pair :: "string \<Rightarrow> url_values" where
  "parse_pair p =
     (if p = [] \<or> CHR '';'' \<in> set p then []
      else case (QueryUnescape (before_char CHR ''='' p), QueryUnescape (tl (dropWhile (\<lambda>c. c \<noteq> CHR ''='') p))) of
        (Some k, Some v) \<Rightarrow> [(k, v)]
      | _ \<Rightarrow> [])"

definition parse_query :: "string \<Rightarrow> url_values" where
  "parse_query q = concat (map parse_pair (split_on CHR ''&'' q))"

lemma hex_val_upper_hex [simp]: "d < 16 \<Longrightarrow> hex_val (upper_hex d) = Some d"
  by (simp add: hex_val_def upper_hex_def Let_def)

lemma char_of_of_char_div: "char_of (16 * (of_char c div 16 :: nat) + of_char c mod 16) = c"
  by simp

lemma of_char_div_16: "(of_char c :: nat) div 16 < 16"
proof -
  have "(of_char c :: nat) < 256" using nat_of_char_less_256 [of c] by simp
  then show ?thesis by (intro less_mult_imp_div_less) simp
qed

lemma unescape_escape_char: "QueryUnescape (escape_char c @ s) = map_option ((#) c) (QueryUnescape s)"
proof (cases "query_safe c")
  case True
  then have "c \<noteq> CHR ''%''" "c \<noteq> CHR ''+''" by (auto simp: query_safe_def)
  with True show ?thesis by (simp add: escape_char_def)
next
  case False
  then show ?thesis
    using of_char_div_16 [of c] char_of_of_char_div [of c] by (simp add: escape_char_def)
qed

lemma unescape_escape [simp]: "QueryUnescape (QueryEscape s) = Some s"
proof (induction s)
  case (Cons c s)
  have "QueryEscape (c # s) = escape_char c @ QueryEscape s" by (simp add: QueryEscape_def)
  with Cons show ?case by (simp only: unescape_escape_char) simp
qed (simp add: QueryEscape_def)

lemma upper_hex_safe: "d < 16 \<Longrightarrow> query_safe (upper_hex d)"
  by (auto simp: query_safe_def upper_hex_def Let_def)

lemma escape_chars: "c \<in> set (QueryEscape s) \<Longrightarrow> query_safe c \<or> c = CHR ''+'' \<or> c = CHR ''%''"
  using of_char_div_16 by (auto simp: QueryEscape_def escape_char_def upper_hex_safe split: if_splits)

lemma escape_no_sep [simp]:
  "CHR ''&'' \<notin> set (QueryEscape s)" "CHR ''='' \<notin> set (QueryEscape s)" "CHR '';'' \<notin> set (QueryEscape s)"
  using escape_chars [of _ s] by (auto simp: query_safe_def dest!: escape_chars)

lemma parse_encode_pair [simp]: "parse_pair (encode_pair p) = [p]"
proof -
  have "before_char CHR ''='' (QueryEscape k @ CHR ''='' # v) = QueryEscape k"
    "tl (dropWhile (\<lambda>c. c \<noteq> CHR ''='') (QueryEscape k @ CHR ''='' # v)) = v" for k v
    using escape_no_sep(2) [of k] by (auto simp: before_char_def takeWhile_append dropWhile_append)
  then show ?thesis by (simp add: parse_pair_def encode_pair_def)
qed

lemma encode_pair_no_amp [simp]: "CHR ''&'' \<notin> set (encode_pair p)"
  by (simp add: encode_pair_def)

lemma parse_query_join: "parse_query (join_with ''&'' (map encode_pair vs)) = vs"
proof (cases "vs = []")
  case False
  then have "split_on CHR ''&'' (join_with ''&'' (map encode_pair vs)) = map encode_pair vs"
    by (intro split_join) auto
  then show ?thesis by (simp add: parse_query_def concat_map_singleton comp_def)
qed (simp add: parse_query_def parse_pair_def)

lemma parse_query_encode: "parse_query (values_encode vs) = sort_key fst vs"
  by (simp add: values_encode_def parse_query_join)

section \<open>Write options\<close>

record write_options =
  wo_replica :: bool
  wo_from_client :: bool
  wo_stage :: string
  wo_chain :: u32
  wo_chain_ver :: u64
  wo_update :: u64
  wo_commit :: u64
  wo_replicas :: "string list"
  wo_syncing :: bool

record replica_write =
  rw_stage :: string
  rw_chain :: u32
  rw_chain_ver :: u64
  rw_update :: u64
  rw_commit :: u64
  rw_replicas :: "string list"
  rw_from_client :: bool
  rw_syncing :: bool

definition stagePrepare :: string where "stagePrepare = ''prepare''"
definition stageCommit :: string where "stageCommit = ''commit''"
definition stageRemove :: string where "stageRemove = ''remove''"

lemmas stage_defs = stagePrepare_def stageCommit_def stageRemove_def

lemma stages_distinct [simp]:
  "stagePrepare \<noteq> stageCommit" "stageCommit \<noteq> stagePrepare" "stagePrepare \<noteq> stageRemove"
  "stageRemove \<noteq> stagePrepare" "stageCommit \<noteq> stageRemove" "stageRemove \<noteq> stageCommit"
  by (simp_all add: stage_defs)

definition normalizeURIPrefix :: "string \<Rightarrow> string" where
  "normalizeURIPrefix p =
     (let p = trim_space p in
      if p = [] \<or> p = ''/'' then []
      else trim_suffix (if has_prefix p ''/'' then p else ''/'' @ p) ''/'')"

definition chunkURL :: "string \<Rightarrow> string \<Rightarrow> string \<Rightarrow> bool \<Rightarrow> string" where
  "chunkURL prefix node k replica =
     trim_right_slash node @ prefix @ ''/chunks/'' @ k @ (if replica then ''?replica=1'' else [])"

definition set_if :: "bool \<Rightarrow> string \<Rightarrow> string \<Rightarrow> url_values" where
  "set_if b k v = (if b then [(k, v)] else [])"

definition option_values :: "write_options \<Rightarrow> url_values" where
  "option_values w =
     set_if (wo_stage w \<noteq> []) ''stage'' (wo_stage w)
   @ set_if (wo_chain w \<noteq> 0) ''chain_id'' (format_uint (ucast (wo_chain w)))
   @ set_if (wo_chain_ver w \<noteq> 0) ''chain_ver'' (format_uint (wo_chain_ver w))
   @ set_if (wo_update w \<noteq> 0) ''update_ver'' (format_uint (wo_update w))
   @ set_if (wo_commit w \<noteq> 0) ''commit_ver'' (format_uint (wo_commit w))
   @ set_if (wo_replicas w \<noteq> []) ''replicas'' (join_with '','' (wo_replicas w))
   @ set_if (wo_from_client w) ''from_client'' ''1''
   @ set_if (wo_syncing w) ''syncing'' ''1''"

text \<open>The URL \<^verbatim>\<open>HTTPTransport.PutChunkWithOptions\<close> sends its request to.\<close>

definition put_url :: "string \<Rightarrow> string \<Rightarrow> string \<Rightarrow> write_options \<Rightarrow> string" where
  "put_url prefix node k w =
     (let u = chunkURL prefix node k (wo_replica w); enc = values_encode (option_values w) in
      if enc = [] then u else if CHR ''?'' \<in> set u then u @ ''&'' @ enc else u @ ''?'' @ enc)"

text \<open>The query of a URL: what follows its first question mark.\<close>

definition raw_query :: "string \<Rightarrow> string" where
  "raw_query u = tl (dropWhile (\<lambda>c. c \<noteq> CHR ''?'') u)"

section \<open>Reading the options\<close>

definition parseReplicasCSV :: "string \<Rightarrow> string list" where
  "parseReplicasCSV raw =
     (let raw = trim_space raw in
      if raw = [] then [] else filter (\<lambda>p. p \<noteq> []) (map trim_space (split_on CHR '','' raw)))"

definition parse_field :: "nat \<Rightarrow> string \<Rightarrow> url_values \<Rightarrow> ('a::len) word res" where
  "parse_field bits k vs =
     (let raw = values_get vs k in
      if raw = [] then Inr 0
      else case parse_uint bits raw of
        Inl e \<Rightarrow> Inl (ErrMsg (''invalid '' @ k @ '': '' @ error_string e))
      | Inr n \<Rightarrow> Inr (of_nat n))"

definition parseReplicaWriteRequest :: "url_values \<Rightarrow> replica_write res" where
  "parseReplicaWriteRequest vs =
     (case parse_field 32 ''chain_id'' vs of Inl e \<Rightarrow> Inl e | Inr chain \<Rightarrow>
      case parse_field 64 ''chain_ver'' vs of Inl e \<Rightarrow> Inl e | Inr chain_ver \<Rightarrow>
      case parse_field 64 ''update_ver'' vs of Inl e \<Rightarrow> Inl e | Inr update \<Rightarrow>
      case parse_field 64 ''commit_ver'' vs of Inl e \<Rightarrow> Inl e | Inr commit \<Rightarrow>
      Inr \<lparr>rw_stage = (if values_get vs ''stage'' = [] then ''prepare'' else values_get vs ''stage''),
           rw_chain = chain, rw_chain_ver = chain_ver, rw_update = update, rw_commit = commit,
           rw_replicas = parseReplicasCSV (values_get vs ''replicas''),
           rw_from_client = (values_get vs ''from_client'' = ''1''),
           rw_syncing = (values_get vs ''syncing'' = ''1'')\<rparr>)"

text \<open>The gRPC server copies the fields of the first message.\<close>

definition grpc_replica_write :: "write_options \<Rightarrow> replica_write" where
  "grpc_replica_write w =
     \<lparr>rw_stage = (if wo_stage w = [] then ''prepare'' else wo_stage w), rw_chain = wo_chain w,
      rw_chain_ver = wo_chain_ver w, rw_update = wo_update w, rw_commit = wo_commit w,
      rw_replicas = wo_replicas w, rw_from_client = wo_from_client w, rw_syncing = wo_syncing w\<rparr>"

text \<open>A replica list survives the comma-separated form if its URLs have no comma and no outer space.\<close>

definition csv_ok :: "string list \<Rightarrow> bool" where
  "csv_ok rs \<longleftrightarrow> (\<forall>r \<in> set rs. r \<noteq> [] \<and> CHR '','' \<notin> set r \<and> (\<forall>c \<in> set r. \<not> is_space c))"

lemma set_join_with: "set (join_with sep ws) \<subseteq> set sep \<union> \<Union> (set ` set ws)"
  by (induction sep ws rule: join_with.induct) auto

lemma parse_csv_join [simp]:
  assumes "csv_ok rs"
  shows "parseReplicasCSV (join_with '','' rs) = rs"
proof (cases "rs = []")
  case False
  have "\<not> is_space c" if "c \<in> set (join_with '','' rs)" for c
  proof -
    have "c \<in> set '','' \<union> \<Union> (set ` set rs)" using that set_join_with by blast
    then show ?thesis using assms by (auto simp: csv_ok_def is_space_def)
  qed
  then have ts: "trim_space (join_with '','' rs) = join_with '','' rs" by (intro trim_space_no_space)
  have ne: "join_with '','' rs \<noteq> []"
    using False assms by (cases rs rule: remdups_adj.cases) (auto simp: csv_ok_def)
  have "split_on CHR '','' (join_with '','' rs) = rs"
    using assms False by (intro split_join) (auto simp: csv_ok_def)
  moreover have "map trim_space rs = rs"
    using assms by (intro map_idI trim_space_no_space) (auto simp: csv_ok_def)
  moreover have "filter (\<lambda>p. p \<noteq> []) rs = rs" using assms by (auto simp: csv_ok_def)
  ultimately show ?thesis by (simp add: parseReplicasCSV_def ts ne)
qed (simp add: parseReplicasCSV_def trim_space_def trim_left_char_def trim_right_char_def)

lemma map_fst_set_if: "map fst (set_if b k v) = (if b then [k] else [])"
  by (simp add: set_if_def)

lemma distinct_set_if: "distinct ((if b then [k] else []) @ xs) \<longleftrightarrow> distinct xs \<and> (b \<longrightarrow> k \<notin> set xs)"
  "distinct (if b then [k] else [])" "set (if b then [k] else []) = {x. b \<and> x = k}"
  by auto

lemma option_values_distinct: "distinct (map fst (option_values w))"
  unfolding option_values_def map_append map_fst_set_if append_assoc distinct_set_if set_append by simp

lemma values_get_sorted:
  "values_get (pre @ sort_key fst (option_values w)) k = values_get (pre @ option_values w) k"
proof -
  have "map_of (sort_key fst (option_values w)) = map_of (option_values w)"
    using option_values_distinct [of w]
    by (subst map_of_inject_set) (simp_all add: distinct_map inj_on_def distinct_sort)
  then show ?thesis by (simp add: values_get_def map_add_def)
qed

lemma values_get_set_if [simp]:
  "values_get (set_if b k v @ vs) j = (if b \<and> j = k then v else values_get vs j)"
  "values_get (set_if b k v) j = (if b \<and> j = k then v else [])"
  by (auto simp: values_get_def set_if_def)

lemma raw_query_put_url:
  assumes "CHR ''?'' \<notin> set (chunkURL prefix node k False)"
  shows "raw_query (put_url prefix node k w) =
     join_with ''&'' (map encode_pair (set_if (wo_replica w) ''replica'' ''1'' @ sort_key fst (option_values w)))"
proof -
  let ?u = "chunkURL prefix node k False" and ?e = "values_encode (option_values w)"
  have u: "chunkURL prefix node k True = ?u @ ''?replica=1''" by (simp add: chunkURL_def)
  have e: "encode_pair (''replica'', ''1'') = ''replica=1''"
    by (simp add: encode_pair_def QueryEscape_def escape_char_def query_safe_def)
  have dw: "dropWhile (\<lambda>c. c \<noteq> CHR ''?'') ?u = []" using assms by (auto simp: dropWhile_eq_Nil_conv)
  have q: "raw_query (?u @ ''?'' @ x) = x" "raw_query ?u = []" for x
    using assms by (auto simp: raw_query_def dropWhile_append dw)
  have ne: "?e = [] \<longleftrightarrow> option_values w = []"
  proof (cases "sort_key fst (option_values w)" rule: remdups_adj.cases)
    case 1
    then have "option_values w = []" by (metis length_0_conv length_sort)
    then show ?thesis by (simp add: values_encode_def)
  qed (auto simp: values_encode_def encode_pair_def)
  show ?thesis
  proof (cases "wo_replica w")
    case True
    have "join_with ''&'' (''replica=1'' # map encode_pair (sort_key fst (option_values w)))
        = ''replica=1'' @ (if option_values w = [] then [] else ''&'' @ ?e)"
      by (cases "sort_key fst (option_values w)")
        (auto simp: values_encode_def dest: arg_cong [of _ _ length])
    moreover have "put_url prefix node k w = ?u @ ''?'' @ ''replica=1'' @ (if option_values w = [] then [] else ''&'' @ ?e)"
      using True ne by (simp add: put_url_def u)
    ultimately show ?thesis using True q(1) by (simp add: set_if_def e)
  next
    case False
    then have "put_url prefix node k w = (if option_values w = [] then ?u else ?u @ ''?'' @ ?e)"
      using assms ne by (simp add: put_url_def)
    then show ?thesis using False q by (simp add: set_if_def values_encode_def)
  qed
qed

lemma parse_field_option:
  "values_get vs k = (if x = 0 then [] else format_nat (unat (x :: 'a::len word))) \<Longrightarrow> LENGTH('a) = bits \<Longrightarrow>
     parse_field bits k vs = Inr x"
  using unsigned_less [of x] by (auto simp: parse_field_def)

lemma parse_put_url:
  assumes "csv_ok (wo_replicas w)" "CHR ''?'' \<notin> set (chunkURL prefix node k False)"
  shows "parseReplicaWriteRequest (parse_query (raw_query (put_url prefix node k w))) = Inr (grpc_replica_write w)"
    and "values_get (parse_query (raw_query (put_url prefix node k w))) ''replica'' = ''1'' \<longleftrightarrow> wo_replica w"
proof -
  let ?vs = "parse_query (raw_query (put_url prefix node k w))"
  have vs: "values_get ?vs j = values_get (set_if (wo_replica w) ''replica'' ''1'' @ option_values w) j" for j
    unfolding raw_query_put_url [OF assms(2)] parse_query_join values_get_sorted ..
  note defs = option_values_def
  have u: "format_uint (ucast (wo_chain w)) = format_nat (unat (wo_chain w))"
  proof -
    have "unat (wo_chain w) < 2 ^ 64" using unsigned_less [of "wo_chain w", where ?'a = nat] by simp
    then show ?thesis by (simp add: format_uint_def unsigned_ucast_eq take_bit_nat_eq_self)
  qed
  have 1: "parse_field 32 ''chain_id'' ?vs = Inr (wo_chain w)"
    by (rule parse_field_option; (subst vs)?) (simp_all add: defs u)
  have 2: "parse_field 64 ''chain_ver'' ?vs = Inr (wo_chain_ver w)"
    "parse_field 64 ''update_ver'' ?vs = Inr (wo_update w)" "parse_field 64 ''commit_ver'' ?vs = Inr (wo_commit w)"
    by (rule parse_field_option; (subst vs)?; simp add: defs format_uint_def)+
  have 3: "values_get ?vs ''stage'' = wo_stage w" "(values_get ?vs ''from_client'' = ''1'') = wo_from_client w"
    "(values_get ?vs ''syncing'' = ''1'') = wo_syncing w"
    "values_get ?vs ''replicas'' = join_with '','' (wo_replicas w)"
    by (subst vs; auto simp: defs)+
  show "parseReplicaWriteRequest ?vs = Inr (grpc_replica_write w)"
    using assms(1) 3 by (simp add: parseReplicaWriteRequest_def 1 2 grpc_replica_write_def)
  show "values_get ?vs ''replica'' = ''1'' \<longleftrightarrow> wo_replica w" by (subst vs; auto simp: defs)
qed

end
