(* ===== verification/Lifecycle.thy ===== *)
theory Lifecycle
  imports Prelude
begin

text \<open>
  Package \<^verbatim>\<open>lifecycle\<close> (\<^verbatim>\<open>manager.go\<close>): the state of a node during a rolling update, the cluster
  epoch it has seen, and the number of chunks a drain still has to move (an \<open>int32\<close>).
\<close>

datatype life_state = StateActive | StateDraining | StateDrained

fun life_string :: "life_state \<Rightarrow> string" where
  "life_string StateActive = ''active''"
| "life_string StateDraining = ''draining''"
| "life_string StateDrained = ''drained''"

record lifecycle =
  lc_state :: life_state
  lc_epoch :: u64
  lc_pending :: "32 word"

definition NewManager :: lifecycle where
  "NewManager = \<lparr>lc_state = StateActive, lc_epoch = 1, lc_pending = 0\<rparr>"

definition BumpEpoch :: "lifecycle \<Rightarrow> u64 \<times> lifecycle" where
  "BumpEpoch m = (lc_epoch m + 1, m\<lparr>lc_epoch := lc_epoch m + 1\<rparr>)"

definition StartDrain :: "lifecycle \<Rightarrow> lifecycle" where
  "StartDrain m = (if lc_state m = StateActive then m\<lparr>lc_state := StateDraining\<rparr> else m)"

definition SetPendingDrain :: "int \<Rightarrow> lifecycle \<Rightarrow> lifecycle" where
  "SetPendingDrain n m = m\<lparr>lc_pending := word_of_int n\<rparr>"

definition PendingDrain :: "lifecycle \<Rightarrow> int" where
  "PendingDrain m = sint (lc_pending m)"

definition MarkDrained :: "lifecycle \<Rightarrow> lifecycle" where
  "MarkDrained m = m\<lparr>lc_state := StateDrained, lc_pending := 0\<rparr>"

definition SetEpoch :: "u64 \<Rightarrow> lifecycle \<Rightarrow> lifecycle" where
  "SetEpoch e m = (if 0 < e then m\<lparr>lc_epoch := e\<rparr> else m)"

definition life_ready :: "lifecycle \<Rightarrow> lifecycle" where
  "life_ready m = m\<lparr>lc_state := StateActive, lc_pending := 0\<rparr>"

definition AcceptsChunks :: "lifecycle \<Rightarrow> bool" where
  "AcceptsChunks m \<longleftrightarrow> lc_state m = StateActive"

lemmas life_defs = BumpEpoch_def StartDrain_def SetPendingDrain_def MarkDrained_def SetEpoch_def life_ready_def

lemma life_epoch_keep [simp]:
  "lc_epoch (StartDrain m) = lc_epoch m" "lc_epoch (SetPendingDrain n m) = lc_epoch m"
  "lc_epoch (MarkDrained m) = lc_epoch m" "lc_epoch (life_ready m) = lc_epoch m"
  by (simp_all add: life_defs)

lemma life_state_keep [simp]:
  "lc_state (SetPendingDrain n m) = lc_state m" "lc_state (SetEpoch e m) = lc_state m"
  "lc_state (MarkDrained m) = StateDrained" "lc_state (life_ready m) = StateActive"
  by (simp_all add: life_defs)

section \<open>The state machine\<close>

text \<open>The calls of the service, and the states they lead through.\<close>

datatype life_call =
  CStartDrain | CSetPending int | CMarkDrained | CSetEpoch u64 | CReady | CBump

fun life_step :: "life_call \<Rightarrow> lifecycle \<Rightarrow> lifecycle" where
  "life_step CStartDrain m = StartDrain m"
| "life_step (CSetPending n) m = SetPendingDrain n m"
| "life_step CMarkDrained m = MarkDrained m"
| "life_step (CSetEpoch e) m = SetEpoch e m"
| "life_step CReady m = life_ready m"
| "life_step CBump m = snd (BumpEpoch m)"

lemma life_step_blocked:
  "lc_state m \<noteq> StateActive \<Longrightarrow> c \<noteq> CReady \<Longrightarrow> lc_state (life_step c m) \<noteq> StateActive"
  by (cases c) (auto simp: life_defs)

lemma fold_blocked:
  "CReady \<notin> set cs \<Longrightarrow> lc_state m \<noteq> StateActive \<Longrightarrow> lc_state (fold life_step cs m) \<noteq> StateActive"
proof (induction cs arbitrary: m)
  case (Cons c cs)
  from Cons.prems have "c \<noteq> CReady" by auto
  with Cons life_step_blocked [of m c] show ?case by simp
qed simp

text \<open>
  C40. A node that started to drain takes no chunk until it is made ready again: after
  \<open>StartDrain\<close>, whatever calls follow except \<open>Ready\<close>, it does not accept chunks; \<open>Ready\<close> makes it
  accept them and clears the pending count; and the pending count that \<open>Health\<close> reports is the
  number set, for every count an \<open>int32\<close> holds.
\<close>

theorem drain_blocks_until_ready:
  assumes "CReady \<notin> set cs" "0 \<le> n" "n < 2 ^ 31"
  shows "\<not> AcceptsChunks (fold life_step cs (StartDrain m))
     \<and> AcceptsChunks (life_ready (fold life_step cs (StartDrain m)))
     \<and> PendingDrain (life_ready m) = 0
     \<and> PendingDrain (SetPendingDrain n m) = n"
proof -
  have "lc_state (StartDrain m) \<noteq> StateActive" by (simp add: StartDrain_def)
  then have "\<not> AcceptsChunks (fold life_step cs (StartDrain m))"
    using fold_blocked [OF assms(1)] by (simp add: AcceptsChunks_def)
  moreover have "signed_take_bit 31 n = n" using assms(2,3) by (intro signed_take_bit_int_eq_self) auto
  then have "PendingDrain (SetPendingDrain n m) = n"
    by (simp add: PendingDrain_def SetPendingDrain_def signed_of_int)
  ultimately show ?thesis by (simp add: AcceptsChunks_def life_ready_def PendingDrain_def)
qed

theorem drain_blocks_until_ready_witness:
  "\<not> AcceptsChunks (fold life_step [CSetPending 3, CMarkDrained, CStartDrain] (StartDrain NewManager))
   \<and> PendingDrain (SetPendingDrain 3 NewManager) = 3"
  using drain_blocks_until_ready [of "[CSetPending 3, CMarkDrained, CStartDrain]" 3 NewManager] by simp

end
