(* ===== verification/Repair_Queue.thy ===== *)
theory Repair_Queue
  imports Prelude
begin

text \<open>
  The queue of chunks that need repair (\<^verbatim>\<open>service/repair.go\<close>): a map from chunk ids to jobs.
  The time a job was queued at is shown by the API only and left out.
\<close>

record repair_job =
  rj_chunk :: string
  rj_replicas :: "string list"
  rj_attempts :: nat
  rj_error :: string

type_synonym repair_queue = "(string, repair_job) gomap"

definition NewRepairQueue :: repair_queue where
  "NewRepairQueue = []"

definition Enqueue :: "string \<Rightarrow> string list \<Rightarrow> repair_queue \<Rightarrow> repair_queue" where
  "Enqueue k rs q =
     (case mget q k of
        Some _ \<Rightarrow> q
      | None \<Rightarrow> mput k \<lparr>rj_chunk = k, rj_replicas = rs, rj_attempts = 0, rj_error = []\<rparr> q)"

definition queue_done :: "string \<Rightarrow> repair_queue \<Rightarrow> repair_queue" where
  "queue_done k q = mdel k q"

definition queue_fail :: "string \<Rightarrow> string \<Rightarrow> repair_queue \<Rightarrow> repair_queue" where
  "queue_fail k msg q =
     (case mget q k of
        None \<Rightarrow> q
      | Some j \<Rightarrow> mput k (j\<lparr>rj_attempts := Suc (rj_attempts j), rj_error := msg\<rparr>) q)"

definition queue_len :: "repair_queue \<Rightarrow> nat" where
  "queue_len q = length q"

definition queue_snapshot :: "repair_queue \<Rightarrow> repair_job list" where
  "queue_snapshot q = map snd q"

record repair_info =
  ri_pending :: nat
  ri_jobs :: "repair_job list"

definition queue_info :: "int \<Rightarrow> repair_queue \<Rightarrow> repair_info" where
  "queue_info limit q =
     (let jobs = queue_snapshot q in
      \<lparr>ri_pending = length (queue_snapshot q),
       ri_jobs = (if 0 < limit \<and> limit < int (length jobs) then take (nat limit) jobs else jobs)\<rparr>)"

text \<open>Every job is filed under its own chunk.\<close>

definition queue_ok :: "repair_queue \<Rightarrow> bool" where
  "queue_ok q \<longleftrightarrow> mwf q \<and> (\<forall>k j. mget q k = Some j \<longrightarrow> rj_chunk j = k)"

lemma queue_ok_new [simp]: "queue_ok NewRepairQueue"
  by (simp add: queue_ok_def NewRepairQueue_def)

lemma queue_ok_ops [simp]:
  "queue_ok q \<Longrightarrow> queue_ok (Enqueue k rs q)" "queue_ok q \<Longrightarrow> queue_ok (queue_done k q)"
  "queue_ok q \<Longrightarrow> queue_ok (queue_fail k msg q)"
  by (auto simp: queue_ok_def Enqueue_def queue_done_def queue_fail_def split: option.splits)

lemma queue_get:
  "mget (Enqueue k rs q) j = (if j = k \<and> mget q k = None
     then Some \<lparr>rj_chunk = k, rj_replicas = rs, rj_attempts = 0, rj_error = []\<rparr> else mget q j)"
  "mget (queue_done k q) j = (if j = k then None else mget q j)"
  "mget (queue_fail k msg q) j = (if j = k then map_option (\<lambda>x. x\<lparr>rj_attempts := Suc (rj_attempts x), rj_error := msg\<rparr>) (mget q k)
     else mget q j)"
  by (auto simp: Enqueue_def queue_done_def queue_fail_def split: option.splits)

lemma queue_length:
  "queue_ok q \<Longrightarrow> mget q k = Some j \<Longrightarrow> Suc (length (queue_done k q)) = length q"
  "mget q k = Some j \<Longrightarrow> length (queue_fail k msg q) = length q"
  by (simp_all add: queue_ok_def queue_done_def queue_fail_def length_mdel length_mput)

lemma queue_snapshot_set: "queue_ok q \<Longrightarrow> j \<in> set (queue_snapshot q) \<longleftrightarrow> mget q (rj_chunk j) = Some j"
  by (auto simp: queue_snapshot_def queue_ok_def mget_mem image_iff Bex_def)

end
