(* ===== verification/Node.thy ===== *)
theory Node
  imports Chunk_Registry Meta_Store Transport Lifecycle Repair_Queue
begin

text \<open>
  The state of a node (\<^verbatim>\<open>Service\<close> and \<^verbatim>\<open>Config\<close> of \<^verbatim>\<open>service/service.go\<close>) and its operations on
  that state alone: the cluster settings it reads from the key-value store (\<^verbatim>\<open>service/cluster.go\<close>),
  the versions and states of its chains (\<^verbatim>\<open>service/chain_state.go\<close>), and the versions of its chunks
  (\<^verbatim>\<open>service/craq.go\<close>).

  The times that the code stores beside versions (\<^verbatim>\<open>UpdatedAt\<close>, \<^verbatim>\<open>At\<close>) are read by no operation and
  are left out. The mutexes order the operations; a request holds the lock of its chunk until it
  answers, and the model runs it as one step.
\<close>

section \<open>Data\<close>

definition ChunkStatePending :: string where "ChunkStatePending = ''pending''"
definition ChunkStateCommitted :: string where "ChunkStateCommitted = ''committed''"

record chunk_meta =
  cm_id :: string
  cm_chain :: u32
  cm_chain_ver :: u64
  cm_update :: u64
  cm_commit :: u64
  cm_state :: string

definition meta_zero :: chunk_meta where
  "meta_zero = \<lparr>cm_id = [], cm_chain = 0, cm_chain_ver = 0, cm_update = 0, cm_commit = 0, cm_state = []\<rparr>"

definition Committed :: "chunk_meta \<Rightarrow> bool" where
  "Committed m \<longleftrightarrow> cm_state m = ChunkStateCommitted \<and> cm_update m \<le> cm_commit m"

definition TargetStateServing :: string where "TargetStateServing = ''serving''"
definition TargetStateSyncing :: string where "TargetStateSyncing = ''syncing''"
definition TargetStateWaiting :: string where "TargetStateWaiting = ''waiting''"
definition TargetStateOffline :: string where "TargetStateOffline = ''offline''"

record idem_state =
  is_chain_ver :: u64
  is_update :: u64
  is_commit :: u64
  is_err :: string

definition idem_ok :: "chunk_meta \<Rightarrow> idem_state" where
  "idem_ok m = \<lparr>is_chain_ver = cm_chain_ver m, is_update = cm_update m, is_commit = cm_commit m, is_err = []\<rparr>"

definition idem_fail :: "err \<Rightarrow> idem_state" where
  "idem_fail e = \<lparr>is_chain_ver = 0, is_update = 0, is_commit = 0, is_err = error_string e\<rparr>"

record node =
  nd_id :: string
  nd_http :: string
  nd_prefix :: string
  nd_kv :: kv
  nd_store :: store
  nd_life :: lifecycle
  nd_rf :: int
  nd_queue :: repair_queue
  nd_quota_gb :: int
  nd_ttl :: int
  nd_meta :: "(string, chunk_meta) gomap"
  nd_idem :: "(string, idem_state) gomap"
  nd_states :: "(u32, string) gomap"
  nd_vers :: "(u32, u64) gomap"
  nd_syncing :: "(u32, bool) gomap"

definition DefaultReplicaFactor :: int where "DefaultReplicaFactor = 2"

definition NewService :: "string \<Rightarrow> string \<Rightarrow> string \<Rightarrow> kv \<Rightarrow> store \<Rightarrow> int \<Rightarrow> int \<Rightarrow> int \<Rightarrow> node" where
  "NewService nid http prefix kvs st rf quota_gb ttl =
     \<lparr>nd_id = nid, nd_http = http, nd_prefix = prefix, nd_kv = kvs, nd_store = st, nd_life = NewManager,
      nd_rf = (if rf \<le> 0 then DefaultReplicaFactor else rf), nd_queue = NewRepairQueue,
      nd_quota_gb = quota_gb, nd_ttl = ttl, nd_meta = [], nd_idem = [], nd_states = [], nd_vers = [],
      nd_syncing = []\<rparr>"

section \<open>Leadership and cluster settings\<close>

definition IsLeader :: "node \<Rightarrow> bool" where
  "IsLeader nd = (case kv_raft (nd_kv nd) of None \<Rightarrow> True | Some r \<Rightarrow> is_leader r)"

definition EpochKey :: string where "EpochKey = ''memoryfs:cluster:epoch''"
definition configRFKey :: string where "configRFKey = ''memoryfs:config:replica_factor''"
definition nodeHTTPKey :: "string \<Rightarrow> string" where "nodeHTTPKey i = ''memoryfs:node:http:'' @ i"
definition nodeRaftKey :: "string \<Rightarrow> string" where "nodeRaftKey i = ''memoryfs:node:raft:'' @ i"

text \<open>The id of the leader is what the Raft library tells this node.\<close>

definition LeaderHTTPAddr :: "string option \<Rightarrow> node \<Rightarrow> string res" where
  "LeaderHTTPAddr leader nd =
     (if IsLeader nd then Inr (nd_http nd)
      else case leader of
        None \<Rightarrow> Inl (ErrMsg ''no leader elected'')
      | Some i \<Rightarrow> kv_get (nd_kv nd) (nodeHTTPKey i))"

definition clusterEpoch :: "node \<Rightarrow> u64 res" where
  "clusterEpoch nd = (case kv_get (nd_kv nd) EpochKey of Inl e \<Rightarrow> Inl e | Inr d \<Rightarrow> parse_u64 d)"

definition syncClusterEpoch :: "node \<Rightarrow> u64 \<times> node" where
  "syncClusterEpoch nd =
     (case clusterEpoch nd of
        Inl _ \<Rightarrow> (lc_epoch (nd_life nd), nd)
      | Inr e \<Rightarrow> (e, nd\<lparr>nd_life := SetEpoch e (nd_life nd)\<rparr>))"

text \<open>\<^verbatim>\<open>strconv.Atoi\<close>: an optional sign and decimal digits, in the range of an \<open>int64\<close>.\<close>

definition atoi :: "string \<Rightarrow> int res" where
  "atoi s =
     (let (neg, ds) = (case s of c # t \<Rightarrow> if c = CHR ''-'' then (True, t) else if c = CHR ''+'' then (False, t) else (False, s)
                       | [] \<Rightarrow> (False, s)) in
      if ds = [] then Inl (ErrParse s)
      else case parse_digits 0 ds of
        None \<Rightarrow> Inl (ErrParse s)
      | Some n \<Rightarrow>
          let v = (if neg then - int n else int n) in
          if - (2 ^ 63) \<le> v \<and> v < 2 ^ 63 then Inr v else Inl (ErrParse s))"

definition loadReplicaFactor :: "node \<Rightarrow> int res" where
  "loadReplicaFactor nd =
     (case kv_get (nd_kv nd) configRFKey of
        Inl e \<Rightarrow> Inl e
      | Inr d \<Rightarrow>
          (case atoi d of
             Inl _ \<Rightarrow> Inl (ErrMsg ''invalid replica factor'')
           | Inr v \<Rightarrow> if v \<le> 0 then Inl (ErrMsg ''invalid replica factor'') else Inr v))"

definition LoadClusterConfig :: "node \<Rightarrow> node" where
  "LoadClusterConfig nd =
     (let nd1 = (case loadReplicaFactor nd of Inr v \<Rightarrow> if 0 < v then nd\<lparr>nd_rf := v\<rparr> else nd | Inl _ \<Rightarrow> nd) in
      case clusterEpoch nd1 of
        Inr e \<Rightarrow> if 0 < e then nd1\<lparr>nd_life := SetEpoch e (nd_life nd1)\<rparr> else nd1
      | Inl _ \<Rightarrow> nd1)"

definition PersistReplicaFactor :: "node \<Rightarrow> unit res \<times> node" where
  "PersistReplicaFactor nd =
     (if \<not> IsLeader nd then (Inr (), nd)
      else case kv_set configRFKey (if nd_rf nd < 0 then CHR ''-'' # format_nat (nat (- nd_rf nd)) else format_nat (nat (nd_rf nd)))
             (nd_kv nd) of
        (r, s) \<Rightarrow> (r, nd\<lparr>nd_kv := s\<rparr>))"

section \<open>Chains\<close>

definition target_state :: "node \<Rightarrow> u32 \<Rightarrow> string" where
  "target_state nd c =
     (if mget (nd_syncing nd) c = Some True then TargetStateSyncing
      else case lc_state (nd_life nd) of
        StateActive \<Rightarrow> TargetStateServing | StateDraining \<Rightarrow> TargetStateWaiting | StateDrained \<Rightarrow> TargetStateOffline)"

definition recompute_chain :: "u64 \<Rightarrow> chain \<Rightarrow> node \<Rightarrow> node" where
  "recompute_chain epoch c nd =
     (if chain_contains c (nd_http nd)
      then nd\<lparr>nd_states := mput (ch_id c) (target_state nd (ch_id c)) (nd_states nd),
              nd_vers := (case mget (nd_vers nd) (ch_id c) of
                            None \<Rightarrow> mput (ch_id c) epoch (nd_vers nd)
                          | Some v \<Rightarrow> if v < epoch then mput (ch_id c) epoch (nd_vers nd) else nd_vers nd)\<rparr>
      else nd)"

definition recomputeChainStates :: "node \<Rightarrow> node" where
  "recomputeChainStates nd =
     (case BuildChainTable (ListNodes (nd_kv nd)) (nd_rf nd) of
        Inl _ \<Rightarrow> nd
      | Inr table \<Rightarrow> (case syncClusterEpoch nd of (epoch, nd1) \<Rightarrow> fold (recompute_chain epoch) table nd1))"

definition chain_ver :: "node \<Rightarrow> u32 \<Rightarrow> u64" where
  "chain_ver nd c = (case mget (nd_vers nd) c of None \<Rightarrow> 0 | Some v \<Rightarrow> v)"

definition chainVersion :: "u32 \<Rightarrow> node \<Rightarrow> u64 \<times> node" where
  "chainVersion c nd =
     (let v = chain_ver nd c in
      if v = 0 then (case syncClusterEpoch nd of (e, nd1) \<Rightarrow> (e, nd1\<lparr>nd_vers := mput c e (nd_vers nd1)\<rparr>))
      else (v, nd))"

definition markChainSyncing :: "u32 \<Rightarrow> bool \<Rightarrow> node \<Rightarrow> node" where
  "markChainSyncing c on nd =
     (if on then nd\<lparr>nd_syncing := mput c True (nd_syncing nd), nd_states := mput c TargetStateSyncing (nd_states nd)\<rparr>
      else nd\<lparr>nd_syncing := mdel c (nd_syncing nd), nd_states := mput c TargetStateServing (nd_states nd)\<rparr>)"

record chain_status =
  cs_chain :: u32
  cs_ver :: u64
  cs_role :: string
  cs_state :: string

definition GetChainState :: "u32 \<Rightarrow> node \<Rightarrow> chain_status \<times> node" where
  "GetChainState c nd =
     (let nd1 = recomputeChainStates nd;
          st = (case mget (nd_states nd1) c of None \<Rightarrow> [] | Some x \<Rightarrow> x) in
      (\<lparr>cs_chain = c, cs_ver = chain_ver nd1 c, cs_role = ''member'',
        cs_state = (if st = [] then TargetStateOffline else st)\<rparr>, nd1))"

definition bump_chain_ver :: "u32 \<Rightarrow> u64 \<Rightarrow> node \<Rightarrow> node" where
  "bump_chain_ver c v nd = (if chain_ver nd c < v then nd\<lparr>nd_vers := mput c v (nd_vers nd)\<rparr> else nd)"

section \<open>Versions of a chunk\<close>

definition getMeta :: "node \<Rightarrow> string \<Rightarrow> chunk_meta" where
  "getMeta nd k = (case mget (nd_meta nd) k of None \<Rightarrow> meta_zero | Some m \<Rightarrow> m)"

definition setMeta :: "chunk_meta \<Rightarrow> node \<Rightarrow> node" where
  "setMeta m nd = nd\<lparr>nd_meta := mput (cm_id m) m (nd_meta nd)\<rparr>"

definition SyncStart :: "u32 \<Rightarrow> u64 \<Rightarrow> node \<Rightarrow> (u64 \<times> chunk_meta list) \<times> node" where
  "SyncStart c v nd =
     (let nd1 = bump_chain_ver c v (markChainSyncing c True nd);
          nodes = ListNodes (nd_kv nd1); w = chain_ver nd1 c in
      ((w, concat (map (\<lambda>k.
          case ChainFor nodes k (nd_rf nd1) of
            Inl _ \<Rightarrow> []
          | Inr ch \<Rightarrow>
              if ch_id ch \<noteq> c then []
              else if cm_id (getMeta nd1 k) = [] then
                [\<lparr>cm_id = k, cm_chain = c, cm_chain_ver = w, cm_update = 1, cm_commit = 1, cm_state = ChunkStateCommitted\<rparr>]
              else [getMeta nd1 k]) (st_list (nd_store nd1)))), nd1))"

definition SyncDone :: "u32 \<Rightarrow> u64 \<Rightarrow> node \<Rightarrow> unit res \<times> node" where
  "SyncDone c v nd =
     (if c = 0 \<and> v = 0 then (Inl (ErrMsg ''missing chain id/version''), nd)
      else (Inr (), recomputeChainStates (bump_chain_ver c v (markChainSyncing c False nd))))"

definition writePrepare :: "os_put \<Rightarrow> string \<Rightarrow> bytes \<Rightarrow> u32 \<Rightarrow> u64 \<Rightarrow> u64 \<Rightarrow> node \<Rightarrow> chunk_meta res \<times> node" where
  "writePrepare os k d c cv uv nd =
     (let m = getMeta nd k; v = (if uv = 0 then cm_update m + 1 else uv) in
      if 0 < cm_update m \<and> 0 < uv \<and> cm_update m + 1 < uv
      then (Inl (ErrMsg (''missing update for '' @ k @ '': current='' @ format_uint (cm_update m) @ '' incoming='' @ format_uint uv)), nd)
      else if v \<le> cm_commit m then (Inr m, nd)
      else case st_put os k d (nd_store nd) of
        (Inl e, st') \<Rightarrow> (Inl e, nd\<lparr>nd_store := st'\<rparr>)
      | (Inr _, st') \<Rightarrow>
          let m' = \<lparr>cm_id = k, cm_chain = c, cm_chain_ver = cv, cm_update = v, cm_commit = cm_commit m,
                    cm_state = ChunkStatePending\<rparr> in
          (Inr m', setMeta m' (nd\<lparr>nd_store := st'\<rparr>)))"

definition writeCommit :: "string \<Rightarrow> u64 \<Rightarrow> u64 \<Rightarrow> node \<Rightarrow> chunk_meta \<times> node" where
  "writeCommit k commit cv nd =
     (let m = getMeta nd k;
          c1 = (if commit = 0 then cm_update m else commit);
          c2 = (if c1 < cm_commit m then cm_commit m else c1);
          m' = m\<lparr>cm_commit := c2, cm_chain_ver := cv, cm_state := ChunkStateCommitted\<rparr> in
      (m', setMeta m' nd))"

definition format_bool :: "bool \<Rightarrow> string" where
  "format_bool b = (if b then ''true'' else ''false'')"

definition idempotencyKey :: "string \<Rightarrow> replica_write \<Rightarrow> string" where
  "idempotencyKey k req =
     k @ '':'' @ format_uint (rw_chain_ver req) @ '':'' @ format_uint (rw_update req) @ '':'' @ format_uint (rw_commit req)
       @ '':'' @ rw_stage req @ '':'' @ format_bool (rw_syncing req)"

definition rememberIdempotency :: "string \<Rightarrow> idem_state \<Rightarrow> node \<Rightarrow> node" where
  "rememberIdempotency key st nd = nd\<lparr>nd_idem := mput key st (nd_idem nd)\<rparr>"

definition lookupIdempotency :: "node \<Rightarrow> string \<Rightarrow> idem_state option" where
  "lookupIdempotency nd key = mget (nd_idem nd) key"

definition GetChunk :: "node \<Rightarrow> string \<Rightarrow> bytes res" where
  "GetChunk nd k =
     (let m = getMeta nd k in
      if \<not> Committed m \<and> cm_update m \<noteq> 0 then Inl (ErrMsg ''chunk not committed'')
      else case st_get (nd_store nd) k of Some d \<Rightarrow> Inr d | None \<Rightarrow> Inl (ErrMsg ''chunk not found''))"

definition GetChunkWithVisibility :: "node \<Rightarrow> string \<Rightarrow> bool \<Rightarrow> bytes res" where
  "GetChunkWithVisibility nd k allow =
     (if \<not> allow then GetChunk nd k
      else case st_get (nd_store nd) k of Some d \<Rightarrow> Inr d | None \<Rightarrow> Inl (ErrMsg ''chunk not found''))"

end
