(* ===== verification/Craq.thy ===== *)
theory Craq
  imports Node
begin

text \<open>
  Chain replication (\<^verbatim>\<open>service/craq.go\<close> and the chunk operations of \<^verbatim>\<open>service/service.go\<close>) on a
  cluster: a map from URLs to nodes. What lies outside the program is an argument, the environment:
  the answers of the operating system to the writes and removals of each node, what becomes of a
  request between two nodes on each of the transports that \<^verbatim>\<open>MultiTransport\<close> tries in turn, and
  the leader the Raft library names.

  A target holds the lock of the chunk while it waits for its successor. A replica list in which a
  URL occurs twice makes a request wait for itself, so a run may not return: its result is \<open>None\<close>
  then, by way of a bound on the number of hops. \<open>apply_returns\<close> shows that the number of
  replicas is enough for a list without repetitions.
\<close>

section \<open>Transports\<close>

datatype carrier = ViaHTTP | ViaGRPC

text \<open>
  The fate of a request on one transport: it is delivered and answered, it gets lost, or it is
  delivered and the answer gets lost.
\<close>

datatype link = Deliver carrier | Drop err | LostReply carrier err

record env =
  en_put :: "string \<Rightarrow> string \<Rightarrow> os_put"
  en_del :: "string \<Rightarrow> string \<Rightarrow> err option"
  en_links :: "string \<Rightarrow> string \<Rightarrow> link list"
  en_post :: "string \<Rightarrow> string \<Rightarrow> link"
  en_leader :: "string \<Rightarrow> string option"

type_synonym cluster = "(string, node) gomap"
type_synonym run = "(unit res \<times> cluster) option"

text \<open>The error the caller sees when the called node answers with a failure.\<close>

definition http_error :: "nat \<Rightarrow> err \<Rightarrow> err" where
  "http_error code e = ErrMsg (''http put chunk status='' @ format_nat code @ '' body='' @ error_string e @ [CHR 0x0A])"

fun wrap_error :: "carrier \<Rightarrow> err \<Rightarrow> err" where
  "wrap_error ViaHTTP e = http_error 500 e"
| "wrap_error ViaGRPC e = ErrMsg (''rpc error: code = Internal desc = '' @ error_string e)"

definition wrap_run :: "carrier \<Rightarrow> run \<Rightarrow> run" where
  "wrap_run c r = map_option (apfst (map_sum (wrap_error c) id)) r"

text \<open>\<^verbatim>\<open>MultiTransport.PutChunkWithOptions\<close>: the first transport that succeeds ends the loop.\<close>

fun multi_put :: "(carrier \<Rightarrow> cluster \<Rightarrow> run) \<Rightarrow> link list \<Rightarrow> unit res \<Rightarrow> cluster \<Rightarrow> run" where
  "multi_put call [] r cl = Some (r, cl)"
| "multi_put call (Drop e # ls) r cl = multi_put call ls (Inl e) cl"
| "multi_put call (LostReply c e # ls) r cl =
     (case call c cl of None \<Rightarrow> None | Some (_, cl') \<Rightarrow> multi_put call ls (Inl e) cl')"
| "multi_put call (Deliver c # ls) r cl =
     (case call c cl of
        None \<Rightarrow> None
      | Some (Inr _, cl') \<Rightarrow> Some (Inr (), cl')
      | Some (Inl e, cl') \<Rightarrow> multi_put call ls (Inl e) cl')"

definition replica_options :: "replica_write \<Rightarrow> write_options" where
  "replica_options req =
     \<lparr>wo_replica = True, wo_from_client = False, wo_stage = rw_stage req, wo_chain = rw_chain req,
      wo_chain_ver = rw_chain_ver req, wo_update = rw_update req, wo_commit = rw_commit req,
      wo_replicas = rw_replicas req, wo_syncing = rw_syncing req\<rparr>"

text \<open>The request a node reads from what the transport carried.\<close>

definition received :: "string \<Rightarrow> string \<Rightarrow> string \<Rightarrow> carrier \<Rightarrow> write_options \<Rightarrow> replica_write res" where
  "received prefix to k c w =
     (case c of
        ViaGRPC \<Rightarrow> Inr (grpc_replica_write w)
      | ViaHTTP \<Rightarrow> parseReplicaWriteRequest (parse_query (raw_query (put_url (normalizeURIPrefix prefix) to k w))))"

section \<open>Writes along the chain\<close>

definition update_node :: "string \<Rightarrow> (node \<Rightarrow> node) \<Rightarrow> cluster \<Rightarrow> cluster" where
  "update_node u f cl = (case mget cl u of None \<Rightarrow> cl | Some nd \<Rightarrow> mput u (f nd) cl)"

text \<open>The target after this node: the entry behind its first occurrence that is not the last entry.\<close>

fun next_target :: "string \<Rightarrow> string list \<Rightarrow> string" where
  "next_target u (x # y # rs) = (if x = u then y else next_target u (y # rs))"
| "next_target u _ = []"

definition replay :: "idem_state \<Rightarrow> unit res" where
  "replay st = (if is_err st \<noteq> [] then Inl (ErrMsg (is_err st)) else Inr ())"

text \<open>
  The way on to the next target, the three stages, and the entry of a request at a target. They
  take the next target's handler as an argument; \<open>applyReplicaWrite\<close> ties the knot.
\<close>

definition forwardReplica :: "(string \<Rightarrow> bytes \<Rightarrow> replica_write \<Rightarrow> cluster \<Rightarrow> run) \<Rightarrow> env \<Rightarrow> string \<Rightarrow> node \<Rightarrow>
    string \<Rightarrow> bytes \<Rightarrow> replica_write \<Rightarrow> cluster \<Rightarrow> run" where
  "forwardReplica call en u nd k d req cl =
     (let v = next_target (nd_http nd) (rw_replicas req) in
      if v = [] then Some (Inr (), cl)
      else multi_put (\<lambda>c cl'.
             case received (nd_prefix nd) v k c (replica_options req) of
               Inl e \<Rightarrow> Some (Inl (http_error 400 e), cl')
             | Inr r \<Rightarrow> wrap_run c (call v d r cl')) (en_links en u v) (Inr ()) cl)"

definition with_versions :: "u64 \<Rightarrow> node \<Rightarrow> replica_write \<Rightarrow> replica_write" where
  "with_versions v nd req =
     req\<lparr>rw_update := v, rw_commit := v,
         rw_replicas := (if rw_replicas req = [] then [nd_http nd] else rw_replicas req)\<rparr>"

definition commit_stage :: "string \<Rightarrow> string \<Rightarrow> replica_write \<Rightarrow> node \<Rightarrow> cluster \<Rightarrow> run" where
  "commit_stage u k req nd cl =
     (case writeCommit k (rw_commit req) (rw_chain_ver req) nd of
        (m, nd1) \<Rightarrow> Some (Inr (), mput u (rememberIdempotency (idempotencyKey k req) (idem_ok m) nd1) cl))"

definition remove_stage :: "(string \<Rightarrow> bytes \<Rightarrow> replica_write \<Rightarrow> cluster \<Rightarrow> run) \<Rightarrow> env \<Rightarrow> string \<Rightarrow> string \<Rightarrow>
    replica_write \<Rightarrow> node \<Rightarrow> cluster \<Rightarrow> run" where
  "remove_stage call en u k req nd cl =
     (let v = cm_update (getMeta nd k) + 1;
          m = \<lparr>cm_id = k, cm_chain = rw_chain req, cm_chain_ver = rw_chain_ver req, cm_update = v, cm_commit = v,
               cm_state = ChunkStateCommitted\<rparr>;
          key = idempotencyKey k req in
      case forwardReplica call en u nd k [] (with_versions v nd req) cl of
        None \<Rightarrow> None
      | Some (Inl e, cl1) \<Rightarrow> Some (Inl e, update_node u (rememberIdempotency key (idem_fail e)) cl1)
      | Some (Inr _, cl1) \<Rightarrow>
          Some (Inr (), update_node u (\<lambda>n. rememberIdempotency key (idem_ok m)
                 (setMeta m (n\<lparr>nd_store := snd (st_delete (en_del en u k) k (nd_store n))\<rparr>))) cl1))"

definition prepare_stage :: "(string \<Rightarrow> bytes \<Rightarrow> replica_write \<Rightarrow> cluster \<Rightarrow> run) \<Rightarrow> env \<Rightarrow> string \<Rightarrow> string \<Rightarrow>
    bytes \<Rightarrow> replica_write \<Rightarrow> node \<Rightarrow> cluster \<Rightarrow> run" where
  "prepare_stage call en u k d req nd cl =
     (let key = idempotencyKey k req in
      case writePrepare (en_put en u k) k d (rw_chain req) (rw_chain_ver req) (rw_update req) nd of
        (Inl e, nd1) \<Rightarrow> Some (Inl e, mput u (rememberIdempotency key (idem_fail e) nd1) cl)
      | (Inr m, nd1) \<Rightarrow>
          (case forwardReplica call en u nd k d (with_versions (cm_update m) nd req) (mput u nd1 cl) of
             None \<Rightarrow> None
           | Some (Inl e, cl1) \<Rightarrow> Some (Inl e, update_node u (rememberIdempotency key (idem_fail e)) cl1)
           | Some (Inr _, cl1) \<Rightarrow>
               Some (Inr (), update_node u (\<lambda>n.
                  case writeCommit k (cm_update m) (rw_chain_ver req) n of
                    (cm, n1) \<Rightarrow> rememberIdempotency key (idem_ok cm) n1) cl1)))"

definition replica_step :: "(string \<Rightarrow> bytes \<Rightarrow> replica_write \<Rightarrow> cluster \<Rightarrow> run) \<Rightarrow> env \<Rightarrow> string \<Rightarrow> string \<Rightarrow>
    bytes \<Rightarrow> replica_write \<Rightarrow> cluster \<Rightarrow> run" where
  "replica_step call en u k d req cl =
     (case mget cl u of None \<Rightarrow> Some (Inl (ErrMsg ''connection refused''), cl) | Some nd \<Rightarrow>
      case lookupIdempotency nd (idempotencyKey k req) of Some st \<Rightarrow> Some (replay st, cl) | None \<Rightarrow>
      if rw_stage req = stageCommit then commit_stage u k req nd cl
      else if rw_stage req = stageRemove then remove_stage call en u k req nd cl
      else prepare_stage call en u k d req nd cl)"

fun applyReplicaWrite :: "nat \<Rightarrow> env \<Rightarrow> string \<Rightarrow> string \<Rightarrow> bytes \<Rightarrow> replica_write \<Rightarrow> cluster \<Rightarrow> run" where
  "applyReplicaWrite 0 en u k d req cl = None"
| "applyReplicaWrite (Suc hops) en u k d req cl =
     replica_step (\<lambda>v d' r cl'. applyReplicaWrite hops en v k d' r cl') en u k d req cl"

definition StoreChunkLocal :: "nat \<Rightarrow> env \<Rightarrow> string \<Rightarrow> string \<Rightarrow> bytes \<Rightarrow> replica_write \<Rightarrow> cluster \<Rightarrow> run" where
  "StoreChunkLocal hops en u k d req cl = applyReplicaWrite hops en u k d req cl"

end
