(* ===== verification/Craq_Correct.thy ===== *)
theory Craq_Correct
  imports Craq
begin

text \<open>
  What chain replication guarantees. \<open>cluster_ok\<close> and \<open>chain_ok\<close> state what the nodes and the
  replica list look like, \<open>env_ok\<close> that there is a transport and that errors have a text.
  \<open>chain_inv\<close> is the invariant of the targets behind a request while a write with version \<open>w\<close> passes:
  a target that has not answered it yet has committed an older version only, and a target that
  remembers to have answered it with success, and all targets after it, hold the data committed.
\<close>

section \<open>Well-formed clusters and requests\<close>

definition cluster_ok :: "cluster \<Rightarrow> bool" where
  "cluster_ok cl \<longleftrightarrow> (\<forall>u nd. mget cl u = Some nd \<longrightarrow>
     nd_http nd = u \<and> st_inv (nd_store nd) \<and> CHR ''?'' \<notin> set (nd_prefix nd))"

definition chain_ok :: "string \<Rightarrow> string list \<Rightarrow> bool" where
  "chain_ok k rs \<longleftrightarrow> distinct rs \<and> csv_ok rs \<and> id_ok k \<and> CHR ''?'' \<notin> set k \<and> (\<forall>r \<in> set rs. CHR ''?'' \<notin> set r)"

fun link_ok :: "link \<Rightarrow> bool" where
  "link_ok (Deliver c) = True"
| "link_ok (Drop e) = (error_string e \<noteq> [])"
| "link_ok (LostReply c e) = (error_string e \<noteq> [])"

fun os_ok :: "os_put \<Rightarrow> bool" where
  "os_ok OsOk = True"
| "os_ok (OsMkdirErr e) = (error_string e \<noteq> [])"
| "os_ok (OsWriteErr e n) = (error_string e \<noteq> [])"
| "os_ok (OsRenameErr e) = (error_string e \<noteq> [])"

definition env_ok :: "env \<Rightarrow> bool" where
  "env_ok en \<longleftrightarrow> (\<forall>u v. en_links en u v \<noteq> [] \<and> list_all link_ok (en_links en u v)) \<and> (\<forall>u k. os_ok (en_put en u k))"

definition is_write :: "replica_write \<Rightarrow> bool" where
  "is_write req \<longleftrightarrow> rw_stage req \<noteq> [] \<and> rw_stage req \<noteq> stageCommit \<and> rw_stage req \<noteq> stageRemove"

lemma set_trim_right_slash: "set (trim_right_slash s) \<subseteq> set s"
  by (auto simp: trim_right_slash_def trim_right_char_def dest: set_dropWhileD)

lemma set_trim_space: "set (trim_space s) \<subseteq> set s"
  by (auto simp: trim_space_def trim_right_char_def trim_left_char_def dest!: set_dropWhileD)

lemma set_trim_suffix: "set (trim_suffix s p) \<subseteq> set s"
  by (auto simp: trim_suffix_def dest: in_set_takeD)

lemma set_normalizeURIPrefix: "set (normalizeURIPrefix p) \<subseteq> insert (CHR ''/'') (set p)"
  using set_trim_space [of p] set_trim_suffix [of "trim_space p" "''/''"] set_trim_suffix [of "''/'' @ trim_space p" "''/''"]
  by (auto simp: normalizeURIPrefix_def Let_def)

lemma received_options:
  assumes "chain_ok k rs" "v \<in> set rs" "CHR ''?'' \<notin> set p" "rw_replicas req = rs" "rw_stage req \<noteq> []"
  shows "received p v k c (replica_options req) = Inr (req\<lparr>rw_from_client := False\<rparr>)"
proof -
  let ?w = "replica_options req"
  have q: "CHR ''?'' \<notin> set (chunkURL (normalizeURIPrefix p) v k False)"
    using assms(1-3) set_normalizeURIPrefix [of p] set_trim_right_slash [of v]
    by (auto simp: chunkURL_def chain_ok_def)
  have g: "grpc_replica_write ?w = req\<lparr>rw_from_client := False\<rparr>"
    using assms(5) by (simp add: grpc_replica_write_def replica_options_def)
  have "csv_ok (wo_replicas ?w)" using assms(1,4) by (simp add: replica_options_def chain_ok_def)
  from parse_put_url [OF this q] show ?thesis by (cases c) (simp_all add: received_def g)
qed

lemma next_target_split:
  "distinct (pre @ u # post) \<Longrightarrow> next_target u (pre @ u # post) = (case post of [] \<Rightarrow> [] | v # _ \<Rightarrow> v)"
proof (induction pre)
  case Nil
  then show ?case by (cases post) auto
next
  case (Cons x pre)
  then have "x \<noteq> u" by auto
  with Cons show ?case by (cases "pre @ u # post") auto
qed

text \<open>A run over the transports keeps what every call keeps, and succeeds only if a call did.\<close>

lemma multi_put_inv:
  assumes call: "\<And>c cl r cl'. I cl \<Longrightarrow> call c cl = Some (r, cl') \<Longrightarrow>
        I cl' \<and> (r = Inr () \<longrightarrow> G cl') \<and> (\<forall>e. r = Inl e \<longrightarrow> error_string e \<noteq> [])"
    and "list_all link_ok ls" "I cl" "multi_put call ls r0 cl = Some (r, cl')"
    and "ls = [] \<Longrightarrow> isl r0" "\<forall>e. r0 = Inl e \<longrightarrow> error_string e \<noteq> []"
  shows "I cl' \<and> (r = Inr () \<longrightarrow> G cl') \<and> (\<forall>e. r = Inl e \<longrightarrow> error_string e \<noteq> [])"
  using assms(2-)
proof (induction ls arbitrary: r0 cl)
  case Nil
  then show ?case by auto
next
  case (Cons l ls)
  show ?case
  proof (cases l)
    case (Drop e)
    with Cons.prems Cons.IH [of cl "Inl e"] show ?thesis by simp
  next
    case (LostReply c e)
    then obtain x cl1 where "call c cl = Some (x, cl1)" "multi_put call ls (Inl e) cl1 = Some (r, cl')"
      using Cons.prems by (auto split: option.splits)
    with LostReply Cons.prems Cons.IH [of cl1 "Inl e"] call [of cl c x cl1] show ?thesis by auto
  next
    case (Deliver c)
    then obtain x cl1 where x: "call c cl = Some (x, cl1)" using Cons.prems by (auto split: option.splits)
    note K = call [OF Cons.prems(2) x]
    show ?thesis
    proof (cases x)
      case (Inl e)
      with Deliver Cons.prems x have "multi_put call ls (Inl e) cl1 = Some (r, cl')" by simp
      with Deliver Cons.prems Cons.IH [of cl1 "Inl e"] K Inl show ?thesis by auto
    next
      case (Inr y)
      with Deliver Cons.prems x K show ?thesis by auto
    qed
  qed
qed

section \<open>One target\<close>

lemma getMeta_setMeta [simp]: "getMeta (setMeta m nd) k = (if k = cm_id m then m else getMeta nd k)"
  by (simp add: getMeta_def setMeta_def)

lemma setMeta_fields [simp]:
  "nd_http (setMeta m nd) = nd_http nd" "nd_prefix (setMeta m nd) = nd_prefix nd" "nd_store (setMeta m nd) = nd_store nd"
  "nd_idem (setMeta m nd) = nd_idem nd"
  by (simp_all add: setMeta_def)

lemma remember_fields [simp]:
  "nd_http (rememberIdempotency key st nd) = nd_http nd" "nd_prefix (rememberIdempotency key st nd) = nd_prefix nd"
  "nd_store (rememberIdempotency key st nd) = nd_store nd" "getMeta (rememberIdempotency key st nd) k = getMeta nd k"
  "nd_idem (rememberIdempotency key st nd) = mput key st (nd_idem nd)"
  by (simp_all add: rememberIdempotency_def getMeta_def)

lemma getMeta_store [simp]: "getMeta (nd\<lparr>nd_store := s\<rparr>) k = getMeta nd k"
  by (simp add: getMeta_def)

definition node_kept :: "node \<Rightarrow> node \<Rightarrow> bool" where
  "node_kept nd nd' \<longleftrightarrow> nd_http nd' = nd_http nd \<and> nd_prefix nd' = nd_prefix nd \<and> nd_idem nd' = nd_idem nd
     \<and> st_inv (nd_store nd')"

text \<open>A replica that holds data \<open>d\<close> of chunk \<open>k\<close>, committed with version \<open>w\<close>.\<close>

definition holds :: "string \<Rightarrow> bytes \<Rightarrow> u64 \<Rightarrow> node \<Rightarrow> bool" where
  "holds k d w nd \<longleftrightarrow> st_get (nd_store nd) k = Some d \<and> cm_update (getMeta nd k) = w
     \<and> cm_commit (getMeta nd k) = w \<and> cm_state (getMeta nd k) = ChunkStateCommitted"

lemma holds_read: "holds k d w nd \<Longrightarrow> GetChunk nd k = Inr d"
  by (simp add: holds_def GetChunk_def Committed_def)

lemma holds_remember [simp]: "holds k d w (rememberIdempotency key st nd) = holds k d w nd"
  by (simp add: holds_def)

definition version_of :: "replica_write \<Rightarrow> node \<Rightarrow> string \<Rightarrow> u64" where
  "version_of req nd k = (if rw_update req = 0 then cm_update (getMeta nd k) + 1 else rw_update req)"

lemma st_put_error:
  assumes "os_ok os" "st_put os k d st = (Inl e, st')"
  shows "error_string e \<noteq> []"
  using assms by (cases st; cases os) (auto simp: qm_put_def qd_put_def ds_put_def Let_def split: if_splits)

lemma writePrepare_fresh:
  assumes "version_of req nd k = w" "cm_commit (getMeta nd k) < w" "st_inv (nd_store nd)" "id_ok k" "os_ok os"
    and "writePrepare os k d c cv (rw_update req) nd = (x, nd1)"
  shows "node_kept nd nd1 \<and> (case x of
      Inl e \<Rightarrow> error_string e \<noteq> [] \<and> getMeta nd1 k = getMeta nd k \<and> st_get (nd_store nd1) k = st_get (nd_store nd) k
    | Inr m \<Rightarrow> getMeta nd1 k = m \<and> cm_id m = k \<and> cm_update m = w \<and> cm_commit m = cm_commit (getMeta nd k)
        \<and> cm_state m = ChunkStatePending \<and> st_get (nd_store nd1) k = Some d)"
proof -
  let ?m = "getMeta nd k" and ?uv = "rw_update req"
  obtain r st' where st: "st_put os k d (nd_store nd) = (r, st')" by fastforce
  have K: "st_inv st'" "st_get st' k = (if isl r then st_get (nd_store nd) k else Some d)"
    using st.put_inv [OF assms(3,4), of os d] st.put_get [OF assms(3,4,4), of os d] by (auto simp: st)
  have ne: "r = Inl e \<Longrightarrow> error_string e \<noteq> []" for e using st_put_error [OF assms(5)] st by simp
  have v: "(if ?uv = 0 then cm_update ?m + 1 else ?uv) = w" "\<not> w \<le> cm_commit ?m"
    using assms(1,2) by (simp_all add: version_of_def)
  show ?thesis
  proof (cases "0 < cm_update ?m \<and> 0 < ?uv \<and> cm_update ?m + 1 < ?uv")
    case True
    with assms(3,6) show ?thesis by (auto simp: writePrepare_def Let_def node_kept_def)
  next
    case False
    with assms(6) v have "(case r of Inl e \<Rightarrow> (Inl e, nd\<lparr>nd_store := st'\<rparr>) | Inr _ \<Rightarrow>
          let m' = \<lparr>cm_id = k, cm_chain = c, cm_chain_ver = cv, cm_update = w, cm_commit = cm_commit ?m,
             cm_state = ChunkStatePending\<rparr> in (Inr m', setMeta m' (nd\<lparr>nd_store := st'\<rparr>))) = (x, nd1)"
      by (cases r) (auto simp: writePrepare_def Let_def st)
    with K ne show ?thesis by (cases r) (auto simp: Let_def node_kept_def)
  qed
qed

lemma writeCommit_holds:
  assumes "getMeta nd k = m" "cm_id m = k" "cm_update m = w" "cm_commit m < w" "st_get (nd_store nd) k = Some d"
    and "writeCommit k w cv nd = (cm, nd1)"
  shows "holds k d w nd1 \<and> nd_http nd1 = nd_http nd \<and> nd_prefix nd1 = nd_prefix nd \<and> nd_idem nd1 = nd_idem nd
     \<and> nd_store nd1 = nd_store nd"
proof -
  have "w \<noteq> 0" "\<not> w < cm_commit m" using assms(4) by auto
  then show ?thesis using assms by (auto simp: writeCommit_def Let_def holds_def)
qed

lemma update_node_get [simp]: "mget (update_node u f cl) v = (if v = u then map_option f (mget cl u) else mget cl v)"
  by (simp add: update_node_def split: option.splits)

section \<open>The chain\<close>

definition all_hold :: "string \<Rightarrow> bytes \<Rightarrow> u64 \<Rightarrow> string list \<Rightarrow> cluster \<Rightarrow> bool" where
  "all_hold k d w us cl \<longleftrightarrow> (\<forall>u \<in> set us. \<exists>nd. mget cl u = Some nd \<and> holds k d w nd)"

fun chain_inv :: "string \<Rightarrow> bytes \<Rightarrow> u64 \<Rightarrow> string \<Rightarrow> string list \<Rightarrow> cluster \<Rightarrow> bool" where
  "chain_inv k d w key [] cl = True"
| "chain_inv k d w key (u # us) cl \<longleftrightarrow> chain_inv k d w key us cl \<and>
     (\<exists>nd. mget cl u = Some nd \<and>
        (case mget (nd_idem nd) key of
           None \<Rightarrow> cm_commit (getMeta nd k) < w
         | Some st \<Rightarrow> is_err st = [] \<longrightarrow> all_hold k d w (u # us) cl))"

definition same_off :: "string list \<Rightarrow> cluster \<Rightarrow> cluster \<Rightarrow> bool" where
  "same_off us cl cl' \<longleftrightarrow> (\<forall>u. u \<notin> set us \<longrightarrow> mget cl' u = mget cl u)"

definition down :: "u64 \<Rightarrow> replica_write \<Rightarrow> replica_write" where
  "down w req = req\<lparr>rw_update := w, rw_commit := w, rw_from_client := False\<rparr>"

lemma down_simps [simp]:
  "rw_stage (down w req) = rw_stage req" "rw_replicas (down w req) = rw_replicas req" "rw_update (down w req) = w"
  "down w (down w req) = down w req" "is_write (down w req) = is_write req"
  by (simp_all add: down_def is_write_def)

lemma all_hold_cong: "(\<And>u. u \<in> set us \<Longrightarrow> mget cl' u = mget cl u) \<Longrightarrow> all_hold k d w us cl' = all_hold k d w us cl"
  by (simp add: all_hold_def)

lemma chain_inv_cong:
  "(\<And>u. u \<in> set us \<Longrightarrow> mget cl' u = mget cl u) \<Longrightarrow> chain_inv k d w key us cl' = chain_inv k d w key us cl"
proof (induction us)
  case (Cons u us)
  have "all_hold k d w (u # us) cl' = all_hold k d w (u # us) cl" using Cons.prems by (rule all_hold_cong)
  moreover have "mget cl' u = mget cl u" "chain_inv k d w key us cl' = chain_inv k d w key us cl"
    using Cons by simp_all
  ultimately show ?case by (simp only: chain_inv.simps)
qed simp

text \<open>What the handler of the next target guarantees, for the targets from there on.\<close>

definition call_ok :: "string \<Rightarrow> bytes \<Rightarrow> u64 \<Rightarrow> string \<Rightarrow> string list \<Rightarrow> (cluster \<Rightarrow> run) \<Rightarrow> bool" where
  "call_ok k d w key us call \<longleftrightarrow> (\<forall>cl r cl'. cluster_ok cl \<longrightarrow> chain_inv k d w key us cl \<longrightarrow> call cl = Some (r, cl') \<longrightarrow>
     cluster_ok cl' \<and> chain_inv k d w key us cl' \<and> same_off us cl cl' \<and> (r = Inr () \<longrightarrow> all_hold k d w us cl')
     \<and> (\<forall>e. r = Inl e \<longrightarrow> error_string e \<noteq> []))"

lemma wrap_error_text: "error_string (wrap_error c e) \<noteq> []"
  by (cases c) (simp_all add: http_error_def)

lemma wrap_run_Some: "wrap_run c x = Some (r, cl') \<longleftrightarrow> (\<exists>y. x = Some (y, cl') \<and> r = map_sum (wrap_error c) id y)"
  by (auto simp: wrap_run_def)

lemma forward_chain:
  assumes "chain_ok k rs" "rs = pre @ u # post" "rw_replicas req = rs" "is_write req" "env_ok en"
    and "nd_http nd = u" "CHR ''?'' \<notin> set (nd_prefix nd)"
    and call: "post \<noteq> [] \<longrightarrow> call_ok k d w key post (call (hd post) d (down w req))"
    and "cluster_ok cl" "chain_inv k d w key post cl"
    and "forwardReplica call en u nd k d (with_versions w nd req) cl = Some (r, cl')"
  shows "cluster_ok cl' \<and> chain_inv k d w key post cl' \<and> same_off post cl cl' \<and> (r = Inr () \<longrightarrow> all_hold k d w post cl')
     \<and> (\<forall>e. r = Inl e \<longrightarrow> error_string e \<noteq> [])"
proof -
  let ?req = "with_versions w nd req"
  have rr: "rw_replicas ?req = rs" "rw_stage ?req \<noteq> []" "?req\<lparr>rw_from_client := False\<rparr> = down w req"
    using assms(2-4) by (auto simp: with_versions_def is_write_def down_def)
  have nt: "next_target (nd_http nd) rs = (case post of [] \<Rightarrow> [] | v # _ \<Rightarrow> v)"
    using next_target_split assms(1,2,6) by (simp add: chain_ok_def)
  show ?thesis
  proof (cases post)
    case Nil
    then show ?thesis using assms(9,10,11) nt by (auto simp: forwardReplica_def rr same_off_def all_hold_def)
  next
    case (Cons v vs)
    have v: "v \<in> set rs" "v \<noteq> []" using assms(1,2) Cons by (auto simp: chain_ok_def csv_ok_def)
    have rec: "received (nd_prefix nd) v k c (replica_options ?req) = Inr (down w req)" for c
      using received_options [OF assms(1) v(1) assms(7) rr(1,2)] rr(3) by simp
    let ?call = "\<lambda>c cl'. wrap_run c (call v d (down w req) cl')"
    have run: "multi_put ?call (en_links en u v) (Inr ()) cl = Some (r, cl')"
      using assms(11) v by (simp add: forwardReplica_def rr nt Cons rec)
    let ?I = "\<lambda>x. cluster_ok x \<and> chain_inv k d w key post x \<and> same_off post cl x"
    let ?G = "\<lambda>x. all_hold k d w post x"
    have step: "?I cl2 \<and> (r = Inr () \<longrightarrow> ?G cl2) \<and> (\<forall>e. r = Inl e \<longrightarrow> error_string e \<noteq> [])"
      if I: "?I cl1" and c: "?call c cl1 = Some (r, cl2)" for c cl1 r cl2
    proof -
      obtain y where y: "call v d (down w req) cl1 = Some (y, cl2)" "r = map_sum (wrap_error c) id y"
        using c by (auto simp: wrap_run_Some)
      have K: "call_ok k d w key post (call v d (down w req))" using call Cons by simp
      have "cluster_ok cl2 \<and> chain_inv k d w key post cl2 \<and> same_off post cl1 cl2 \<and> (y = Inr () \<longrightarrow> ?G cl2)"
        using K I y(1) unfolding call_ok_def by blast
      with I y(2) show ?thesis by (cases y) (auto simp: same_off_def wrap_error_text)
    qed
    have links: "list_all link_ok (en_links en u v)" "en_links en u v = [] \<Longrightarrow> isl (Inr () :: unit res)"
      using assms(5) by (simp_all add: env_ok_def)
    have I0: "?I cl" using assms(9,10) by (simp add: same_off_def)
    have "?I cl' \<and> (r = Inr () \<longrightarrow> ?G cl') \<and> (\<forall>e. r = Inl e \<longrightarrow> error_string e \<noteq> [])"
      by (rule multi_put_inv [of ?I ?call ?G, OF step links(1) I0 run links(2)]) simp_all
    then show ?thesis by blast
  qed
qed

lemma cluster_ok_get:
  "cluster_ok cl \<Longrightarrow> mget cl u = Some nd \<Longrightarrow> nd_http nd = u \<and> st_inv (nd_store nd) \<and> CHR ''?'' \<notin> set (nd_prefix nd)"
  by (simp add: cluster_ok_def)

lemma cluster_ok_set:
  assumes "cluster_ok cl" "\<And>v. v \<noteq> u \<Longrightarrow> mget cl' v = mget cl v"
    and "\<And>nd. mget cl' u = Some nd \<Longrightarrow> nd_http nd = u \<and> st_inv (nd_store nd) \<and> CHR ''?'' \<notin> set (nd_prefix nd)"
  shows "cluster_ok cl'"
  unfolding cluster_ok_def
proof (intro allI impI)
  fix v nd
  assume "mget cl' v = Some nd"
  then show "nd_http nd = v \<and> st_inv (nd_store nd) \<and> CHR ''?'' \<notin> set (nd_prefix nd)"
    using assms cluster_ok_get [OF assms(1), of v] by (cases "v = u") simp_all
qed

text \<open>
  The prepare stage at a target: it answers with success only when the target and all targets
  after it hold the data, and it remembers its answer.
\<close>

lemma prepare_chain:
  assumes "chain_ok k rs" "rs = pre @ u # post" "rw_replicas req = rs" "is_write req" "env_ok en" "cluster_ok cl"
    and nd: "mget cl u = Some nd" "version_of req nd k = w" "cm_commit (getMeta nd k) < w"
    and inv: "chain_inv k d w key post cl"
    and call: "post \<noteq> [] \<longrightarrow> call_ok k d w key post (call (hd post) d (down w req))"
    and run: "prepare_stage call en u k d req nd cl = Some (r, cl')"
  shows "cluster_ok cl' \<and> chain_inv k d w key post cl' \<and> same_off (u # post) cl cl'
     \<and> (\<exists>nd'. mget cl' u = Some nd' \<and> (case r of
          Inr _ \<Rightarrow> all_hold k d w (u # post) cl'
             \<and> (\<exists>st. mget (nd_idem nd') (idempotencyKey k req) = Some st \<and> is_err st = [])
        | Inl e \<Rightarrow> error_string e \<noteq> [] \<and> mget (nd_idem nd') (idempotencyKey k req) = Some (idem_fail e)
             \<and> (cm_state (getMeta nd' k) = ChunkStatePending \<and> cm_update (getMeta nd' k) = w
                \<or> getMeta nd' k = getMeta nd k \<and> st_get (nd_store nd') k = st_get (nd_store nd) k)))"
proof -
  let ?key = "idempotencyKey k req"
  have P: "nd_http nd = u" "st_inv (nd_store nd)" "CHR ''?'' \<notin> set (nd_prefix nd)"
    using cluster_ok_get [OF assms(6) nd(1)] by auto
  have "u \<notin> set post" "id_ok k" "os_ok (en_put en u k)"
    using assms(1,2,5) by (auto simp: chain_ok_def env_ok_def)
  note U = this
  have off: "chain_inv k d w key post c1 = chain_inv k d w key post c2" "all_hold k d w post c1 = all_hold k d w post c2"
    if eq: "\<And>v. v \<noteq> u \<Longrightarrow> mget c1 v = mget c2 v" for c1 c2
  proof -
    have e: "mget c1 v = mget c2 v" if "v \<in> set post" for v
      by (rule eq) (use that U(1) in metis)
    show "chain_inv k d w key post c1 = chain_inv k d w key post c2" by (rule chain_inv_cong) (rule e)
    show "all_hold k d w post c1 = all_hold k d w post c2" by (rule all_hold_cong) (rule e)
  qed
  obtain x nd1 where x: "writePrepare (en_put en u k) k d (rw_chain req) (rw_chain_ver req) (rw_update req) nd = (x, nd1)"
    by fastforce
  note W = writePrepare_fresh [OF nd(2,3) P(2) U(2,3) x]
  show ?thesis
  proof (cases x)
    case (Inl e)
    then have r: "r = Inl e" "cl' = mput u (rememberIdempotency ?key (idem_fail e) nd1) cl"
      using run x by (auto simp: prepare_stage_def)
    have "cluster_ok cl'"
      by (rule cluster_ok_set [OF assms(6), of u]) (use W P in \<open>auto simp: r node_kept_def\<close>)
    moreover have "chain_inv k d w key post cl'" using inv off(1) [of cl' cl] by (simp add: r)
    ultimately show ?thesis using W Inl by (simp add: r same_off_def)
  next
    case (Inr m)
    let ?cl1 = "mput u nd1 cl"
    have M: "node_kept nd nd1" "getMeta nd1 k = m" "cm_id m = k" "cm_update m = w" "cm_commit m < w"
      "st_get (nd_store nd1) k = Some d" "cm_state m = ChunkStatePending" using W nd(3) Inr by auto
    obtain y cl2 where y: "forwardReplica call en u nd k d (with_versions w nd req) ?cl1 = Some (y, cl2)"
      using run x M(4) Inr by (auto simp: prepare_stage_def Let_def split: option.splits)
    have c1: "cluster_ok ?cl1"
      by (rule cluster_ok_set [OF assms(6), of u]) (use M(1) P in \<open>auto simp: node_kept_def\<close>)
    have "chain_inv k d w key post ?cl1" using inv off(1) [of ?cl1 cl] by simp
    note F = forward_chain [OF assms(1-5) P(1,3) call c1 this y]
    have F1: "cluster_ok cl2" using F by blast
    have u2: "mget cl2 u = Some nd1" using F U(1) by (simp add: same_off_def)
    show ?thesis
    proof (cases y)
      case (Inl e)
      then have r: "r = Inl e" "cl' = update_node u (rememberIdempotency ?key (idem_fail e)) cl2"
        using run x M(4) Inr y by (auto simp: prepare_stage_def)
      have "cluster_ok cl'"
        by (rule cluster_ok_set [OF F1, of u]) (use u2 M(1) P in \<open>auto simp: r node_kept_def\<close>)
      moreover have "chain_inv k d w key post cl'" using F off(1) [of cl' cl2] by (simp add: r)
      moreover have "same_off (u # post) cl cl'" using F by (simp add: r same_off_def)
      ultimately show ?thesis using F Inl u2 M(2,4,7) by (simp add: r)
    next
      case okay: (Inr z)
      obtain cm nd2 where c: "writeCommit k w (rw_chain_ver req) nd1 = (cm, nd2)" by fastforce
      note H = writeCommit_holds [OF M(2-6) c]
      have r: "r = Inr ()" and cl': "cl' = update_node u (\<lambda>n. case writeCommit k w (rw_chain_ver req) n of
            (cm, n1) \<Rightarrow> rememberIdempotency ?key (idem_ok cm) n1) cl2"
        using run x M(4) Inr y okay by (auto simp: prepare_stage_def)
      have u': "mget cl' u = Some (rememberIdempotency ?key (idem_ok cm) nd2)" by (simp add: cl' u2 c)
      have o': "mget cl' v = mget cl2 v" if "v \<noteq> u" for v using that by (simp add: cl')
      have "cluster_ok cl'"
        by (rule cluster_ok_set [OF F1, of u]) (use u' o' H M(1) P in \<open>auto simp: node_kept_def\<close>)
      moreover have "chain_inv k d w key post cl'" using F off(1) [of cl' cl2] o' by simp
      moreover have "same_off (u # post) cl cl'" using F o' by (simp add: same_off_def)
      moreover have "all_hold k d w post cl'" using F okay off(2) [of cl' cl2] o' by simp
      then have "all_hold k d w (u # post) cl'" using H u' by (simp add: all_hold_def)
      ultimately show ?thesis using u' by (simp add: r idem_ok_def)
    qed
  qed
qed

lemma replay_ok: "replay st = Inr () \<longleftrightarrow> is_err st = []" "replay st = Inl e \<Longrightarrow> error_string e \<noteq> []"
  by (auto simp: replay_def split: if_splits)

lemma chain_step:
  assumes "chain_ok k rs" "rw_replicas req = rs" "is_write req" "env_ok en" "rw_update req = w" "w \<noteq> 0"
    and "key = idempotencyKey k req" "req = down w req" "rs = pre @ u # post"
    and call: "\<And>hops. post \<noteq> [] \<longrightarrow> call_ok k d w key post (applyReplicaWrite hops en (hd post) k d req)"
  shows "call_ok k d w key (u # post) (applyReplicaWrite hops en u k d req)"
  unfolding call_ok_def
proof (intro allI impI)
  fix cl r cl'
  assume ok: "cluster_ok cl" and inv: "chain_inv k d w key (u # post) cl"
    and run: "applyReplicaWrite hops en u k d req cl = Some (r, cl')"
  from inv obtain nd where nd: "mget cl u = Some nd" "chain_inv k d w key post cl"
    "case mget (nd_idem nd) key of None \<Rightarrow> cm_commit (getMeta nd k) < w
       | Some st \<Rightarrow> is_err st = [] \<longrightarrow> all_hold k d w (u # post) cl" by auto
  from run obtain h where h: "hops = Suc h" by (cases hops) auto
  let ?call = "\<lambda>v d' q cl'. applyReplicaWrite h en v k d' q cl'"
  show "cluster_ok cl' \<and> chain_inv k d w key (u # post) cl' \<and> same_off (u # post) cl cl'
      \<and> (r = Inr () \<longrightarrow> all_hold k d w (u # post) cl') \<and> (\<forall>e. r = Inl e \<longrightarrow> error_string e \<noteq> [])"
  proof (cases "mget (nd_idem nd) key")
    case (Some st)
    then have "r = replay st" "cl' = cl" using run nd(1) assms(7) h by (auto simp: replica_step_def lookupIdempotency_def)
    with ok inv nd(3) Some replay_ok show ?thesis by (auto simp: same_off_def)
  next
    case None
    have st: "rw_stage req \<noteq> stageCommit" "rw_stage req \<noteq> stageRemove" using assms(3) by (auto simp: is_write_def)
    have p: "prepare_stage ?call en u k d req nd cl = Some (r, cl')"
      using run nd(1) None assms(7) h st by (simp add: replica_step_def lookupIdempotency_def)
    have v: "version_of req nd k = w" using assms(5,6) by (simp add: version_of_def)
    have cc: "post \<noteq> [] \<longrightarrow> call_ok k d w key post (?call (hd post) d (down w req))"
      using call [of h] unfolding assms(8) [symmetric] .
    have cw: "cm_commit (getMeta nd k) < w" using nd(3) None by simp
    note R = prepare_chain [OF assms(1,9,2,3,4) ok nd(1) v cw nd(2) cc p]
    from R obtain nd' where nd': "mget cl' u = Some nd'" by (elim conjE exE)
    show ?thesis
    proof (cases r)
      case (Inl e)
      with R nd' have "mget (nd_idem nd') key = Some (idem_fail e)" "error_string e \<noteq> []" by (simp_all add: assms(7))
      with R nd' Inl show ?thesis by (simp add: idem_fail_def)
    next
      case (Inr x)
      with R nd' obtain st where "mget (nd_idem nd') key = Some st" by (auto simp: assms(7))
      with R nd' Inr show ?thesis by simp
    qed
  qed
qed

text \<open>The handlers of the targets behind the head keep the invariant, whatever the environment does.\<close>

lemma chain_write:
  assumes "chain_ok k rs" "rw_replicas req = rs" "is_write req" "env_ok en" "rw_update req = w" "w \<noteq> 0"
    and "key = idempotencyKey k req" "req = down w req"
  shows "rs = pre @ u # post \<Longrightarrow> call_ok k d w key (u # post) (applyReplicaWrite hops en u k d req)"
proof (induction post arbitrary: pre u hops)
  case (Cons v vs)
  have call: "call_ok k d w key (v # vs) (applyReplicaWrite hops en v k d req)" for hops
    using Cons.IH [of "pre @ [u]" v] Cons.prems by simp
  show ?case by (rule chain_step [OF assms Cons.prems]) (use call in simp)
next
  case Nil
  show ?case by (rule chain_step [OF assms Nil]) simp
qed

section \<open>Requests end\<close>

lemma multi_put_returns:
  assumes "\<And>c cl. I cl \<Longrightarrow> \<exists>r cl'. call c cl = Some (r, cl') \<and> I cl'" "I cl"
  shows "\<exists>r cl'. multi_put call ls r0 cl = Some (r, cl') \<and> I cl'"
  using assms(2)
proof (induction ls arbitrary: r0 cl)
  case (Cons l ls)
  show ?case
  proof (cases l)
    case (Deliver c)
    obtain r cl1 where "call c cl = Some (r, cl1)" "I cl1" using assms(1) [OF Cons.prems] by blast
    with Deliver Cons.IH [of cl1] show ?thesis by (cases r) auto
  next
    case (Drop e)
    with Cons show ?thesis by simp
  next
    case (LostReply c e)
    obtain r cl1 where "call c cl = Some (r, cl1)" "I cl1" using assms(1) [OF Cons.prems] by blast
    with LostReply Cons.IH [of cl1] show ?thesis by auto
  qed
qed simp

definition returns :: "(cluster \<Rightarrow> run) \<Rightarrow> bool" where
  "returns f \<longleftrightarrow> (\<forall>cl. cluster_ok cl \<longrightarrow> (\<exists>r cl'. f cl = Some (r, cl') \<and> cluster_ok cl'))"

lemma returnsE: "returns f \<Longrightarrow> cluster_ok cl \<Longrightarrow> \<exists>r cl'. f cl = Some (r, cl') \<and> cluster_ok cl'"
  by (simp add: returns_def)

lemma cluster_ok_update:
  assumes "cluster_ok cl"
    and "\<And>nd. mget cl u = Some nd \<Longrightarrow> nd_http (f nd) = nd_http nd \<and> nd_prefix (f nd) = nd_prefix nd \<and> st_inv (nd_store (f nd))"
  shows "cluster_ok (update_node u f cl)"
  by (rule cluster_ok_set [OF assms(1), of u]) (use assms cluster_ok_get [OF assms(1), of u] in auto)

lemma cluster_ok_mput:
  assumes "cluster_ok cl" "mget cl u = Some nd" "nd_http nd1 = nd_http nd" "nd_prefix nd1 = nd_prefix nd" "st_inv (nd_store nd1)"
  shows "cluster_ok (mput u nd1 cl)"
  by (rule cluster_ok_set [OF assms(1), of u]) (use assms cluster_ok_get [OF assms(1,2)] in auto)

lemma writeCommit_fields:
  "writeCommit k c cv nd = (m, nd1) \<Longrightarrow> nd_http nd1 = nd_http nd \<and> nd_prefix nd1 = nd_prefix nd \<and> nd_store nd1 = nd_store nd
     \<and> nd_idem nd1 = nd_idem nd"
  by (auto simp: writeCommit_def Let_def)

lemma writePrepare_fields:
  assumes "st_inv (nd_store nd)" "id_ok k" "writePrepare os k d c cv uv nd = (x, nd1)"
  shows "nd_http nd1 = nd_http nd \<and> nd_prefix nd1 = nd_prefix nd \<and> st_inv (nd_store nd1)"
  using assms(1,3) st.put_inv [OF assms(1,2), of os d]
  by (auto simp: writePrepare_def Let_def split: if_splits prod.splits sum.splits)

lemma forward_returns:
  assumes "chain_ok k rs" "rs = pre @ u # post" "rw_replicas req = rs" "rw_stage req \<noteq> []" "cluster_ok cl"
    and "nd_http nd = u" "CHR ''?'' \<notin> set (nd_prefix nd)"
    and call: "\<And>d q. post \<noteq> [] \<Longrightarrow> rw_replicas q = rs \<Longrightarrow> rw_stage q \<noteq> [] \<Longrightarrow> returns (call (hd post) d q)"
  shows "\<exists>r cl'. forwardReplica call en u nd k d req cl = Some (r, cl') \<and> cluster_ok cl'"
proof -
  have nt: "next_target (nd_http nd) rs = (case post of [] \<Rightarrow> [] | v # _ \<Rightarrow> v)"
    using next_target_split assms(1,2,6) by (simp add: chain_ok_def)
  show ?thesis
  proof (cases post)
    case Nil
    then show ?thesis using assms(3,5) nt by (simp add: forwardReplica_def)
  next
    case (Cons v vs)
    have v: "v \<in> set rs" "v \<noteq> []" using assms(1,2) Cons by (auto simp: chain_ok_def csv_ok_def)
    let ?q = "req\<lparr>rw_from_client := False\<rparr>"
    have rec: "received (nd_prefix nd) v k c (replica_options req) = Inr ?q" for c
      by (rule received_options [OF assms(1) v(1) assms(7,3,4)])
    have "returns (call v d ?q)" using call [of ?q d] Cons assms(3,4) by simp
    then have "\<exists>r cl'. wrap_run c (call v d ?q cl) = Some (r, cl') \<and> cluster_ok cl'" if "cluster_ok cl" for c cl
      using returnsE [OF _ that, of "call v d ?q"] by (auto simp: wrap_run_Some)
    from multi_put_returns [of cluster_ok "\<lambda>c cl. wrap_run c (call v d ?q cl)", OF this assms(5)]
    show ?thesis using v by (simp add: forwardReplica_def assms(3) nt Cons rec)
  qed
qed

lemma step_returns:
  assumes "chain_ok k rs" "rs = pre @ u # post" "rw_replicas req = rs" "rw_stage req \<noteq> []"
    and call: "\<And>d q. post \<noteq> [] \<Longrightarrow> rw_replicas q = rs \<Longrightarrow> rw_stage q \<noteq> [] \<Longrightarrow> returns (call (hd post) d q)"
  shows "returns (replica_step call en u k d req)"
  unfolding returns_def
proof (intro allI impI)
  fix cl
  assume ok: "cluster_ok cl"
  have idk: "id_ok k" using assms(1) by (simp add: chain_ok_def)
  show "\<exists>r cl'. replica_step call en u k d req cl = Some (r, cl') \<and> cluster_ok cl'"
  proof (cases "mget cl u")
    case None
    with ok show ?thesis by (simp add: replica_step_def)
  next
    case (Some nd)
    have P: "nd_http nd = u" "st_inv (nd_store nd)" "CHR ''?'' \<notin> set (nd_prefix nd)"
      using cluster_ok_get [OF ok Some] by auto
    have fw: "\<exists>r cl2. forwardReplica call en u nd k d' (with_versions v nd req) cl1 = Some (r, cl2) \<and> cluster_ok cl2"
      if "cluster_ok cl1" for v d' cl1
      by (rule forward_returns [OF assms(1,2) _ _ that P(1,3)])
        (use call assms(2-4) in \<open>auto simp: with_versions_def\<close>)
    have c: "\<exists>r cl'. commit_stage u k req nd cl = Some (r, cl') \<and> cluster_ok cl'"
    proof -
      obtain m nd1 where c: "writeCommit k (rw_commit req) (rw_chain_ver req) nd = (m, nd1)" by fastforce
      then show ?thesis using cluster_ok_mput [OF ok Some] writeCommit_fields [OF c] P by (simp add: commit_stage_def)
    qed
    have r: "\<exists>r cl'. remove_stage call en u k req nd cl = Some (r, cl') \<and> cluster_ok cl'"
    proof -
      let ?v = "cm_update (getMeta nd k) + 1"
      obtain r cl2 where f: "forwardReplica call en u nd k [] (with_versions ?v nd req) cl = Some (r, cl2)" "cluster_ok cl2"
        using fw [OF ok] by blast
      have "st_inv (snd (st_delete (en_del en u k) k (nd_store n)))" if "mget cl2 u = Some n" for n
        using st.del_inv [OF _ idk] cluster_ok_get [OF f(2) that] by blast
      then show ?thesis using f cluster_ok_get [OF f(2), of u]
        by (cases r) (auto simp: remove_stage_def Let_def intro!: cluster_ok_update)
    qed
    have p: "\<exists>r cl'. prepare_stage call en u k d req nd cl = Some (r, cl') \<and> cluster_ok cl'"
    proof -
      obtain x nd1 where x: "writePrepare (en_put en u k) k d (rw_chain req) (rw_chain_ver req) (rw_update req) nd = (x, nd1)"
        by fastforce
      note W = writePrepare_fields [OF P(2) idk x]
      show ?thesis
      proof (cases x)
        case (Inl e)
        with x W show ?thesis using cluster_ok_mput [OF ok Some] by (simp add: prepare_stage_def)
      next
        case (Inr m)
        have "cluster_ok (mput u nd1 cl)" using cluster_ok_mput [OF ok Some] W by simp
        then obtain r cl2 where f: "forwardReplica call en u nd k d (with_versions (cm_update m) nd req) (mput u nd1 cl) = Some (r, cl2)"
          "cluster_ok cl2" using fw by blast
        let ?F = "\<lambda>n. case writeCommit k (cm_update m) (rw_chain_ver req) n of
            (cm, n1) \<Rightarrow> rememberIdempotency (idempotencyKey k req) (idem_ok cm) n1"
        have "nd_http (?F n) = nd_http n \<and> nd_prefix (?F n) = nd_prefix n \<and> nd_store (?F n) = nd_store n" for n
          using writeCommit_fields by (simp split: prod.splits)
        then have u1: "cluster_ok (update_node u ?F cl2)"
          using cluster_ok_get [OF f(2), of u] by (intro cluster_ok_update [OF f(2)]) simp
        have u2: "cluster_ok (update_node u (rememberIdempotency (idempotencyKey k req) (idem_fail e)) cl2)" for e
          using cluster_ok_get [OF f(2), of u] by (intro cluster_ok_update [OF f(2)]) simp
        show ?thesis using f(1) x Inr u1 u2 by (cases r) (simp_all add: prepare_stage_def)
      qed
    qed
    show ?thesis
    proof (cases "lookupIdempotency nd (idempotencyKey k req)")
      case None
      then have "replica_step call en u k d req cl = (if rw_stage req = stageCommit then commit_stage u k req nd cl
          else if rw_stage req = stageRemove then remove_stage call en u k req nd cl
          else prepare_stage call en u k d req nd cl)" by (simp add: replica_step_def Some)
      then show ?thesis using c r p by presburger
    next
      case (Some st)
      then show ?thesis using ok \<open>mget cl u = Some nd\<close> by (simp add: replica_step_def)
    qed
  qed
qed

text \<open>A chain of \<open>n\<close> targets needs \<open>n\<close> hops.\<close>

lemma apply_returns:
  assumes "chain_ok k rs"
  shows "rs = pre @ u # post \<Longrightarrow> rw_replicas req = rs \<Longrightarrow> rw_stage req \<noteq> [] \<Longrightarrow> length post < hops \<Longrightarrow>
     returns (applyReplicaWrite hops en u k d req)"
proof (induction post arbitrary: pre u req d hops)
  case Nil
  then obtain h where "hops = Suc h" by (cases hops) auto
  then have "applyReplicaWrite hops en u k d req = replica_step (\<lambda>v d' r cl'. applyReplicaWrite h en v k d' r cl') en u k d req"
    by (simp add: fun_eq_iff)
  then show ?case using step_returns [OF assms Nil(1-3)] by simp
next
  case (Cons v vs)
  then obtain h where h: "hops = Suc h" "length vs < h" by (cases hops) auto
  have *: "returns (applyReplicaWrite h en v k d' q)" if "rw_replicas q = rs" "rw_stage q \<noteq> []" for d' q
    using Cons.IH [of "pre @ [u]" v q h d'] Cons.prems(1) that h(2) by simp
  have "applyReplicaWrite hops en u k d req = replica_step (\<lambda>v d' r cl'. applyReplicaWrite h en v k d' r cl') en u k d req"
    by (simp add: fun_eq_iff h)
  then show ?case using step_returns [OF assms Cons.prems(1-3), of "\<lambda>v d' r cl'. applyReplicaWrite h en v k d' r cl'"] * by simp
qed

section \<open>A new version from the head\<close>

text \<open>
  The state before a write with version \<open>w\<close>: no target has committed that version or a later one,
  and none remembers an answer to the request.
\<close>

definition fresh_at :: "string \<Rightarrow> string \<Rightarrow> u64 \<Rightarrow> node \<Rightarrow> bool" where
  "fresh_at k key w nd \<longleftrightarrow> mget (nd_idem nd) key = None \<and> cm_commit (getMeta nd k) < w"

definition fresh_write :: "string \<Rightarrow> replica_write \<Rightarrow> u64 \<Rightarrow> string \<Rightarrow> string list \<Rightarrow> cluster \<Rightarrow> bool" where
  "fresh_write k req w u post cl \<longleftrightarrow>
     (\<exists>nd. mget cl u = Some nd \<and> version_of req nd k = w \<and> fresh_at k (idempotencyKey k req) w nd) \<and>
     (\<forall>v \<in> set post. \<exists>nd. mget cl v = Some nd \<and> fresh_at k (idempotencyKey k (down w req)) w nd)"

lemma fresh_chain_inv:
  "\<forall>v \<in> set us. \<exists>nd. mget cl v = Some nd \<and> fresh_at k key w nd \<Longrightarrow> chain_inv k d w key us cl"
  by (induction us) (auto simp: fresh_at_def)

lemma head_write:
  assumes "chain_ok k (u # post)" "rw_replicas req = u # post" "is_write req" "env_ok en" "cluster_ok cl"
    and fresh: "fresh_write k req w u post cl" and nd: "mget cl u = Some nd"
    and run: "applyReplicaWrite hops en u k d req cl = Some (r, cl')"
  shows "same_off (u # post) cl cl' \<and> (\<exists>nd'. mget cl' u = Some nd' \<and> (case r of
      Inr _ \<Rightarrow> all_hold k d w (u # post) cl' \<and> (\<exists>st. mget (nd_idem nd') (idempotencyKey k req) = Some st \<and> is_err st = [])
    | Inl e \<Rightarrow> error_string e \<noteq> [] \<and> mget (nd_idem nd') (idempotencyKey k req) = Some (idem_fail e)
        \<and> (cm_state (getMeta nd' k) = ChunkStatePending \<and> cm_update (getMeta nd' k) = w
           \<or> getMeta nd' k = getMeta nd k \<and> st_get (nd_store nd') k = st_get (nd_store nd) k)))"
proof -
  let ?key = "idempotencyKey k (down w req)"
  have N: "version_of req nd k = w" "cm_commit (getMeta nd k) < w" "mget (nd_idem nd) (idempotencyKey k req) = None"
    "w \<noteq> 0"
    using fresh nd by (auto simp: fresh_write_def fresh_at_def)
  have inv: "chain_inv k d w ?key post cl" using fresh by (intro fresh_chain_inv) (simp add: fresh_write_def)
  from run obtain h where h: "hops = Suc h" by (cases hops) auto
  let ?call = "\<lambda>v d' q cl'. applyReplicaWrite h en v k d' q cl'"
  have st: "rw_stage req \<noteq> stageCommit" "rw_stage req \<noteq> stageRemove" using assms(3) by (auto simp: is_write_def)
  have p: "prepare_stage ?call en u k d req nd cl = Some (r, cl')"
    using run nd N(3) h st by (simp add: replica_step_def lookupIdempotency_def)
  have call: "post \<noteq> [] \<longrightarrow> call_ok k d w ?key post (?call (hd post) d (down w req))"
  proof
    assume "post \<noteq> []"
    then obtain v vs where post: "post = v # vs" by (cases post) auto
    have "call_ok k d w ?key (v # vs) (applyReplicaWrite h en v k d (down w req))"
      by (rule chain_write [OF assms(1) _ _ assms(4) _ N(4) refl, of _ "[u]"]) (use assms(2,3) post in simp_all)
    then show "call_ok k d w ?key post (?call (hd post) d (down w req))" by (simp add: post)
  qed
  have rs: "u # post = [] @ u # post" by simp
  from prepare_chain [OF assms(1) rs assms(2-5) nd N(1,2) inv call p] show ?thesis by blast
qed

lemma replay_at:
  "mget cl u = Some nd \<Longrightarrow> mget (nd_idem nd) (idempotencyKey k req) = Some st \<Longrightarrow>
     applyReplicaWrite (Suc h) en u k d req cl = Some (replay st, cl)"
  by (simp add: replica_step_def lookupIdempotency_def)

section \<open>Success when nothing fails\<close>

text \<open>A target that can take version \<open>w\<close>: it is not ahead, misses no update, and its store has room.\<close>

definition takes :: "env \<Rightarrow> string \<Rightarrow> bytes \<Rightarrow> u64 \<Rightarrow> string \<Rightarrow> cluster \<Rightarrow> string \<Rightarrow> bool" where
  "takes en k d w key cl v \<longleftrightarrow> (\<exists>nd. mget cl v = Some nd \<and> fresh_at k key w nd
     \<and> (cm_update (getMeta nd k) = 0 \<or> w \<le> cm_update (getMeta nd k) + 1)
     \<and> fst (st_put (en_put en v k) k d (nd_store nd)) = Inr ())"

definition links_up :: "env \<Rightarrow> bool" where
  "links_up en \<longleftrightarrow> (\<forall>u v. \<exists>c ls. en_links en u v = Deliver c # ls)"

lemma takes_cong: "mget cl' v = mget cl v \<Longrightarrow> takes en k d w key cl' v = takes en k d w key cl v"
  by (simp add: takes_def)

lemma prepare_succeeds:
  assumes "chain_ok k rs" "rs = pre @ u # post" "rw_replicas req = rs" "is_write req" "links_up en" "cluster_ok cl"
    and u: "takes en k d w (idempotencyKey k req) cl u" and nd: "mget cl u = Some nd" "version_of req nd k = w"
    and post: "\<forall>v \<in> set post. takes en k d w key cl v"
    and call: "\<And>cl1. post \<noteq> [] \<Longrightarrow> cluster_ok cl1 \<Longrightarrow> \<forall>v \<in> set post. takes en k d w key cl1 v \<Longrightarrow>
          \<exists>cl2. call (hd post) d (down w req) cl1 = Some (Inr (), cl2)"
  shows "\<exists>cl'. prepare_stage call en u k d req nd cl = Some (Inr (), cl')"
proof -
  have P: "nd_http nd = u" "st_inv (nd_store nd)" "CHR ''?'' \<notin> set (nd_prefix nd)"
    using cluster_ok_get [OF assms(6) nd(1)] by auto
  have idk: "id_ok k" and up: "u \<notin> set post" using assms(1,2) by (auto simp: chain_ok_def)
  have T: "cm_commit (getMeta nd k) < w" "cm_update (getMeta nd k) = 0 \<or> w \<le> cm_update (getMeta nd k) + 1"
    "fst (st_put (en_put en u k) k d (nd_store nd)) = Inr ()"
    using u nd(1) by (auto simp: takes_def fresh_at_def)
  obtain m nd1 where x: "writePrepare (en_put en u k) k d (rw_chain req) (rw_chain_ver req) (rw_update req) nd = (Inr m, nd1)"
    "cm_update m = w"
  proof -
    obtain st' where st: "st_put (en_put en u k) k d (nd_store nd) = (Inr (), st')" using T(3) by (metis prod.collapse)
    have v: "(if rw_update req = 0 then cm_update (getMeta nd k) + 1 else rw_update req) = w" "\<not> w \<le> cm_commit (getMeta nd k)"
      using nd(2) T(1) by (simp_all add: version_of_def)
    then have "\<not> (0 < cm_update (getMeta nd k) \<and> 0 < rw_update req \<and> cm_update (getMeta nd k) + 1 < rw_update req)"
      using T(2) by (auto split: if_splits)
    then show thesis using st v that by (simp add: writePrepare_def Let_def)
  qed
  have c1: "cluster_ok (mput u nd1 cl)"
    using cluster_ok_mput [OF assms(6) nd(1)] writePrepare_fields [OF P(2) idk x(1)] by simp
  have t1: "\<forall>v \<in> set post. takes en k d w key (mput u nd1 cl) v"
  proof
    fix v
    assume v: "v \<in> set post"
    then have "v \<noteq> u" using up by metis
    then have "mget (mput u nd1 cl) v = mget cl v" by simp
    from takes_cong [OF this] v post show "takes en k d w key (mput u nd1 cl) v" by blast
  qed
  let ?req = "with_versions w nd req"
  have rr: "rw_replicas ?req = rs" "rw_stage ?req \<noteq> []" "?req\<lparr>rw_from_client := False\<rparr> = down w req"
    using assms(2-4) by (auto simp: with_versions_def is_write_def down_def)
  have nt: "next_target (nd_http nd) rs = (case post of [] \<Rightarrow> [] | v # _ \<Rightarrow> v)"
    using next_target_split assms(1,2) P(1) by (simp add: chain_ok_def)
  have "\<exists>cl2. forwardReplica call en u nd k d ?req (mput u nd1 cl) = Some (Inr (), cl2)"
  proof (cases post)
    case Nil
    then show ?thesis using nt by (simp add: forwardReplica_def rr)
  next
    case (Cons v vs)
    have v: "v \<in> set rs" "v \<noteq> []" using assms(1,2) Cons by (auto simp: chain_ok_def csv_ok_def)
    have rec: "received (nd_prefix nd) v k c (replica_options ?req) = Inr (down w req)" for c
      using received_options [OF assms(1) v(1) P(3) rr(1,2)] rr(3) by simp
    obtain c ls where l: "en_links en u v = Deliver c # ls" using assms(5) unfolding links_up_def by blast
    obtain cl2 where "call v d (down w req) (mput u nd1 cl) = Some (Inr (), cl2)" using call [OF _ c1 t1] Cons by auto
    then show ?thesis using v by (simp add: forwardReplica_def rr nt Cons rec l wrap_run_def)
  qed
  then show ?thesis using x by (auto simp: prepare_stage_def)
qed

lemma chain_succeeds:
  assumes "chain_ok k rs" "rw_replicas req = rs" "is_write req" "links_up en" "rw_update req = w" "w \<noteq> 0" "req = down w req"
  shows "rs = pre @ u # post \<Longrightarrow> cluster_ok cl \<Longrightarrow> \<forall>v \<in> set (u # post). takes en k d w (idempotencyKey k req) cl v \<Longrightarrow>
     length post < hops \<Longrightarrow> \<exists>cl'. applyReplicaWrite hops en u k d req cl = Some (Inr (), cl')"
proof (induction post arbitrary: pre u cl hops)
  case Nil
  then obtain h where h: "hops = Suc h" by (cases hops) auto
  obtain nd where nd: "mget cl u = Some nd" "mget (nd_idem nd) (idempotencyKey k req) = None"
    using Nil by (auto simp: takes_def fresh_at_def)
  have v: "version_of req nd k = w" using assms(5,6) by (simp add: version_of_def)
  have "\<exists>cl'. prepare_stage (\<lambda>v d' r cl'. applyReplicaWrite h en v k d' r cl') en u k d req nd cl = Some (Inr (), cl')"
    by (rule prepare_succeeds [OF assms(1) Nil(1) assms(2-4) Nil(2) _ nd(1) v]) (use Nil in simp_all)
  then show ?case using nd assms(3) h by (simp add: replica_step_def lookupIdempotency_def is_write_def)
next
  case (Cons v vs)
  then obtain h where h: "hops = Suc h" "length vs < h" by (cases hops) auto
  obtain nd where nd: "mget cl u = Some nd" "mget (nd_idem nd) (idempotencyKey k req) = None"
    using Cons.prems by (auto simp: takes_def fresh_at_def)
  have w: "version_of req nd k = w" using assms(5,6) by (simp add: version_of_def)
  have IH: "\<exists>cl2. applyReplicaWrite h en v k d (down w req) cl1 = Some (Inr (), cl2)"
    if "cluster_ok cl1" "\<forall>x \<in> set (v # vs). takes en k d w (idempotencyKey k req) cl1 x" for cl1
    unfolding assms(7) [symmetric] by (rule Cons.IH [of "pre @ [u]", OF _ that h(2)]) (use Cons.prems(1) in simp)
  have "\<exists>cl'. prepare_stage (\<lambda>v d' r cl'. applyReplicaWrite h en v k d' r cl') en u k d req nd cl = Some (Inr (), cl')"
    by (rule prepare_succeeds [OF assms(1) Cons.prems(1) assms(2-4) Cons.prems(2) _ nd(1) w, where key = "idempotencyKey k req"])
      (use Cons.prems(3) IH in simp_all)
  then show ?case using nd assms(3) h by (simp add: replica_step_def lookupIdempotency_def is_write_def)
qed

lemma head_succeeds:
  assumes "chain_ok k (u # post)" "rw_replicas req = u # post" "is_write req" "links_up en" "cluster_ok cl"
    and nd: "mget cl u = Some nd" "version_of req nd k = w" and u: "takes en k d w (idempotencyKey k req) cl u"
    and post: "\<forall>v \<in> set post. takes en k d w (idempotencyKey k (down w req)) cl v" and "length post < hops"
  shows "\<exists>cl'. applyReplicaWrite hops en u k d req cl = Some (Inr (), cl')"
proof -
  obtain h where h: "hops = Suc h" "length post \<le> h" using assms(10) by (cases hops) auto
  have N: "mget (nd_idem nd) (idempotencyKey k req) = None" "w \<noteq> 0" using u nd by (auto simp: takes_def fresh_at_def)
  have rs: "u # post = [] @ u # post" by simp
  have call: "\<exists>cl2. applyReplicaWrite h en (hd post) k d (down w req) cl1 = Some (Inr (), cl2)"
    if p: "post \<noteq> []" "cluster_ok cl1" "\<forall>v \<in> set post. takes en k d w (idempotencyKey k (down w req)) cl1 v" for cl1
  proof -
    obtain v vs where vs: "post = v # vs" using p(1) by (cases post) auto
    have "\<exists>cl2. applyReplicaWrite h en v k d (down w req) cl1 = Some (Inr (), cl2)"
      by (rule chain_succeeds [OF assms(1) _ _ assms(4) _ N(2), of _ "[u]" v vs]) (use assms(2,3) p vs h(2) in simp_all)
    then show ?thesis by (simp add: vs)
  qed
  have "\<exists>cl'. prepare_stage (\<lambda>v d' r cl'. applyReplicaWrite h en v k d' r cl') en u k d req nd cl = Some (Inr (), cl')"
    by (rule prepare_succeeds [OF assms(1) rs assms(2-5) u nd post]) (rule call)
  then show ?thesis using nd(1) N(1) assms(3) h(1) by (simp add: replica_step_def lookupIdempotency_def is_write_def)
qed

section \<open>Properties\<close>

text \<open>
  C17. A chunk request always ends: for a replica list without repetitions (which is what the
  chain table gives), as many hops as there are targets are enough, whatever the stage, the state
  of the nodes, and the behaviour of the network and of the disks; and it leaves the nodes well
  formed.
\<close>

theorem chain_request_ends:
  assumes "chain_ok k (u # post)" "rw_replicas req = u # post" "rw_stage req \<noteq> []" "cluster_ok cl"
    and "Suc (length post) \<le> hops"
  shows "\<exists>r cl'. applyReplicaWrite hops en u k d req cl = Some (r, cl') \<and> cluster_ok cl'"
  using apply_returns [OF assms(1), of "[]" u post req hops en d] assms by (simp add: returns_def)

text \<open>A cluster of two nodes with empty stores, and a client's write on it.\<close>

definition demo_node :: "string \<Rightarrow> node" where
  "demo_node u = NewService u u [] (mem_store new_memory_kv) (MemoryStore []) 2 0 0"

definition demo_cluster :: cluster where
  "demo_cluster = [(''a'', demo_node ''a''), (''b'', demo_node ''b'')]"

definition demo_env :: env where
  "demo_env = \<lparr>en_put = \<lambda>u k. OsOk, en_del = \<lambda>u k. None, en_links = \<lambda>u v. [Deliver ViaHTTP],
     en_post = \<lambda>u v. Deliver ViaHTTP, en_leader = \<lambda>u. None\<rparr>"

definition demo_req :: replica_write where
  "demo_req = \<lparr>rw_stage = stagePrepare, rw_chain = 0, rw_chain_ver = 1, rw_update = 0, rw_commit = 0,
     rw_replicas = [''a'', ''b''], rw_from_client = True, rw_syncing = False\<rparr>"

lemma demo_ok [simp]:
  "chain_ok ''1_0_0'' [''a'', ''b'']" "rw_replicas demo_req = [''a'', ''b'']" "is_write demo_req" "env_ok demo_env"
  "cluster_ok demo_cluster" "rw_stage demo_req \<noteq> []"
  by (auto simp: chain_ok_def csv_ok_def is_space_def id_ok_def has_suffix_def has_prefix_def demo_req_def is_write_def
      stage_defs env_ok_def demo_env_def cluster_ok_def demo_cluster_def demo_node_def NewService_def ms_inv_def split: if_splits)

lemma demo_fresh [simp]: "fresh_write ''1_0_0'' demo_req 1 ''a'' [''b''] demo_cluster"
  by (simp add: fresh_write_def demo_cluster_def demo_node_def NewService_def fresh_at_def version_of_def demo_req_def
      getMeta_def meta_zero_def)

lemma demo_run:
  "\<exists>cl'. applyReplicaWrite 2 demo_env ''a'' ''1_0_0'' ''data'' demo_req demo_cluster = Some (Inr (), cl')"
  by (rule head_succeeds [of _ _ "[''b'']" _ _ _ "demo_node ''a''" 1])
    (simp_all add: links_up_def demo_env_def demo_cluster_def demo_node_def NewService_def takes_def fresh_at_def
      version_of_def demo_req_def getMeta_def meta_zero_def down_def cluster_ok_def ms_inv_def is_write_def stage_defs)

theorem chain_request_ends_witness:
  "\<exists>r cl'. applyReplicaWrite 2 demo_env ''a'' ''1_0_0'' ''data'' demo_req demo_cluster = Some (r, cl') \<and> cluster_ok cl'"
  by (rule chain_request_ends [of _ _ "[''b'']"]) simp_all



text \<open>
  C9. Without failures a write succeeds: when the first transport between any two nodes delivers
  and every target can take the next version, the head acknowledges the write after at most as
  many hops as there are targets.
\<close>

theorem write_succeeds_without_failures:
  assumes "chain_ok k (u # post)" "rw_replicas req = u # post" "is_write req" "links_up en" "cluster_ok cl"
    and "mget cl u = Some nd" "version_of req nd k = w" "takes en k d w (idempotencyKey k req) cl u"
    and "\<forall>v \<in> set post. takes en k d w (idempotencyKey k (down w req)) cl v" "length post < hops"
  shows "\<exists>cl'. applyReplicaWrite hops en u k d req cl = Some (Inr (), cl')"
  by (rule head_succeeds [OF assms])

theorem write_succeeds_without_failures_witness:
  "\<exists>cl'. applyReplicaWrite 2 demo_env ''a'' ''1_0_0'' ''data'' demo_req demo_cluster = Some (Inr (), cl')"
  by (rule write_succeeds_without_failures [of _ _ "[''b'']" _ _ _ "demo_node ''a''" 1])
    (simp_all add: links_up_def demo_env_def demo_cluster_def demo_node_def NewService_def takes_def fresh_at_def
      version_of_def demo_req_def getMeta_def meta_zero_def down_def cluster_ok_def ms_inv_def is_write_def stage_defs)


definition demo_cut :: env where
  "demo_cut = demo_env\<lparr>en_links := \<lambda>u v. [Drop (ErrMsg ''connection refused'')]\<rparr>"

lemma demo_cut_run:
  "\<exists>cl'. applyReplicaWrite 1 demo_cut ''a'' ''1_0_0'' ''data'' demo_req demo_cluster = Some (Inl (ErrMsg ''connection refused''), cl')"
  by (simp add: replica_step_def demo_cluster_def demo_node_def NewService_def lookupIdempotency_def demo_req_def stage_defs
      prepare_stage_def writePrepare_def getMeta_def meta_zero_def demo_cut_def demo_env_def forwardReplica_def with_versions_def
      Let_def)


text \<open>
  C11. The first answer is final. The key under which the head remembers its answer has no version
  of its own in it, since a client's request carries none. So once the head has answered a write,
  every later write of the same chunk in the same chain version gets that answer at once: after a
  success it is acknowledged, and all replicas keep the first data, whatever the new data is;
  after a failure it fails for ever.
\<close>

theorem first_answer_is_final:
  assumes "chain_ok k (u # post)" "rw_replicas req = u # post" "is_write req" "env_ok en" "cluster_ok cl"
    and "fresh_write k req w u post cl" "applyReplicaWrite hops en u k d req cl = Some (r, cl')"
  shows "applyReplicaWrite (Suc h) en' u k d' req cl' =
       Some (case r of Inr _ \<Rightarrow> Inr () | Inl e \<Rightarrow> Inl (ErrMsg (error_string e)), cl')
     \<and> (r = Inr () \<longrightarrow> (\<forall>v \<in> set (u # post). \<exists>nd. mget cl' v = Some nd \<and> GetChunk nd k = Inr d))"
proof -
  obtain nd where nd: "mget cl u = Some nd" using assms(6) by (auto simp: fresh_write_def)
  note H = head_write [OF assms(1-6) nd assms(7)]
  show ?thesis
  proof (cases r)
    case (Inl e)
    with H obtain nd' where "mget cl' u = Some nd'" "mget (nd_idem nd') (idempotencyKey k req) = Some (idem_fail e)"
      "error_string e \<noteq> []" by auto
    with Inl show ?thesis by (simp add: replay_at replay_def idem_fail_def del: applyReplicaWrite.simps)
  next
    case (Inr x)
    with H obtain nd' st where "mget cl' u = Some nd'" "mget (nd_idem nd') (idempotencyKey k req) = Some st" "is_err st = []"
      and all: "all_hold k d w (u # post) cl'" by auto
    moreover have "\<forall>v \<in> set (u # post). \<exists>nd. mget cl' v = Some nd \<and> GetChunk nd k = Inr d"
      using all unfolding all_hold_def by (meson holds_read)
    ultimately show ?thesis using Inr by (simp add: replay_at replay_def del: applyReplicaWrite.simps)
  qed
qed

theorem first_answer_is_final_witness:
  "\<exists>cl'. applyReplicaWrite 2 demo_env ''a'' ''1_0_0'' ''data'' demo_req demo_cluster = Some (Inr (), cl')
     \<and> applyReplicaWrite 2 demo_env ''a'' ''1_0_0'' ''new data'' demo_req cl' = Some (Inr (), cl')
     \<and> (\<exists>nd. mget cl' ''a'' = Some nd \<and> GetChunk nd ''1_0_0'' = Inr ''data'')"
proof -
  obtain cl' where run: "applyReplicaWrite 2 demo_env ''a'' ''1_0_0'' ''data'' demo_req demo_cluster = Some (Inr (), cl')"
    using demo_run by blast
  from first_answer_is_final [OF _ _ _ _ _ _ run, of "[''b'']" 1 1 demo_env "''new data''"] run
  show ?thesis by (auto simp: numeral_2_eq_2 simp del: applyReplicaWrite.simps)
qed

end
