(* ===== verification/Service.thy ===== *)
theory Service
  imports Craq
begin

text \<open>
  The chunk operations of a node as clients call them (\<^verbatim>\<open>service/service.go\<close>), the registry calls
  that go to the leader (\<^verbatim>\<open>service/registry.go\<close>), repair (\<^verbatim>\<open>service/repair_run.go\<close>) and maintenance
  (\<^verbatim>\<open>service/maintenance.go\<close>). They run on the cluster of theory \<open>Craq\<close>; \<open>u\<close> is the node that runs
  the operation. All nodes use the same URI prefix. A result is \<open>None\<close> only when a chain request
  inside does not return.
\<close>

section \<open>Calls to other nodes\<close>

definition conn_refused :: err where
  "conn_refused = ErrMsg ''connection refused''"

text \<open>\<^verbatim>\<open>GetChunkWithOptions\<close> of the HTTP and of the gRPC transport, with the server side of each.\<close>

fun carrier_get :: "carrier \<Rightarrow> node \<Rightarrow> string \<Rightarrow> bool \<Rightarrow> bytes res" where
  "carrier_get ViaHTTP nd k allow =
     (case GetChunkWithVisibility nd k allow of
        Inr d \<Rightarrow> Inr d
      | Inl e \<Rightarrow>
          if contains_str (error_string e) ''not committed''
          then Inl (ErrMsg (''http get chunk status=409 body='' @ error_string e @ [CHR 0x0A]))
          else Inl (ErrMsg ''chunk not found''))"
| "carrier_get ViaGRPC nd k allow =
     (case GetChunkWithVisibility nd k allow of
        Inr d \<Rightarrow> if d = [] then Inl (ErrMsg ''chunk not found'') else Inr d
      | Inl e \<Rightarrow>
          Inl (ErrMsg ((if error_string e = ''chunk not committed'' then ''rpc error: code = FailedPrecondition desc = ''
                        else ''rpc error: code = NotFound desc = '') @ error_string e)))"

fun multi_get :: "(carrier \<Rightarrow> bytes res) \<Rightarrow> link list \<Rightarrow> bytes res \<Rightarrow> bytes res" where
  "multi_get get [] r = r"
| "multi_get get (Drop e # ls) r = multi_get get ls (Inl e)"
| "multi_get get (LostReply c e # ls) r = multi_get get ls (Inl e)"
| "multi_get get (Deliver c # ls) r =
     (case get c of Inr d \<Rightarrow> Inr d | Inl e \<Rightarrow> multi_get get ls (Inl e))"

definition net_get :: "env \<Rightarrow> string \<Rightarrow> string \<Rightarrow> string \<Rightarrow> bool \<Rightarrow> cluster \<Rightarrow> bytes res" where
  "net_get en u v k allow cl =
     multi_get (\<lambda>c. case mget cl v of None \<Rightarrow> Inl conn_refused | Some nd \<Rightarrow> carrier_get c nd k allow) (en_links en u v) (Inr [])"

definition replica_only :: write_options where
  "replica_only = \<lparr>wo_replica = True, wo_from_client = False, wo_stage = [], wo_chain = 0, wo_chain_ver = 0,
     wo_update = 0, wo_commit = 0, wo_replicas = [], wo_syncing = False\<rparr>"

definition PutChunkReplica :: "nat \<Rightarrow> env \<Rightarrow> string \<Rightarrow> string \<Rightarrow> string \<Rightarrow> string \<Rightarrow> bytes \<Rightarrow> cluster \<Rightarrow> run" where
  "PutChunkReplica hops en prefix u v k d cl =
     multi_put (\<lambda>c cl'.
        case received prefix v k c replica_only of
          Inl e \<Rightarrow> Some (Inl (http_error 400 e), cl')
        | Inr r \<Rightarrow> wrap_run c (applyReplicaWrite hops en v k d r cl')) (en_links en u v) (Inr ()) cl"

section \<open>The registry\<close>

definition chunk_location :: "string \<Rightarrow> string list \<Rightarrow> u64 \<Rightarrow> chunk_meta \<Rightarrow> location" where
  "chunk_location k rs epoch m =
     \<lparr>lo_chunk = k, lo_replicas = rs, lo_epoch = epoch, lo_chain = cm_chain m, lo_chain_ver = cm_chain_ver m,
      lo_update_ver = cm_update m, lo_commit_ver = cm_commit m, lo_state = cm_state m\<rparr>"

definition with_kv :: "(kv \<Rightarrow> unit res \<times> kv) \<Rightarrow> node \<Rightarrow> unit res \<times> node" where
  "with_kv f nd = (case f (nd_kv nd) of (r, s) \<Rightarrow> (r, nd\<lparr>nd_kv := s\<rparr>))"

definition ApplyRegistrySet :: "string \<Rightarrow> string list \<Rightarrow> u64 \<Rightarrow> node \<Rightarrow> unit res \<times> node" where
  "ApplyRegistrySet k rs epoch nd =
     (if \<not> IsLeader nd then (Inl (ErrMsg ''not leader''), nd)
      else with_kv (SetLocation (chunk_location k rs epoch (getMeta nd k))) nd)"

definition ApplyRegistryDelete :: "string \<Rightarrow> node \<Rightarrow> unit res \<times> node" where
  "ApplyRegistryDelete k nd =
     (if \<not> IsLeader nd then (Inl (ErrMsg ''not leader''), nd) else with_kv (reg_delete k) nd)"

text \<open>The leader's answer to a registry request, as a status: \<open>handleWrite\<close> with \<open>registrySet\<close>.\<close>

definition registry_set_handler :: "location \<Rightarrow> node \<Rightarrow> nat \<times> node" where
  "registry_set_handler loc nd =
     (if \<not> IsLeader nd then (307, nd)
      else case unmarshal_location (marshal_location loc) of
        Inl _ \<Rightarrow> (400, nd)
      | Inr l \<Rightarrow>
          if lo_chunk l = [] then (400, nd)
          else case ApplyRegistrySet (lo_chunk l) (lo_replicas l) (lo_epoch l) nd of
            (Inl _, nd') \<Rightarrow> (500, nd') | (Inr _, nd') \<Rightarrow> (200, nd'))"

definition delete_request :: "string \<Rightarrow> bytes" where
  "delete_request k = json_print (JObj [(''chunk_id'', JStr k)])"

definition registry_delete_handler :: "string \<Rightarrow> node \<Rightarrow> nat \<times> node" where
  "registry_delete_handler k nd =
     (if \<not> IsLeader nd then (307, nd)
      else case unmarshal_location (delete_request k) of
        Inl _ \<Rightarrow> (400, nd)
      | Inr l \<Rightarrow>
          if lo_chunk l = [] then (400, nd)
          else case ApplyRegistryDelete (lo_chunk l) nd of (Inl _, nd') \<Rightarrow> (500, nd') | (Inr _, nd') \<Rightarrow> (200, nd'))"

text \<open>A POST to another node: the status decides, a lost answer is an error.\<close>

definition post_node :: "env \<Rightarrow> string \<Rightarrow> string \<Rightarrow> string \<Rightarrow> (node \<Rightarrow> nat \<times> node) \<Rightarrow> cluster \<Rightarrow> unit res \<times> cluster" where
  "post_node en u v what handler cl =
     (case mget cl v of
        None \<Rightarrow> (Inl conn_refused, cl)
      | Some nd \<Rightarrow>
          (case en_post en u v of
             Drop e \<Rightarrow> (Inl e, cl)
           | LostReply c e \<Rightarrow> (Inl e, mput v (snd (handler nd)) cl)
           | Deliver c \<Rightarrow>
               (case handler nd of (code, nd') \<Rightarrow>
                  (if 300 \<le> code then Inl (ErrMsg (what @ '' status '' @ format_nat code)) else Inr (), mput v nd' cl))))"

definition RecordChunkRegistry :: "env \<Rightarrow> string \<Rightarrow> string \<Rightarrow> string list \<Rightarrow> cluster \<Rightarrow> unit res \<times> cluster" where
  "RecordChunkRegistry en u k rs cl =
     (case mget cl u of None \<Rightarrow> (Inl conn_refused, cl) | Some nd \<Rightarrow>
      case syncClusterEpoch nd of (epoch, nd1) \<Rightarrow>
      let loc = chunk_location k rs epoch (getMeta nd k); cl1 = mput u nd1 cl in
      if IsLeader nd1 then (case with_kv (SetLocation loc) nd1 of (r, nd2) \<Rightarrow> (r, mput u nd2 cl1))
      else case LeaderHTTPAddr (en_leader en u) nd1 of
        Inl e \<Rightarrow> (Inl e, cl1)
      | Inr leader \<Rightarrow> post_node en u leader ''registry set'' (registry_set_handler loc) cl1)"

definition DeleteChunkRegistry :: "env \<Rightarrow> string \<Rightarrow> string \<Rightarrow> cluster \<Rightarrow> unit res \<times> cluster" where
  "DeleteChunkRegistry en u k cl =
     (case mget cl u of None \<Rightarrow> (Inl conn_refused, cl) | Some nd \<Rightarrow>
      if IsLeader nd then (case with_kv (reg_delete k) nd of (r, nd2) \<Rightarrow> (r, mput u nd2 cl))
      else case LeaderHTTPAddr (en_leader en u) nd of
        Inl e \<Rightarrow> (Inl e, cl)
      | Inr leader \<Rightarrow> post_node en u leader ''registry delete'' (registry_delete_handler k) cl)"

definition GetChunkRegistry :: "node \<Rightarrow> string \<Rightarrow> location res" where
  "GetChunkRegistry nd k = reg_get (nd_kv nd) k"

section \<open>Writing and deleting chunks\<close>

definition enqueueRepair :: "string \<Rightarrow> string list \<Rightarrow> node \<Rightarrow> node" where
  "enqueueRepair k rs nd = nd\<lparr>nd_queue := Enqueue k rs (nd_queue nd)\<rparr>"

definition client_request :: "string \<Rightarrow> chain \<Rightarrow> u64 \<Rightarrow> replica_write" where
  "client_request stage ch ver =
     \<lparr>rw_stage = stage, rw_chain = ch_id ch, rw_chain_ver = ver, rw_update = 0, rw_commit = 0,
      rw_replicas = NodeURLs ch, rw_from_client = True, rw_syncing = False\<rparr>"

definition routing_error :: "string \<Rightarrow> string \<Rightarrow> err" where
  "routing_error self head = ErrMsg (''routing error: node '' @ self @ '' is not chain head '' @ head)"

definition putChunk :: "nat \<Rightarrow> env \<Rightarrow> string \<Rightarrow> string \<Rightarrow> bytes \<Rightarrow> bool \<Rightarrow> cluster \<Rightarrow> (string list res \<times> cluster) option" where
  "putChunk hops en u k d peers cl =
     (case mget cl u of None \<Rightarrow> Some (Inl conn_refused, cl) | Some nd \<Rightarrow>
      if \<not> AcceptsChunks (nd_life nd) then Some (Inl (ErrMsg ''node is draining''), cl)
      else if ListNodes (nd_kv nd) = [] then
        (case st_put (en_put en u k) k d (nd_store nd) of
           (Inl e, st') \<Rightarrow> Some (Inl e, mput u (nd\<lparr>nd_store := st'\<rparr>) cl)
         | (Inr _, st') \<Rightarrow>
             Some (Inr [nd_http nd], mput u (enqueueRepair k [nd_http nd] (nd\<lparr>nd_store := st'\<rparr>)) cl))
      else case ChainFor (ListNodes (nd_kv nd)) k (nd_rf nd) of
        Inl e \<Rightarrow> Some (Inl e, cl)
      | Inr ch \<Rightarrow>
          if tg_url (chain_head ch) \<noteq> nd_http nd then Some (Inl (routing_error (nd_http nd) (tg_url (chain_head ch))), cl)
          else case chainVersion (ch_id ch) nd of (ver, nd1) \<Rightarrow>
            (case applyReplicaWrite hops en u k d (client_request stagePrepare ch ver) (mput u nd1 cl) of
               None \<Rightarrow> None
             | Some (Inl e, cl1) \<Rightarrow> Some (Inl e, cl1)
             | Some (Inr _, cl1) \<Rightarrow>
                 if peers then
                   (case RecordChunkRegistry en u k (NodeURLs ch) cl1 of
                      (Inr _, cl2) \<Rightarrow> Some (Inr (NodeURLs ch), cl2)
                    | (Inl _, cl2) \<Rightarrow> Some (Inr (NodeURLs ch), update_node u (enqueueRepair k (NodeURLs ch)) cl2))
                 else Some (Inr (NodeURLs ch), cl1)))"

definition PutChunk :: "nat \<Rightarrow> env \<Rightarrow> string \<Rightarrow> string \<Rightarrow> bytes \<Rightarrow> cluster \<Rightarrow> (string list res \<times> cluster) option" where
  "PutChunk hops en u k d cl = putChunk hops en u k d True cl"

definition DeleteChunk :: "nat \<Rightarrow> env \<Rightarrow> string \<Rightarrow> string \<Rightarrow> cluster \<Rightarrow> run" where
  "DeleteChunk hops en u k cl =
     (case mget cl u of None \<Rightarrow> Some (Inl conn_refused, cl) | Some nd \<Rightarrow>
      if ListNodes (nd_kv nd) = [] then
        (let m = getMeta nd k; v = cm_update m + 1;
             nd1 = nd\<lparr>nd_store := snd (st_delete (en_del en u k) k (nd_store nd))\<rparr> in
         case syncClusterEpoch nd1 of (epoch, nd2) \<Rightarrow>
           Some (DeleteChunkRegistry en u k (mput u (setMeta \<lparr>cm_id = k, cm_chain = cm_chain m, cm_chain_ver = epoch,
              cm_update = v, cm_commit = v, cm_state = ChunkStateCommitted\<rparr> nd2) cl)))
      else case ChainFor (ListNodes (nd_kv nd)) k (nd_rf nd) of
        Inl e \<Rightarrow> Some (Inl e, cl)
      | Inr ch \<Rightarrow>
          if tg_url (chain_head ch) \<noteq> nd_http nd then Some (Inl (routing_error (nd_http nd) (tg_url (chain_head ch))), cl)
          else case chainVersion (ch_id ch) nd of (ver, nd1) \<Rightarrow>
            (case applyReplicaWrite hops en u k [] (client_request stageRemove ch ver) (mput u nd1 cl) of
               None \<Rightarrow> None
             | Some (Inl e, cl1) \<Rightarrow> Some (Inl e, cl1)
             | Some (Inr _, cl1) \<Rightarrow> Some (DeleteChunkRegistry en u k cl1)))"

section \<open>Rebuild, drain, ready\<close>

definition service_rebuild :: "env \<Rightarrow> string \<Rightarrow> cluster \<Rightarrow> (nat \<times> unit res) \<times> cluster" where
  "service_rebuild en u cl =
     (case mget cl u of None \<Rightarrow> ((0, Inl conn_refused), cl) | Some nd \<Rightarrow>
      case Rebuild (\<lambda>v k. net_get en u v k False cl) (en_put en u) (nd_http nd) (nd_rf nd) (nd_kv nd)
             (ListNodes (nd_kv nd)) (nd_store nd) of
        (r, st') \<Rightarrow> (r, mput u (nd\<lparr>nd_store := st'\<rparr>) cl))"

text \<open>The loop over the replicas of one chunk: how many hold it afterwards.\<close>

fun drain_replicas :: "nat \<Rightarrow> env \<Rightarrow> string \<Rightarrow> string \<Rightarrow> string \<Rightarrow> string \<Rightarrow> bytes \<Rightarrow> string list \<Rightarrow> nat \<Rightarrow> cluster \<Rightarrow>
    (nat \<times> cluster) option" where
  "drain_replicas hops en prefix self u k d [] n cl = Some (n, cl)"
| "drain_replicas hops en prefix self u k d (v # vs) n cl =
     (if v = self then drain_replicas hops en prefix self u k d vs (Suc n) cl
      else case PutChunkReplica hops en prefix u v k d cl of
        None \<Rightarrow> None
      | Some (Inl _, cl') \<Rightarrow> drain_replicas hops en prefix self u k d vs n cl'
      | Some (Inr _, cl') \<Rightarrow> drain_replicas hops en prefix self u k d vs (Suc n) cl')"

type_synonym drain_result = "nat \<times> bool \<times> err option"

definition under_replicated :: "string \<Rightarrow> nat \<Rightarrow> int \<Rightarrow> err" where
  "under_replicated k n rf =
     ErrMsg (''chunk '' @ k @ '' under-replicated ('' @ format_nat n @ ''/'' @ format_nat (nat rf) @ '')'')"

fun drain_loop :: "nat \<Rightarrow> env \<Rightarrow> string \<Rightarrow> bool \<Rightarrow> string list \<Rightarrow> nat \<Rightarrow> string list \<Rightarrow> cluster \<Rightarrow>
    (drain_result option \<times> cluster) option" where
  "drain_loop hops en u force nodes tot [] cl = Some (None, cl)"
| "drain_loop hops en u force nodes tot (k # ks) cl =
     (case mget cl u of None \<Rightarrow> Some (Some (tot, False, Some conn_refused), cl) | Some nd \<Rightarrow>
      case st_get (nd_store nd) k of
        None \<Rightarrow> drain_loop hops en u force nodes tot ks cl
      | Some d \<Rightarrow>
          (case SelectNodes nodes k (nd_rf nd) of
             Inl e \<Rightarrow>
               if \<not> force then
                 Some (Some (tot, False, Some e), mput u (nd\<lparr>nd_life := SetPendingDrain (int tot) (nd_life nd)\<rparr>) cl)
               else drain_loop hops en u force nodes tot ks cl
           | Inr rs \<Rightarrow>
               (case drain_replicas hops en (nd_prefix nd) (nd_http nd) u k d rs 0 cl of
                  None \<Rightarrow> None
                | Some (n, cl1) \<Rightarrow>
                    if int n < nd_rf nd \<and> \<not> force then
                      Some (Some (tot, False, Some (under_replicated k n (nd_rf nd))),
                        update_node u (\<lambda>x. x\<lparr>nd_life := SetPendingDrain (int tot) (nd_life x)\<rparr>) cl1)
                    else
                      (case RecordChunkRegistry en u k rs cl1 of
                         (Inr _, cl2) \<Rightarrow> drain_loop hops en u force nodes tot ks cl2
                       | (Inl e, cl2) \<Rightarrow>
                           if \<not> force then Some (Some (tot, False, Some e), cl2)
                           else drain_loop hops en u force nodes tot ks cl2))))"

text \<open>A flush of the store writes no chunk, and its errors are only logged.\<close>

definition Drain :: "nat \<Rightarrow> env \<Rightarrow> string \<Rightarrow> bool \<Rightarrow> cluster \<Rightarrow> (drain_result \<times> cluster) option" where
  "Drain hops en u force cl =
     (case mget cl u of None \<Rightarrow> Some ((0, False, Some conn_refused), cl) | Some nd \<Rightarrow>
      let ks = st_list (nd_store nd);
          cl0 = mput u (nd\<lparr>nd_life := StartDrain (nd_life nd)\<rparr>) cl in
      case drain_loop hops en u force (ListNodes (nd_kv nd)) (length ks) ks cl0 of
        None \<Rightarrow> None
      | Some (Some r, cl1) \<Rightarrow> Some (r, cl1)
      | Some (None, cl1) \<Rightarrow>
          Some ((0, True, None), update_node u (\<lambda>x. x\<lparr>nd_life := MarkDrained (nd_life x)\<rparr>) cl1))"

definition Ready :: "env \<Rightarrow> string \<Rightarrow> cluster \<Rightarrow> cluster" where
  "Ready en u cl =
     snd (service_rebuild en u
       (update_node u (\<lambda>nd. recomputeChainStates (nd\<lparr>nd_life := life_ready (nd_life nd)\<rparr>)) cl))"

record health =
  he_status :: string
  he_state :: string
  he_role :: string
  he_epoch :: u64
  he_pending :: int

definition Health :: "node \<Rightarrow> health \<times> node" where
  "Health nd =
     (case syncClusterEpoch nd of (epoch, nd1) \<Rightarrow>
      let nd2 = recomputeChainStates nd1 in
      (\<lparr>he_status = ''ok'', he_state = life_string (lc_state (nd_life nd2)),
        he_role = (if IsLeader nd2 then ''leader'' else ''follower''), he_epoch = epoch,
        he_pending = PendingDrain (nd_life nd2)\<rparr>, nd2))"

section \<open>Repair\<close>

fun fetchChunkFromPeers :: "env \<Rightarrow> string \<Rightarrow> string \<Rightarrow> string list \<Rightarrow> string \<Rightarrow> cluster \<Rightarrow> bytes res \<times> cluster" where
  "fetchChunkFromPeers en u k [] self cl = (Inl (ErrMsg (''no peer replica for '' @ k)), cl)"
| "fetchChunkFromPeers en u k (v # vs) self cl =
     (if v = self then fetchChunkFromPeers en u k vs self cl
      else case net_get en u v k False cl of
        Inl _ \<Rightarrow> fetchChunkFromPeers en u k vs self cl
      | Inr d \<Rightarrow> (Inr d, update_node u (\<lambda>nd. nd\<lparr>nd_store := snd (st_put (en_put en u k) k d (nd_store nd))\<rparr>) cl))"

definition sync_request :: "u32 \<Rightarrow> u64 \<Rightarrow> string list \<Rightarrow> replica_write" where
  "sync_request c v rs =
     \<lparr>rw_stage = stagePrepare, rw_chain = c, rw_chain_ver = v, rw_update = 0, rw_commit = 0, rw_replicas = rs,
      rw_from_client = False, rw_syncing = True\<rparr>"

definition repair_chain :: "string \<Rightarrow> node \<Rightarrow> (u32 \<times> u64) \<times> node" where
  "repair_chain k nd =
     (case syncClusterEpoch nd of (epoch, nd1) \<Rightarrow>
      case ChainFor (ListNodes (nd_kv nd1)) k (nd_rf nd1) of
        Inl _ \<Rightarrow> ((0, epoch), nd1)
      | Inr ch \<Rightarrow> (case chainVersion (ch_id ch) nd1 of (v, nd2) \<Rightarrow> ((ch_id ch, v), nd2)))"

text \<open>The rewrite of a chunk this node is a replica of, between \<open>SyncStart\<close> and the deferred \<open>SyncDone\<close>.\<close>

definition repair_write :: "nat \<Rightarrow> env \<Rightarrow> string \<Rightarrow> string \<Rightarrow> bytes \<Rightarrow> string list \<Rightarrow> cluster \<Rightarrow> (unit res \<times> (u32 \<times> u64) \<times> cluster) option" where
  "repair_write hops en u k d rs cl =
     (case mget cl u of None \<Rightarrow> Some (Inl conn_refused, (0, 0), cl) | Some nd \<Rightarrow>
      case repair_chain k nd of ((c, v), nd1) \<Rightarrow>
      case SyncStart c v nd1 of (_, nd2) \<Rightarrow>
      case applyReplicaWrite hops en u k d (sync_request c v rs) (mput u nd2 cl) of
        None \<Rightarrow> None
      | Some (r, cl1) \<Rightarrow> Some (r, (c, v), cl1))"

definition sync_done_at :: "string \<Rightarrow> u32 \<times> u64 \<Rightarrow> cluster \<Rightarrow> cluster" where
  "sync_done_at u cv cl = update_node u (\<lambda>nd. snd (SyncDone (fst cv) (snd cv) nd)) cl"

definition repairChunk :: "nat \<Rightarrow> env \<Rightarrow> string \<Rightarrow> string \<Rightarrow> string list \<Rightarrow> cluster \<Rightarrow> run" where
  "repairChunk hops en u k rs cl =
     (case mget cl u of None \<Rightarrow> Some (Inl conn_refused, cl) | Some nd \<Rightarrow>
      case (case st_get (nd_store nd) k of
              Some d \<Rightarrow> (Inr d, cl)
            | None \<Rightarrow> fetchChunkFromPeers en u k rs (nd_http nd) cl) of
        (Inl e, cl1) \<Rightarrow> Some (Inl e, cl1)
      | (Inr d, cl1) \<Rightarrow>
          if nd_http nd \<in> set rs then
            (case repair_write hops en u k d rs cl1 of
               None \<Rightarrow> None
             | Some (Inl e, cv, cl2) \<Rightarrow> Some (Inl e, sync_done_at u cv cl2)
             | Some (Inr _, cv, cl2) \<Rightarrow>
                 (case RecordChunkRegistry en u k rs cl2 of (r, cl3) \<Rightarrow> Some (r, sync_done_at u cv cl3)))
          else
            (case RecordChunkRegistry en u k rs cl1 of
               (Inl e, cl2) \<Rightarrow> Some (Inl e, cl2)
             | (Inr _, cl2) \<Rightarrow>
                 Some (Inr (), update_node u (\<lambda>x. x\<lparr>nd_store := snd (st_delete (en_del en u k) k (nd_store x))\<rparr>) cl2)))"

fun repair_jobs :: "nat \<Rightarrow> env \<Rightarrow> string \<Rightarrow> repair_job list \<Rightarrow> nat \<Rightarrow> nat \<Rightarrow> cluster \<Rightarrow> ((nat \<times> nat) \<times> cluster) option" where
  "repair_jobs hops en u [] fixed failed cl = Some ((fixed, failed), cl)"
| "repair_jobs hops en u (j # js) fixed failed cl =
     (case repairChunk hops en u (rj_chunk j) (rj_replicas j) cl of
        None \<Rightarrow> None
      | Some (Inl e, cl1) \<Rightarrow>
          repair_jobs hops en u js fixed (Suc failed)
            (update_node u (\<lambda>nd. nd\<lparr>nd_queue := queue_fail (rj_chunk j) (error_string e) (nd_queue nd)\<rparr>) cl1)
      | Some (Inr _, cl1) \<Rightarrow>
          repair_jobs hops en u js (Suc fixed) failed
            (update_node u (\<lambda>nd. nd\<lparr>nd_queue := queue_done (rj_chunk j) (nd_queue nd)\<rparr>) cl1))"

definition RunRepair :: "nat \<Rightarrow> env \<Rightarrow> string \<Rightarrow> cluster \<Rightarrow> ((nat \<times> nat) \<times> cluster) option" where
  "RunRepair hops en u cl =
     (case mget cl u of None \<Rightarrow> Some ((0, 0), cl)
      | Some nd \<Rightarrow> repair_jobs hops en u (queue_snapshot (nd_queue nd)) 0 0 cl)"

end
