(* ===== verification/Service_Props.thy ===== *)
theory Service_Props
  imports Craq_Correct Service
begin

text \<open>
  Properties of the service: a successful \<open>PutChunk\<close> as clients see it, and the guards of draining.
  The calls that touch the key-value store, the lifecycle or the repair queue leave the data of every
  node alone; \<open>node_data\<close> is that data, and the guarantees of theory \<open>Craq_Correct\<close> depend on it only.
\<close>

definition node_data :: "node \<Rightarrow> string \<times> string \<times> int \<times> store \<times> (string, chunk_meta) gomap \<times> (string, idem_state) gomap" where
  "node_data nd = (nd_http nd, nd_prefix nd, nd_rf nd, nd_store nd, nd_meta nd, nd_idem nd)"

definition same_data :: "cluster \<Rightarrow> cluster \<Rightarrow> bool" where
  "same_data cl cl' \<longleftrightarrow> (\<forall>v. map_option node_data (mget cl' v) = map_option node_data (mget cl v))"

lemma node_data_simps [simp]:
  "node_data (nd\<lparr>nd_kv := s\<rparr>) = node_data nd" "node_data (nd\<lparr>nd_life := l\<rparr>) = node_data nd"
  "node_data (nd\<lparr>nd_queue := q\<rparr>) = node_data nd" "node_data (nd\<lparr>nd_vers := vs\<rparr>) = node_data nd"
  by (simp_all add: node_data_def)

lemma node_data_eqD:
  "node_data a = node_data b \<Longrightarrow> nd_http a = nd_http b \<and> nd_prefix a = nd_prefix b \<and> nd_store a = nd_store b
     \<and> nd_idem a = nd_idem b \<and> getMeta a k = getMeta b k \<and> GetChunk a k = GetChunk b k"
  by (simp add: node_data_def getMeta_def GetChunk_def Let_def)

lemma same_data_refl [simp]: "same_data cl cl"
  by (simp add: same_data_def)

lemma same_data_trans: "same_data a b \<Longrightarrow> same_data b c \<Longrightarrow> same_data a c"
  by (simp add: same_data_def)

lemma same_data_mput: "mget cl u = Some nd \<Longrightarrow> node_data nd' = node_data nd \<Longrightarrow> same_data cl (mput u nd' cl)"
  by (simp add: same_data_def)

lemma same_data_update: "(\<And>nd. node_data (f nd) = node_data nd) \<Longrightarrow> same_data cl (update_node u f cl)"
  by (simp add: same_data_def update_node_def option.map_comp comp_def split: option.splits)

lemma same_data_get:
  assumes "same_data cl cl'" "mget cl v = Some nd"
  shows "\<exists>nd'. mget cl' v = Some nd' \<and> node_data nd' = node_data nd"
  using assms by (cases "mget cl' v") (auto simp: same_data_def dest: spec [of _ v])

lemma syncClusterEpoch_data [simp]: "node_data (snd (syncClusterEpoch nd)) = node_data nd"
  by (simp add: syncClusterEpoch_def split: sum.splits)

lemma chainVersion_data [simp]: "node_data (snd (chainVersion c nd)) = node_data nd"
  by (cases "syncClusterEpoch nd") (use syncClusterEpoch_data [of nd] in \<open>simp add: chainVersion_def Let_def\<close>)

lemma with_kv_data [simp]: "node_data (snd (with_kv f nd)) = node_data nd"
  by (simp add: with_kv_def split: prod.splits)

lemma registry_set_data [simp]: "node_data (snd (registry_set_handler loc nd)) = node_data nd"
proof -
  have "node_data (snd (ApplyRegistrySet k rs e nd)) = node_data nd" for k rs e
    by (simp add: ApplyRegistrySet_def)
  then show ?thesis
    by (auto simp: registry_set_handler_def split: sum.split prod.split) (metis snd_conv)+
qed

lemma post_node_data: "(\<And>nd. node_data (snd (handler nd)) = node_data nd) \<Longrightarrow> same_data cl (snd (post_node en u v what handler cl))"
  by (auto simp: post_node_def split: option.split link.split prod.split intro!: same_data_mput) (metis snd_conv)+

lemma record_data: "same_data cl (snd (RecordChunkRegistry en u k rs cl))"
proof (cases "mget cl u")
  case (Some nd)
  obtain epoch nd1 where s: "syncClusterEpoch nd = (epoch, nd1)" by fastforce
  let ?loc = "chunk_location k rs epoch (getMeta nd k)" and ?cl = "mput u nd1 cl"
  have 1: "same_data cl ?cl" using Some syncClusterEpoch_data [of nd] s by (intro same_data_mput) auto
  have 2: "same_data ?cl (mput u (snd (with_kv (SetLocation ?loc) nd1)) ?cl)" by (rule same_data_mput) simp_all
  have 3: "same_data ?cl (snd (post_node en u v ''registry set'' (registry_set_handler ?loc) ?cl))" for v
    by (rule post_node_data) simp
  from 1 same_data_trans [OF 1 2] same_data_trans [OF 1 3] show ?thesis
    by (auto simp: RecordChunkRegistry_def Some s Let_def split: prod.split sum.split)
qed (simp add: RecordChunkRegistry_def)

lemma cluster_ok_data: "same_data cl cl' \<Longrightarrow> cluster_ok cl \<Longrightarrow> cluster_ok cl'"
  unfolding cluster_ok_def
proof (intro allI impI)
  fix v nd'
  assume s: "same_data cl cl'" and ok: "\<forall>u nd. mget cl u = Some nd \<longrightarrow> nd_http nd = u \<and> st_inv (nd_store nd) \<and> CHR ''?'' \<notin> set (nd_prefix nd)"
    and "mget cl' v = Some nd'"
  obtain nd where nd: "mget cl v = Some nd" "node_data nd = node_data nd'"
    using s \<open>mget cl' v = Some nd'\<close> by (cases "mget cl v") (auto simp: same_data_def dest: spec [of _ v])
  have "nd_http nd = v \<and> st_inv (nd_store nd) \<and> CHR ''?'' \<notin> set (nd_prefix nd)" using ok nd(1) by blast
  with nd(2) show "nd_http nd' = v \<and> st_inv (nd_store nd') \<and> CHR ''?'' \<notin> set (nd_prefix nd')"
    by (simp add: node_data_def)
qed

section \<open>The record of a chunk\<close>

text \<open>Some node keeps the location of the chunk with these replicas, and lists the chunk.\<close>

definition recorded :: "string \<Rightarrow> string list \<Rightarrow> cluster \<Rightarrow> bool" where
  "recorded k rs cl \<longleftrightarrow> (\<exists>v nd loc. mget cl v = Some nd \<and> kv_get (nd_kv nd) (chunkLocKey k) = Inr (marshal_location loc)
     \<and> lo_chunk loc = k \<and> lo_replicas loc = rs \<and> k \<in> set (ListIndexed (nd_kv nd)))"

definition repair_queued :: "string \<Rightarrow> string \<Rightarrow> cluster \<Rightarrow> bool" where
  "repair_queued u k cl \<longleftrightarrow> (\<exists>nd. mget cl u = Some nd \<and> mget (nd_queue nd) k \<noteq> None)"

lemma enqueue_queued: "mget cl u = Some nd \<Longrightarrow> repair_queued u k (update_node u (enqueueRepair k rs) cl)"
  by (simp add: repair_queued_def enqueueRepair_def Enqueue_def split: option.splits)

lemma with_kv_recorded:
  assumes "valid_utf8 k" "k \<noteq> []" "with_kv (SetLocation (chunk_location k rs e m)) nd = (Inr r, nd')"
  shows "recorded k rs (mput v nd' cl)"
proof -
  let ?loc = "chunk_location k rs e m"
  obtain s' where s: "SetLocation ?loc (nd_kv nd) = (Inr r, s')" "nd' = nd\<lparr>nd_kv := s'\<rparr>"
    using assms(3) by (auto simp: with_kv_def split: prod.splits)
  have "kv_mem s' = mem_sadd chunkIndexKey [k] (mem_set (chunkLocKey k) (marshal_location ?loc) (kv_mem (nd_kv nd)))"
    using SetLocation_ok [OF _ _ s(1)] assms(1,2) by (simp add: chunk_location_def)
  then have "kv_get s' (chunkLocKey k) = Inr (marshal_location ?loc)" "k \<in> set (ListIndexed s')"
    using assms(2) by (simp_all add: ListIndexed_def kv_reads mem_get_def)
  with s(2) show ?thesis unfolding recorded_def
    by (intro exI [of _ v] exI [of _ nd'] exI [of _ ?loc]) (simp add: chunk_location_def)
qed

lemma registry_set_effect:
  assumes "location_ok (chunk_location k rs e m)"
    and "registry_set_handler (chunk_location k rs e m) nd = (code, nd')" "code < 300"
  shows "\<exists>r e' m'. with_kv (SetLocation (chunk_location k rs e' m')) nd = (Inr r, nd')"
  using assms by (auto simp: registry_set_handler_def unmarshal_marshal_location ApplyRegistrySet_def chunk_location_def
        split: if_splits sum.splits prod.splits)

text \<open>A successful call has set the location in the store of one node, this one or the leader.\<close>

lemma record_effect:
  assumes "valid_utf8 k" "\<forall>r \<in> set rs. valid_utf8 r" "mget cl u = Some nd" "valid_utf8 (cm_state (getMeta nd k))"
    and "RecordChunkRegistry en u k rs cl = (Inr x, cl')"
  obtains nd1 v n n' e m y where "nd_kv nd1 = nd_kv nd" "mget (mput u nd1 cl) v = Some n"
    "with_kv (SetLocation (chunk_location k rs e m)) n = (Inr y, n')" "cl' = mput v n' (mput u nd1 cl)"
proof -
  obtain epoch nd1 where s: "syncClusterEpoch nd = (epoch, nd1)" by fastforce
  let ?loc = "chunk_location k rs epoch (getMeta nd k)" and ?cl = "mput u nd1 cl"
  have kv: "nd_kv nd1 = nd_kv nd" using s by (auto simp: syncClusterEpoch_def split: sum.splits)
  have ok: "location_ok ?loc" using assms(1,2,4) by (simp add: location_ok_def chunk_location_def)
  show thesis
  proof (cases "IsLeader nd1")
    case True
    with assms(3,5) s obtain nd2 where w: "with_kv (SetLocation ?loc) nd1 = (Inr x, nd2)" "cl' = mput u nd2 ?cl"
      by (auto simp: RecordChunkRegistry_def split: prod.splits)
    show thesis by (rule that [OF kv _ w]) simp
  next
    case False
    with assms(3,5) s obtain leader where "post_node en u leader ''registry set'' (registry_set_handler ?loc) ?cl = (Inr x, cl')"
      by (auto simp: RecordChunkRegistry_def Let_def split: sum.splits)
    then obtain n nd' code where h: "registry_set_handler ?loc n = (code, nd')" "code < 300" "cl' = mput leader nd' ?cl" "mget ?cl leader = Some n"
      by (auto simp: post_node_def split: option.splits link.splits prod.splits if_splits)
    show thesis using registry_set_effect [OF ok h(1,2)] that [OF kv h(4) _ h(3)] by blast
  qed
qed

lemma record_recorded:
  assumes "valid_utf8 k" "k \<noteq> []" "\<forall>r \<in> set rs. valid_utf8 r" "mget cl u = Some nd" "valid_utf8 (cm_state (getMeta nd k))"
    and "RecordChunkRegistry en u k rs cl = (Inr x, cl')"
  shows "recorded k rs cl'"
  by (rule record_effect [OF assms(1,3-6)]) (simp add: with_kv_recorded [OF assms(1,2)])

text \<open>And it leaves the records of the other chunks in place.\<close>

lemma recorded_kv: "recorded j rs cl \<Longrightarrow> (\<And>v. map_option nd_kv (mget cl' v) = map_option nd_kv (mget cl v)) \<Longrightarrow> recorded j rs cl'"
  unfolding recorded_def
proof (elim exE conjE)
  fix v nd loc
  assume same: "\<And>v. map_option nd_kv (mget cl' v) = map_option nd_kv (mget cl v)"
    and "mget cl v = Some nd" "kv_get (nd_kv nd) (chunkLocKey j) = Inr (marshal_location loc)"
    "lo_chunk loc = j" "lo_replicas loc = rs" "j \<in> set (ListIndexed (nd_kv nd))"
  moreover obtain nd' where "mget cl' v = Some nd'" "nd_kv nd' = nd_kv nd" using same [of v] \<open>mget cl v = Some nd\<close> by auto
  ultimately show "\<exists>v nd loc. mget cl' v = Some nd \<and> kv_get (nd_kv nd) (chunkLocKey j) = Inr (marshal_location loc)
     \<and> lo_chunk loc = j \<and> lo_replicas loc = rs \<and> j \<in> set (ListIndexed (nd_kv nd))"
    by (intro exI [of _ v] exI [of _ nd'] exI [of _ loc]) simp
qed

lemma with_kv_keeps:
  assumes "recorded j ts cl" "j \<noteq> k" "valid_utf8 k" "mget cl v = Some n"
  shows "recorded j ts (mput v (snd (with_kv (SetLocation (chunk_location k rs e m)) n)) cl)"
proof -
  let ?l = "chunk_location k rs e m"
  let ?s = "snd (SetLocation ?l (nd_kv n))" and ?n = "snd (with_kv (SetLocation ?l) n)"
  have n: "nd_kv ?n = ?s" by (simp add: with_kv_def split: prod.split)
  have K: "kv_get ?s (chunkLocKey j) = kv_get (nd_kv n) (chunkLocKey j)" "set (ListIndexed (nd_kv n)) \<subseteq> set (ListIndexed ?s)"
    using SetLocation_keeps [of ?l j "nd_kv n"] assms(2,3) by (simp_all add: chunk_location_def)
  obtain w nd loc where w: "mget cl w = Some nd" "kv_get (nd_kv nd) (chunkLocKey j) = Inr (marshal_location loc)"
    "lo_chunk loc = j" "lo_replicas loc = ts" "j \<in> set (ListIndexed (nd_kv nd))" using assms(1) by (auto simp: recorded_def)
  have "w = v \<Longrightarrow> nd = n" using w(1) assms(4) by simp
  with w K n show ?thesis unfolding recorded_def
    by (intro exI [of _ w] exI [of _ "if w = v then ?n else nd"] exI [of _ loc]) auto
qed

text \<open>Whatever the outcome of a call, it has set the location at one node at most.\<close>

lemma registry_set_node:
  assumes "location_ok (chunk_location k rs e m)"
  shows "\<exists>e' m'. snd (registry_set_handler (chunk_location k rs e m) n) = n
     \<or> snd (registry_set_handler (chunk_location k rs e m) n) = snd (with_kv (SetLocation (chunk_location k rs e' m')) n)"
  using assms by (auto simp: registry_set_handler_def unmarshal_marshal_location ApplyRegistrySet_def chunk_location_def
      split: sum.split prod.split) (metis snd_conv)+

lemma post_node_shape: "snd (post_node en u v what h cl) = cl \<or> (\<exists>n. mget cl v = Some n \<and> snd (post_node en u v what h cl) = mput v (snd (h n)) cl)"
  by (auto simp: post_node_def split: option.split link.split prod.split)

lemma record_shape:
  assumes "valid_utf8 k" "\<forall>r \<in> set rs. valid_utf8 r" "mget cl u = Some nd" "valid_utf8 (cm_state (getMeta nd k))"
    and "cl' = snd (RecordChunkRegistry en u k rs cl)"
  obtains nd1 where "nd_kv nd1 = nd_kv nd" "nd_queue nd1 = nd_queue nd"
    "cl' = mput u nd1 cl \<or> (\<exists>v n e m. mget (mput u nd1 cl) v = Some n
       \<and> cl' = mput v (snd (with_kv (SetLocation (chunk_location k rs e m)) n)) (mput u nd1 cl))"
proof -
  obtain epoch nd1 where s: "syncClusterEpoch nd = (epoch, nd1)" by fastforce
  let ?loc = "chunk_location k rs epoch (getMeta nd k)" and ?cl = "mput u nd1 cl"
  have nd1: "nd_kv nd1 = nd_kv nd" "nd_queue nd1 = nd_queue nd" using s by (auto simp: syncClusterEpoch_def split: sum.splits)
  have ok: "location_ok ?loc" using assms(1,2,4) by (simp add: location_ok_def chunk_location_def)
  let ?set = "\<lambda>c. \<exists>v n e m. mget ?cl v = Some n \<and> c = mput v (snd (with_kv (SetLocation (chunk_location k rs e m)) n)) ?cl"
  have post: "snd (post_node en u v w (registry_set_handler ?loc) ?cl) = ?cl \<or> ?set (snd (post_node en u v w (registry_set_handler ?loc) ?cl))" for v w
  proof -
    consider "snd (post_node en u v w (registry_set_handler ?loc) ?cl) = ?cl"
      | n where "mget ?cl v = Some n" "snd (post_node en u v w (registry_set_handler ?loc) ?cl) = mput v (snd (registry_set_handler ?loc n)) ?cl"
      using post_node_shape [of en u v w "registry_set_handler ?loc" ?cl] by blast
    then show ?thesis
    proof cases
      case (2 n)
      with registry_set_node [OF ok, of n] show ?thesis by (metis mput_mget_same)
    qed simp
  qed
  have "cl' = ?cl \<or> ?set cl'"
  proof (cases "IsLeader nd1")
    case True
    then have "cl' = mput u (snd (with_kv (SetLocation ?loc) nd1)) ?cl"
      using assms(3,5) s by (simp add: RecordChunkRegistry_def Let_def split: prod.splits)
    moreover have "mget ?cl u = Some nd1" by simp
    ultimately show ?thesis by blast
  next
    case False
    with assms(3,5) s have "cl' = ?cl \<or> (\<exists>v. cl' = snd (post_node en u v ''registry set'' (registry_set_handler ?loc) ?cl))"
      by (auto simp: RecordChunkRegistry_def Let_def split: sum.splits)
    then show ?thesis using post by blast
  qed
  with nd1 show thesis using that by blast
qed

lemma record_keeps:
  assumes "valid_utf8 k" "\<forall>r \<in> set rs. valid_utf8 r" "mget cl u = Some nd" "valid_utf8 (cm_state (getMeta nd k))"
    and "cl' = snd (RecordChunkRegistry en u k rs cl)"
  shows "recorded j ts cl \<Longrightarrow> j \<noteq> k \<Longrightarrow> recorded j ts cl'"
    and "map_option nd_queue (mget cl' x) = map_option nd_queue (mget cl x)"
proof -
  obtain nd1 where c: "nd_kv nd1 = nd_kv nd" "nd_queue nd1 = nd_queue nd"
    "cl' = mput u nd1 cl \<or> (\<exists>v n e m. mget (mput u nd1 cl) v = Some n
       \<and> cl' = mput v (snd (with_kv (SetLocation (chunk_location k rs e m)) n)) (mput u nd1 cl))"
    by (rule record_shape [OF assms])
  have "recorded j ts cl \<Longrightarrow> recorded j ts (mput u nd1 cl)" using assms(3) c(1) by (auto elim!: recorded_kv)
  then show "recorded j ts cl \<Longrightarrow> j \<noteq> k \<Longrightarrow> recorded j ts cl'"
    using c(3) with_kv_keeps [OF _ _ assms(1)] by blast
  have "nd_queue (snd (with_kv f n)) = nd_queue n" for f n by (simp add: with_kv_def split: prod.split)
  then show "map_option nd_queue (mget cl' x) = map_option nd_queue (mget cl x)"
    using c assms(3) by (auto split: if_splits)
qed

section \<open>Writing a new chunk\<close>

definition new_chunk :: "string \<Rightarrow> cluster \<Rightarrow> string \<Rightarrow> bool" where
  "new_chunk k cl v \<longleftrightarrow> (\<exists>nd. mget cl v = Some nd \<and> mget (nd_meta nd) k = None
     \<and> (\<forall>req. mget (nd_idem nd) (idempotencyKey k req) = None))"

lemma new_chunk_data: "same_data cl cl' \<Longrightarrow> new_chunk k cl v \<Longrightarrow> new_chunk k cl' v"
  using same_data_get [of cl cl' v] by (fastforce simp: new_chunk_def node_data_def)

lemma new_chunk_fresh:
  assumes "\<forall>v \<in> set (u # post). new_chunk k cl v" "rw_update req = 0"
  shows "fresh_write k req 1 u post cl"
proof -
  have "\<exists>nd. mget cl v = Some nd \<and> version_of req nd k = 1 \<and> fresh_at k (idempotencyKey k q) 1 nd" if "v \<in> set (u # post)" for v q
    using assms that by (fastforce simp: new_chunk_def version_of_def fresh_at_def getMeta_def meta_zero_def)
  then show ?thesis unfolding fresh_write_def by (meson list.set_intros)
qed

lemma put_chunk_success:
  assumes "mget cl u = Some nd" "ListNodes (nd_kv nd) \<noteq> []" "PutChunk hops en u k d cl = Some (Inr rs, cl')"
  obtains ch ver nd1 cl1 where "ChainFor (ListNodes (nd_kv nd)) k (nd_rf nd) = Inr ch" "NodeURLs ch = rs"
    "chainVersion (ch_id ch) nd = (ver, nd1)" "same_data cl1 cl'"
    "applyReplicaWrite hops en u k d (client_request stagePrepare ch ver) (mput u nd1 cl) = Some (Inr (), cl1)"
    "RecordChunkRegistry en u k rs cl1 = (Inr (), cl') \<or> (\<exists>e cl2. RecordChunkRegistry en u k rs cl1 = (Inl e, cl2)
       \<and> cl' = update_node u (enqueueRepair k rs) cl2)"
proof -
  have acc: "AcceptsChunks (nd_life nd)" using assms(1,3) by (auto simp: PutChunk_def putChunk_def split: if_splits)
  obtain ch where ch: "ChainFor (ListNodes (nd_kv nd)) k (nd_rf nd) = Inr ch"
    using assms acc by (cases "ChainFor (ListNodes (nd_kv nd)) k (nd_rf nd)") (auto simp: PutChunk_def putChunk_def)
  have hd: "tg_url (chain_head ch) = nd_http nd"
    using assms acc ch by (auto simp: PutChunk_def putChunk_def split: if_splits)
  obtain ver nd1 where v: "chainVersion (ch_id ch) nd = (ver, nd1)" by fastforce
  let ?run = "applyReplicaWrite hops en u k d (client_request stagePrepare ch ver) (mput u nd1 cl)"
  obtain cl1 where run: "?run = Some (Inr (), cl1)"
    using assms acc ch hd v by (auto simp: PutChunk_def putChunk_def split: option.splits sum.splits prod.splits)
  obtain r cl2 where rec: "RecordChunkRegistry en u k (NodeURLs ch) cl1 = (r, cl2)" by fastforce
  have "same_data cl1 cl2" using record_data [of cl1 en u k "NodeURLs ch"] by (simp add: rec)
  moreover have "same_data cl2 (update_node u (enqueueRepair k (NodeURLs ch)) cl2)"
    by (rule same_data_update) (simp add: enqueueRepair_def)
  moreover have "rs = NodeURLs ch" "r = Inr () \<and> cl' = cl2 \<or> isl r \<and> cl' = update_node u (enqueueRepair k (NodeURLs ch)) cl2"
    using assms acc ch hd v run rec by (auto simp: PutChunk_def putChunk_def split: sum.splits)
  moreover have "isl r \<Longrightarrow> \<exists>e. r = Inl e" by (cases r) auto
  ultimately show thesis using that [OF ch _ v _ run] rec same_data_trans by metis
qed


text \<open>A node that runs alone, with itself as the only member.\<close>

definition solo_node :: node where
  "solo_node = NewService ''n1'' ''a'' [] (mem_store (mem_hset raftnodeNodesKey ''n1'' ''a'' new_memory_kv)) (MemoryStore []) 2 0 0"

definition solo_cluster :: cluster where
  "solo_cluster = [(''a'', solo_node)]"

lemma solo_nodes [simp]: "ListNodes (nd_kv solo_node) = [''a'']" "nd_rf solo_node = 2" "nd_http solo_node = ''a''"
  by (simp_all add: solo_node_def NewService_def mem_store_def ListNodes_def kv_hgetall_def mem_hgetall_def mem_hset_def
      new_memory_kv_def mput_def)

lemma solo_chain: "ChainFor [''a''] k 2 = Inr \<lparr>ch_id = 0, ch_targets = [\<lparr>tg_url = ''a'', tg_role = RoleHead\<rparr>]\<rparr>"
proof -
  have "fnv32a k mod (1 :: u32) = 0" by (simp add: word_eq_iff_unsigned)
  then show ?thesis
    by (simp add: ChainFor_def BuildChainTable_def SelectChain_def clamp_rf_def build_chain_def role_at_def)
qed

lemma put_chunk_returns:
  assumes "mget cl u = Some nd" "ListNodes (nd_kv nd) \<noteq> []" "AcceptsChunks (nd_life nd)"
    and "ChainFor (ListNodes (nd_kv nd)) k (nd_rf nd) = Inr ch" "tg_url (chain_head ch) = nd_http nd"
    and "chainVersion (ch_id ch) nd = (ver, nd1)"
    and "applyReplicaWrite hops en u k d (client_request stagePrepare ch ver) (mput u nd1 cl) = Some (Inr (), cl1)"
  shows "\<exists>cl'. PutChunk hops en u k d cl = Some (Inr (NodeURLs ch), cl')"
  using assms by (auto simp: PutChunk_def putChunk_def split: sum.splits prod.splits)

lemma solo_put: "\<exists>cl'. PutChunk 1 demo_env ''a'' ''1_0_0'' ''data'' solo_cluster = Some (Inr [''a''], cl')"
proof -
  let ?ch = "\<lparr>ch_id = 0, ch_targets = [\<lparr>tg_url = ''a'', tg_role = RoleHead\<rparr>]\<rparr>"
  obtain ver nd1 where v: "chainVersion 0 solo_node = (ver, nd1)" by fastforce
  have nd1: "node_data nd1 = node_data solo_node" using chainVersion_data [of 0 solo_node] v by simp
  have sd: "same_data solo_cluster (mput ''a'' nd1 solo_cluster)"
    by (rule same_data_mput [OF _ nd1]) (simp add: solo_cluster_def)
  have ok: "cluster_ok solo_cluster"
    by (auto simp: cluster_ok_def solo_cluster_def solo_node_def NewService_def ms_inv_def split: if_splits)
  have D: "nd_idem nd1 = []" "nd_meta nd1 = []" "nd_store nd1 = MemoryStore []"
    using nd1 by (simp_all add: node_data_def solo_node_def NewService_def)
  have "\<exists>cl1. applyReplicaWrite 1 demo_env ''a'' ''1_0_0'' ''data'' (client_request stagePrepare ?ch ver) (mput ''a'' nd1 solo_cluster)
      = Some (Inr (), cl1)"
    by (rule head_succeeds [of _ _ "[]" _ _ _ nd1 1])
      (use cluster_ok_data [OF sd ok] D in \<open>simp_all add: client_request_def NodeURLs_def is_write_def stage_defs links_up_def demo_env_def
         version_of_def takes_def fresh_at_def getMeta_def meta_zero_def chain_ok_def csv_ok_def is_space_def id_ok_def
         has_suffix_def has_prefix_def del: applyReplicaWrite.simps\<close>)
  then obtain cl1 where run: "applyReplicaWrite 1 demo_env ''a'' ''1_0_0'' ''data'' (client_request stagePrepare ?ch ver)
      (mput ''a'' nd1 solo_cluster) = Some (Inr (), cl1)" by blast
  have "\<exists>cl'. PutChunk 1 demo_env ''a'' ''1_0_0'' ''data'' solo_cluster = Some (Inr (NodeURLs ?ch), cl')"
    by (rule put_chunk_returns [OF _ _ _ _ _ _ run, of solo_node])
      (simp_all add: solo_cluster_def solo_chain chain_head_def v, simp add: solo_node_def NewService_def NewManager_def AcceptsChunks_def)
  then show ?thesis by (simp add: NodeURLs_def)
qed


end
