(* ===== verification/Cluster_Frame.thy ===== *)
theory Cluster_Frame
  imports Service_Props
begin

text \<open>
  What the work on one chunk leaves of the others. \<open>chunk_view\<close> is what a node knows of a chunk: the
  bytes, the version record and the answers it remembers. \<open>cluster_kept\<close> relates the clusters before
  and after a run of chain replication for chunk \<open>k\<close>, \<open>chunk_kept\<close> says that chunk \<open>j\<close> is untouched on
  every node. Draining and repair, which work on many chunks in turn, rest on these facts.
\<close>

section \<open>Requests of different chunks\<close>

definition chunk_id_ok :: "string \<Rightarrow> bool" where
  "chunk_id_ok k \<longleftrightarrow> id_ok k \<and> CHR '':'' \<notin> set k"

lemma chunk_id_okD: "chunk_id_ok k \<Longrightarrow> id_ok k" "chunk_id_ok k \<Longrightarrow> k \<noteq> []"
  by (simp_all add: chunk_id_ok_def id_ok_def)

lemma idempotencyKey_chunk:
  assumes "chunk_id_ok j" "chunk_id_ok k"
  shows "idempotencyKey j q = idempotencyKey k r \<Longrightarrow> j = k"
proof -
  have "takeWhile ((\<noteq>) CHR '':'') (idempotencyKey x q) = x" if "chunk_id_ok x" for x q
  proof -
    have "\<forall>c \<in> set x. CHR '':'' \<noteq> c" using that by (auto simp: chunk_id_ok_def)
    then show ?thesis by (simp add: idempotencyKey_def takeWhile_append2)
  qed
  then show "idempotencyKey j q = idempotencyKey k r \<Longrightarrow> j = k" using assms by metis
qed

section \<open>One node\<close>

definition chunk_view :: "string \<Rightarrow> node \<Rightarrow> string \<times> string \<times> int \<times> bytes option \<times> chunk_meta \<times> (replica_write \<Rightarrow> idem_state option)" where
  "chunk_view j n = (nd_http n, nd_prefix n, nd_rf n, st_get (nd_store n) j, getMeta n j,
     \<lambda>req. mget (nd_idem n) (idempotencyKey j req))"

definition peer_kept :: "string \<Rightarrow> node \<Rightarrow> node \<Rightarrow> bool" where
  "peer_kept k n n' \<longleftrightarrow> nd_kv n' = nd_kv n \<and> nd_queue n' = nd_queue n \<and> nd_http n' = nd_http n \<and> nd_prefix n' = nd_prefix n
     \<and> st_inv (nd_store n') \<and> (\<forall>j. j \<noteq> k \<longrightarrow> chunk_id_ok j \<longrightarrow> chunk_view j n' = chunk_view j n)"

text \<open>The record of a chunk carries its id, or none.\<close>

definition metas_of :: "node \<Rightarrow> bool" where
  "metas_of n \<longleftrightarrow> (\<forall>k. cm_id (getMeta n k) = k \<or> cm_id (getMeta n k) = [])"

lemma peer_kept_refl: "st_inv (nd_store n) \<Longrightarrow> peer_kept k n n"
  by (simp add: peer_kept_def)

lemma peer_kept_trans: "peer_kept k a b \<Longrightarrow> peer_kept k b c \<Longrightarrow> peer_kept k a c"
  by (simp add: peer_kept_def)

lemma chunk_view_facts:
  "chunk_view j n' = chunk_view j n \<Longrightarrow> GetChunk n' j = GetChunk n j \<and> nd_rf n' = nd_rf n
     \<and> st_get (nd_store n') j = st_get (nd_store n) j \<and> getMeta n' j = getMeta n j
     \<and> mget (nd_idem n') (idempotencyKey j req) = mget (nd_idem n) (idempotencyKey j req)"
  by (auto simp: chunk_view_def GetChunk_def Let_def dest: fun_cong [of _ _ req])

lemma chunk_view_data: "node_data a = node_data b \<Longrightarrow> chunk_view j a = chunk_view j b"
  by (simp add: node_data_def chunk_view_def getMeta_def)

lemma prepare_kept:
  assumes "st_inv (nd_store n)" "id_ok k" "writePrepare os k d c cv uv n = (x, n1)"
  shows "peer_kept k n n1" "metas_of n \<Longrightarrow> metas_of n1"
proof -
  obtain r st' where st: "st_put os k d (nd_store n) = (r, st')" by fastforce
  have "st_inv st'" "\<And>j. id_ok j \<Longrightarrow> j \<noteq> k \<Longrightarrow> st_get st' j = st_get (nd_store n) j"
    using st.put_inv [OF assms(1,2), of os d] st.put_get [OF assms(1,2), of _ os d] by (auto simp: st)
  with assms show "peer_kept k n n1"
    by (auto simp: writePrepare_def Let_def st peer_kept_def chunk_view_def setMeta_def getMeta_def chunk_id_ok_def
        split: if_splits sum.splits)
  show "metas_of n \<Longrightarrow> metas_of n1"
    using assms(3) by (auto simp: writePrepare_def Let_def st metas_of_def split: if_splits sum.splits)
qed

lemma setMeta_kept: "st_inv (nd_store n) \<Longrightarrow> cm_id m = k \<or> cm_id m = [] \<Longrightarrow> peer_kept k n (setMeta m n)"
  by (auto simp: peer_kept_def chunk_view_def dest: chunk_id_okD) (simp_all add: setMeta_def)

lemma setMeta_metas: "metas_of n \<Longrightarrow> metas_of (setMeta m n)"
  by (simp add: metas_of_def)

lemma commit_kept:
  assumes "st_inv (nd_store n)" "writeCommit k v cv n = (m, n1)" "cm_id (getMeta n k) = k \<or> cm_id (getMeta n k) = []"
  shows "peer_kept k n n1"
  using assms setMeta_kept by (auto simp: writeCommit_def Let_def)

lemma commit_metas: "metas_of n \<Longrightarrow> writeCommit k v cv n = (m, n1) \<Longrightarrow> metas_of n1"
  by (auto simp: writeCommit_def Let_def intro: setMeta_metas)

lemma remember_kept:
  assumes "st_inv (nd_store n)" "chunk_id_ok k"
  shows "peer_kept k n (rememberIdempotency (idempotencyKey k req) st n)"
  using assms idempotencyKey_chunk [OF _ assms(2)]
  by (auto simp: peer_kept_def chunk_view_def fun_eq_iff) (simp_all add: rememberIdempotency_def)

lemma remember_metas [simp]: "metas_of (rememberIdempotency key st n) = metas_of n"
  by (simp add: metas_of_def)

lemma delete_kept:
  assumes "st_inv (nd_store n)" "id_ok k"
  shows "peer_kept k n (n\<lparr>nd_store := snd (st_delete oe k (nd_store n))\<rparr>)"
  using st.del_inv [OF assms, of oe] st.del_get [OF assms, of _ oe] by (auto simp: peer_kept_def chunk_view_def dest: chunk_id_okD)

lemma store_metas [simp]: "metas_of (n\<lparr>nd_store := s\<rparr>) = metas_of n"
  by (simp add: metas_of_def)

section \<open>The cluster\<close>

definition cluster_kept :: "string \<Rightarrow> cluster \<Rightarrow> cluster \<Rightarrow> bool" where
  "cluster_kept k cl cl' \<longleftrightarrow> (\<forall>x. rel_option (peer_kept k) (mget cl x) (mget cl' x))"

definition metas_ok :: "cluster \<Rightarrow> bool" where
  "metas_ok cl \<longleftrightarrow> (\<forall>x n. mget cl x = Some n \<longrightarrow> metas_of n)"

lemma cluster_kept_refl: "cluster_ok cl \<Longrightarrow> cluster_kept k cl cl"
  unfolding cluster_kept_def by (intro allI option.rel_refl_strong) (auto simp: cluster_ok_def peer_kept_def elem_set)

lemma cluster_kept_get:
  assumes "cluster_kept k cl cl'"
  shows "mget cl x = Some n \<Longrightarrow> \<exists>n'. mget cl' x = Some n' \<and> peer_kept k n n'"
    and "mget cl' x = Some n' \<Longrightarrow> \<exists>n. mget cl x = Some n \<and> peer_kept k n n'"
  using assms [unfolded cluster_kept_def, rule_format, of x] by (auto simp: option_rel_Some1 option_rel_Some2)

lemma cluster_kept_trans:
  assumes "cluster_kept k a b" "cluster_kept k b c"
  shows "cluster_kept k a c"
  unfolding cluster_kept_def
proof
  fix x
  show "rel_option (peer_kept k) (mget a x) (mget c x)"
    using assms [unfolded cluster_kept_def, rule_format, of x]
    by (cases "mget a x"; cases "mget b x"; cases "mget c x") (auto intro: peer_kept_trans)
qed

lemma cluster_kept_ok:
  assumes "cluster_kept k cl cl'" "cluster_ok cl"
  shows "cluster_ok cl'"
  unfolding cluster_ok_def
proof (intro allI impI)
  fix x n'
  assume "mget cl' x = Some n'"
  then obtain n where "mget cl x = Some n" "peer_kept k n n'" using cluster_kept_get(2) [OF assms(1)] by blast
  with assms(2) show "nd_http n' = x \<and> st_inv (nd_store n') \<and> CHR ''?'' \<notin> set (nd_prefix n')"
    by (simp add: cluster_ok_def peer_kept_def)
qed

lemma cluster_kept_at:
  assumes "cluster_ok cl" "same_off [v] cl cl'" "mget cl v = Some n" "mget cl' v = Some n'" "peer_kept k n n'"
  shows "cluster_kept k cl cl'"
  unfolding cluster_kept_def
proof
  fix x
  show "rel_option (peer_kept k) (mget cl x) (mget cl' x)"
    using assms cluster_kept_refl [OF assms(1), of k] by (cases "x = v") (auto simp: same_off_def cluster_kept_def)
qed

definition chunk_kept :: "string \<Rightarrow> cluster \<Rightarrow> cluster \<Rightarrow> bool" where
  "chunk_kept j cl cl' \<longleftrightarrow> (\<forall>x. map_option (chunk_view j) (mget cl' x) = map_option (chunk_view j) (mget cl x))"

lemma chunk_kept_trans: "chunk_kept j a b \<Longrightarrow> chunk_kept j b c \<Longrightarrow> chunk_kept j a c"
  by (simp add: chunk_kept_def)

lemma chunk_kept_get: "chunk_kept j cl cl' \<Longrightarrow> mget cl x = Some n \<Longrightarrow> \<exists>n'. mget cl' x = Some n' \<and> chunk_view j n' = chunk_view j n"
  by (auto simp: chunk_kept_def dest!: spec [of _ x])

lemma same_data_chunk_kept:
  assumes "same_data cl cl'"
  shows "chunk_kept j cl cl'"
  unfolding chunk_kept_def
proof
  fix x
  show "map_option (chunk_view j) (mget cl' x) = map_option (chunk_view j) (mget cl x)"
    using assms [unfolded same_data_def, rule_format, of x]
    by (cases "mget cl x"; cases "mget cl' x") (auto intro: chunk_view_data)
qed

lemma cluster_kept_chunk: "cluster_kept k cl cl' \<Longrightarrow> j \<noteq> k \<Longrightarrow> chunk_id_ok j \<Longrightarrow> chunk_kept j cl cl'"
  unfolding chunk_kept_def
proof
  fix x
  assume "cluster_kept k cl cl'" "j \<noteq> k" "chunk_id_ok j"
  then show "map_option (chunk_view j) (mget cl' x) = map_option (chunk_view j) (mget cl x)"
    using cluster_kept_get [of k cl cl' x] by (cases "mget cl x"; cases "mget cl' x") (auto simp: peer_kept_def)
qed

lemma cluster_kept_ctl:
  assumes "cluster_kept k cl cl'"
  shows "map_option nd_kv (mget cl' x) = map_option nd_kv (mget cl x)"
    and "map_option nd_queue (mget cl' x) = map_option nd_queue (mget cl x)"
  using cluster_kept_get [OF assms, of x] by (cases "mget cl x"; cases "mget cl' x"; auto simp: peer_kept_def)+

section \<open>A chain request works on its chunk only\<close>

text \<open>What a run of chain replication for chunk \<open>k\<close> keeps of a well-formed cluster.\<close>

definition run_kept :: "string \<Rightarrow> cluster \<Rightarrow> cluster \<Rightarrow> bool" where
  "run_kept k cl cl' \<longleftrightarrow> cluster_kept k cl cl' \<and> (metas_ok cl \<longrightarrow> metas_ok cl')"

lemma run_kept_refl: "cluster_ok cl \<Longrightarrow> run_kept k cl cl"
  by (simp add: run_kept_def cluster_kept_refl)

lemma run_kept_trans [trans]: "run_kept k a b \<Longrightarrow> run_kept k b c \<Longrightarrow> run_kept k a c"
  unfolding run_kept_def using cluster_kept_trans by blast

lemma run_kept_ok: "run_kept k cl cl' \<Longrightarrow> cluster_ok cl \<Longrightarrow> cluster_ok cl'"
  unfolding run_kept_def using cluster_kept_ok by blast

lemma run_kept_mput:
  assumes "cluster_ok cl" "mget cl u = Some n" "peer_kept k n n'" "metas_of n \<Longrightarrow> metas_of n'"
  shows "run_kept k cl (mput u n' cl)"
  using cluster_kept_at [OF assms(1) _ assms(2) _ assms(3), of "mput u n' cl"] assms(2,4)
  by (auto simp: run_kept_def same_off_def metas_ok_def)

lemma run_kept_update:
  assumes "cluster_ok cl" "metas_ok cl" "\<And>n. st_inv (nd_store n) \<Longrightarrow> metas_of n \<Longrightarrow> peer_kept k n (f n) \<and> metas_of (f n)"
  shows "run_kept k cl (update_node u f cl)"
proof (cases "mget cl u")
  case (Some n)
  then have "st_inv (nd_store n)" "metas_of n" using assms(1,2) by (simp_all add: cluster_ok_def metas_ok_def)
  with assms Some show ?thesis by (simp add: update_node_def run_kept_mput)
qed (simp add: update_node_def run_kept_refl assms(1))

text \<open>Proofs about runs use the metadata invariant of the whole cluster, so it is part of the premise.\<close>

definition keeps :: "string \<Rightarrow> (cluster \<Rightarrow> run) \<Rightarrow> bool" where
  "keeps k f \<longleftrightarrow> (\<forall>cl r cl'. cluster_ok cl \<longrightarrow> metas_ok cl \<longrightarrow> f cl = Some (r, cl') \<longrightarrow> run_kept k cl cl')"

lemma keepsD: "keeps k f \<Longrightarrow> cluster_ok cl \<Longrightarrow> metas_ok cl \<Longrightarrow> f cl = Some (r, cl') \<Longrightarrow>
    run_kept k cl cl' \<and> cluster_ok cl' \<and> metas_ok cl'"
  unfolding keeps_def using run_kept_ok run_kept_def by blast

lemma keeps_wrap: "keeps k f \<Longrightarrow> keeps k (\<lambda>cl. wrap_run c (f cl))"
  by (auto simp: keeps_def wrap_run_Some)

lemma keeps_const: "keeps k (\<lambda>cl. Some (r, cl))"
  by (simp add: keeps_def run_kept_refl)

lemma multi_put_kept: "(\<And>c. keeps k (call c)) \<Longrightarrow> keeps k (multi_put call ls r0)"
proof (induction ls arbitrary: r0)
  case Nil
  show ?case by (auto simp: keeps_def run_kept_refl)
next
  case (Cons l ls)
  note IH = Cons.IH [OF Cons.prems]
  show ?case unfolding keeps_def
  proof (intro allI impI)
    fix cl r cl'
    assume ok: "cluster_ok cl" "metas_ok cl" and run: "multi_put call (l # ls) r0 cl = Some (r, cl')"
    have go: "run_kept k cl cl'" if "call c cl = Some (x, cl1)" "cl' = cl1 \<or> multi_put call ls y cl1 = Some (r, cl')" for c x y cl1
      using keepsD [OF Cons.prems ok that(1)] that(2) keepsD [OF IH] run_kept_trans by metis
    show "run_kept k cl cl'"
    proof (cases l)
      case (Drop e)
      with run keepsD [OF IH ok] show ?thesis by simp
    next
      case (LostReply c e)
      with run show ?thesis by (auto split: option.splits intro: go)
    next
      case (Deliver c)
      with run show ?thesis by (auto split: option.splits sum.splits intro: go)
    qed
  qed
qed

lemma forward_kept:
  assumes "\<And>v d' q. keeps k (call v d' q)"
  shows "keeps k (forwardReplica call en u nd k d req)"
proof -
  let ?v = "next_target (nd_http nd) (rw_replicas req)"
  let ?call = "\<lambda>c cl'. case received (nd_prefix nd) ?v k c (replica_options req) of
      Inl e \<Rightarrow> Some (Inl (http_error 400 e), cl') | Inr r \<Rightarrow> wrap_run c (call ?v d r cl')"
  have "keeps k (?call c)" for c
    using keeps_const keeps_wrap [OF assms] by (cases "received (nd_prefix nd) ?v k c (replica_options req)") simp_all
  then have "keeps k (multi_put ?call (en_links en u ?v) (Inr ()))" by (rule multi_put_kept)
  then show ?thesis using keeps_const [of k] by (auto simp: forwardReplica_def Let_def keeps_def)
qed

lemma remember_update:
  "cluster_ok cl \<Longrightarrow> metas_ok cl \<Longrightarrow> chunk_id_ok k \<Longrightarrow> run_kept k cl (update_node u (rememberIdempotency (idempotencyKey k req) st) cl)"
  by (rule run_kept_update) (simp_all add: remember_kept)

lemma commit_remember_kept:
  assumes "st_inv (nd_store n)" "metas_of n" "chunk_id_ok k" "writeCommit k v cv n = (m, n1)"
  shows "peer_kept k n (rememberIdempotency (idempotencyKey k req) st n1) \<and> metas_of (rememberIdempotency (idempotencyKey k req) st n1)"
proof -
  have K: "peer_kept k n n1" using commit_kept [OF assms(1,4)] assms(2) by (simp add: metas_of_def)
  then have "st_inv (nd_store n1)" by (simp add: peer_kept_def)
  with K show ?thesis using remember_kept [OF _ assms(3)] peer_kept_trans commit_metas [OF assms(2,4)] by auto
qed

lemma commit_stage_kept:
  assumes "cluster_ok cl" "metas_ok cl" "chunk_id_ok k" "mget cl u = Some nd" "commit_stage u k req nd cl = Some (r, cl')"
  shows "run_kept k cl cl'"
proof -
  obtain m n1 where c: "writeCommit k (rw_commit req) (rw_chain_ver req) nd = (m, n1)" by fastforce
  have nd: "st_inv (nd_store nd)" "metas_of nd" using assms(1,2,4) by (auto simp: cluster_ok_def metas_ok_def)
  show ?thesis
    using assms(5) commit_remember_kept [OF nd assms(3) c] run_kept_mput [OF assms(1,4)] by (auto simp: commit_stage_def c)
qed

lemma prepare_stage_kept:
  assumes "cluster_ok cl" "metas_ok cl" "chunk_id_ok k" "mget cl u = Some nd" "\<And>v d' q. keeps k (call v d' q)"
    and run: "prepare_stage call en u k d req nd cl = Some (r, cl')"
  shows "run_kept k cl cl'"
proof -
  obtain x n1 where p: "writePrepare (en_put en u k) k d (rw_chain req) (rw_chain_ver req) (rw_update req) nd = (x, n1)" by fastforce
  have nd: "st_inv (nd_store nd)" "metas_of nd" using assms(1,2,4) by (auto simp: cluster_ok_def metas_ok_def)
  note K = prepare_kept [OF nd(1) chunk_id_okD(1) [OF assms(3)] p]
  have inv1: "st_inv (nd_store n1)" using K(1) by (simp add: peer_kept_def)
  show ?thesis
  proof (cases x)
    case (Inl e)
    have "peer_kept k nd (rememberIdempotency (idempotencyKey k req) (idem_fail e) n1)"
      using peer_kept_trans [OF K(1) remember_kept [OF inv1 assms(3)]] .
    with run_kept_mput [OF assms(1,4)] K(2) run Inl show ?thesis by (auto simp: prepare_stage_def p)
  next
    case (Inr m)
    let ?cl = "mput u n1 cl"
    have 1: "run_kept k cl ?cl" by (rule run_kept_mput [OF assms(1,4) K])
    then have ok: "cluster_ok ?cl" "metas_ok ?cl" using assms(1,2) run_kept_ok by (auto simp: run_kept_def)
    obtain y cl1 where f: "forwardReplica call en u nd k d (with_versions (cm_update m) nd req) ?cl = Some (y, cl1)"
      using run p Inr by (auto simp: prepare_stage_def Let_def split: option.splits)
    have 2: "run_kept k ?cl cl1" "cluster_ok cl1" "metas_ok cl1" using keepsD [OF forward_kept ok f] assms(5) by blast+
    have "run_kept k cl1 cl'"
    proof (cases y)
      case (Inl e)
      with run p Inr f remember_update [OF 2(2,3) assms(3)] show ?thesis by (auto simp: prepare_stage_def)
    next
      case (Inr z)
      with run p \<open>x = Inr m\<close> f have "cl' = update_node u (\<lambda>n. case writeCommit k (cm_update m) (rw_chain_ver req) n of
          (cm, n1) \<Rightarrow> rememberIdempotency (idempotencyKey k req) (idem_ok cm) n1) cl1" by (simp add: prepare_stage_def)
      then show ?thesis
        using commit_remember_kept [OF _ _ assms(3)] by (auto intro!: run_kept_update [OF 2(2,3)] split: prod.split)
    qed
    with 1 2(1) show ?thesis using run_kept_trans by blast
  qed
qed

lemma remove_stage_kept:
  assumes "cluster_ok cl" "metas_ok cl" "chunk_id_ok k" "mget cl u = Some nd" "\<And>v d' q. keeps k (call v d' q)"
    and run: "remove_stage call en u k req nd cl = Some (r, cl')"
  shows "run_kept k cl cl'"
proof -
  let ?v = "cm_update (getMeta nd k) + 1"
  obtain y cl1 where f: "forwardReplica call en u nd k [] (with_versions ?v nd req) cl = Some (y, cl1)"
    using run by (auto simp: remove_stage_def Let_def split: option.splits)
  have 2: "run_kept k cl cl1" "cluster_ok cl1" "metas_ok cl1" using keepsD [OF forward_kept assms(1,2) f] assms(5) by blast+
  have upd: "peer_kept k n (rememberIdempotency (idempotencyKey k req) st (setMeta m (n\<lparr>nd_store := snd (st_delete oe k (nd_store n))\<rparr>)))
      \<and> (metas_of n \<longrightarrow> metas_of (setMeta m (n\<lparr>nd_store := snd (st_delete oe k (nd_store n))\<rparr>)))"
    if "st_inv (nd_store n)" "cm_id m = k" for n m st oe
  proof -
    let ?d = "n\<lparr>nd_store := snd (st_delete oe k (nd_store n))\<rparr>"
    have D: "peer_kept k n ?d" by (rule delete_kept [OF that(1) chunk_id_okD(1) [OF assms(3)]])
    then have i: "st_inv (nd_store ?d)" "st_inv (nd_store (setMeta m ?d))" by (simp_all add: peer_kept_def)
    have M: "peer_kept k n (setMeta m ?d)" using peer_kept_trans [OF D setMeta_kept [OF i(1)]] that(2) by simp
    show ?thesis using peer_kept_trans [OF M remember_kept [OF i(2) assms(3)]] setMeta_metas [of ?d m] by simp
  qed
  have "run_kept k cl1 cl'"
  proof (cases y)
    case (Inl e)
    with run f remember_update [OF 2(2,3) assms(3)] show ?thesis by (auto simp: remove_stage_def)
  next
    case (Inr z)
    have "run_kept k cl1 (update_node u (\<lambda>n. rememberIdempotency (idempotencyKey k req) st
        (setMeta m (n\<lparr>nd_store := snd (st_delete oe k (nd_store n))\<rparr>))) cl1)" if "cm_id m = k" for m st oe
      using upd that by (intro run_kept_update [OF 2(2,3)]) simp
    with run f Inr show ?thesis by (auto simp: remove_stage_def Let_def)
  qed
  with 2(1) show ?thesis using run_kept_trans by blast
qed

lemma chain_request_frame: "chunk_id_ok k \<Longrightarrow> keeps k (applyReplicaWrite hops en u k d req)"
proof (induction hops arbitrary: u d req)
  case 0
  show ?case by (simp add: keeps_def)
next
  case (Suc h)
  show ?case unfolding keeps_def
  proof (intro allI impI)
    fix cl r cl'
    assume ok: "cluster_ok cl" "metas_ok cl" and run: "applyReplicaWrite (Suc h) en u k d req cl = Some (r, cl')"
    have call: "\<And>v d' q. keeps k (\<lambda>cl'. applyReplicaWrite h en v k d' q cl')" using Suc by simp
    show "run_kept k cl cl'"
    proof (cases "mget cl u")
      case None
      with run run_kept_refl [OF ok(1)] show ?thesis by (auto simp: replica_step_def)
    next
      case (Some nd)
      with run show ?thesis
        using commit_stage_kept [OF ok Suc.prems Some] remove_stage_kept [OF ok Suc.prems Some call]
          prepare_stage_kept [OF ok Suc.prems Some call] run_kept_refl [OF ok(1)]
        by (auto simp: replica_step_def split: option.splits if_splits)
    qed
  qed
qed

section \<open>An example\<close>

text \<open>Two nodes with a replica factor of two.\<close>

definition pair_kv :: kv where
  "pair_kv = mem_store (mem_hset raftnodeNodesKey ''n2'' ''b'' (mem_hset raftnodeNodesKey ''n1'' ''a'' new_memory_kv))"

definition pair_node :: "string \<Rightarrow> mem_chunks \<Rightarrow> node" where
  "pair_node u c = NewService u u [] pair_kv (MemoryStore c) 2 0 0"

lemma pair_facts:
  "ListNodes (nd_kv (pair_node u c)) = [''a'', ''b'']" "nd_rf (pair_node u c) = 2" "nd_store (pair_node u c) = MemoryStore c"
  "nd_http (pair_node u c) = u" "nd_prefix (pair_node u c) = []" "nd_meta (pair_node u c) = []" "nd_idem (pair_node u c) = []"
  "nd_queue (pair_node u c) = []" "getMeta (pair_node u c) k = meta_zero"
  by (simp_all add: pair_node_def NewService_def pair_kv_def mem_store_def ListNodes_def kv_hgetall_def mem_hgetall_def mem_hset_def
      new_memory_kv_def mput_def getMeta_def NewRepairQueue_def)

lemma pair_store: "ms_inv []" "ms_inv (ms_put ''1_0_0'' ''data'' [])" "ms_get (ms_put ''1_0_0'' ''data'' []) ''1_0_0'' = Some ''data''"
  "ms_list (ms_put ''1_0_0'' ''data'' []) = [''1_0_0'']" "chunk_id_ok ''1_0_0''" "valid_utf8 ''1_0_0''"
proof -
  show id: "chunk_id_ok ''1_0_0''" by (simp add: chunk_id_ok_def id_ok_def has_suffix_def has_prefix_def)
  show "ms_inv []" by (simp add: ms_inv_def)
  then show "ms_inv (ms_put ''1_0_0'' ''data'' [])" using ms_inv_put chunk_id_okD(1) [OF id] by blast
qed (simp_all add: ms_put_def ms_list_def mkeys_def mput_def ms_get_def slice_bytes_def valid_utf8_Cons_ascii)

end
