(* ===== verification/Drain_Correct.thy ===== *)
theory Drain_Correct
  imports Cluster_Frame
begin

text \<open>
  What a successful \<open>Drain\<close> has done (\<^verbatim>\<open>Drain\<close> of \<^verbatim>\<open>service/service.go\<close>). The node sends each of its
  chunks to the other nodes of the chunk's replica set, one write without a chain each, and
  records the location. \<open>peer_state\<close> is the invariant of one such peer while the transports deliver
  the write zero or more times; what a round leaves of the other chunks is the frame of theory
  \<open>Cluster_Frame\<close>.
\<close>

section \<open>The write a drain sends\<close>

definition drain_request :: replica_write where
  "drain_request = grpc_replica_write replica_only"

definition drain_key :: "string \<Rightarrow> string" where
  "drain_key k = idempotencyKey k drain_request"

lemma drain_request_simps [simp]:
  "rw_update drain_request = 0" "rw_replicas drain_request = []" "rw_stage drain_request \<noteq> stageCommit"
  "rw_stage drain_request \<noteq> stageRemove"
  by (simp_all add: drain_request_def grpc_replica_write_def replica_only_def stage_defs)

definition drain_fresh :: "string \<Rightarrow> node \<Rightarrow> bool" where
  "drain_fresh k n \<longleftrightarrow> fresh_at k (drain_key k) (cm_update (getMeta n k) + 1) n"

lemma drain_fresh_view:
  assumes "chunk_view k n' = chunk_view k n"
  shows "drain_fresh k n' = drain_fresh k n"
  using chunk_view_facts [OF assms, of drain_request] by (simp add: drain_fresh_def fresh_at_def drain_key_def)

lemma received_drain:
  assumes "CHR ''?'' \<notin> set k" "CHR ''?'' \<notin> set v" "CHR ''?'' \<notin> set p"
  shows "received p v k c replica_only = Inr drain_request"
proof -
  have q: "CHR ''?'' \<notin> set (chunkURL (normalizeURIPrefix p) v k False)"
    using assms set_normalizeURIPrefix [of p] set_trim_right_slash [of v] by (auto simp: chunkURL_def)
  have "csv_ok (wo_replicas replica_only)" by (simp add: replica_only_def csv_ok_def)
  from parse_put_url [OF this q] show ?thesis by (cases c) (simp_all add: received_def drain_request_def)
qed

section \<open>One peer\<close>

definition peer_state :: "string \<Rightarrow> bytes \<Rightarrow> u64 \<Rightarrow> node \<Rightarrow> bool" where
  "peer_state k d w n \<longleftrightarrow> (case mget (nd_idem n) (drain_key k) of
      None \<Rightarrow> version_of drain_request n k = w \<and> cm_commit (getMeta n k) < w
    | Some st \<Rightarrow> is_err st = [] \<longrightarrow> holds k d w n)"

lemma peer_state_fresh: "drain_fresh k n \<Longrightarrow> peer_state k d (cm_update (getMeta n k) + 1) n"
  by (simp add: drain_fresh_def fresh_at_def peer_state_def version_of_def)

text \<open>The write at a peer: it is answered with success only when the peer holds the data.\<close>

lemma drain_write:
  assumes "mget cl v = Some n" "nd_http n = v" "st_inv (nd_store n)" "chunk_id_ok k" "os_ok (en_put en v k)" "peer_state k d w n"
    and "applyReplicaWrite hops en v k d drain_request cl = Some (r, cl')"
  shows "same_off [v] cl cl' \<and> (\<exists>n'. mget cl' v = Some n' \<and> peer_kept k n n' \<and> peer_state k d w n' \<and> (r = Inr () \<longrightarrow> holds k d w n'))
     \<and> (\<forall>e. r = Inl e \<longrightarrow> error_string e \<noteq> [])"
proof (cases "mget (nd_idem n) (drain_key k)")
  case (Some st)
  obtain h where "hops = Suc h" using assms(7) by (cases hops) auto
  with assms Some have "r = replay st" "cl' = cl"
    by (auto simp: replica_step_def lookupIdempotency_def drain_key_def [symmetric])
  with assms(1,3,6) Some show ?thesis by (auto simp: same_off_def peer_kept_def peer_state_def replay_def split: if_splits)
next
  case None
  obtain h where h: "hops = Suc h" using assms(7) by (cases hops) auto
  let ?key = "drain_key k" and ?os = "en_put en v k" and ?c = "rw_chain drain_request" and ?cv = "rw_chain_ver drain_request"
  obtain x n1 where p: "writePrepare ?os k d ?c ?cv (rw_update drain_request) n = (x, n1)" by fastforce
  have w: "version_of drain_request n k = w" "cm_commit (getMeta n k) < w" using assms(6) None by (simp_all add: peer_state_def)
  note P = writePrepare_fresh [OF w assms(3) chunk_id_okD(1) [OF assms(4)] assms(5) p]
    and K = prepare_kept(1) [OF assms(3) chunk_id_okD(1) [OF assms(4)] p]
  have run: "prepare_stage (\<lambda>v d' r cl'. applyReplicaWrite h en v k d' r cl') en v k d drain_request n cl = Some (r, cl')"
    using assms(1,7) None h by (simp add: replica_step_def lookupIdempotency_def drain_key_def [symmetric])
  show ?thesis
  proof (cases x)
    case (Inl e)
    let ?n = "rememberIdempotency ?key (idem_fail e) n1"
    have "r = Inl e" "cl' = mput v ?n cl" using run p Inl by (simp_all add: prepare_stage_def drain_key_def)
    moreover have "peer_kept k n ?n" using K remember_kept [OF _ assms(4)] peer_kept_trans unfolding drain_key_def by (meson peer_kept_def)
    ultimately show ?thesis using P Inl by (auto simp: same_off_def peer_state_def idem_fail_def)
  next
    case (Inr m)
    obtain cm n2 where c: "writeCommit k (cm_update m) ?cv n1 = (cm, n2)" by fastforce
    let ?n = "rememberIdempotency ?key (idem_ok cm) n2"
    have m: "getMeta n1 k = m" "cm_id m = k" "cm_update m = w" "cm_commit m < w" "st_get (nd_store n1) k = Some d" "st_inv (nd_store n1)"
      using P Inr w(2) by (simp_all add: node_kept_def)
    have H: "holds k d w n2" using writeCommit_holds [OF m(1-5)] c m(3) by simp
    have C: "peer_kept k n1 n2" using commit_kept [OF m(6) c] m(1,2) by simp
    have fwd: "next_target (nd_http n) (rw_replicas (with_versions (cm_update m) n drain_request)) = []"
      by (simp add: with_versions_def)
    have "r = Inr ()" "cl' = mput v ?n (mput v n1 cl)"
      using run p Inr c by (simp_all add: prepare_stage_def forwardReplica_def fwd update_node_def drain_key_def)
    moreover have "peer_kept k n ?n" using K C remember_kept [OF _ assms(4)] peer_kept_trans unfolding drain_key_def by (meson peer_kept_def)
    ultimately show ?thesis using H by (auto simp: same_off_def peer_state_def idem_ok_def)
  qed
qed

section \<open>The replicas of a chunk\<close>

lemma put_replica:
  assumes "env_ok en" "cluster_ok cl" "mget cl v = Some n" "chunk_id_ok k" "drain_fresh k n"
    and q: "CHR ''?'' \<notin> set k" "CHR ''?'' \<notin> set v" "CHR ''?'' \<notin> set p"
    and run: "PutChunkReplica hops en p u v k d cl = Some (r, cl')"
  shows "same_off [v] cl cl' \<and> cluster_kept k cl cl' \<and> (r = Inr () \<longrightarrow> (\<exists>n'. mget cl' v = Some n' \<and> GetChunk n' k = Inr d))"
proof -
  let ?w = "cm_update (getMeta n k) + 1"
  let ?call = "\<lambda>c x. wrap_run c (applyReplicaWrite hops en v k d drain_request x)"
  let ?I = "\<lambda>x. same_off [v] cl x \<and> (\<exists>n'. mget x v = Some n' \<and> peer_kept k n n' \<and> peer_state k d ?w n')"
  let ?G = "\<lambda>x. \<exists>n'. mget x v = Some n' \<and> holds k d ?w n'"
  have n: "nd_http n = v" "st_inv (nd_store n)" using assms(2,3) by (auto simp: cluster_ok_def)
  have step: "?I y \<and> (s = Inr () \<longrightarrow> ?G y) \<and> (\<forall>e. s = Inl e \<longrightarrow> error_string e \<noteq> [])"
    if I: "?I x" and c: "?call c x = Some (s, y)" for c x s y
  proof -
    obtain z where z: "applyReplicaWrite hops en v k d drain_request x = Some (z, y)" "s = map_sum (wrap_error c) id z"
      using c by (auto simp: wrap_run_Some)
    obtain n1 where n1: "mget x v = Some n1" "peer_kept k n n1" "peer_state k d ?w n1" using I by blast
    have "nd_http n1 = v" "st_inv (nd_store n1)" "os_ok (en_put en v k)"
      using n1(2) n assms(1) by (simp_all add: peer_kept_def env_ok_def)
    from drain_write [OF n1(1) this(1,2) assms(4) this(3) n1(3) z(1)] I n1 z(2) show ?thesis
      by (cases z) (auto simp: same_off_def wrap_error_text intro: peer_kept_trans)
  qed
  have run': "multi_put ?call (en_links en u v) (Inr ()) cl = Some (r, cl')"
    using run by (simp add: PutChunkReplica_def received_drain [OF q])
  have I0: "?I cl" using assms(3) n peer_state_fresh [OF assms(5)] by (auto simp: same_off_def peer_kept_def)
  have "?I cl' \<and> (r = Inr () \<longrightarrow> ?G cl')"
    using multi_put_inv [of ?I ?call ?G, OF step _ I0 run'] assms(1) by (simp add: env_ok_def)
  then show ?thesis using cluster_kept_at [OF assms(2) _ assms(3)] holds_read by blast
qed

text \<open>Only if every other replica has taken the chunk does the loop count all of them.\<close>

lemma drain_replicas_count:
  assumes "env_ok en" "chunk_id_ok k" "CHR ''?'' \<notin> set k" "CHR ''?'' \<notin> set p"
    and "cluster_ok cl" "distinct vs"
    and "\<forall>v \<in> set vs. v \<noteq> self \<longrightarrow> CHR ''?'' \<notin> set v \<and> (\<exists>n. mget cl v = Some n \<and> drain_fresh k n)"
    and "drain_replicas hops en p self u k d vs m cl = Some (m', cl')"
  shows "same_off (filter ((\<noteq>) self) vs) cl cl' \<and> cluster_kept k cl cl' \<and> m' \<le> m + length vs
     \<and> (m' = m + length vs \<longrightarrow> (\<forall>v \<in> set vs. v \<noteq> self \<longrightarrow> (\<exists>n. mget cl' v = Some n \<and> GetChunk n k = Inr d)))"
  using assms(5-)
proof (induction vs arbitrary: m cl)
  case Nil
  then show ?case by (simp add: same_off_def cluster_kept_refl)
next
  case (Cons v vs)
  show ?case
  proof (cases "v = self")
    case True
    with Cons.prems Cons.IH [of cl "Suc m"] show ?thesis by auto
  next
    case False
    obtain n where n: "mget cl v = Some n" "drain_fresh k n" "CHR ''?'' \<notin> set v" using Cons.prems(3) False by auto
    obtain r cl1 where put: "PutChunkReplica hops en p u v k d cl = Some (r, cl1)"
      using Cons.prems(4) False by (auto split: option.splits)
    have P: "same_off [v] cl cl1" "cluster_kept k cl cl1" "r = Inr () \<Longrightarrow> \<exists>n'. mget cl1 v = Some n' \<and> GetChunk n' k = Inr d"
      using put_replica [OF assms(1) Cons.prems(1) n(1) assms(2) n(2) assms(3) n(3) assms(4) put] by auto
    let ?m = "case r of Inl _ \<Rightarrow> m | Inr _ \<Rightarrow> Suc m"
    have run: "drain_replicas hops en p self u k d vs ?m cl1 = Some (m', cl')"
      using Cons.prems(4) False put by (cases r) auto
    have fr: "\<forall>x \<in> set vs. x \<noteq> self \<longrightarrow> CHR ''?'' \<notin> set x \<and> (\<exists>n. mget cl1 x = Some n \<and> drain_fresh k n)"
    proof (intro ballI impI)
      fix x
      assume x: "x \<in> set vs" "x \<noteq> self"
      then have "mget cl1 x = mget cl x" using P(1) Cons.prems(2) by (auto simp: same_off_def)
      then show "CHR ''?'' \<notin> set x \<and> (\<exists>n. mget cl1 x = Some n \<and> drain_fresh k n)" using Cons.prems(3) x by simp
    qed
    have "distinct vs" using Cons.prems(2) by simp
    note IH = Cons.IH [OF cluster_kept_ok [OF P(2) Cons.prems(1)] this fr run]
    have "mget cl' v = mget cl1 v" using IH Cons.prems(2) by (simp add: same_off_def)
    moreover have "same_off (filter ((\<noteq>) self) (v # vs)) cl cl'" using IH P(1) False by (auto simp: same_off_def)
    ultimately show ?thesis using IH P cluster_kept_trans [of k cl cl1 cl'] by (cases r) auto
  qed
qed

text \<open>Every write a drain sends is answered: the request names no further replica.\<close>

lemma drain_write_returns: "0 < hops \<Longrightarrow> \<exists>r cl'. applyReplicaWrite hops en v k d drain_request cl = Some (r, cl')"
  by (cases hops) (auto simp: replica_step_def prepare_stage_def forwardReplica_def with_versions_def Let_def
      split: option.split prod.split sum.split)

lemma put_replica_returns:
  assumes "0 < hops" "CHR ''?'' \<notin> set k" "CHR ''?'' \<notin> set v" "CHR ''?'' \<notin> set p"
  shows "\<exists>r cl'. PutChunkReplica hops en p u v k d cl = Some (r, cl')"
proof -
  have "\<exists>r cl'. wrap_run c (applyReplicaWrite hops en v k d drain_request cl) = Some (r, cl') \<and> True" for c cl
    using drain_write_returns [OF assms(1), of en v k d cl] by (auto simp: wrap_run_def)
  from multi_put_returns [of "\<lambda>_. True", OF this] show ?thesis by (simp add: PutChunkReplica_def received_drain [OF assms(2-)])
qed

lemma drain_replicas_returns:
  assumes "0 < hops" "CHR ''?'' \<notin> set k" "CHR ''?'' \<notin> set p" "\<forall>v \<in> set vs. CHR ''?'' \<notin> set v"
  shows "\<exists>m' cl'. drain_replicas hops en p self u k d vs m cl = Some (m', cl')"
  using assms(4)
proof (induction vs arbitrary: m cl)
  case (Cons v vs)
  obtain r cl1 where "PutChunkReplica hops en p u v k d cl = Some (r, cl1)"
    using put_replica_returns [OF assms(1,2) _ assms(3), of v] Cons.prems by fastforce
  with Cons show ?case by (cases r) auto
qed simp

section \<open>The loop over the chunks\<close>

text \<open>Every replica but the draining node serves the chunk, and its location is recorded.\<close>

definition chunk_safe :: "string list \<Rightarrow> string \<Rightarrow> int \<Rightarrow> string \<Rightarrow> bytes \<Rightarrow> cluster \<Rightarrow> bool" where
  "chunk_safe nodes u rf k d cl \<longleftrightarrow> (\<exists>rs. SelectNodes nodes k rf = Inr rs \<and> distinct rs \<and> int (length rs) = rf \<and> recorded k rs cl
     \<and> (\<forall>v \<in> set rs. v \<noteq> u \<longrightarrow> (\<exists>n. mget cl v = Some n \<and> GetChunk n k = Inr d)))"

lemma chunk_safe_kept:
  assumes "chunk_safe nodes u rf k d cl" "chunk_kept k cl cl'" "\<And>ts. recorded k ts cl \<Longrightarrow> recorded k ts cl'"
  shows "chunk_safe nodes u rf k d cl'"
proof -
  obtain rs where rs: "SelectNodes nodes k rf = Inr rs" "distinct rs" "int (length rs) = rf" "recorded k rs cl"
    "\<forall>v \<in> set rs. v \<noteq> u \<longrightarrow> (\<exists>n. mget cl v = Some n \<and> GetChunk n k = Inr d)" using assms(1) by (auto simp: chunk_safe_def)
  have "\<exists>n. mget cl' v = Some n \<and> GetChunk n k = Inr d" if v: "v \<in> set rs" "v \<noteq> u" for v
    using rs(5) v chunk_kept_get [OF assms(2), of v] chunk_view_facts by metis
  with rs assms(3) show ?thesis by (auto simp: chunk_safe_def)
qed

definition drain_members :: "string list \<Rightarrow> bool" where
  "drain_members nodes \<longleftrightarrow> distinct nodes \<and> length nodes < 2 ^ 32 \<and> (\<forall>v \<in> set nodes. valid_utf8 v \<and> CHR ''?'' \<notin> set v)"

definition drain_chunk :: "string list \<Rightarrow> string \<Rightarrow> cluster \<Rightarrow> string \<Rightarrow> bool" where
  "drain_chunk nodes u cl k \<longleftrightarrow> chunk_id_ok k \<and> valid_utf8 k \<and> CHR ''?'' \<notin> set k
     \<and> (\<exists>nd. mget cl u = Some nd \<and> st_get (nd_store nd) k \<noteq> None \<and> valid_utf8 (cm_state (getMeta nd k)))
     \<and> (\<forall>v \<in> set nodes. v \<noteq> u \<longrightarrow> (\<exists>n. mget cl v = Some n \<and> drain_fresh k n))"

lemma drain_chunk_kept:
  assumes "drain_chunk nodes u cl k" "chunk_kept k cl cl'"
  shows "drain_chunk nodes u cl' k"
proof -
  have g: "\<exists>n'. mget cl' x = Some n' \<and> drain_fresh k n' = drain_fresh k n \<and> st_get (nd_store n') k = st_get (nd_store n) k
      \<and> getMeta n' k = getMeta n k" if "mget cl x = Some n" for x n
    using chunk_kept_get [OF assms(2) that] chunk_view_facts drain_fresh_view by blast
  have "\<exists>n. mget cl' v = Some n \<and> drain_fresh k n" if "v \<in> set nodes" "v \<noteq> u" for v
    using assms(1) g that by (fastforce simp: drain_chunk_def)
  moreover have "\<exists>nd. mget cl' u = Some nd \<and> st_get (nd_store nd) k \<noteq> None \<and> valid_utf8 (cm_state (getMeta nd k))"
    using assms(1) g by (fastforce simp: drain_chunk_def)
  ultimately show ?thesis using assms(1) by (simp add: drain_chunk_def)
qed

lemma select_members:
  assumes "drain_members nodes" "SelectNodes nodes k rf = Inr rs" "1 \<le> rf"
  shows "distinct rs \<and> set rs \<subseteq> set nodes \<and> int (length rs) \<le> rf"
proof -
  have "nodes \<noteq> []" using assms(2) by (auto simp: SelectNodes_def ChainFor_def BuildChainTable_def)
  with assms show ?thesis using select_nodes_facts [of nodes k rf] by (auto simp: drain_members_def clamp_rf_def)
qed

text \<open>The record behind a chunk every replica has taken.\<close>

lemma drain_recorded:
  assumes "drain_members nodes" "cluster_ok cl" "drain_chunk nodes u cl k" "mget cl u = Some nd"
    and "SelectNodes nodes k (nd_rf nd) = Inr rs" "distinct rs \<and> set rs \<subseteq> set nodes \<and> int (length rs) \<le> nd_rf nd" "int (length rs) = nd_rf nd"
    and "same_off (filter ((\<noteq>) u) rs) cl cl1" "cluster_kept k cl cl1"
    and "\<forall>v \<in> set rs. v \<noteq> u \<longrightarrow> (\<exists>n. mget cl1 v = Some n \<and> GetChunk n k = Inr d)"
    and "RecordChunkRegistry en u k rs cl1 = (Inr y, cl2)"
  obtains nd2 where "cluster_ok cl2" "chunk_safe nodes u (nd_rf nd) k d cl2" "mget cl2 u = Some nd2" "nd_rf nd2 = nd_rf nd"
    "\<forall>j. j \<noteq> k \<longrightarrow> chunk_id_ok j \<longrightarrow> chunk_kept j cl cl2 \<and> (\<forall>ts. recorded j ts cl \<longrightarrow> recorded j ts cl2)"
proof -
  have nd1: "mget cl1 u = Some nd" using assms(4,8) by (simp add: same_off_def)
  have ok: "cluster_ok cl1" by (rule cluster_kept_ok [OF assms(9,2)])
  have sd: "same_data cl1 cl2" using record_data [of cl1 en u k rs] assms(11) by simp
  have vk: "valid_utf8 k" "k \<noteq> []" "\<forall>r \<in> set rs. valid_utf8 r" "valid_utf8 (cm_state (getMeta nd k))"
    using assms(1,3,4,6) by (auto simp: drain_members_def drain_chunk_def dest: chunk_id_okD)
  have r2: "recorded k rs cl2" by (rule record_recorded [OF vk(1-3) nd1 vk(4) assms(11)])
  have sd2: "chunk_kept j cl1 cl2" for j by (rule same_data_chunk_kept [OF sd])
  have g2: "\<exists>n. mget cl2 v = Some n \<and> GetChunk n k = Inr d" if "v \<in> set rs" "v \<noteq> u" for v
    using assms(10) that chunk_kept_get [OF sd2 [of k]] chunk_view_facts by metis
  have "chunk_safe nodes u (nd_rf nd) k d cl2" using assms(5-7) r2 g2 by (auto simp: chunk_safe_def)
  moreover obtain nd2 where "mget cl2 u = Some nd2" "nd_rf nd2 = nd_rf nd"
    using chunk_kept_get [OF sd2 nd1] chunk_view_facts by blast
  moreover have "chunk_kept j cl cl2 \<and> (\<forall>ts. recorded j ts cl \<longrightarrow> recorded j ts cl2)" if j: "j \<noteq> k" "chunk_id_ok j" for j
    using chunk_kept_trans [OF cluster_kept_chunk [OF assms(9) j] sd2] recorded_kv [OF _ cluster_kept_ctl(1) [OF assms(9)]]
      record_keeps(1) [OF vk(1,3) nd1 vk(4), of cl2 en] j(1) assms(11) by fastforce
  ultimately show thesis using that cluster_ok_data [OF sd ok] by blast
qed

text \<open>One round of a drain: it stops with an error, or the chunk is safe and the other chunks are left alone.\<close>

lemma drain_round:
  assumes "env_ok en" "drain_members nodes" "cluster_ok cl" "drain_chunk nodes u cl k" "0 < hops"
    and nd: "mget cl u = Some nd" "1 \<le> nd_rf nd" "st_get (nd_store nd) k = Some d"
  obtains (stop) e c where "drain_loop hops en u False nodes tot (k # ks) cl = Some (Some (tot, False, Some e), c)"
  | (go) cl2 nd2 where "drain_loop hops en u False nodes tot (k # ks) cl = drain_loop hops en u False nodes tot ks cl2" "cluster_ok cl2"
    "chunk_safe nodes u (nd_rf nd) k d cl2" "mget cl2 u = Some nd2" "nd_rf nd2 = nd_rf nd"
    "\<forall>j. j \<noteq> k \<longrightarrow> chunk_id_ok j \<longrightarrow> chunk_kept j cl cl2 \<and> (\<forall>ts. recorded j ts cl \<longrightarrow> recorded j ts cl2)"
proof (cases "SelectNodes nodes k (nd_rf nd)")
  case (Inl e)
  with nd show thesis using stop by simp
next
  case rs: (Inr rs)
  note k = assms(4) [unfolded drain_chunk_def]
  have u: "nd_http nd = u" "CHR ''?'' \<notin> set (nd_prefix nd)" using assms(3) nd(1) by (auto simp: cluster_ok_def)
  note R = select_members [OF assms(2) rs nd(2)]
  have q: "\<forall>v \<in> set rs. CHR ''?'' \<notin> set v" using R assms(2) by (auto simp: drain_members_def)
  obtain m cl1 where m: "drain_replicas hops en (nd_prefix nd) u u k d rs 0 cl = Some (m, cl1)"
    using drain_replicas_returns [OF assms(5) _ u(2) q] k by blast
  obtain x cl2 where rec: "RecordChunkRegistry en u k rs cl1 = (x, cl2)" by fastforce
  consider "int m < nd_rf nd" | e where "\<not> int m < nd_rf nd" "x = Inl e" | y where "\<not> int m < nd_rf nd" "x = Inr y" by (cases x) auto
  then show thesis
  proof cases
    case 1
    with nd rs u m rec show thesis using stop by simp
  next
    case (2 e)
    with nd rs u m rec show thesis using stop by simp
  next
    case (3 y)
    note False = 3(1) and x = 3(2)
    with nd rs u m rec have eq: "drain_loop hops en u False nodes tot (k # ks) cl = drain_loop hops en u False nodes tot ks cl2" by simp
    have mem: "\<forall>v \<in> set rs. v \<noteq> u \<longrightarrow> CHR ''?'' \<notin> set v \<and> (\<exists>n. mget cl v = Some n \<and> drain_fresh k n)" using R k q by auto
    have D: "same_off (filter ((\<noteq>) u) rs) cl cl1" "cluster_kept k cl cl1" "m \<le> length rs"
      "m = length rs \<Longrightarrow> \<forall>v \<in> set rs. v \<noteq> u \<longrightarrow> (\<exists>n. mget cl1 v = Some n \<and> GetChunk n k = Inr d)"
      using drain_replicas_count [OF assms(1) _ _ u(2) assms(3) _ mem m] k R by auto
    have all: "m = length rs" "int (length rs) = nd_rf nd" using D(3) False R by linarith+
    show thesis
      by (rule drain_recorded [OF assms(2-4) nd(1) rs R all(2) D(1,2) D(4) [OF all(1)] rec [unfolded x]]) (rule go [OF eq])
  qed
qed

lemma drain_loop_safe:
  assumes "env_ok en" "drain_members nodes" "1 \<le> rf" "0 < hops"
    and "cluster_ok cl" "distinct ks" "\<forall>k \<in> set ks. drain_chunk nodes u cl k" "mget cl u = Some nd" "nd_rf nd = rf"
  shows "\<exists>res cl'. drain_loop hops en u False nodes tot ks cl = Some (res, cl')
     \<and> (case res of Some (n, b, e) \<Rightarrow> \<not> b \<and> e \<noteq> None | None \<Rightarrow>
        (\<forall>k \<in> set ks. chunk_safe nodes u rf k (the (st_get (nd_store nd) k)) cl')
        \<and> (\<forall>j. chunk_id_ok j \<longrightarrow> j \<notin> set ks \<longrightarrow> chunk_kept j cl cl' \<and> (\<forall>ts. recorded j ts cl \<longrightarrow> recorded j ts cl'))
        \<and> mget cl' u \<noteq> None)"
  using assms(5-)
proof (induction ks arbitrary: cl nd)
  case Nil
  then show ?case by (simp add: chunk_kept_def)
next
  case (Cons k ks)
  have k: "drain_chunk nodes u cl k" "k \<notin> set ks" "chunk_id_ok k" using Cons.prems(2,3) by (auto simp: drain_chunk_def)
  obtain d where d: "st_get (nd_store nd) k = Some d" using k(1) Cons.prems(4) by (auto simp: drain_chunk_def)
  have rf: "1 \<le> nd_rf nd" using Cons.prems(5) assms(3) by simp
  show ?case
  proof (cases rule: drain_round [OF assms(1,2) Cons.prems(1) k(1) assms(4) Cons.prems(4) rf d, of tot ks, case_names stop go])
    case (stop e c)
    then show ?thesis by simp
  next
    case (go cl2 nd2)
    have ks: "j \<in> set ks \<Longrightarrow> j \<noteq> k \<and> chunk_id_ok j" for j using Cons.prems(2,3) by (auto simp: drain_chunk_def)
    have "\<forall>j \<in> set ks. drain_chunk nodes u cl2 j" using drain_chunk_kept go(6) ks Cons.prems(3) by (meson list.set_intros(2))
    then obtain res cl' where IH: "drain_loop hops en u False nodes tot ks cl2 = Some (res, cl')" "case res of Some (n, b, e) \<Rightarrow> \<not> b \<and> e \<noteq> None | None \<Rightarrow>
        (\<forall>k \<in> set ks. chunk_safe nodes u rf k (the (st_get (nd_store nd2) k)) cl')
        \<and> (\<forall>j. chunk_id_ok j \<longrightarrow> j \<notin> set ks \<longrightarrow> chunk_kept j cl2 cl' \<and> (\<forall>ts. recorded j ts cl2 \<longrightarrow> recorded j ts cl'))
        \<and> mget cl' u \<noteq> None"
      using Cons.IH [OF go(2) _ _ go(4)] Cons.prems(2,5) go(5) by auto
    have st: "st_get (nd_store nd2) j = st_get (nd_store nd) j" if "j \<in> set ks" for j
      using chunk_kept_get [OF _ Cons.prems(4), of j cl2] go(6) ks [OF that] go(4) chunk_view_facts [of j nd2 nd] by auto
    have "res = None \<Longrightarrow> chunk_safe nodes u rf k d cl'"
      using chunk_safe_kept [OF go(3) [unfolded Cons.prems(5)]] IH(2) k by auto
    then show ?thesis using IH st d go(1,6) k chunk_kept_trans by (intro exI [of _ res] exI [of _ cl']) (auto split: option.splits)
  qed
qed

section \<open>Draining a node\<close>


text \<open>The first of two nodes holds a chunk the second one has not got.\<close>

definition pair_cluster :: cluster where
  "pair_cluster = [(''a'', pair_node ''a'' (ms_put ''1_0_0'' ''data'' [])), (''b'', pair_node ''b'' [])]"

lemma pair_drained: "\<exists>cl'. Drain 2 demo_env ''a'' False pair_cluster = Some ((0, True, None), cl')"
proof -
  have "(case Drain 2 demo_env ''a'' False pair_cluster of Some (r, cl') \<Rightarrow> r = (0, True, None) | None \<Rightarrow> False)"
    by code_simp
  then show ?thesis by (auto split: option.splits prod.splits)
qed


text \<open>
  The node counts itself as a replica: with a replica factor of one it is drained although no
  other node has got its chunk.
\<close>

definition lone_cluster :: cluster where
  "lone_cluster = [(''a'', (pair_node ''a'' (ms_put ''1_0_0'' ''data'' (ms_put ''1_0_1'' ''tail'' [])))\<lparr>nd_rf := 1\<rparr>),
     (''b'', (pair_node ''b'' [])\<lparr>nd_rf := 1\<rparr>)]"

lemma drain_counts_itself:
  "case Drain 2 demo_env ''a'' False lone_cluster of
     Some (r, cl') \<Rightarrow> r = (0, True, None) \<and> (\<exists>k \<in> {''1_0_0'', ''1_0_1''}. map_option (\<lambda>n. st_get (nd_store n) k) (mget cl' ''b'') = Some None)
   | None \<Rightarrow> False"
  by code_simp

text \<open>A peer that remembers the drain of a chunk acknowledges every later one and keeps what it has.\<close>

lemma drain_again:
  assumes "mget cl v = Some n" "mget (nd_idem n) (drain_key k) = Some st" "is_err st = []" "en_links en u v = Deliver c # ls"
    and "CHR ''?'' \<notin> set k" "CHR ''?'' \<notin> set v" "CHR ''?'' \<notin> set p"
  shows "PutChunkReplica (Suc hops) en p u v k d cl = Some (Inr (), cl)"
  using assms by (simp add: PutChunkReplica_def received_drain replica_step_def lookupIdempotency_def drain_key_def [symmetric]
      replay_def wrap_run_def)

end
