(* ===== verification/Repair_Correct.thy ===== *)
theory Repair_Correct
  imports Cluster_Frame
begin

text \<open>
  What a repair run has done (\<^verbatim>\<open>RunRepair\<close> and \<^verbatim>\<open>repairChunk\<close> of \<^verbatim>\<open>service/repair_run.go\<close>). A job is
  queued when the location of a written chunk could not be recorded; the node that queues it is the
  head of the chunk's chain. The run sends the chunk down the chain again and records the location.
  \<open>work_kept\<close> is what the work on one job leaves of the others and of the queue.
\<close>

section \<open>The frame of a job\<close>

definition node_ctl :: "node \<Rightarrow> (string \<times> string \<times> int \<times> store \<times> (string, chunk_meta) gomap \<times> (string, idem_state) gomap) \<times> kv \<times> repair_queue" where
  "node_ctl n = (node_data n, nd_kv n, nd_queue n)"

definition same_ctl :: "cluster \<Rightarrow> cluster \<Rightarrow> bool" where
  "same_ctl cl cl' \<longleftrightarrow> (\<forall>v. map_option node_ctl (mget cl' v) = map_option node_ctl (mget cl v))"

definition work_kept :: "string \<Rightarrow> cluster \<Rightarrow> cluster \<Rightarrow> bool" where
  "work_kept k cl cl' \<longleftrightarrow> cluster_ok cl' \<and> metas_ok cl'
     \<and> (\<forall>j. j \<noteq> k \<longrightarrow> chunk_id_ok j \<longrightarrow> chunk_kept j cl cl' \<and> (\<forall>ts. recorded j ts cl \<longrightarrow> recorded j ts cl'))
     \<and> (\<forall>x. map_option nd_queue (mget cl' x) = map_option nd_queue (mget cl x))"

lemma work_kept_trans [trans]: "work_kept k a b \<Longrightarrow> work_kept k b c \<Longrightarrow> work_kept k a c"
  unfolding work_kept_def by (auto intro: chunk_kept_trans)

lemma work_kept_refl: "cluster_ok cl \<Longrightarrow> metas_ok cl \<Longrightarrow> work_kept k cl cl"
  by (simp add: work_kept_def chunk_kept_def)

lemma same_ctl_data: "same_ctl cl cl' \<Longrightarrow> same_data cl cl'"
  unfolding same_data_def
proof
  fix x
  assume "same_ctl cl cl'"
  from this [unfolded same_ctl_def, rule_format, of x]
  show "map_option node_data (mget cl' x) = map_option node_data (mget cl x)"
    by (cases "mget cl x"; cases "mget cl' x") (auto simp: node_ctl_def)
qed

lemma metas_ok_data:
  assumes "same_data cl cl'" "metas_ok cl"
  shows "metas_ok cl'"
  unfolding metas_ok_def
proof (intro allI impI)
  fix x n'
  assume "mget cl' x = Some n'"
  with assms(1) [unfolded same_data_def, rule_format, of x] obtain n where "mget cl x = Some n" "node_data n' = node_data n"
    by (cases "mget cl x") auto
  with assms(2) show "metas_of n'" using node_data_eqD [of n' n] by (auto simp: metas_ok_def metas_of_def)
qed

lemma work_same:
  assumes "same_ctl cl cl'" "cluster_ok cl" "metas_ok cl"
  shows "work_kept k cl cl'"
proof -
  note sd = same_ctl_data [OF assms(1)]
  have c: "map_option nd_kv (mget cl' x) = map_option nd_kv (mget cl x) \<and> map_option nd_queue (mget cl' x) = map_option nd_queue (mget cl x)" for x
    using assms(1) [unfolded same_ctl_def, rule_format, of x] by (cases "mget cl x"; cases "mget cl' x") (auto simp: node_ctl_def)
  then show ?thesis unfolding work_kept_def
    using cluster_ok_data [OF sd assms(2)] metas_ok_data [OF sd assms(3)] same_data_chunk_kept [OF sd] recorded_kv by blast
qed

lemma work_run:
  assumes "run_kept k cl cl'" "cluster_ok cl" "metas_ok cl"
  shows "work_kept k cl cl'"
proof -
  have K: "cluster_kept k cl cl'" "metas_ok cl'" using assms(1,3) by (simp_all add: run_kept_def)
  show ?thesis unfolding work_kept_def
    using K(2) cluster_kept_ok [OF K(1) assms(2)] cluster_kept_chunk [OF K(1)] cluster_kept_ctl [OF K(1)] recorded_kv [of _ _ cl cl'] by simp
qed

lemma work_record:
  assumes "cluster_ok cl" "metas_ok cl" "valid_utf8 k" "\<forall>r \<in> set rs. valid_utf8 r" "mget cl u = Some nd"
    and "valid_utf8 (cm_state (getMeta nd k))" "cl' = snd (RecordChunkRegistry en u k rs cl)"
  shows "work_kept k cl cl'"
proof -
  have sd: "same_data cl cl'" using record_data assms(7) by simp
  note R = record_keeps [OF assms(3-7)]
  show ?thesis unfolding work_kept_def
    using R cluster_ok_data [OF sd assms(1)] metas_ok_data [OF sd assms(2)] same_data_chunk_kept [OF sd] by simp
qed

section \<open>The chain states of a node\<close>

lemma ctl_simps [simp]:
  "node_ctl (n\<lparr>nd_life := l\<rparr>) = node_ctl n" "node_ctl (n\<lparr>nd_vers := vs\<rparr>) = node_ctl n" "node_ctl (n\<lparr>nd_states := ss\<rparr>) = node_ctl n"
  "node_ctl (n\<lparr>nd_syncing := sy\<rparr>) = node_ctl n"
  by (simp_all add: node_ctl_def node_data_def)

lemma ctl_epoch [simp]: "node_ctl (snd (syncClusterEpoch n)) = node_ctl n"
  by (simp add: syncClusterEpoch_def split: sum.split)

lemma ctl_chainVersion [simp]: "node_ctl (snd (chainVersion c n)) = node_ctl n"
  by (cases "syncClusterEpoch n") (use ctl_epoch [of n] in \<open>simp add: chainVersion_def Let_def\<close>)

lemma ctl_recompute [simp]: "node_ctl (recomputeChainStates n) = node_ctl n"
proof -
  have "node_ctl (fold (recompute_chain e) t m) = node_ctl m" for e t m
    by (induction t arbitrary: m) (simp_all add: recompute_chain_def Let_def)
  then show ?thesis using ctl_epoch [of n] by (cases "syncClusterEpoch n") (simp add: recomputeChainStates_def split: sum.split)
qed

lemma ctl_sync [simp]: "node_ctl (snd (SyncStart c v n)) = node_ctl n" "node_ctl (snd (SyncDone c v n)) = node_ctl n"
  by (simp_all add: SyncStart_def SyncDone_def Let_def bump_chain_ver_def markChainSyncing_def)

lemma ctl_repair_chain [simp]: "node_ctl (snd (repair_chain k n)) = node_ctl n"
proof -
  obtain e n1 where s: "syncClusterEpoch n = (e, n1)" by fastforce
  have "node_ctl n1 = node_ctl n" using ctl_epoch [of n] s by simp
  moreover have "node_ctl n2 = node_ctl n1" if "chainVersion c n1 = (v, n2)" for c v n2 using ctl_chainVersion [of c n1] that by simp
  ultimately show ?thesis by (simp add: repair_chain_def s split: prod.split sum.split)
qed

lemma same_ctl_mput: "mget cl u = Some n \<Longrightarrow> node_ctl n' = node_ctl n \<Longrightarrow> same_ctl cl (mput u n' cl)"
  by (simp add: same_ctl_def)

lemma same_ctl_update: "(\<And>n. node_ctl (f n) = node_ctl n) \<Longrightarrow> same_ctl cl (update_node u f cl)"
  by (simp add: same_ctl_def option.map_comp comp_def)

lemma sync_done_ctl: "same_ctl cl (sync_done_at u cv cl)"
  unfolding sync_done_at_def by (rule same_ctl_update) simp

section \<open>One job\<close>

definition same_meta :: "cluster \<Rightarrow> cluster \<Rightarrow> bool" where
  "same_meta cl cl' \<longleftrightarrow> (\<forall>v. map_option (\<lambda>n. (nd_meta n, nd_idem n)) (mget cl' v) = map_option (\<lambda>n. (nd_meta n, nd_idem n)) (mget cl v))"

text \<open>The replicas are not ahead of the version the repair will use, and remember no earlier repair of the chunk.\<close>

definition repair_ready :: "string \<Rightarrow> u64 \<Rightarrow> cluster \<Rightarrow> string list \<Rightarrow> bool" where
  "repair_ready k w cl vs \<longleftrightarrow> (\<forall>v \<in> set vs. \<exists>n. mget cl v = Some n \<and> cm_commit (getMeta n k) < w
     \<and> (\<forall>req. rw_syncing req \<longrightarrow> mget (nd_idem n) (idempotencyKey k req) = None))"

definition repair_source :: "string \<Rightarrow> string \<Rightarrow> string list \<Rightarrow> bytes \<Rightarrow> cluster \<Rightarrow> bool" where
  "repair_source u k post d cl \<longleftrightarrow> (\<exists>nd. mget cl u = Some nd \<and> (case st_get (nd_store nd) k of
      Some x \<Rightarrow> d = x | None \<Rightarrow> (\<exists>v \<in> set post. \<exists>n. mget cl v = Some n \<and> GetChunk n k = Inr d)))"

definition served :: "string \<Rightarrow> string list \<Rightarrow> bytes \<Rightarrow> cluster \<Rightarrow> bool" where
  "served k rs d cl \<longleftrightarrow> recorded k rs cl \<and> (\<forall>v \<in> set rs. \<exists>n. mget cl v = Some n \<and> GetChunk n k = Inr d)"

lemma same_meta_get:
  assumes "same_meta cl cl'" "mget cl v = Some n"
  obtains n' where "mget cl' v = Some n'" "getMeta n' k = getMeta n k" "nd_idem n' = nd_idem n"
  using assms by (auto simp: same_meta_def getMeta_def dest!: spec [of _ v])

lemma repair_ready_meta:
  assumes "same_meta cl cl'" "repair_ready k w cl vs"
  shows "repair_ready k w cl' vs"
  unfolding repair_ready_def
proof
  fix v
  assume "v \<in> set vs"
  then obtain n where n: "mget cl v = Some n" "cm_commit (getMeta n k) < w"
    "\<forall>req. rw_syncing req \<longrightarrow> mget (nd_idem n) (idempotencyKey k req) = None" using assms(2) by (auto simp: repair_ready_def)
  obtain n' where "mget cl' v = Some n'" "getMeta n' k = getMeta n k" "nd_idem n' = nd_idem n"
    by (rule same_meta_get [OF assms(1) n(1)])
  with n show "\<exists>n. mget cl' v = Some n \<and> cm_commit (getMeta n k) < w
     \<and> (\<forall>req. rw_syncing req \<longrightarrow> mget (nd_idem n) (idempotencyKey k req) = None)" by auto
qed

lemma ready_fresh:
  assumes "repair_ready k w cl (u # post)" "mget cl u = Some nd" "cm_update (getMeta nd k) + 1 = w" "rw_syncing req" "rw_update req = 0"
  shows "fresh_write k req w u post cl"
  using assms by (auto simp: repair_ready_def fresh_write_def fresh_at_def version_of_def down_def)

lemma multi_get_Inr: "multi_get get ls r0 = Inr d \<Longrightarrow> ls = [] \<and> r0 = Inr d \<or> (\<exists>c. get c = Inr d)"
  by (induction get ls r0 rule: multi_get.induct) (auto split: sum.splits)

lemma net_get_Inr:
  assumes "env_ok en" "net_get en u v k False cl = Inr d"
  shows "\<exists>n. mget cl v = Some n \<and> GetChunk n k = Inr d"
proof -
  have c: "carrier_get c n k False = Inr d \<Longrightarrow> GetChunk n k = Inr d" for c n
    by (cases c) (auto simp: GetChunkWithVisibility_def split: sum.splits if_splits)
  have "en_links en u v \<noteq> []" using assms(1) by (simp add: env_ok_def)
  with assms(2) c show ?thesis by (auto simp: net_get_def dest!: multi_get_Inr split: option.splits)
qed

lemma fetch_facts:
  assumes "env_ok en" "cluster_ok cl" "metas_ok cl" "chunk_id_ok k" "fetchChunkFromPeers en u k vs self cl = (r, cl1)"
  shows "run_kept k cl cl1" "same_meta cl cl1"
    "r = Inr d \<Longrightarrow> \<exists>v \<in> set vs. v \<noteq> self \<and> (\<exists>n. mget cl v = Some n \<and> GetChunk n k = Inr d)"
proof -
  let ?put = "\<lambda>d. update_node u (\<lambda>nd. nd\<lparr>nd_store := snd (st_put (en_put en u k) k d (nd_store nd))\<rparr>) cl"
  have id: "id_ok k" by (rule chunk_id_okD(1) [OF assms(4)])
  have "peer_kept k n (n\<lparr>nd_store := snd (st_put os k d (nd_store n))\<rparr>)" if "st_inv (nd_store n)" for n os d
    using st.put_inv [OF that id, of os d] st.put_get [OF that id, of _ os d] by (auto simp: peer_kept_def chunk_view_def dest: chunk_id_okD)
  then have P: "run_kept k cl (?put d)" for d using assms(2,3) by (intro run_kept_update) auto
  have M: "same_meta cl (?put d)" for d by (simp add: same_meta_def option.map_comp comp_def)
  have "run_kept k cl cl1 \<and> same_meta cl cl1
      \<and> (\<forall>d. r = Inr d \<longrightarrow> (\<exists>v \<in> set vs. v \<noteq> self \<and> (\<exists>n. mget cl v = Some n \<and> GetChunk n k = Inr d)))"
    using assms(5)
  proof (induction vs)
    case Nil
    then show ?case using run_kept_refl [OF assms(2)] by (auto simp: same_meta_def)
  next
    case (Cons v vs)
    then show ?case using P M net_get_Inr [OF assms(1), of u v k cl] by (auto split: if_splits sum.splits)
  qed
  then show "run_kept k cl cl1" "same_meta cl cl1"
    "r = Inr d \<Longrightarrow> \<exists>v \<in> set vs. v \<noteq> self \<and> (\<exists>n. mget cl v = Some n \<and> GetChunk n k = Inr d)" by blast+
qed

lemma same_ctl_meta:
  assumes "same_ctl cl cl'"
  shows "same_meta cl cl'"
  unfolding same_meta_def
proof
  fix x
  show "map_option (\<lambda>n. (nd_meta n, nd_idem n)) (mget cl' x) = map_option (\<lambda>n. (nd_meta n, nd_idem n)) (mget cl x)"
    using assms [unfolded same_ctl_def, rule_format, of x]
    by (cases "mget cl x"; cases "mget cl' x") (auto simp: node_ctl_def node_data_def)
qed

text \<open>The rewrite down the chain.\<close>

lemma repair_write_facts:
  assumes "env_ok en" "cluster_ok cl" "metas_ok cl" "chain_ok k (u # post)" "chunk_id_ok k"
    and "mget cl u = Some nd" "repair_ready k (cm_update (getMeta nd k) + 1) cl (u # post)"
    and "repair_write hops en u k d (u # post) cl = Some (r, cv, cl')"
  shows "work_kept k cl cl'" "r = Inr x \<Longrightarrow> all_hold k d (cm_update (getMeta nd k) + 1) (u # post) cl'"
proof -
  obtain c v nd1 where c: "repair_chain k nd = ((c, v), nd1)" by (metis prod.collapse)
  obtain y nd2 where s: "SyncStart c v nd1 = (y, nd2)" by fastforce
  let ?req = "sync_request c v (u # post)" and ?cl = "mput u nd2 cl" and ?w = "cm_update (getMeta nd k) + 1"
  have run: "applyReplicaWrite hops en u k d ?req ?cl = Some (r, cl')"
    using assms(6,8) by (auto simp: repair_write_def c s split: option.splits)
  have "node_ctl nd2 = node_ctl nd" using ctl_repair_chain [of k nd] ctl_sync(1) [of c v nd1] by (simp add: c s)
  then have sc: "same_ctl cl ?cl" by (rule same_ctl_mput [OF assms(6)])
  note W = work_same [OF sc assms(2,3), of k]
  have ok: "cluster_ok ?cl" "metas_ok ?cl" using W by (simp_all add: work_kept_def)
  have "run_kept k ?cl cl'" using keepsD [OF chain_request_frame [OF assms(5)] ok run] by blast
  then show "work_kept k cl cl'" using work_kept_trans [OF W work_run [OF _ ok]] by blast
  have m: "getMeta nd2 k = getMeta nd k" using \<open>node_ctl nd2 = node_ctl nd\<close> by (simp add: node_ctl_def node_data_def getMeta_def)
  have fresh: "fresh_write k ?req ?w u post ?cl"
    by (rule ready_fresh [OF repair_ready_meta [OF same_ctl_meta [OF sc] assms(7)], of nd2]) (simp_all add: sync_request_def m)
  have req: "rw_replicas ?req = u # post" "is_write ?req" by (simp_all add: sync_request_def is_write_def stage_defs)
  have "mget ?cl u = Some nd2" by simp
  from head_write [OF assms(4) req assms(1) ok(1) fresh this run]
  show "r = Inr x \<Longrightarrow> all_hold k d ?w (u # post) cl'" by auto
qed

lemma all_hold_served:
  assumes "all_hold k d w vs cl" "chunk_kept k cl cl'" "v \<in> set vs"
  shows "\<exists>n. mget cl' v = Some n \<and> GetChunk n k = Inr d"
proof -
  obtain n where "mget cl v = Some n" "holds k d w n" using assms(1,3) by (auto simp: all_hold_def)
  with chunk_kept_get [OF assms(2)] chunk_view_facts holds_read show ?thesis by metis
qed

definition job_ok :: "string \<Rightarrow> cluster \<Rightarrow> string \<Rightarrow> string list \<Rightarrow> bool" where
  "job_ok u cl k rs \<longleftrightarrow> chunk_id_ok k \<and> valid_utf8 k \<and> chain_ok k rs \<and> (\<forall>r \<in> set rs. valid_utf8 r) \<and> (\<exists>post. rs = u # post)
     \<and> (\<exists>nd. mget cl u = Some nd \<and> repair_ready k (cm_update (getMeta nd k) + 1) cl rs)"

lemma job_ok_kept:
  assumes "job_ok u cl k rs" "chunk_kept k cl cl'"
  shows "job_ok u cl' k rs"
proof -
  obtain nd where nd: "mget cl u = Some nd" "repair_ready k (cm_update (getMeta nd k) + 1) cl rs" using assms(1) by (auto simp: job_ok_def)
  obtain nd' where nd': "mget cl' u = Some nd'" "chunk_view k nd' = chunk_view k nd" using chunk_kept_get [OF assms(2) nd(1)] by blast
  have "\<exists>n. mget cl' v = Some n \<and> cm_commit (getMeta n k) < w \<and> (\<forall>req. rw_syncing req \<longrightarrow> mget (nd_idem n) (idempotencyKey k req) = None)"
    if n: "mget cl v = Some n" "cm_commit (getMeta n k) < w" "\<forall>req. rw_syncing req \<longrightarrow> mget (nd_idem n) (idempotencyKey k req) = None" for v n w
  proof -
    obtain n' where n': "mget cl' v = Some n'" "chunk_view k n' = chunk_view k n" using chunk_kept_get [OF assms(2) n(1)] by blast
    show ?thesis using n n' chunk_view_facts [OF n'(2)] by (intro exI [of _ n']) simp
  qed
  then have "repair_ready k (cm_update (getMeta nd' k) + 1) cl' rs"
    using nd(2) chunk_view_facts [OF nd'(2)] unfolding repair_ready_def by metis
  with assms(1) nd'(1) show ?thesis by (auto simp: job_ok_def)
qed

lemma repair_source_kept:
  assumes "repair_source u k post d cl'" "chunk_kept k cl cl'"
  shows "repair_source u k post d cl"
proof -
  have g: "\<exists>n. mget cl x = Some n \<and> st_get (nd_store n) k = st_get (nd_store n') k \<and> GetChunk n k = GetChunk n' k"
    if m: "mget cl' x = Some n'" for x n'
  proof -
    obtain n where n: "mget cl x = Some n" "chunk_view k n' = chunk_view k n"
      using assms(2) [unfolded chunk_kept_def, rule_format, of x] m by (cases "mget cl x") auto
    show ?thesis using n(1) chunk_view_facts [OF n(2)] by simp
  qed
  obtain nd where nd: "mget cl' u = Some nd" "case st_get (nd_store nd) k of
      Some x \<Rightarrow> d = x | None \<Rightarrow> (\<exists>v \<in> set post. \<exists>n. mget cl' v = Some n \<and> GetChunk n k = Inr d)"
    using assms(1) by (auto simp: repair_source_def)
  obtain n where n: "mget cl u = Some n" "st_get (nd_store n) k = st_get (nd_store nd) k" using g [OF nd(1)] by blast
  show ?thesis unfolding repair_source_def
  proof (intro exI [of _ n] conjI n(1))
    show "case st_get (nd_store n) k of Some x \<Rightarrow> d = x | None \<Rightarrow> (\<exists>v \<in> set post. \<exists>n. mget cl v = Some n \<and> GetChunk n k = Inr d)"
    proof (cases "st_get (nd_store nd) k")
      case None
      with nd(2) obtain v m where "v \<in> set post" "mget cl' v = Some m" "GetChunk m k = Inr d" by auto
      with g [of v m] None n(2) show ?thesis by force
    qed (use nd(2) n(2) in simp)
  qed
qed

lemma repair_fetch:
  assumes "env_ok en" "cluster_ok cl" "metas_ok cl" "chunk_id_ok k" "mget cl u = Some nd"
    and "(case st_get (nd_store nd) k of Some d \<Rightarrow> (Inr d, cl) | None \<Rightarrow> fetchChunkFromPeers en u k (u # post) u cl) = (x, cl1)"
  shows "run_kept k cl cl1" "same_meta cl cl1" "x = Inr d \<Longrightarrow> repair_source u k post d cl"
proof -
  have "run_kept k cl cl1 \<and> same_meta cl cl1 \<and> (x = Inr d \<longrightarrow> repair_source u k post d cl)"
  proof (cases "st_get (nd_store nd) k")
    case (Some b)
    with assms(5,6) run_kept_refl [OF assms(2)] show ?thesis by (auto simp: repair_source_def same_meta_def)
  next
    case None
    with assms(6) have f: "fetchChunkFromPeers en u k (u # post) u cl = (x, cl1)" by simp
    have "x = Inr d \<Longrightarrow> \<exists>v \<in> set post. \<exists>n. mget cl v = Some n \<and> GetChunk n k = Inr d"
      using fetch_facts(3) [OF assms(1-4) f] by auto
    with fetch_facts(1,2) [OF assms(1-4) f] None assms(5) show ?thesis by (simp add: repair_source_def)
  qed
  then show "run_kept k cl cl1" "same_meta cl cl1" "x = Inr d \<Longrightarrow> repair_source u k post d cl" by blast+
qed

text \<open>The record behind a successful rewrite, and the deferred end of the sync.\<close>

lemma repair_record:
  assumes "cluster_ok cl" "metas_ok cl" "chunk_id_ok k" "valid_utf8 k" "\<forall>r \<in> set (u # post). valid_utf8 r"
    and "all_hold k d w (u # post) cl" "RecordChunkRegistry en u k (u # post) cl = (t, cl1)"
  shows "work_kept k cl (sync_done_at u cv cl1)" "t = Inr tt \<Longrightarrow> served k (u # post) d (sync_done_at u cv cl1)"
proof -
  let ?cl = "sync_done_at u cv cl1"
  obtain n where n: "mget cl u = Some n" "cm_state (getMeta n k) = ChunkStateCommitted" using assms(6) by (auto simp: all_hold_def holds_def)
  have st: "valid_utf8 (cm_state (getMeta n k))" by (simp add: n(2) ChunkStateCommitted_def valid_utf8_Cons_ascii)
  have W: "work_kept k cl cl1" using work_record [OF assms(1,2,4,5) n(1) st, of cl1 en] assms(7) by simp
  then have "cluster_ok cl1" "metas_ok cl1" by (simp_all add: work_kept_def)
  then show "work_kept k cl ?cl" using work_kept_trans [OF W work_same [OF sync_done_ctl]] by blast
  have sd: "same_data cl ?cl"
    using same_data_trans [OF _ same_ctl_data [OF sync_done_ctl]] record_data [of cl en u k "u # post"] assms(7) by simp
  have kv: "map_option nd_kv (mget ?cl v) = map_option nd_kv (mget cl1 v)" for v
    using sync_done_ctl [of cl1 u cv, unfolded same_ctl_def, rule_format, of v]
    by (cases "mget cl1 v"; cases "mget ?cl v") (auto simp: node_ctl_def)
  have "recorded k (u # post) cl1" if "t = Inr tt"
    using record_recorded [OF assms(4) chunk_id_okD(2) [OF assms(3)] assms(5) n(1) st, of en tt cl1] assms(7) that by simp
  then show "t = Inr tt \<Longrightarrow> served k (u # post) d ?cl"
    using recorded_kv [OF _ kv] all_hold_served [OF assms(6) same_data_chunk_kept [OF sd]] by (auto simp: served_def)
qed

lemma repair_chunk_facts:
  assumes "env_ok en" "cluster_ok cl" "metas_ok cl" "job_ok u cl k (u # post)"
    and run: "repairChunk hops en u k (u # post) cl = Some (r, cl')"
  shows "work_kept k cl cl' \<and> (\<forall>x. r = Inr x \<longrightarrow> (\<exists>d. repair_source u k post d cl \<and> served k (u # post) d cl'))"
proof -
  have J: "chunk_id_ok k" "valid_utf8 k" "chain_ok k (u # post)" "\<forall>r \<in> set (u # post). valid_utf8 r" using assms(4) by (auto simp: job_ok_def)
  obtain nd where nd: "mget cl u = Some nd" "repair_ready k (cm_update (getMeta nd k) + 1) cl (u # post)"
    using assms(4) by (auto simp: job_ok_def)
  have http: "nd_http nd = u" using assms(2) nd(1) by (simp add: cluster_ok_def)
  obtain x cl1 where f: "(case st_get (nd_store nd) k of Some d \<Rightarrow> (Inr d, cl) | None \<Rightarrow> fetchChunkFromPeers en u k (u # post) u cl) = (x, cl1)"
    by fastforce
  note F = repair_fetch [OF assms(1-3) J(1) nd(1) f] and W1 = work_run [OF repair_fetch(1) [OF assms(1-3) J(1) nd(1) f] assms(2,3)]
  have ok1: "cluster_ok cl1" "metas_ok cl1" using W1 by (auto simp: work_kept_def)
  show ?thesis
  proof (cases x)
    case (Inl e)
    with run nd(1) f http W1 show ?thesis by (auto simp: repairChunk_def)
  next
    case (Inr d)
    obtain nd1 where nd1: "mget cl1 u = Some nd1" "getMeta nd1 k = getMeta nd k" by (rule same_meta_get [OF F(2) nd(1)])
    have ready: "repair_ready k (cm_update (getMeta nd1 k) + 1) cl1 (u # post)" using repair_ready_meta [OF F(2) nd(2)] nd1(2) by simp
    obtain y cv cl2 where w: "repair_write hops en u k d (u # post) cl1 = Some (y, cv, cl2)"
      using run nd(1) f http Inr by (auto simp: repairChunk_def split: option.splits)
    note R = repair_write_facts [OF assms(1) ok1 J(3,1) nd1(1) ready w]
    have W2: "work_kept k cl cl2" by (rule work_kept_trans [OF W1 R(1)])
    have ok2: "cluster_ok cl2" "metas_ok cl2" using R(1) by (simp_all add: work_kept_def)
    show ?thesis
    proof (cases y)
      case (Inl e)
      then have "r = Inl e" "cl' = sync_done_at u cv cl2" using run nd(1) f http Inr w by (auto simp: repairChunk_def)
      then show ?thesis using work_kept_trans [OF W2 work_same [OF sync_done_ctl ok2]] by simp
    next
      case (Inr z)
      obtain t cl3 where rec: "RecordChunkRegistry en u k (u # post) cl2 = (t, cl3)" by fastforce
      have c: "r = t" "cl' = sync_done_at u cv cl3" using run nd(1) f http \<open>x = Inr d\<close> w Inr rec by (auto simp: repairChunk_def)
      note S = repair_record [OF ok2 J(1,2,4) R(2) [OF Inr] rec]
      show ?thesis using work_kept_trans [OF W2 S(1)] S(2) F(3) [OF \<open>x = Inr d\<close>] unfolding c by blast
    qed
  qed
qed

section \<open>The run over the queue\<close>

definition job_outcome :: "string \<Rightarrow> cluster \<Rightarrow> cluster \<Rightarrow> repair_queue \<Rightarrow> repair_job \<Rightarrow> bool" where
  "job_outcome u cl cl' q j \<longleftrightarrow> (case mget q (rj_chunk j) of
      None \<Rightarrow> (\<exists>d. repair_source u (rj_chunk j) (tl (rj_replicas j)) d cl \<and> served (rj_chunk j) (rj_replicas j) d cl')
    | Some j' \<Rightarrow> (\<exists>msg. j' = j\<lparr>rj_attempts := Suc (rj_attempts j), rj_error := msg\<rparr>))"

lemma served_kept:
  assumes "served k rs d cl" "chunk_kept k cl cl'" "\<And>ts. recorded k ts cl \<Longrightarrow> recorded k ts cl'"
  shows "served k rs d cl'"
proof -
  have "\<exists>n. mget cl' v = Some n \<and> GetChunk n k = Inr d" if v: "v \<in> set rs" for v
  proof -
    obtain n where n: "mget cl v = Some n" "GetChunk n k = Inr d" using assms(1) v by (auto simp: served_def)
    obtain n' where n': "mget cl' v = Some n'" "chunk_view k n' = chunk_view k n" using chunk_kept_get [OF assms(2) n(1)] by blast
    show ?thesis using n n'(1) chunk_view_facts [OF n'(2)] by simp
  qed
  with assms(1,3) show ?thesis by (auto simp: served_def)
qed

lemma job_outcome_kept:
  assumes "job_outcome u cl1 cl2 q j"
  shows "chunk_kept (rj_chunk j) cl cl1 \<Longrightarrow> job_outcome u cl cl2 q j"
    and "chunk_kept (rj_chunk j) cl2 cl' \<Longrightarrow> \<forall>ts. recorded (rj_chunk j) ts cl2 \<longrightarrow> recorded (rj_chunk j) ts cl' \<Longrightarrow>
      mget q' (rj_chunk j) = mget q (rj_chunk j) \<Longrightarrow> job_outcome u cl1 cl' q' j"
proof -
  show "chunk_kept (rj_chunk j) cl cl1 \<Longrightarrow> job_outcome u cl cl2 q j"
    using assms repair_source_kept [of u "rj_chunk j" _ _ cl1 cl] by (cases "mget q (rj_chunk j)") (auto simp: job_outcome_def)
  show "chunk_kept (rj_chunk j) cl2 cl' \<Longrightarrow> \<forall>ts. recorded (rj_chunk j) ts cl2 \<longrightarrow> recorded (rj_chunk j) ts cl' \<Longrightarrow>
      mget q' (rj_chunk j) = mget q (rj_chunk j) \<Longrightarrow> job_outcome u cl1 cl' q' j"
    using assms served_kept [of "rj_chunk j" _ _ cl2 cl'] by (cases "mget q (rj_chunk j)") (auto simp: job_outcome_def)
qed

lemma queue_update_kept:
  fixes f :: "repair_queue \<Rightarrow> repair_queue"
  assumes "cluster_ok cl" "metas_ok cl" and "cl' = update_node u (\<lambda>n. n\<lparr>nd_queue := f (nd_queue n)\<rparr>) cl"
  shows "cluster_ok cl'" "metas_ok cl'" "chunk_kept j cl cl'" "recorded j ts cl \<Longrightarrow> recorded j ts cl'"
proof -
  have sd: "same_data cl cl'" unfolding assms(3) by (rule same_data_update) simp
  have kv: "map_option nd_kv (mget cl' v) = map_option nd_kv (mget cl v)" for v by (simp add: assms(3) option.map_comp comp_def)
  show "recorded j ts cl \<Longrightarrow> recorded j ts cl'" by (rule recorded_kv [OF _ kv])
  show "cluster_ok cl'" "metas_ok cl'" "chunk_kept j cl cl'"
    using cluster_ok_data [OF sd assms(1)] metas_ok_data [OF sd assms(2)] same_data_chunk_kept [OF sd] by blast+
qed

text \<open>A job with \<open>n\<close> replicas returns within \<open>n\<close> hops.\<close>

lemma repair_chunk_returns:
  assumes "env_ok en" "cluster_ok cl" "metas_ok cl" "job_ok u cl k (u # post)" "length post < hops"
  shows "\<exists>r cl'. repairChunk hops en u k (u # post) cl = Some (r, cl')"
proof -
  have J: "chunk_id_ok k" "chain_ok k (u # post)" using assms(4) by (auto simp: job_ok_def)
  obtain nd where nd: "mget cl u = Some nd" using assms(4) by (auto simp: job_ok_def)
  have http: "nd_http nd = u" using assms(2) nd by (simp add: cluster_ok_def)
  have ret: "\<exists>y cv cl2. repair_write hops en u k d (u # post) c = Some (y, cv, cl2)" if c: "cluster_ok c" "metas_ok c" for c d
  proof (cases "mget c u")
    case (Some n)
    obtain a v n1 where rc: "repair_chain k n = ((a, v), n1)" by (metis prod.collapse)
    obtain y n2 where s: "SyncStart a v n1 = (y, n2)" by fastforce
    have "node_ctl n2 = node_ctl n" using ctl_repair_chain [of k n] ctl_sync(1) [of a v n1] by (simp add: rc s)
    then have "cluster_ok (mput u n2 c)" using work_same [OF same_ctl_mput [OF Some] c] by (simp add: work_kept_def)
    then have "\<exists>r cl'. applyReplicaWrite hops en u k d (sync_request a v (u # post)) (mput u n2 c) = Some (r, cl')"
      using apply_returns [OF J(2), of "[]" u post "sync_request a v (u # post)" hops en d] assms(5)
      by (auto simp: sync_request_def stage_defs returns_def)
    then show ?thesis by (auto simp: repair_write_def Some rc s)
  qed (simp add: repair_write_def)
  obtain x cl1 where f: "(case st_get (nd_store nd) k of Some d \<Rightarrow> (Inr d, cl) | None \<Rightarrow> fetchChunkFromPeers en u k (u # post) u cl) = (x, cl1)"
    by fastforce
  have ok: "cluster_ok cl1" "metas_ok cl1"
    using work_run [OF repair_fetch(1) [OF assms(1-3) J(1) nd f] assms(2,3)] by (simp_all add: work_kept_def)
  show ?thesis
  proof (cases x)
    case (Inl e)
    with nd http f show ?thesis by (auto simp: repairChunk_def)
  next
    case (Inr d)
    obtain y cv cl2 where "repair_write hops en u k d (u # post) cl1 = Some (y, cv, cl2)" using ret [OF ok] by blast
    with nd http f Inr show ?thesis by (cases y) (auto simp: repairChunk_def split: prod.split)
  qed
qed

text \<open>One job of the run: the state the rest of the run starts from.\<close>

lemma repair_step:
  assumes "env_ok en" "cluster_ok cl" "metas_ok cl" "mget cl u = Some nd" "queue_ok (nd_queue nd)"
    and j: "job_ok u cl (rj_chunk j) (rj_replicas j)" "mget (nd_queue nd) (rj_chunk j) = Some j" "length (rj_replicas j) \<le> hops"
  obtains a1 b1 cl1 n where "repair_jobs hops en u (j # js) a b cl = repair_jobs hops en u js a1 b1 cl1" "a1 + b1 = Suc (a + b)"
    "cluster_ok cl1" "metas_ok cl1" "mget cl1 u = Some n" "queue_ok (nd_queue n)" "length (nd_queue n) + a1 = length (nd_queue nd) + a"
    "job_outcome u cl cl1 (nd_queue n) j" "\<forall>k. k \<noteq> rj_chunk j \<longrightarrow> mget (nd_queue n) k = mget (nd_queue nd) k"
    "\<forall>k. k \<noteq> rj_chunk j \<longrightarrow> chunk_id_ok k \<longrightarrow> chunk_kept k cl cl1 \<and> (\<forall>ts. recorded k ts cl \<longrightarrow> recorded k ts cl1)"
proof -
  let ?k = "rj_chunk j"
  obtain post where rs: "rj_replicas j = u # post" using j(1) by (auto simp: job_ok_def)
  obtain r c where rep: "repairChunk hops en u ?k (rj_replicas j) cl = Some (r, c)"
    using repair_chunk_returns [OF assms(1-3), of u ?k post hops] j(1,3) rs by auto
  define f where "f = (case r of Inl e \<Rightarrow> queue_fail ?k (error_string e) | Inr _ \<Rightarrow> queue_done ?k)"
  define cl1 where "cl1 = update_node u (\<lambda>n. n\<lparr>nd_queue := f (nd_queue n)\<rparr>) c"
  let ?a = "case r of Inl _ \<Rightarrow> a | Inr _ \<Rightarrow> Suc a" and ?b = "case r of Inl _ \<Rightarrow> Suc b | Inr _ \<Rightarrow> b"
  have go: "repair_jobs hops en u (j # js) a b cl = repair_jobs hops en u js ?a ?b cl1"
    using rep by (cases r) (simp_all add: cl1_def f_def)
  have R: "work_kept ?k cl c" "\<And>x. r = Inr x \<Longrightarrow> \<exists>d. repair_source u ?k post d cl \<and> served ?k (u # post) d c"
    using repair_chunk_facts [OF assms(1-3) j(1) [unfolded rs] rep [unfolded rs]] by auto
  have ok: "cluster_ok c" "metas_ok c" using R(1) by (simp_all add: work_kept_def)
  note Q = queue_update_kept [OF ok, of cl1 u f, unfolded cl1_def, OF refl, folded cl1_def]
  obtain n0 where n0: "mget c u = Some n0" "nd_queue n0 = nd_queue nd"
    using R(1) assms(4) unfolding work_kept_def by (metis (no_types, lifting) map_option_eq_Some option.simps(9))
  let ?n = "n0\<lparr>nd_queue := f (nd_queue n0)\<rparr>"
  have n: "mget cl1 u = Some ?n" by (simp add: cl1_def n0(1))
  have q: "queue_ok (nd_queue ?n)" "length (nd_queue ?n) + ?a = length (nd_queue nd) + a"
    "\<forall>k. k \<noteq> ?k \<longrightarrow> mget (nd_queue ?n) k = mget (nd_queue nd) k"
    "mget (nd_queue ?n) ?k = (case r of Inl e \<Rightarrow> Some (j\<lparr>rj_attempts := Suc (rj_attempts j), rj_error := error_string e\<rparr>) | Inr _ \<Rightarrow> None)"
    using assms(5) j(2) by (cases r; simp add: f_def n0(2) queue_get queue_length)+
  have out: "job_outcome u cl cl1 (nd_queue ?n) j"
    using R(2) served_kept [OF _ Q(3,4)] by (cases r) (auto simp: job_outcome_def q(4) [simplified] rs)
  have keep: "\<forall>k. k \<noteq> ?k \<longrightarrow> chunk_id_ok k \<longrightarrow> chunk_kept k cl cl1 \<and> (\<forall>ts. recorded k ts cl \<longrightarrow> recorded k ts cl1)"
    using R(1) Q(3,4) chunk_kept_trans unfolding work_kept_def by blast
  have "?a + ?b = Suc (a + b)" by (cases r) simp_all
  then show thesis using that [OF go _ Q(1,2) n q(1,2) out q(3) keep] by blast
qed

lemma repair_jobs_facts:
  assumes "env_ok en"
    and "cluster_ok cl" "metas_ok cl" "distinct (map rj_chunk js)" "\<forall>j \<in> set js. job_ok u cl (rj_chunk j) (rj_replicas j)"
    and "mget cl u = Some nd" "queue_ok (nd_queue nd)" "\<forall>j \<in> set js. mget (nd_queue nd) (rj_chunk j) = Some j"
    and "\<forall>j \<in> set js. length (rj_replicas j) \<le> hops"
  shows "\<exists>a' b' cl' n. repair_jobs hops en u js a b cl = Some ((a', b'), cl') \<and> mget cl' u = Some n \<and> a' + b' = a + b + length js \<and> length (nd_queue n) + a' = length (nd_queue nd) + a
     \<and> (\<forall>k. k \<notin> rj_chunk ` set js \<longrightarrow> mget (nd_queue n) k = mget (nd_queue nd) k)
     \<and> (\<forall>k. chunk_id_ok k \<longrightarrow> k \<notin> rj_chunk ` set js \<longrightarrow> chunk_kept k cl cl' \<and> (\<forall>ts. recorded k ts cl \<longrightarrow> recorded k ts cl'))
     \<and> (\<forall>j \<in> set js. job_outcome u cl cl' (nd_queue n) j)"
  using assms(2-)
proof (induction js arbitrary: cl nd a b)
  case Nil
  then show ?case by (simp add: chunk_kept_def)
next
  case (Cons j js)
  obtain a1 b1 cl1 n1 where go: "repair_jobs hops en u (j # js) a b cl = repair_jobs hops en u js a1 b1 cl1" and ab: "a1 + b1 = Suc (a + b)"
    and ok: "cluster_ok cl1" "metas_ok cl1" and n1: "mget cl1 u = Some n1" "queue_ok (nd_queue n1)" "length (nd_queue n1) + a1 = length (nd_queue nd) + a"
    and out: "job_outcome u cl cl1 (nd_queue n1) j" and q: "\<forall>k. k \<noteq> rj_chunk j \<longrightarrow> mget (nd_queue n1) k = mget (nd_queue nd) k"
    and keep: "\<forall>k. k \<noteq> rj_chunk j \<longrightarrow> chunk_id_ok k \<longrightarrow> chunk_kept k cl cl1 \<and> (\<forall>ts. recorded k ts cl \<longrightarrow> recorded k ts cl1)"
    using repair_step [OF assms(1) Cons.prems(1,2,5,6), of j hops js a b] Cons.prems(4,7,8) by (metis list.set_intros(1))
  have other: "x \<in> set js \<Longrightarrow> rj_chunk x \<noteq> rj_chunk j \<and> chunk_id_ok (rj_chunk x)" for x
    using Cons.prems(3,4) by (auto simp: job_ok_def image_iff)
  have "\<forall>x \<in> set js. job_ok u cl1 (rj_chunk x) (rj_replicas x)" "\<forall>x \<in> set js. mget (nd_queue n1) (rj_chunk x) = Some x"
    using Cons.prems(4,7) other keep job_ok_kept q by (auto; blast)+
  from Cons.IH [OF ok _ this(1) n1(1,2) this(2), of a1 b1] Cons.prems(3,8)
  obtain a' b' cl' n where run: "repair_jobs hops en u js a1 b1 cl1 = Some ((a', b'), cl')" and n: "mget cl' u = Some n" "a' + b' = a1 + b1 + length js" "length (nd_queue n) + a' = length (nd_queue n1) + a1"
    and qn: "\<forall>k. k \<notin> rj_chunk ` set js \<longrightarrow> mget (nd_queue n) k = mget (nd_queue n1) k"
    and kn: "\<forall>k. chunk_id_ok k \<longrightarrow> k \<notin> rj_chunk ` set js \<longrightarrow> chunk_kept k cl1 cl' \<and> (\<forall>ts. recorded k ts cl1 \<longrightarrow> recorded k ts cl')"
    and on: "\<forall>x \<in> set js. job_outcome u cl1 cl' (nd_queue n) x" by auto
  have j: "rj_chunk j \<notin> rj_chunk ` set js" "chunk_id_ok (rj_chunk j)" using Cons.prems(3,4) by (auto simp: job_ok_def)
  have "job_outcome u cl cl' (nd_queue n) j" using job_outcome_kept(2) [OF out] qn j kn by blast
  moreover have "job_outcome u cl cl' (nd_queue n) x" if "x \<in> set js" for x
    using job_outcome_kept(1) [of u cl1 cl'] on that other [OF that] keep by blast
  ultimately show ?case using go run n n1(3) ab q qn keep kn chunk_kept_trans
    by (intro exI [of _ a'] exI [of _ b'] exI [of _ cl'] exI [of _ n]) auto
qed


text \<open>The first of two nodes has a chunk queued that the second one has not got.\<close>

definition repair_cluster :: cluster where
  "repair_cluster =
     [(''a'', enqueueRepair ''1_0_0'' [''a'', ''b''] (pair_node ''a'' (ms_put ''1_0_0'' ''data'' []))), (''b'', pair_node ''b'' [])]"

definition grpc_env :: env where
  "grpc_env = demo_env\<lparr>en_links := \<lambda>u v. [Deliver ViaGRPC]\<rparr>"

lemma repair_demo: "case RunRepair 2 grpc_env ''a'' repair_cluster of Some (r, _) \<Rightarrow> r = (1, 0) | None \<Rightarrow> False"
  by code_simp


end
