(* ===== verification/Meta_Spec.thy ===== *)
theory Meta_Spec
  imports Meta_Store
begin

text \<open>
  The specification of the metadata store and its invariant. \<open>fs\<close> is what the keys of the store
  stand for: attributes, back links, directory entries, the index of inodes and the counter.
  \<open>view\<close> reads it off a store, and the lemmas \<open>view_ops\<close> say how each operation of a batch moves
  it. \<open>fs_inv\<close> is the invariant of the file system.
\<close>

section \<open>The abstract state\<close>

record fs =
  f_ino :: "u64 \<Rightarrow> bytes option"
  f_link :: "u64 \<Rightarrow> bytes option"
  f_dent :: "u64 \<Rightarrow> string \<Rightarrow> bytes option"
  f_index :: "string set"
  f_next :: u64

definition view :: "memkv \<Rightarrow> fs" where
  "view m = \<lparr>f_ino = \<lambda>i. mget (kv_str m) (inoKey i), f_link = \<lambda>i. mget (kv_str m) (inodeLinkKey i),
     f_dent = \<lambda>p. hash_fun m (direntKey p), f_index = set_fun m inodeIndexKey,
     f_next = incr_val m nextInoKey\<rparr>"

lemma view_ops [simp]:
  "view (mem_set (inoKey i) d m) = (view m)\<lparr>f_ino := (f_ino (view m))(i := Some d)\<rparr>"
  "view (mem_set (inodeLinkKey i) d m) = (view m)\<lparr>f_link := (f_link (view m))(i := Some d)\<rparr>"
  "view (mem_del1 (inoKey i) m) = (view m)\<lparr>f_ino := (f_ino (view m))(i := None)\<rparr>"
  "view (mem_del1 (inodeLinkKey i) m) = (view m)\<lparr>f_link := (f_link (view m))(i := None)\<rparr>"
  "view (mem_del1 (direntKey i) m) = (view m)\<lparr>f_dent := (f_dent (view m))(i := \<lambda>_. None)\<rparr>"
  "view (mem_hset (direntKey p) n v m) = (view m)\<lparr>f_dent := (f_dent (view m))(p := (f_dent (view m) p)(n := Some v))\<rparr>"
  "view (mem_hdel (direntKey p) [n] m) = (view m)\<lparr>f_dent := (f_dent (view m))(p := (f_dent (view m) p)(n := None))\<rparr>"
  "view (mem_srem inodeIndexKey [x] m) = (view m)\<lparr>f_index := f_index (view m) - {x}\<rparr>"
  "view (snd (mem_incr nextInoKey m)) = (view m)\<lparr>f_next := f_next (view m) + 1\<rparr>"
  by (simp_all add: view_def fun_eq_iff)

lemma view_sadd [simp]:
  "x \<noteq> [] \<Longrightarrow> view (mem_sadd inodeIndexKey [x] m) = (view m)\<lparr>f_index := insert x (f_index (view m))\<rparr>"
  by (simp add: view_def fun_eq_iff)

lemma view_reads:
  "kv_get s (inoKey i) = (case f_ino (view (kv_mem s)) i of None \<Rightarrow> Inl ErrKVNotFound | Some d \<Rightarrow> Inr d)"
  "kv_get s (inodeLinkKey i) = (case f_link (view (kv_mem s)) i of None \<Rightarrow> Inl ErrKVNotFound | Some d \<Rightarrow> Inr d)"
  "kv_hget s (direntKey p) n = (case f_dent (view (kv_mem s)) p n of None \<Rightarrow> Inl ErrKVNotFound | Some d \<Rightarrow> Inr d)"
  "kv_hexists s (direntKey p) n \<longleftrightarrow> f_dent (view (kv_mem s)) p n \<noteq> None"
  by (simp_all add: kv_reads kv_obs view_def)

lemma kv_hlen_card: "mem_wf (kv_mem s) \<Longrightarrow> kv_hlen s (direntKey p) = card (dom (f_dent (view (kv_mem s)) p))"
  by (simp add: kv_reads mem_hlen_card view_def)

section \<open>The invariant\<close>

text \<open>The names of entries, other than \<open>.\<close> and \<open>..\<close>, that survive JSON.\<close>

definition proper :: "string \<Rightarrow> bool" where
  "proper n \<longleftrightarrow> n \<noteq> [] \<and> n \<noteq> ''.'' \<and> n \<noteq> ''..'' \<and> valid_utf8 n"

definition inv_ino :: "fs \<Rightarrow> bool" where
  "inv_ino f \<longleftrightarrow> (\<forall>i d. f_ino f i = Some d \<longrightarrow>
     i \<le> f_next f \<and> (\<exists>a. d = marshal_attr a \<and> attr_ok a \<and> at_ino a = i))"

definition inv_link :: "fs \<Rightarrow> bool" where
  "inv_link f \<longleftrightarrow> (\<forall>i d. f_link f i = Some d \<longrightarrow>
     i \<noteq> rootIno \<and> i \<le> f_next f \<and> (\<exists>p n. d = encodeInodeLink p n \<and> proper n))"

definition inv_dent :: "fs \<Rightarrow> bool" where
  "inv_dent f \<longleftrightarrow> (\<forall>p n v. f_dent f p n = Some v \<longrightarrow> proper n \<longrightarrow>
     (\<exists>i. v = format_uint i \<and> f_ino f i \<noteq> None \<and> f_link f i = Some (encodeInodeLink p n)))"

definition inv_dots :: "fs \<Rightarrow> bool" where
  "inv_dots f \<longleftrightarrow> (\<forall>a. f_ino f (at_ino a) = Some (marshal_attr a) \<longrightarrow> attr_ok a \<longrightarrow> is_dir a \<longrightarrow>
     at_ino a \<noteq> rootIno \<longrightarrow> f_dent f (at_ino a) ''.'' \<noteq> None \<and> f_dent f (at_ino a) ''..'' \<noteq> None)"

definition inv_names :: "fs \<Rightarrow> bool" where
  "inv_names f \<longleftrightarrow> (\<forall>p n v. f_dent f p n = Some v \<longrightarrow> proper n \<or> n = ''.'' \<or> n = ''..'')"

definition inv_index :: "fs \<Rightarrow> bool" where
  "inv_index f \<longleftrightarrow> f_index f = {format_uint i |i. f_ino f i \<noteq> None}"

definition inv_root :: "fs \<Rightarrow> bool" where
  "inv_root f \<longleftrightarrow> (\<exists>a. f_ino f rootIno = Some (marshal_attr a) \<and> attr_ok a \<and> at_ino a = rootIno \<and> is_dir a)"

definition fs_inv :: "fs \<Rightarrow> bool" where
  "fs_inv f \<longleftrightarrow> inv_ino f \<and> inv_link f \<and> inv_dent f \<and> inv_dots f \<and> inv_names f \<and> inv_index f \<and> inv_root f"

definition meta_inv :: "memkv \<Rightarrow> bool" where
  "meta_inv m \<longleftrightarrow> mem_wf m \<and> fs_inv (view m)"

lemmas fs_invs = inv_ino_def inv_link_def inv_dent_def inv_dots_def inv_names_def inv_index_def inv_root_def

lemma marshal_attr_inject: "attr_ok a \<Longrightarrow> attr_ok b \<Longrightarrow> marshal_attr a = marshal_attr b \<Longrightarrow> a = b"
  by (metis Inr_inject unmarshal_marshal_attr)

lemma encodeInodeLink_inject:
  "valid_utf8 n \<Longrightarrow> valid_utf8 n' \<Longrightarrow> encodeInodeLink p n = encodeInodeLink p' n' \<longleftrightarrow> p = p' \<and> n = n'"
  by (metis Inr_inject unmarshal_encode_link inode_link.ext_inject)

lemma checkName_proper [simp]: "checkName n = Inr () \<longleftrightarrow> n \<noteq> [] \<and> n \<noteq> ''.'' \<and> n \<noteq> ''..''"
  by (simp add: checkName_def)

text \<open>A number above the counter is new: neither an inode nor the target of an entry.\<close>

lemma fresh_ino:
  assumes "fs_inv f" "f_next f + 1 \<noteq> 0"
  shows "f_ino f (f_next f + 1) = None" "f_link f (f_next f + 1) = None" "f_next f + 1 \<noteq> rootIno"
    "f_next f \<le> f_next f + 1"
proof -
  have le: "f_next f < f_next f + 1" using assms(2) by uint_arith
  then have n: "\<not> f_next f + 1 \<le> f_next f" by simp
  show "f_ino f (f_next f + 1) = None" "f_link f (f_next f + 1) = None"
    using assms(1) n unfolding fs_inv_def inv_ino_def inv_link_def by (metis not_Some_eq)+
  show "f_next f + 1 \<noteq> rootIno"
    using assms(1) n unfolding fs_inv_def inv_ino_def inv_root_def by metis
  show "f_next f \<le> f_next f + 1" using le by simp
qed

section \<open>Abstract operations\<close>

definition fs_alloc :: "fs \<Rightarrow> fs" where
  "fs_alloc f = f\<lparr>f_next := f_next f + 1\<rparr>"

definition fs_add :: "bool \<Rightarrow> u64 \<Rightarrow> string \<Rightarrow> attr \<Rightarrow> fs \<Rightarrow> fs" where
  "fs_add dots p n a f =
     (let i = at_ino a; d = (f_dent f)(p := (f_dent f p)(n := Some (format_uint i)))
      in f\<lparr>f_ino := (f_ino f)(i := Some (marshal_attr a)),
           f_link := (f_link f)(i := Some (encodeInodeLink p n)),
           f_dent := (if dots then d(i := (d i)(''.'' \<mapsto> format_uint i, ''..'' \<mapsto> format_uint p)) else d),
           f_index := insert (format_uint i) (f_index f)\<rparr>)"

definition fs_remove :: "u64 \<Rightarrow> fs \<Rightarrow> fs" where
  "fs_remove i f = f\<lparr>f_ino := (f_ino f)(i := None), f_link := (f_link f)(i := None),
     f_index := f_index f - {format_uint i}\<rparr>"

definition fs_undent :: "u64 \<Rightarrow> string \<Rightarrow> fs \<Rightarrow> fs" where
  "fs_undent p n f = f\<lparr>f_dent := (f_dent f)(p := (f_dent f p)(n := None))\<rparr>"

definition fs_rmdir :: "u64 \<Rightarrow> fs \<Rightarrow> fs" where
  "fs_rmdir i f = f\<lparr>f_dent := (f_dent f)(i := \<lambda>_. None)\<rparr>"

definition fs_rename :: "u64 \<Rightarrow> string \<Rightarrow> u64 \<Rightarrow> string \<Rightarrow> u64 \<Rightarrow> fs \<Rightarrow> fs" where
  "fs_rename p n p' n' i f =
     (let d = f_dent (fs_undent p n f)
      in f\<lparr>f_dent := d(p' := (d p')(n' := Some (format_uint i))),
           f_link := (f_link f)(i := Some (encodeInodeLink p' n'))\<rparr>)"

definition fs_update :: "attr \<Rightarrow> fs \<Rightarrow> fs" where
  "fs_update a f = f\<lparr>f_ino := (f_ino f)(at_ino a := Some (marshal_attr a))\<rparr>"

lemma create_not_dir [simp]: "\<not> is_dir (a\<lparr>at_mode := mode OR 32768\<rparr>)"
proof
  assume "is_dir (a\<lparr>at_mode := mode OR 32768\<rparr>)"
  then have "bit ((mode OR 32768) AND 61440) 15 = bit (16384 :: u32) 15" by (simp add: is_dir_def)
  then show False by (simp add: bit_simps)
qed

section \<open>The abstract operations keep the invariant\<close>

lemma fs_inv_alloc:
  assumes "fs_inv f" "f_next f + 1 \<noteq> 0"
  shows "fs_inv (fs_alloc f)"
proof -
  have le: "i \<le> f_next f \<Longrightarrow> i \<le> f_next f + 1" for i using fresh_ino(4) [OF assms] by (rule order_trans [rotated])
  have "inv_ino (fs_alloc f)" "inv_link (fs_alloc f)"
    using assms(1) le unfolding fs_inv_def inv_ino_def inv_link_def fs_alloc_def by simp_all
  moreover have "inv_dent (fs_alloc f)" "inv_dots (fs_alloc f)" "inv_names (fs_alloc f)"
    "inv_index (fs_alloc f)" "inv_root (fs_alloc f)"
    using assms(1) unfolding fs_inv_def
    by (simp_all add: inv_dent_def inv_dots_def inv_names_def inv_index_def inv_root_def fs_alloc_def)
  ultimately show ?thesis by (simp add: fs_inv_def)
qed

lemma fs_inv_add:
  assumes f: "fs_inv f" and a: "at_ino a = f_next f + 1" "at_ino a \<noteq> 0" "attr_ok a"
    and n: "proper n" and d: "is_dir a \<Longrightarrow> dots"
  shows "fs_inv (fs_add dots p n a (fs_alloc f))"
proof -
  let ?i = "at_ino a" and ?f = "fs_add dots p n a (fs_alloc f)"
  have fresh: "f_ino f ?i = None" "f_link f ?i = None" "?i \<noteq> rootIno" "f_next f \<le> ?i"
    using fresh_ino [OF f] a by simp_all
  have le: "i \<le> f_next f \<Longrightarrow> i \<le> f_next f + 1" for i using fresh(4) a(1) by (metis order_trans)
  note defs = fs_add_def fs_alloc_def Let_def
  have I: "inv_ino f" "inv_link f" "inv_dent f" "inv_dots f" "inv_names f" "inv_index f" "inv_root f"
    using f by (simp_all add: fs_inv_def)
  have "inv_ino ?f" using I(1) a by (auto simp: inv_ino_def defs dest!: le)
  moreover have "inv_link ?f" using I(2) a n fresh(3) by (auto simp: inv_link_def defs dest!: le)
  moreover have "inv_dent ?f"
    using I(3) fresh n by (fastforce simp: inv_dent_def defs proper_def split: if_splits)
  moreover have "inv_dots ?f"
    using I(4) d a(3) marshal_attr_inject by (auto simp: inv_dots_def defs)
  moreover have "inv_names ?f" using I(5) n by (auto simp: inv_names_def defs split: if_splits)
  moreover have "inv_index ?f" using I(6) by (auto simp: inv_index_def defs)
  moreover have "inv_root ?f" using I(7) fresh(3) by (auto simp: inv_root_def defs)
  ultimately show ?thesis by (simp add: fs_inv_def)
qed

lemma fs_inv_undent:
  assumes "fs_inv f" "proper n"
  shows "fs_inv (fs_undent p n f)"
  using assms unfolding fs_inv_def by (auto simp: fs_invs fs_undent_def proper_def)

text \<open>An inode other than the root that no entry names can be removed.\<close>

lemma fs_inv_remove:
  assumes f: "fs_inv f" and i: "i \<noteq> rootIno"
    and free: "\<And>p n. proper n \<Longrightarrow> f_dent f p n \<noteq> Some (format_uint i)"
  shows "fs_inv (fs_remove i f)"
proof -
  have I: "inv_ino f" "inv_link f" "inv_dent f" "inv_dots f" "inv_names f" "inv_index f" "inv_root f"
    using f by (simp_all add: fs_inv_def)
  have "inv_ino (fs_remove i f)" "inv_link (fs_remove i f)" "inv_dots (fs_remove i f)"
    "inv_names (fs_remove i f)" "inv_index (fs_remove i f)" "inv_root (fs_remove i f)"
    using I i by (auto simp: fs_invs fs_remove_def)
  moreover have "inv_dent (fs_remove i f)"
    using I(3) free unfolding inv_dent_def fs_remove_def by fastforce
  ultimately show ?thesis by (simp add: fs_inv_def)
qed

lemma fs_inv_rmdir:
  assumes f: "fs_inv f" and gone: "f_ino f i = None"
  shows "fs_inv (fs_rmdir i f)"
  using assms unfolding fs_inv_def by (auto simp: fs_invs fs_rmdir_def)

text \<open>The back link of an inode names the only entry it has.\<close>

lemma dent_unique:
  assumes "fs_inv f" "f_dent f p n = Some (format_uint i)" "f_dent f p' n' = Some (format_uint i)"
    "proper n" "proper n'"
  shows "p' = p \<and> n' = n"
proof -
  have "f_link f i = Some (encodeInodeLink p n)" "f_link f i = Some (encodeInodeLink p' n')"
    using assms unfolding fs_inv_def inv_dent_def by fastforce+
  then show ?thesis using assms(4,5) by (simp add: encodeInodeLink_inject proper_def)
qed

lemma dent_not_root:
  assumes "fs_inv f" "f_dent f p n = Some (format_uint i)" "proper n"
  shows "i \<noteq> rootIno"
  using assms unfolding fs_inv_def inv_dent_def inv_link_def by (metis format_uint_inject)

lemma fs_inv_rename:
  assumes f: "fs_inv f" and old: "f_dent f p n = Some (format_uint i)" "proper n"
    and new: "proper n'" "f_dent f p' n' = None"
  shows "fs_inv (fs_rename p n p' n' i f)"
proof -
  let ?f = "fs_rename p n p' n' i f"
  note defs = fs_rename_def fs_undent_def Let_def
  have I: "inv_ino f" "inv_link f" "inv_dent f" "inv_dots f" "inv_names f" "inv_index f" "inv_root f"
    using f by (simp_all add: fs_inv_def)
  have link: "f_ino f i \<noteq> None" "f_link f i \<noteq> None" using I(3) old unfolding inv_dent_def by fastforce+
  have "inv_ino ?f" "inv_dots ?f" "inv_names ?f" "inv_index ?f" "inv_root ?f"
    using I(1,4-7) new(1) old(2) by (auto simp: fs_invs defs proper_def)
  moreover have "inv_link ?f" using I(2) link(2) new(1) by (auto simp: inv_link_def defs)
  moreover have "inv_dent ?f"
    unfolding inv_dent_def
  proof (intro allI impI)
    fix q k v
    assume v: "f_dent ?f q k = Some v" and k: "proper k"
    show "\<exists>j. v = format_uint j \<and> f_ino ?f j \<noteq> None \<and> f_link ?f j = Some (encodeInodeLink q k)"
    proof (cases "q = p' \<and> k = n'")
      case True
      with v link(1) show ?thesis by (auto simp: defs)
    next
      case False
      then have old_v: "f_dent f q k = Some v" and ne: "\<not> (q = p \<and> k = n)"
        using v by (auto simp: defs split: if_splits)
      then obtain j where j: "v = format_uint j" "f_ino f j \<noteq> None" "f_link f j = Some (encodeInodeLink q k)"
        using I(3) k unfolding inv_dent_def by blast
      have "j \<noteq> i" using dent_unique [OF f old(1) _ old(2) k] old_v j(1) ne by auto
      with j show ?thesis by (auto simp: defs)
    qed
  qed
  ultimately show ?thesis by (simp add: fs_inv_def)
qed

lemma fs_inv_update:
  assumes f: "fs_inv f" and a: "attr_ok a"
    and b: "f_ino f (at_ino a) = Some (marshal_attr b)" "attr_ok b" "is_dir a \<longleftrightarrow> is_dir b"
  shows "fs_inv (fs_update a f)"
proof -
  let ?f = "fs_update a f"
  have I: "inv_ino f" "inv_link f" "inv_dent f" "inv_dots f" "inv_names f" "inv_index f" "inv_root f"
    using f by (simp_all add: fs_inv_def)
  have ino: "at_ino b = at_ino a"
    using I(1) b marshal_attr_inject unfolding inv_ino_def by metis
  have "inv_ino ?f" "inv_link ?f" "inv_names ?f" "inv_index ?f"
    using I a b by (auto simp: inv_ino_def inv_link_def inv_names_def inv_index_def fs_update_def)
  moreover have "inv_dent ?f" using I(3) by (fastforce simp: inv_dent_def fs_update_def)
  moreover have "inv_dots ?f"
    unfolding inv_dots_def
  proof (intro allI impI)
    fix c
    assume c: "f_ino ?f (at_ino c) = Some (marshal_attr c)" "attr_ok c" "is_dir c" "at_ino c \<noteq> rootIno"
    show "f_dent ?f (at_ino c) ''.'' \<noteq> None \<and> f_dent ?f (at_ino c) ''..'' \<noteq> None"
    proof (cases "at_ino c = at_ino a")
      case True
      with c a have "c = a" using marshal_attr_inject by (simp add: fs_update_def)
      with c b ino I(4) [unfolded inv_dots_def, rule_format, of b] show ?thesis by (simp add: fs_update_def)
    next
      case False
      with c I(4) show ?thesis by (simp add: inv_dots_def fs_update_def)
    qed
  qed
  moreover have "inv_root ?f"
  proof (cases "at_ino a = rootIno")
    case True
    with I(7) b a have "is_dir a" using marshal_attr_inject by (auto simp: inv_root_def)
    with True a show ?thesis by (auto simp: inv_root_def fs_update_def)
  next
    case False
    with I(7) show ?thesis by (auto simp: inv_root_def fs_update_def)
  qed
  ultimately show ?thesis by (simp add: fs_inv_def)
qed

text \<open>A directory with at most two entries has no entry beside \<open>.\<close> and \<open>..\<close>.\<close>

lemma empty_dir:
  assumes f: "fs_inv f" and a: "f_ino f (at_ino a) = Some (marshal_attr a)" "attr_ok a" "is_dir a"
    "at_ino a \<noteq> rootIno" and c: "card (dom (f_dent f (at_ino a))) \<le> 2" and fin: "finite (dom (f_dent f (at_ino a)))"
  shows "dom (f_dent f (at_ino a)) = {''.'', ''..''}"
proof -
  have "{''.'', ''..''} \<subseteq> dom (f_dent f (at_ino a))"
    using f a unfolding fs_inv_def inv_dots_def by blast
  then show ?thesis using c fin by (intro card_seteq [symmetric]) auto
qed

end
