(* ===== verification/Meta_Correct.thy ===== *)
theory Meta_Correct
  imports Meta_Spec
begin

text \<open>
  The correctness of the metadata store. \<open>run_meta\<close> runs one operation of \<open>LocalStore\<close>; \<open>fs_step\<close>
  is the step relation of the specification. Every operation, over either backend and for every
  behaviour of Raft, is a step of the specification that succeeds only with its full effect
  (\<open>run_meta_refines\<close>), and the steps keep the invariant.
\<close>

section \<open>Operations as data\<close>

datatype meta_op =
    MMkdir u64 string u32 u32 u32 int
  | MCreate u64 string u32 u32 u32 int
  | MSymlink u64 string string u32 u32 int
  | MUnlink u64 string
  | MRmdir u64 string
  | MRename u64 u64 string string
  | MUpdateAttr attr
  | MPurge u64

definition drop_res :: "'a res \<times> kv \<Rightarrow> unit res \<times> kv" where
  "drop_res x = apfst (map_sum id (\<lambda>_. ())) x"

fun run_meta :: "meta_op \<Rightarrow> kv \<Rightarrow> unit res \<times> kv" where
  "run_meta (MMkdir p n mode uid gid now) s = drop_res (Mkdir p n mode uid gid now s)"
| "run_meta (MCreate p n mode uid gid now) s = drop_res (Create p n mode uid gid now s)"
| "run_meta (MSymlink p n t uid gid now) s = drop_res (Symlink p n t uid gid now s)"
| "run_meta (MUnlink p n) s = drop_res (Unlink p n s)"
| "run_meta (MRmdir p n) s = Rmdir p n s"
| "run_meta (MRename p p' n n') s = Rename p p' n n' s"
| "run_meta (MUpdateAttr a) s = UpdateAttr a s"
| "run_meta (MPurge i) s = PurgeInode i s"

definition dir_attr :: "u64 \<Rightarrow> u32 \<Rightarrow> u32 \<Rightarrow> u32 \<Rightarrow> int \<Rightarrow> attr" where
  "dir_attr i mode uid gid now = attr_zero\<lparr>at_ino := i, at_mode := mode OR 16384, at_uid := uid,
     at_gid := gid, at_mtime := now, at_nlink := 2\<rparr>"

definition file_attr :: "u64 \<Rightarrow> u32 \<Rightarrow> u32 \<Rightarrow> u32 \<Rightarrow> int \<Rightarrow> attr" where
  "file_attr i mode uid gid now = attr_zero\<lparr>at_ino := i, at_mode := mode OR 32768, at_uid := uid,
     at_gid := gid, at_mtime := now, at_nlink := 1\<rparr>"

definition link_attr :: "u64 \<Rightarrow> string \<Rightarrow> u32 \<Rightarrow> u32 \<Rightarrow> int \<Rightarrow> attr" where
  "link_attr i t uid gid now = attr_zero\<lparr>at_ino := i, at_mode := 41471, at_uid := uid, at_gid := gid,
     at_mtime := now, at_nlink := 1, at_target := t, at_size := of_nat (length t)\<rparr>"

section \<open>The specification\<close>

text \<open>
  A step may fail without an effect, or with nothing but a burnt inode number. The other rules
  give the guard and the effect of each operation; a Raft proposal that is applied although it
  reports an error has the same effect, so the rules leave the success flag open.
\<close>

inductive fs_step :: "meta_op \<Rightarrow> fs \<Rightarrow> bool \<Rightarrow> fs \<Rightarrow> bool" where
  fail: "fs_step x f False f"
| burn_dir: "fs_step (MMkdir p n mode uid gid now) f False (fs_alloc f)"
| burn_file: "fs_step (MCreate p n mode uid gid now) f False (fs_alloc f)"
| burn_link: "fs_step (MSymlink p n t uid gid now) f False (fs_alloc f)"
| mkdir: "\<lbrakk>proper n; f_dent f p n = None; a = dir_attr (f_next f + 1) mode uid gid now\<rbrakk> \<Longrightarrow>
    fs_step (MMkdir p n mode uid gid now) f ok (fs_add True p n a (fs_alloc f))"
| create: "\<lbrakk>proper n; f_dent f p n = None; a = file_attr (f_next f + 1) mode uid gid now\<rbrakk> \<Longrightarrow>
    fs_step (MCreate p n mode uid gid now) f ok (fs_add False p n a (fs_alloc f))"
| symlink: "\<lbrakk>proper n; f_dent f p n = None; a = link_attr (f_next f + 1) t uid gid now\<rbrakk> \<Longrightarrow>
    fs_step (MSymlink p n t uid gid now) f ok (fs_add False p n a (fs_alloc f))"
| unlink: "\<lbrakk>f_dent f p n = Some (format_uint i); f_ino f i = Some (marshal_attr a); attr_ok a;
     \<not> is_dir a\<rbrakk> \<Longrightarrow>
    fs_step (MUnlink p n) f ok (fs_remove i (fs_undent p n f))"
| rmdir: "\<lbrakk>f_dent f p n = Some (format_uint i); f_ino f i = Some (marshal_attr a); attr_ok a; is_dir a;
     dom (f_dent f i) = {''.'', ''..''}\<rbrakk> \<Longrightarrow>
    fs_step (MRmdir p n) f ok (fs_rmdir i (fs_remove i (fs_undent p n f)))"
| rename: "\<lbrakk>f_dent f p n = Some (format_uint i); proper n'; f_dent f p' n' = None\<rbrakk> \<Longrightarrow>
    fs_step (MRename p p' n n') f ok (fs_rename p n p' n' i f)"
| update: "fs_step (MUpdateAttr a) f ok (fs_update a f)"
| purge: "\<lbrakk>i \<noteq> rootIno; f_link f i = Some (encodeInodeLink p n); proper n\<rbrakk> \<Longrightarrow>
    fs_step (MPurge i) f ok (fs_remove i (fs_undent p n f))"
| purge_free: "\<lbrakk>i \<noteq> rootIno; f_link f i = None\<rbrakk> \<Longrightarrow> fs_step (MPurge i) f ok (fs_remove i f)"

text \<open>What a caller owes: names that are valid UTF-8, and attributes of an inode there is.\<close>

fun meta_op_ok :: "fs \<Rightarrow> meta_op \<Rightarrow> bool" where
  "meta_op_ok f (MMkdir p n mode uid gid now) \<longleftrightarrow> valid_utf8 n \<and> in_int64 now \<and> f_next f + 1 \<noteq> 0"
| "meta_op_ok f (MCreate p n mode uid gid now) \<longleftrightarrow> valid_utf8 n \<and> in_int64 now \<and> f_next f + 1 \<noteq> 0"
| "meta_op_ok f (MSymlink p n t uid gid now) \<longleftrightarrow>
     valid_utf8 n \<and> valid_utf8 t \<and> in_int64 now \<and> f_next f + 1 \<noteq> 0"
| "meta_op_ok f (MUnlink p n) \<longleftrightarrow> proper n"
| "meta_op_ok f (MRmdir p n) \<longleftrightarrow> proper n"
| "meta_op_ok f (MRename p p' n n') \<longleftrightarrow> proper n \<and> valid_utf8 n'"
| "meta_op_ok f (MUpdateAttr a) \<longleftrightarrow> attr_ok a \<and>
     (\<exists>b. f_ino f (at_ino a) = Some (marshal_attr b) \<and> attr_ok b \<and> is_dir a = is_dir b)"
| "meta_op_ok f (MPurge i) \<longleftrightarrow> True"

lemma at_ino_new [simp]:
  "at_ino (dir_attr i mode uid gid now) = i" "at_ino (file_attr i mode uid gid now) = i"
  "at_ino (link_attr i t uid gid now) = i"
  by (simp_all add: dir_attr_def file_attr_def link_attr_def)

lemma attr_ok_new [simp]:
  "in_int64 now \<Longrightarrow> attr_ok (dir_attr i mode uid gid now)"
  "in_int64 now \<Longrightarrow> attr_ok (file_attr i mode uid gid now)"
  "in_int64 now \<Longrightarrow> valid_utf8 t \<Longrightarrow> attr_ok (link_attr i t uid gid now)"
  by (simp_all add: dir_attr_def file_attr_def link_attr_def attr_ok_def attr_zero_def in_int64_def)

lemma is_dir_new [simp]:
  "\<not> is_dir (file_attr i mode uid gid now)" "\<not> is_dir (link_attr i t uid gid now)"
proof -
  have "file_attr i mode uid gid now = (file_attr i mode uid gid now)\<lparr>at_mode := mode OR 32768\<rparr>"
    by (simp add: file_attr_def)
  then show "\<not> is_dir (file_attr i mode uid gid now)" by (metis create_not_dir)
  show "\<not> is_dir (link_attr i t uid gid now)" by (simp add: is_dir_def link_attr_def)
qed

section \<open>Steps keep the invariant\<close>

theorem fs_step_inv:
  assumes "fs_step x f ok f'" "fs_inv f" "meta_op_ok f x"
  shows "fs_inv f'"
  using assms
proof (induction rule: fs_step.induct)
  case (unlink f p n i a ok)
  then have n: "proper n" by simp
  have "f_dent (fs_undent p n f) q k \<noteq> Some (format_uint i)" if "proper k" for q k
    using dent_unique [OF unlink.prems(1) unlink.hyps(1) _ n that] by (auto simp: fs_undent_def)
  then show ?case
    using unlink.prems n dent_not_root [OF unlink.prems(1) unlink.hyps(1) n]
    by (intro fs_inv_remove fs_inv_undent) auto
next
  case (rmdir f p n i a ok)
  then have n: "proper n" by simp
  have "f_dent (fs_undent p n f) q k \<noteq> Some (format_uint i)" if "proper k" for q k
    using dent_unique [OF rmdir.prems(1) rmdir.hyps(1) _ n that] by (auto simp: fs_undent_def)
  then show ?case
    using rmdir.prems n dent_not_root [OF rmdir.prems(1) rmdir.hyps(1) n]
    by (intro fs_inv_rmdir fs_inv_remove fs_inv_undent) (auto simp: fs_remove_def)
next
  case (purge i f p n ok)
  have "f_dent (fs_undent p n f) q k \<noteq> Some (format_uint i)" if k: "proper k" for q k
  proof
    assume d: "f_dent (fs_undent p n f) q k = Some (format_uint i)"
    then have "f_dent f q k = Some (format_uint i)" "\<not> (q = p \<and> k = n)"
      by (auto simp: fs_undent_def split: if_splits)
    then have "f_link f i = Some (encodeInodeLink q k)"
      using purge.prems(1) k unfolding fs_inv_def inv_dent_def by fastforce
    with purge.hyps(2,3) k have "q = p \<and> k = n" by (simp add: encodeInodeLink_inject proper_def)
    with \<open>\<not> (q = p \<and> k = n)\<close> show False by simp
  qed
  with purge show ?case by (intro fs_inv_remove fs_inv_undent) auto
next
  case (purge_free i f ok)
  have "f_dent f q k \<noteq> Some (format_uint i)" if "proper k" for q k
    using purge_free.prems(1) purge_free.hyps(2) that unfolding fs_inv_def inv_dent_def
    by (metis format_uint_inject option.distinct(1))
  with purge_free show ?case by (intro fs_inv_remove) auto
next
  case (update a f ok)
  then show ?case by (auto intro: fs_inv_update)
next
  case (mkdir n f p a mode uid gid now ok)
  then show ?case by (intro fs_inv_add) auto
next
  case (create n f p a mode uid gid now ok)
  then show ?case by (intro fs_inv_add) auto
next
  case (symlink n f p a t uid gid now ok)
  then show ?case by (intro fs_inv_add) auto
next
  case (rename f p n i n' p' ok)
  then show ?case by (intro fs_inv_rename) auto
qed (auto intro: fs_inv_alloc)

section \<open>The operations are steps of the specification\<close>

text \<open>Allocate a number and write a batch for it: nothing, a burnt number, or the batch.\<close>

lemma alloc_batch:
  assumes good: "\<And>i. \<forall>q \<in> set (ops i). op_good q"
    and run: "(case allocIno s of (Inl e, s1) \<Rightarrow> (Inl e, s1) | (Inr i, s1) \<Rightarrow>
        (case kv_batch (ops i) s1 of (Inl e, s2) \<Rightarrow> (Inl e, s2) | (Inr _, s2) \<Rightarrow> (Inr (a i), s2))) = (r, s')"
  defines "m1 \<equiv> snd (mem_incr nextInoKey (kv_mem s))" and "i \<equiv> incr_val (kv_mem s) nextInoKey + 1"
  shows "isl r \<and> (kv_mem s' = kv_mem s \<or> kv_mem s' = m1) \<or> kv_mem s' = snd (mem_batch (ops i) m1) \<and> (isl r \<or> r = Inr (a i))"
proof (cases "allocIno s")
  case (Pair x s1)
  show ?thesis
  proof (cases x)
    case (Inl e)
    then have "kv_mem s1 = kv_mem s \<or> kv_mem s1 = m1"
      using kv_incr_fail [of nextInoKey s e s1] Pair by (simp add: allocIno_def m1_def)
    with run Pair Inl show ?thesis by auto
  next
    case (Inr j)
    then have j: "j = i" "kv_mem s1 = m1"
      using kv_incr_ok [of nextInoKey s j s1] Pair by (simp_all add: allocIno_def m1_def i_def)
    obtain y s2 where b: "kv_batch (ops i) s1 = (y, s2)" by fastforce
    show ?thesis
    proof (cases y)
      case (Inl e)
      with run Pair Inr b j kvb.batch_fail [OF good b [unfolded Inl]] show ?thesis by auto
    next
      case Inr': (Inr u)
      with run Pair Inr b j kvb.batch_ok [OF good b [unfolded Inr']] show ?thesis by auto
    qed
  qed
qed

lemma view_alloc: "view (snd (mem_incr nextInoKey m)) = fs_alloc (view m)"
  by (simp add: fs_alloc_def)

lemma incr_val_view: "incr_val m nextInoKey = f_next (view m)"
  by (simp add: view_def)

lemma drop_res_isl [simp]: "isl (fst (drop_res x)) = isl (fst x)" "snd (drop_res x) = snd x"
  by (cases x; cases "fst x"; simp add: drop_res_def)+

lemma batch_add:
  "view (snd (mem_batch [op_hset (direntKey p) n (format_uint (at_ino a)), op_set (inoKey (at_ino a)) (marshal_attr a),
      op_sadd inodeIndexKey (format_uint (at_ino a)), op_set (inodeLinkKey (at_ino a)) (encodeInodeLink p n)] m))
   = fs_add False p n a (view m)"
  by (simp add: fs_add_def Let_def)

lemma batch_add_dots:
  "view (snd (mem_batch [op_hset (direntKey p) n (format_uint (at_ino a)), op_set (inoKey (at_ino a)) (marshal_attr a),
      op_hset (direntKey (at_ino a)) ''.'' (format_uint (at_ino a)),
      op_hset (direntKey (at_ino a)) ''..'' (format_uint p),
      op_sadd inodeIndexKey (format_uint (at_ino a)), op_set (inodeLinkKey (at_ino a)) (encodeInodeLink p n)] m))
   = fs_add True p n a (view m)"
  by (simp add: fs_add_def Let_def)

text \<open>The three operations that create an inode differ in its attributes and in the dot entries.\<close>

definition add_ops :: "bool \<Rightarrow> u64 \<Rightarrow> string \<Rightarrow> (u64 \<Rightarrow> attr) \<Rightarrow> u64 \<Rightarrow> op list" where
  "add_ops dots p n a i =
     [op_hset (direntKey p) n (format_uint i), op_set (inoKey i) (marshal_attr (a i))]
     @ (if dots then [op_hset (direntKey i) ''.'' (format_uint i), op_hset (direntKey i) ''..'' (format_uint p)] else [])
     @ [op_sadd inodeIndexKey (format_uint i), op_set (inodeLinkKey i) (encodeInodeLink p n)]"

lemma add_refines:
  assumes "valid_utf8 n" "\<And>i. at_ino (a i) = i"
    and run: "(case allocIno s of (Inl e, s1) \<Rightarrow> (Inl e, s1) | (Inr i, s1) \<Rightarrow>
        (case kv_batch (add_ops dots p n a i) s1 of (Inl e, s2) \<Rightarrow> (Inl e, s2) | (Inr _, s2) \<Rightarrow> (Inr (a i), s2))) = (r, s')"
    and step: "\<And>f ok. f = view (kv_mem s) \<Longrightarrow> fs_step x f ok (fs_add dots p n (a (f_next f + 1)) (fs_alloc f))"
    and burn: "fs_step x (view (kv_mem s)) False (fs_alloc (view (kv_mem s)))"
  shows "fs_step x (view (kv_mem s)) (\<not> isl r) (view (kv_mem s'))"
proof -
  let ?f = "view (kv_mem s)" and ?m1 = "snd (mem_incr nextInoKey (kv_mem s))"
  have good: "\<forall>q \<in> set (add_ops dots p n a i). op_good q" for i
    using assms(1) by (auto simp: add_ops_def)
  have "view (snd (mem_batch (add_ops dots p n a i) ?m1)) = fs_add dots p n (a i) (fs_alloc ?f)" for i
    using batch_add [of p n "a i" ?m1] batch_add_dots [of p n "a i" ?m1] assms(2) [of i]
    by (cases dots) (simp_all only: add_ops_def append.simps if_True if_False view_alloc)
  then consider "isl r" "view (kv_mem s') = ?f" | "isl r" "view (kv_mem s') = fs_alloc ?f"
    | "view (kv_mem s') = fs_add dots p n (a (f_next ?f + 1)) (fs_alloc ?f)"
    using alloc_batch [OF good run]
    by (auto simp: incr_val_view view_alloc simp del: view_ops)
  then show ?thesis
    by cases (use burn step in \<open>simp_all add: fs_step.fail\<close>)
qed

lemma Mkdir_refines:
  assumes "valid_utf8 n" "Mkdir p n mode uid gid now s = (r, s')"
  shows "fs_step (MMkdir p n mode uid gid now) (view (kv_mem s)) (\<not> isl r) (view (kv_mem s'))"
proof (cases "checkName n = Inr () \<and> \<not> kv_hexists s (direntKey p) n")
  case False
  with assms(2) show ?thesis by (auto simp: Mkdir_def checkName_def intro: fs_step.fail split: if_splits)
next
  case True
  show ?thesis
  proof (rule add_refines [where dots = True and a = "\<lambda>i. dir_attr i mode uid gid now"])
    show "(case allocIno s of (Inl e, s1) \<Rightarrow> (Inl e, s1) | (Inr i, s1) \<Rightarrow>
        (case kv_batch (add_ops True p n (\<lambda>i. dir_attr i mode uid gid now) i) s1 of
          (Inl e, s2) \<Rightarrow> (Inl e, s2) | (Inr _, s2) \<Rightarrow> (Inr (dir_attr i mode uid gid now), s2))) = (r, s')"
      using assms(2) True
      unfolding Mkdir_def dir_attr_def add_ops_def Let_def append.simps if_True if_False by simp
  qed (use True assms(1) in \<open>auto simp: proper_def view_reads intro!: fs_step.mkdir fs_step.burn_dir\<close>)
qed

lemma Create_refines:
  assumes "valid_utf8 n" "Create p n mode uid gid now s = (r, s')"
  shows "fs_step (MCreate p n mode uid gid now) (view (kv_mem s)) (\<not> isl r) (view (kv_mem s'))"
proof (cases "checkName n = Inr () \<and> \<not> kv_hexists s (direntKey p) n")
  case False
  with assms(2) show ?thesis by (auto simp: Create_def checkName_def intro: fs_step.fail split: if_splits)
next
  case True
  show ?thesis
  proof (rule add_refines [where dots = False and a = "\<lambda>i. file_attr i mode uid gid now"])
    show "(case allocIno s of (Inl e, s1) \<Rightarrow> (Inl e, s1) | (Inr i, s1) \<Rightarrow>
        (case kv_batch (add_ops False p n (\<lambda>i. file_attr i mode uid gid now) i) s1 of
          (Inl e, s2) \<Rightarrow> (Inl e, s2) | (Inr _, s2) \<Rightarrow> (Inr (file_attr i mode uid gid now), s2))) = (r, s')"
      using assms(2) True
      unfolding Create_def file_attr_def add_ops_def Let_def append.simps if_True if_False by simp
  qed (use True assms(1) in \<open>auto simp: proper_def view_reads intro!: fs_step.create fs_step.burn_file\<close>)
qed

lemma Symlink_refines:
  assumes "valid_utf8 n" "Symlink p n t uid gid now s = (r, s')"
  shows "fs_step (MSymlink p n t uid gid now) (view (kv_mem s)) (\<not> isl r) (view (kv_mem s'))"
proof (cases "checkName n = Inr () \<and> \<not> kv_hexists s (direntKey p) n")
  case False
  with assms(2) show ?thesis by (auto simp: Symlink_def checkName_def intro: fs_step.fail split: if_splits)
next
  case True
  show ?thesis
  proof (rule add_refines [where dots = False and a = "\<lambda>i. link_attr i t uid gid now"])
    show "(case allocIno s of (Inl e, s1) \<Rightarrow> (Inl e, s1) | (Inr i, s1) \<Rightarrow>
        (case kv_batch (add_ops False p n (\<lambda>i. link_attr i t uid gid now) i) s1 of
          (Inl e, s2) \<Rightarrow> (Inl e, s2) | (Inr _, s2) \<Rightarrow> (Inr (link_attr i t uid gid now), s2))) = (r, s')"
      using assms(2) True
      unfolding Symlink_def link_attr_def add_ops_def Let_def append.simps if_True if_False by simp
  qed (use True assms(1) in \<open>auto simp: proper_def view_reads intro!: fs_step.symlink fs_step.burn_link\<close>)
qed

lemma inv_lookup:
  assumes "fs_inv f" "f_dent f p n = Some d" "proper n"
  obtains i a where "d = format_uint i" "f_ino f i = Some (marshal_attr a)" "attr_ok a" "at_ino a = i"
proof -
  obtain i where i: "d = format_uint i" "f_ino f i \<noteq> None"
    using assms unfolding fs_inv_def inv_dent_def by blast
  then obtain a where "f_ino f i = Some (marshal_attr a)" "attr_ok a" "at_ino a = i"
    using assms(1) unfolding fs_inv_def inv_ino_def by blast
  with i that show thesis by blast
qed

lemma GetAttr_view:
  "f_ino (view (kv_mem s)) i = Some (marshal_attr a) \<Longrightarrow> attr_ok a \<Longrightarrow> GetAttr s i = Inr a"
  by (simp add: GetAttr_def view_reads unmarshal_marshal_attr)

text \<open>A batch whose effect is a step is a step, whatever becomes of the proposal.\<close>

lemma batch_step:
  assumes "\<forall>q \<in> set qs. op_good q" "kv_batch qs s = (r, s')"
    and "\<And>ok. fs_step x (view (kv_mem s)) ok (view (snd (mem_batch qs (kv_mem s))))"
  shows "fs_step x (view (kv_mem s)) (\<not> isl r) (view (kv_mem s'))"
proof (cases r)
  case (Inl e)
  then have "kv_mem s' = kv_mem s \<or> kv_mem s' = snd (mem_batch qs (kv_mem s))"
    using kvb.batch_fail [OF assms(1)] assms(2) by blast
  then show ?thesis using Inl assms(3) [of False] fs_step.fail by auto
next
  case (Inr u)
  then have "kv_mem s' = snd (mem_batch qs (kv_mem s))" using kvb.batch_ok [OF assms(1)] assms(2) by blast
  then show ?thesis using Inr assms(3) [of True] by simp
qed

lemma batch_remove:
  "view (snd (mem_batch [op_del (inoKey i), op_srem inodeIndexKey (format_uint i), op_del (inodeLinkKey i)] m))
     = fs_remove i (view m)"
  "view (snd (mem_batch [op_hdel (direntKey p) n, op_del (inoKey i), op_srem inodeIndexKey (format_uint i),
      op_del (inodeLinkKey i)] m)) = fs_remove i (fs_undent p n (view m))"
  "view (snd (mem_batch [op_hdel (direntKey p) n, op_del (inoKey i), op_del (direntKey i),
      op_srem inodeIndexKey (format_uint i), op_del (inodeLinkKey i)] m))
     = fs_rmdir i (fs_remove i (fs_undent p n (view m)))"
  by (cases "view m"; simp add: fs_remove_def fs_undent_def fs_rmdir_def)+

lemma batch_rename:
  "view (snd (mem_batch [op_hdel (direntKey p) n, op_hset (direntKey p') n' (format_uint i),
      op_set (inodeLinkKey i) (encodeInodeLink p' n')] m)) = fs_rename p n p' n' i (view m)"
  by (cases "view m"; simp add: fs_rename_def fs_undent_def Let_def)

lemma Unlink_refines:
  assumes inv: "meta_inv (kv_mem s)" and n: "proper n" and run: "Unlink p n s = (r, s')"
  shows "fs_step (MUnlink p n) (view (kv_mem s)) (\<not> isl r) (view (kv_mem s'))"
proof (cases "f_dent (view (kv_mem s)) p n")
  case None
  with run show ?thesis by (auto simp: Unlink_def view_reads intro: fs_step.fail)
next
  case (Some d)
  obtain i a where i: "d = format_uint i" "f_ino (view (kv_mem s)) i = Some (marshal_attr a)" "attr_ok a"
    using inv_lookup [OF _ Some n] inv unfolding meta_inv_def by blast
  let ?ops = "[op_hdel (direntKey p) n, op_del (inoKey i), op_srem inodeIndexKey (format_uint i), op_del (inodeLinkKey i)]"
  obtain y s1 where b: "kv_batch ?ops s = (y, s1)" by fastforce
  have get: "GetAttr s i = Inr a" using i by (simp add: GetAttr_view)
  show ?thesis
  proof (cases "is_dir a")
    case True
    with run Some i get show ?thesis by (auto simp: Unlink_def view_reads intro: fs_step.fail)
  next
    case False
    have "fs_step (MUnlink p n) (view (kv_mem s)) (\<not> isl y) (view (kv_mem s1))"
    proof (rule batch_step [OF _ b])
      show "fs_step (MUnlink p n) (view (kv_mem s)) ok (view (snd (mem_batch ?ops (kv_mem s))))" for ok
        unfolding batch_remove using fs_step.unlink [of "view (kv_mem s)" p n i a ok] Some i False by simp
    qed (use n in \<open>simp add: proper_def\<close>)
    moreover have "isl r = isl y \<and> s' = s1"
      using run Some i(1) False b by (cases y) (auto simp: Unlink_def view_reads get)
    ultimately show ?thesis by simp
  qed
qed

lemma Rmdir_refines:
  assumes inv: "meta_inv (kv_mem s)" and n: "proper n" and run: "Rmdir p n s = (r, s')"
  shows "fs_step (MRmdir p n) (view (kv_mem s)) (\<not> isl r) (view (kv_mem s'))"
proof (cases "f_dent (view (kv_mem s)) p n")
  case None
  with run show ?thesis by (auto simp: Rmdir_def view_reads intro: fs_step.fail)
next
  case (Some d)
  let ?f = "view (kv_mem s)"
  have f: "fs_inv ?f" and wf: "mem_wf (kv_mem s)" using inv by (simp_all add: meta_inv_def)
  obtain i a where i: "d = format_uint i" "f_ino ?f i = Some (marshal_attr a)" "attr_ok a" "at_ino a = i"
    using inv_lookup [OF f Some n] by blast
  let ?ops = "[op_hdel (direntKey p) n, op_del (inoKey i), op_del (direntKey i),
              op_srem inodeIndexKey (format_uint i), op_del (inodeLinkKey i)]"
  have get: "GetAttr s i = Inr a" using i by (simp add: GetAttr_view)
  show ?thesis
  proof (cases "is_dir a \<and> kv_hlen s (direntKey i) \<le> 2")
    case False
    with run Some i get show ?thesis by (auto simp: Rmdir_def view_reads intro: fs_step.fail split: if_splits)
  next
    case True
    have "finite (dom (f_dent ?f i))" by (simp add: view_def mem_hgetall_fun [symmetric] finite_dom_map_of)
    moreover have "i \<noteq> rootIno" using dent_not_root [OF f, of p n i] Some i(1) n by simp
    ultimately have dom: "dom (f_dent ?f i) = {''.'', ''..''}"
      using empty_dir [OF f, of a] i True by (simp add: kv_hlen_card [OF wf])
    show ?thesis
    proof (rule batch_step)
      show "kv_batch ?ops s = (r, s')" using run Some i get True by (simp add: Rmdir_def view_reads)
      show "fs_step (MRmdir p n) ?f ok (view (snd (mem_batch ?ops (kv_mem s))))" for ok
        unfolding batch_remove using fs_step.rmdir [of ?f p n i a ok] Some i True dom by simp
    qed (use n in \<open>simp add: proper_def\<close>)
  qed
qed

lemma Rename_refines:
  assumes inv: "meta_inv (kv_mem s)" and n: "proper n" "valid_utf8 n'" and run: "Rename p p' n n' s = (r, s')"
  shows "fs_step (MRename p p' n n') (view (kv_mem s)) (\<not> isl r) (view (kv_mem s'))"
proof (cases "f_dent (view (kv_mem s)) p n \<noteq> None \<and> f_dent (view (kv_mem s)) p' n' = None \<and> checkName n' = Inr ()")
  case False
  then show ?thesis using run
    by (auto simp: Rename_def view_reads checkName_def intro: fs_step.fail split: if_splits option.splits)
next
  case True
  let ?f = "view (kv_mem s)"
  have f: "fs_inv ?f" using inv by (simp add: meta_inv_def)
  obtain i where i: "f_dent ?f p n = Some (format_uint i)"
    using True inv_lookup [OF f _ n(1)] by (metis not_Some_eq)
  let ?ops = "[op_hdel (direntKey p) n, op_hset (direntKey p') n' (format_uint i),
             op_set (inodeLinkKey i) (encodeInodeLink p' n')]"
  show ?thesis
  proof (rule batch_step)
    show "kv_batch ?ops s = (r, s')" using run True i by (simp add: Rename_def view_reads)
    show "fs_step (MRename p p' n n') ?f ok (view (snd (mem_batch ?ops (kv_mem s))))" for ok
      unfolding batch_rename using fs_step.rename [of ?f p n i n' p' ok] True i n by (simp add: proper_def)
  qed (use n in \<open>simp add: proper_def\<close>)
qed

lemma UpdateAttr_refines:
  assumes "UpdateAttr a s = (r, s')"
  shows "fs_step (MUpdateAttr a) (view (kv_mem s)) (\<not> isl r) (view (kv_mem s'))"
proof -
  let ?q = "op_set (inoKey (at_ino a)) (marshal_attr a)"
  have e: "kv_effect r [?q] (kv_mem s) (kv_mem s')"
    using kv_set_effect [of "inoKey (at_ino a)" "marshal_attr a" s] assms by (simp add: UpdateAttr_def)
  have "view (snd (mem_batch [?q] (kv_mem s))) = fs_update a (view (kv_mem s))"
    by (simp add: fs_update_def)
  with e kv_effect_single [OF e] show ?thesis
    by (cases "isl r") (auto simp: kv_effect_def intro: fs_step.fail fs_step.update simp del: mem_batch.simps(2))
qed

lemma PurgeInode_refines:
  assumes inv: "meta_inv (kv_mem s)" and run: "PurgeInode i s = (r, s')"
  shows "fs_step (MPurge i) (view (kv_mem s)) (\<not> isl r) (view (kv_mem s'))"
proof (cases "i = rootIno")
  case True
  with run show ?thesis by (auto simp: PurgeInode_def intro: fs_step.fail)
next
  case False
  let ?f = "view (kv_mem s)"
  let ?ops = "[op_del (inoKey i), op_srem inodeIndexKey (format_uint i), op_del (inodeLinkKey i)]"
  show ?thesis
  proof (cases "f_link ?f i")
    case None
    show ?thesis
    proof (rule batch_step)
      show "kv_batch ?ops s = (r, s')" using run False None by (simp add: PurgeInode_def view_reads)
      show "fs_step (MPurge i) ?f ok (view (snd (mem_batch ?ops (kv_mem s))))" for ok
        unfolding batch_remove using fs_step.purge_free [of i ?f ok] False None by simp
    qed simp
  next
    case (Some d)
    then obtain p n where pn: "d = encodeInodeLink p n" "proper n"
      using inv unfolding meta_inv_def fs_inv_def inv_link_def by blast
    show ?thesis
    proof (rule batch_step)
      show "kv_batch (op_hdel (direntKey p) n # ?ops) s = (r, s')"
        using run False Some pn by (simp add: PurgeInode_def view_reads unmarshal_encode_link proper_def)
      show "fs_step (MPurge i) ?f ok (view (snd (mem_batch (op_hdel (direntKey p) n # ?ops) (kv_mem s))))" for ok
        unfolding batch_remove using fs_step.purge [of i ?f p n ok] False Some pn by simp
    qed (use pn in \<open>simp add: proper_def\<close>)
  qed
qed

section \<open>Every operation keeps the representation of the store\<close>

lemma raft_submit_wf: "mem_wf m \<Longrightarrow> mem_wf (snd (snd (raft_submit d r m)))"
  by (auto simp: raft_submit_def Let_def mem_wf_fsm_apply split: outcome.split)

lemma kv_wf [wf_intros]:
  assumes "mem_wf (kv_mem s)"
  shows "mem_wf (kv_mem (snd (kv_batch qs s)))" "mem_wf (kv_mem (snd (kv_incr k s)))"
    "mem_wf (kv_mem (snd (kv_set k v s)))"
proof -
  have sub: "mem_wf m'" if "raft_submit d r (kv_mem s) = (x, r', m')" for d r x r' m'
    using raft_submit_wf [OF assms, of d r] that by simp
  show "mem_wf (kv_mem (snd (kv_batch qs s)))" "mem_wf (kv_mem (snd (kv_set k v s)))"
    using assms by (auto simp: kv_batch_def kv_set_def with_raft_def raft_batch_def raft_apply_batch_def
        raft_apply_def split: option.splits prod.splits if_splits dest: sub)
  show "mem_wf (kv_mem (snd (kv_incr k s)))"
    using assms by (auto simp: kv_incr_def with_raft_def raft_incr_def raft_apply_def
        split: option.splits prod.splits sum.splits dest: sub)
qed

lemma kv_wf_alloc:
  "mem_wf (kv_mem s) \<Longrightarrow> mem_wf (kv_mem (snd (case allocIno s of (Inl e, s1) \<Rightarrow> (Inl e, s1) | (Inr i, s1) \<Rightarrow>
        (case kv_batch (ops i) s1 of (Inl e, s2) \<Rightarrow> (Inl e, s2) | (Inr _, s2) \<Rightarrow> (Inr (a i), s2)))))"
  using kv_wf(2) [of s nextInoKey] kv_wf(1)
  by (auto simp: allocIno_def split: prod.splits sum.splits) (metis kv_wf(1) snd_conv)+

lemma run_meta_wf: "mem_wf (kv_mem s) \<Longrightarrow> mem_wf (kv_mem (snd (run_meta x s)))"
proof (cases x)
  case (MMkdir p n mode uid gid now)
  assume "mem_wf (kv_mem s)"
  then have "mem_wf (kv_mem (snd (Mkdir p n mode uid gid now s)))"
    unfolding Mkdir_def Let_def by (simp add: checkName_def kv_wf_alloc)
  with MMkdir show ?thesis by simp
next
  case (MCreate p n mode uid gid now)
  assume "mem_wf (kv_mem s)"
  then have "mem_wf (kv_mem (snd (Create p n mode uid gid now s)))"
    unfolding Create_def Let_def by (simp add: checkName_def kv_wf_alloc)
  with MCreate show ?thesis by simp
next
  case (MSymlink p n t uid gid now)
  assume "mem_wf (kv_mem s)"
  then have "mem_wf (kv_mem (snd (Symlink p n t uid gid now s)))"
    unfolding Symlink_def Let_def by (simp add: checkName_def kv_wf_alloc)
  with MSymlink show ?thesis by simp
next
  case (MUnlink p n)
  assume wf: "mem_wf (kv_mem s)"
  have "mem_wf (kv_mem (snd (case kv_batch ops s of (Inl e, s1) \<Rightarrow> (Inl e, s1) | (Inr _, s1) \<Rightarrow> (Inr a, s1))))" for ops a
    using kv_wf(1) [OF wf, of ops] by (auto split: prod.splits sum.splits)
  then show ?thesis using MUnlink wf by (auto simp: Unlink_def split: sum.split)
qed (auto simp: Rmdir_def Rename_def UpdateAttr_def PurgeInode_def Let_def kv_wf split: sum.split)

lemma run_meta_step:
  assumes "meta_inv (kv_mem s)" "meta_op_ok (view (kv_mem s)) x"
  shows "fs_step x (view (kv_mem s)) (\<not> isl (fst (run_meta x s))) (view (kv_mem (snd (run_meta x s))))"
proof (cases x)
  case (MMkdir p n mode uid gid now)
  with assms show ?thesis by (auto intro!: Mkdir_refines [where s' = "snd (Mkdir p n mode uid gid now s)"])
next
  case (MCreate p n mode uid gid now)
  with assms show ?thesis by (auto intro!: Create_refines [where s' = "snd (Create p n mode uid gid now s)"])
next
  case (MSymlink p n t uid gid now)
  with assms show ?thesis by (auto intro!: Symlink_refines [where s' = "snd (Symlink p n t uid gid now s)"])
next
  case (MUnlink p n)
  with assms show ?thesis by (auto intro!: Unlink_refines [where s' = "snd (Unlink p n s)"])
qed (use assms in \<open>auto intro!: Rmdir_refines Rename_refines UpdateAttr_refines PurgeInode_refines\<close>)

section \<open>Properties\<close>


text \<open>The states the operations lead to from a fresh store.\<close>

inductive meta_reach :: "kv \<Rightarrow> bool" where
  init: "\<lbrakk>kv_mem s0 = new_memory_kv; in_int64 now; initRoot uid gid now s0 = (x, s);
          kv_exists s (inoKey rootIno)\<rbrakk> \<Longrightarrow> meta_reach s"
| step: "\<lbrakk>meta_reach s; meta_op_ok (view (kv_mem s)) x\<rbrakk> \<Longrightarrow> meta_reach (snd (run_meta x s))"

lemma view_new [simp]:
  "view new_memory_kv = \<lparr>f_ino = \<lambda>_. None, f_link = \<lambda>_. None, f_dent = \<lambda>_ _. None, f_index = {}, f_next = 0\<rparr>"
  by (simp add: view_def new_memory_kv_def hash_fun_def set_fun_def incr_val_def fun_eq_iff)

lemma root_attr_facts [simp]:
  "at_ino (root_attr uid gid now) = rootIno" "is_dir (root_attr uid gid now)"
  "in_int64 now \<Longrightarrow> attr_ok (root_attr uid gid now)"
  by (simp_all add: root_attr_def attr_zero_def is_dir_def attr_ok_def in_int64_def)

definition root_ops :: "u32 \<Rightarrow> u32 \<Rightarrow> int \<Rightarrow> op list" where
  "root_ops uid gid now = [op_set (inoKey rootIno) (marshal_attr (root_attr uid gid now)), op_incr nextInoKey,
     op_sadd inodeIndexKey (format_uint rootIno)]"

lemma fs_inv_init:
  assumes "in_int64 now"
  shows "fs_inv (view (snd (mem_batch (root_ops uid gid now) new_memory_kv)))"
proof -
  have v: "view (snd (mem_batch (root_ops uid gid now) new_memory_kv)) =
      \<lparr>f_ino = (\<lambda>_. None)(rootIno := Some (marshal_attr (root_attr uid gid now))), f_link = \<lambda>_. None,
       f_dent = \<lambda>_ _. None, f_index = {format_uint rootIno}, f_next = 1\<rparr>"
    by (simp add: root_ops_def)
  have "is_dir a \<Longrightarrow> at_ino a \<noteq> rootIno \<Longrightarrow> marshal_attr a \<noteq> marshal_attr (root_attr uid gid now) \<or> \<not> attr_ok a" for a
    using marshal_attr_inject assms by (metis root_attr_facts(1,3))
  then show ?thesis unfolding v fs_inv_def
    by (auto simp: fs_invs assms rootIno_def intro!: exI [of _ "root_attr uid gid now"])
qed

lemma meta_inv_init:
  assumes "kv_mem s0 = new_memory_kv" "in_int64 now" "initRoot uid gid now s0 = (x, s)" "kv_exists s (inoKey rootIno)"
  shows "meta_inv (kv_mem s)"
proof -
  have new: "\<not> mem_exists new_memory_kv k" for k by (simp add: mem_exists_def new_memory_kv_def)
  have good: "\<forall>q \<in> set (root_ops uid gid now). op_good q" by (simp add: root_ops_def)
  have "kv_mem s = kv_mem s0 \<or> kv_mem s = kv_mem (snd (kv_batch (root_ops uid gid now) s0))"
    using assms(3) unfolding initRoot_def root_ops_def [symmetric]
    by (auto split: if_splits prod.splits sum.splits)
  then have "kv_mem s = snd (mem_batch (root_ops uid gid now) new_memory_kv)"
    using kvb.batch_atomic [OF good, of s0] assms(1,4) new by (auto simp: kv_reads)
  then show ?thesis using fs_inv_init [OF assms(2)] by (simp add: meta_inv_def)
qed


end
