(* ===== verification/Meta_Props.thy ===== *)
theory Meta_Props
  imports Meta_Correct
begin

text \<open>
  What callers of the metadata store see: lookups, listings and paths on states that satisfy the
  invariant, the results of the operations over a plain store, their errors, and two behaviours
  of \<open>Rename\<close> and \<open>Rmdir\<close> that do not fit the rest of the code.
\<close>

lemma Lookup_view:
  "f_dent (view (kv_mem s)) p n = Some (format_uint i) \<Longrightarrow> f_ino (view (kv_mem s)) i = Some (marshal_attr a) \<Longrightarrow>
     attr_ok a \<Longrightarrow> Lookup s p n = Inr a"
  by (simp add: Lookup_def view_reads GetAttr_view)

lemma Lookup_none: "f_dent (view (kv_mem s)) p n = None \<Longrightarrow> Lookup s p n = Inl ErrNotFound"
  by (simp add: Lookup_def view_reads)

lemma Lookup_cong:
  assumes inv: "meta_inv (kv_mem s)" and k: "proper k"
    and d: "f_dent (view (kv_mem s')) q k = f_dent (view (kv_mem s)) q k"
    and i: "\<And>i. f_dent (view (kv_mem s)) q k = Some (format_uint i) \<Longrightarrow>
      f_ino (view (kv_mem s')) i = f_ino (view (kv_mem s)) i"
  shows "Lookup s' q k = Lookup s q k"
proof (cases "f_dent (view (kv_mem s)) q k")
  case None
  with d show ?thesis by (simp add: Lookup_none)
next
  case (Some v)
  obtain j a where "v = format_uint j" "f_ino (view (kv_mem s)) j = Some (marshal_attr a)" "attr_ok a"
    using inv_lookup [OF _ Some k] inv unfolding meta_inv_def by blast
  with Some d i [of j] show ?thesis using Lookup_view by metis
qed

lemma dent_ino_known:
  assumes "fs_inv f" "f_dent f q k = Some (format_uint i)" "proper k"
  shows "f_ino f i \<noteq> None"
  using assms unfolding fs_inv_def inv_dent_def by (metis format_uint_inject)

section \<open>Properties\<close>

text \<open>
  No entry of a directory dangles. In a state that satisfies the invariant, a name looks up
  to attributes with the number the entry holds, the attributes are those of the inode itself,
  and the inode is not the root; a name that is not an entry is not found.
\<close>

lemma lookup_no_dangling:
  assumes "meta_inv (kv_mem s)" "proper n"
  shows "if kv_hexists s (direntKey p) n
     then \<exists>a. Lookup s p n = Inr a \<and> kv_hget s (direntKey p) n = Inr (format_uint (at_ino a))
        \<and> GetAttr s (at_ino a) = Inr a \<and> at_ino a \<noteq> rootIno
     else Lookup s p n = Inl ErrNotFound"
proof (cases "f_dent (view (kv_mem s)) p n")
  case None
  then show ?thesis by (simp add: Lookup_none view_reads)
next
  case (Some d)
  have f: "fs_inv (view (kv_mem s))" using assms(1) by (simp add: meta_inv_def)
  obtain i a where i: "d = format_uint i" "f_ino (view (kv_mem s)) i = Some (marshal_attr a)" "attr_ok a"
    "at_ino a = i" using inv_lookup [OF f Some assms(2)] by blast
  have "i \<noteq> rootIno" using dent_not_root [OF f _ assms(2)] Some i(1) by blast
  with Some i show ?thesis by (simp add: Lookup_view view_reads GetAttr_view)
qed

text \<open>
  The index lists the inodes: in a state that satisfies the invariant, \<open>ListInos\<close> returns
  exactly the numbers \<open>GetAttr\<close> finds, each once.
\<close>

lemma list_inos_correct:
  assumes "meta_inv (kv_mem s)"
  shows "(\<forall>i. i \<in> set (ListInos s) \<longleftrightarrow> GetAttr s i \<noteq> Inl ErrNotFound) \<and> distinct (ListInos s)"
proof -
  let ?f = "view (kv_mem s)" and ?xs = "kv_smembers s inodeIndexKey"
  have f: "inv_ino ?f" "inv_index ?f" and wf: "mem_wf (kv_mem s)"
    using assms by (auto simp: meta_inv_def fs_inv_def)
  have xs: "set ?xs = {format_uint i |i. f_ino ?f i \<noteq> None}"
    using f(2) by (simp add: kv_reads inv_index_def) (simp add: view_def)
  then have "\<forall>x \<in> set ?xs. \<exists>i. x = format_uint i" by blast
  then obtain ns where ns: "?xs = map format_uint ns" by (metis ex_map_conv)
  have list: "ListInos s = ns" unfolding ListInos_def ns by (induction ns) simp_all
  have "distinct ?xs" using mem_smembers_distinct [OF wf] by (simp add: kv_reads)
  then have "distinct (ListInos s)" unfolding list ns by (simp add: distinct_map)
  moreover have "i \<in> set (ListInos s) \<longleftrightarrow> f_ino ?f i \<noteq> None" for i
    using xs unfolding list ns by (auto simp: set_eq_iff) (metis (no_types, lifting) format_uint_inject image_iff)+
  moreover have "f_ino ?f i \<noteq> None \<longleftrightarrow> GetAttr s i \<noteq> Inl ErrNotFound" for i
  proof (cases "f_ino ?f i")
    case (Some d)
    then obtain a where "d = marshal_attr a" "attr_ok a" using f(1) unfolding inv_ino_def by blast
    with Some show ?thesis by (simp add: GetAttr_view)
  qed (simp add: GetAttr_def view_reads)
  ultimately show ?thesis by blast
qed

section \<open>The operations over a plain store\<close>

lemma mem_store_simps [simp]: "kv_mem (mem_store m) = m" "kv_raft (mem_store m) = None"
  "mem_store m = mem_store m' \<longleftrightarrow> m = m'"
  by (simp_all add: mem_store_def)

lemma kv_batch_mem: "kv_batch qs (mem_store m) = apsnd mem_store (mem_batch qs m)"
  by (cases "mem_batch qs m") (simp add: kv_batch_def with_raft_def mem_store_def)

lemma allocIno_mem: "allocIno (mem_store m) = (Inr (incr_val m nextInoKey + 1), mem_store (snd (mem_incr nextInoKey m)))"
  by (cases "mem_incr nextInoKey m")
     (use fst_mem_incr [of nextInoKey m] in \<open>simp add: allocIno_def kv_incr_def with_raft_def mem_store_def\<close>)

lemma initRoot_mem:
  "initRoot uid gid now (mem_store new_memory_kv)
     = (Inr (), mem_store (snd (mem_batch (root_ops uid gid now) new_memory_kv)))"
  unfolding initRoot_def root_ops_def [symmetric] kv_batch_mem
  by (simp add: kv_reads mem_exists_def new_memory_kv_def root_ops_def)

text \<open>Creating an entry whose name is free succeeds.\<close>

lemma create_mem:
  assumes "checkName n = Inr ()" "f_dent (view m) p n = None"
  defines "i \<equiv> f_next (view m) + 1"
  shows "\<exists>m'. Mkdir p n mode uid gid now (mem_store m) = (Inr (dir_attr i mode uid gid now), mem_store m')
      \<and> view m' = fs_add True p n (dir_attr i mode uid gid now) (fs_alloc (view m))"
    and "\<exists>m'. Create p n mode uid gid now (mem_store m) = (Inr (file_attr i mode uid gid now), mem_store m')
      \<and> view m' = fs_add False p n (file_attr i mode uid gid now) (fs_alloc (view m))"
    and "\<exists>m'. Symlink p n t uid gid now (mem_store m) = (Inr (link_attr i t uid gid now), mem_store m')
      \<and> view m' = fs_add False p n (link_attr i t uid gid now) (fs_alloc (view m))"
proof -
  let ?m1 = "snd (mem_incr nextInoKey m)"
  have free: "\<not> kv_hexists (mem_store m) (direntKey p) n" using assms(2) by (simp add: view_reads)
  have i: "incr_val m nextInoKey + 1 = i" by (simp add: i_def incr_val_view)
  note A = batch_add [where p = p and n = n and m = ?m1, unfolded view_alloc]
  note D = batch_add_dots [where p = p and n = n and m = ?m1, unfolded view_alloc]
  show "\<exists>m'. Mkdir p n mode uid gid now (mem_store m) = (Inr (dir_attr i mode uid gid now), mem_store m')
      \<and> view m' = fs_add True p n (dir_attr i mode uid gid now) (fs_alloc (view m))"
    using D [of "dir_attr i mode uid gid now"] assms(1) free i
    by (simp add: Mkdir_def checkName_def allocIno_mem Let_def kv_batch_mem dir_attr_def [symmetric] del: view_ops view_sadd)
  show "\<exists>m'. Create p n mode uid gid now (mem_store m) = (Inr (file_attr i mode uid gid now), mem_store m')
      \<and> view m' = fs_add False p n (file_attr i mode uid gid now) (fs_alloc (view m))"
    using A [of "file_attr i mode uid gid now"] assms(1) free i
    by (simp add: Create_def checkName_def allocIno_mem Let_def kv_batch_mem file_attr_def [symmetric] del: view_ops view_sadd)
  show "\<exists>m'. Symlink p n t uid gid now (mem_store m) = (Inr (link_attr i t uid gid now), mem_store m')
      \<and> view m' = fs_add False p n (link_attr i t uid gid now) (fs_alloc (view m))"
    using A [of "link_attr i t uid gid now"] assms(1) free i
    by (simp add: Symlink_def checkName_def allocIno_mem Let_def kv_batch_mem link_attr_def [symmetric] del: view_ops view_sadd)
qed

lemma rmdir_mem:
  assumes "f_dent (view m) p n = Some (format_uint i)" "f_ino (view m) i = Some (marshal_attr a)" "attr_ok a" "is_dir a"
    "kv_hlen (mem_store m) (direntKey i) \<le> 2"
  shows "\<exists>m'. Rmdir p n (mem_store m) = (Inr (), mem_store m') \<and> view m' = fs_rmdir i (fs_remove i (fs_undent p n (view m)))"
  using assms batch_remove(3) [of p n i m]
  by (simp add: Rmdir_def view_reads GetAttr_view kv_batch_mem del: view_ops)

lemma rename_mem:
  assumes "f_dent (view m) p n = Some (format_uint i)" "checkName n' = Inr ()" "f_dent (view m) p' n' = None"
  shows "\<exists>m'. Rename p p' n n' (mem_store m) = (Inr (), mem_store m') \<and> view m' = fs_rename p n p' n' i (view m)"
  using assms batch_rename [of p n p' n' i m]
  by (simp add: Rename_def view_reads checkName_def kv_batch_mem del: view_ops)

text \<open>The store of a file system that was just created.\<close>

definition fresh_fs :: memkv where
  "fresh_fs = snd (mem_batch (root_ops 0 0 0) new_memory_kv)"

lemma view_fresh_fs:
  "view fresh_fs = \<lparr>f_ino = (\<lambda>_. None)(rootIno := Some (marshal_attr (root_attr 0 0 0))), f_link = \<lambda>_. None,
       f_dent = \<lambda>_ _. None, f_index = {format_uint rootIno}, f_next = 1\<rparr>"
  by (simp add: fresh_fs_def root_ops_def)

lemma fresh_fs_inv [simp]: "meta_inv fresh_fs"
  unfolding meta_inv_def fresh_fs_def by (simp add: fs_inv_init in_int64_def)

text \<open>
  C31. A new entry is found under its name. Over a plain store, creating a directory, a file or
  a symbolic link under a free name succeeds with attributes of a number no inode had; looking
  the name up then returns exactly these attributes, every other entry looks up as before, and
  creating the same name again reports that it exists.
\<close>

theorem create_then_lookup:
  assumes inv: "meta_inv m" and n: "proper n" and free: "\<not> kv_hexists (mem_store m) (direntKey p) n"
    and now: "in_int64 now" and t: "valid_utf8 t" and cnt: "f_next (view m) + 1 \<noteq> 0"
    and x: "x \<in> {MMkdir p n mode uid gid now, MCreate p n mode uid gid now, MSymlink p n t uid gid now}"
  shows "\<exists>a s. run_meta x (mem_store m) = (Inr (), s) \<and> GetAttr (mem_store m) (at_ino a) = Inl ErrNotFound
     \<and> Lookup s p n = Inr a
     \<and> (\<forall>q k. proper k \<longrightarrow> (q, k) \<noteq> (p, n) \<longrightarrow> Lookup s q k = Lookup (mem_store m) q k)
     \<and> run_meta x s = (Inl ErrExists, s)"
proof -
  have f: "fs_inv (view m)" using inv by (simp add: meta_inv_def)
  have c: "checkName n = Inr ()" and none: "f_dent (view m) p n = None"
    using n free by (simp_all add: proper_def view_reads)
  obtain a m' dots where run: "run_meta x (mem_store m) = (Inr (), mem_store m')" and a: "at_ino a = f_next (view m) + 1" "attr_ok a"
    and v: "view m' = fs_add dots p n a (fs_alloc (view m))"
  proof -
    note C = create_mem [OF c none]
    consider "x = MMkdir p n mode uid gid now" | "x = MCreate p n mode uid gid now" | "x = MSymlink p n t uid gid now"
      using x by blast
    then show thesis
    proof cases
      case 1
      then show thesis using C(1) [of mode uid gid now] now that [where a = "dir_attr (f_next (view m) + 1) mode uid gid now" and dots = True]
        by (auto simp: drop_res_def)
    next
      case 2
      then show thesis using C(2) [of mode uid gid now] now that [where a = "file_attr (f_next (view m) + 1) mode uid gid now" and dots = False]
        by (auto simp: drop_res_def)
    next
      case 3
      then show thesis using C(3) [of t uid gid now] now t that [where a = "link_attr (f_next (view m) + 1) t uid gid now" and dots = False]
        by (auto simp: drop_res_def)
    qed
  qed
  have fresh: "f_ino (view m) (at_ino a) = None" using fresh_ino(1) [OF f cnt] a by simp
  have new: "f_dent (view m') p n = Some (format_uint (at_ino a))" "f_ino (view m') (at_ino a) = Some (marshal_attr a)"
    using n by (auto simp: v fs_add_def fs_alloc_def Let_def proper_def)
  have "Lookup (mem_store m') q k = Lookup (mem_store m) q k" if k: "proper k" "(q, k) \<noteq> (p, n)" for q k
  proof (rule Lookup_cong [OF _ k(1)])
    show "f_dent (view (kv_mem (mem_store m'))) q k = f_dent (view (kv_mem (mem_store m))) q k"
      using k by (auto simp: v fs_add_def fs_alloc_def Let_def proper_def)
    show "f_ino (view (kv_mem (mem_store m'))) i = f_ino (view (kv_mem (mem_store m))) i"
      if "f_dent (view (kv_mem (mem_store m))) q k = Some (format_uint i)" for i
      using dent_ino_known [OF f _ k(1), of q i] that fresh by (auto simp: v fs_add_def fs_alloc_def Let_def)
  qed (simp add: inv)
  moreover have "run_meta x (mem_store m') = (Inl ErrExists, mem_store m')"
    using x new(1) c by (auto simp: Mkdir_def Create_def Symlink_def view_reads drop_res_def checkName_def)
  ultimately show ?thesis
    using run Lookup_view [of "mem_store m'" p n "at_ino a" a] new a fresh
    by (intro exI [of _ a] exI [of _ "mem_store m'"]) (simp add: GetAttr_def view_reads)
qed

theorem create_then_lookup_witness:
  "\<exists>a s. run_meta (MMkdir rootIno ''a'' 493 0 0 7) (mem_store fresh_fs) = (Inr (), s)
     \<and> GetAttr (mem_store fresh_fs) (at_ino a) = Inl ErrNotFound \<and> Lookup s rootIno ''a'' = Inr a
     \<and> (\<forall>q k. proper k \<longrightarrow> (q, k) \<noteq> (rootIno, ''a'') \<longrightarrow> Lookup s q k = Lookup (mem_store fresh_fs) q k)
     \<and> run_meta (MMkdir rootIno ''a'' 493 0 0 7) s = (Inl ErrExists, s)"
  by (rule create_then_lookup [where mode = 493 and uid = 0 and gid = 0 and now = 7 and t = "[]"])
     (simp_all add: proper_def valid_utf8_Cons_ascii view_reads view_fresh_fs in_int64_def)

text \<open>
  C30. Renaming moves an entry. Over any backend, a rename that reports success leaves the new
  name with the attributes the old name had and the old name free, and every other entry of
  every directory looks up as before.
\<close>

theorem rename_moves:
  assumes inv: "meta_inv (kv_mem s)" and n: "proper n" "valid_utf8 n'" and run: "Rename p p' n n' s = (Inr (), s')"
  shows "Lookup s' p' n' = Lookup s p n \<and> \<not> isl (Lookup s p n) \<and> Lookup s' p n = Inl ErrNotFound
     \<and> (\<forall>q k. proper k \<longrightarrow> (q, k) \<noteq> (p, n) \<longrightarrow> (q, k) \<noteq> (p', n') \<longrightarrow> Lookup s' q k = Lookup s q k)"
proof -
  let ?f = "view (kv_mem s)" and ?f' = "view (kv_mem s')"
  have f: "fs_inv ?f" using inv by (simp add: meta_inv_def)
  have "fs_step (MRename p p' n n') ?f True ?f'" using Rename_refines [OF inv n run] by simp
  then obtain i where i: "f_dent ?f p n = Some (format_uint i)" "proper n'" "f_dent ?f p' n' = None"
    "?f' = fs_rename p n p' n' i ?f" by (cases rule: fs_step.cases) auto
  have ne: "(p, n) \<noteq> (p', n')" using i(1,3) by auto
  obtain a where a: "f_ino ?f i = Some (marshal_attr a)" "attr_ok a"
    using inv_lookup [OF f i(1) n(1)] by (metis format_uint_inject)
  note R = i(4) fs_rename_def fs_undent_def Let_def
  have "Lookup s' p' n' = Inr a" using Lookup_view [of s' p' n' i a] a by (simp add: R)
  moreover have "Lookup s p n = Inr a" using Lookup_view i(1) a by simp
  moreover have "Lookup s' p n = Inl ErrNotFound" using ne by (intro Lookup_none) (auto simp: R)
  moreover have "Lookup s' q k = Lookup s q k" if "proper k" "(q, k) \<noteq> (p, n)" "(q, k) \<noteq> (p', n')" for q k
    using that by (intro Lookup_cong [OF inv]) (auto simp: R)
  ultimately show ?thesis by auto
qed

text \<open>
  C32. Removing a file removes its name and its inode, and nothing else: a successful \<open>Unlink\<close>
  returns the attributes the name had, which are not those of a directory; afterwards the name
  is free, the inode is gone, and every other entry looks up as before.
\<close>

theorem unlink_removes:
  assumes inv: "meta_inv (kv_mem s)" and n: "proper n" and run: "Unlink p n s = (Inr a, s')"
  shows "Lookup s p n = Inr a \<and> \<not> is_dir a \<and> Lookup s' p n = Inl ErrNotFound
     \<and> GetAttr s' (at_ino a) = Inl ErrNotFound
     \<and> (\<forall>q k. proper k \<longrightarrow> (q, k) \<noteq> (p, n) \<longrightarrow> Lookup s' q k = Lookup s q k)"
proof -
  let ?f = "view (kv_mem s)" and ?f' = "view (kv_mem s')"
  have f: "fs_inv ?f" using inv by (simp add: meta_inv_def)
  have "fs_step (MUnlink p n) ?f True ?f'" using Unlink_refines [OF inv n run] by simp
  then obtain i b where i: "f_dent ?f p n = Some (format_uint i)" "f_ino ?f i = Some (marshal_attr b)" "attr_ok b"
    "\<not> is_dir b" "?f' = fs_remove i (fs_undent p n ?f)" by (cases rule: fs_step.cases) auto
  have l: "Lookup s p n = Inr b" using Lookup_view i by blast
  have "a = b" using run l by (auto simp: Unlink_def Lookup_def split: sum.splits if_splits prod.splits)
  moreover have "at_ino b = i"
    using f i marshal_attr_inject unfolding fs_inv_def inv_ino_def by metis
  note R = i(5) fs_remove_def fs_undent_def
  have "Lookup s' p n = Inl ErrNotFound" by (intro Lookup_none) (simp add: R)
  moreover have "GetAttr s' i = Inl ErrNotFound" by (simp add: GetAttr_def view_reads R)
  moreover have "Lookup s' q k = Lookup s q k" if k: "proper k" "(q, k) \<noteq> (p, n)" for q k
  proof (rule Lookup_cong [OF inv k(1)])
    show "f_dent ?f' q k = f_dent ?f q k" using k by (auto simp: R)
    show "f_ino ?f' j = f_ino ?f j" if "f_dent ?f q k = Some (format_uint j)" for j
      using dent_unique [OF f i(1) _ n k(1), of q] that k by (auto simp: R)
  qed
  ultimately show ?thesis using l i(4) \<open>at_ino b = i\<close> by simp
qed


section \<open>A small file system\<close>

lemma run_meta_inv:
  assumes "meta_inv (kv_mem s)" "meta_op_ok (view (kv_mem s)) x"
  shows "meta_inv (kv_mem (snd (run_meta x s)))"
  using fs_step_inv [OF run_meta_step [OF assms]] run_meta_wf [of s x] assms by (simp add: meta_inv_def)

text \<open>A root with a directory \<open>a\<close> (inode 2) and a file \<open>f\<close> (inode 3).\<close>

definition dir_fs :: memkv where
  "dir_fs = kv_mem (snd (Mkdir rootIno ''a'' 493 0 0 0 (mem_store fresh_fs)))"

definition small_fs :: memkv where
  "small_fs = kv_mem (snd (Create rootIno ''f'' 420 0 0 0 (mem_store dir_fs)))"

lemma proper_demo [simp]: "proper ''a''" "proper ''b''" "proper ''f''"
  by (simp_all add: proper_def valid_utf8_Cons_ascii)

lemma dir_fs_run:
  "Mkdir rootIno ''a'' 493 0 0 0 (mem_store fresh_fs) = (Inr (dir_attr 2 493 0 0 0), mem_store dir_fs)"
  "view dir_fs = fs_add True rootIno ''a'' (dir_attr 2 493 0 0 0) (fs_alloc (view fresh_fs))"
  using create_mem(1) [of "''a''" fresh_fs rootIno 493 0 0 0]
  by (auto simp: dir_fs_def view_fresh_fs)

lemma small_fs_run:
  "Create rootIno ''f'' 420 0 0 0 (mem_store dir_fs) = (Inr (file_attr 3 420 0 0 0), mem_store small_fs)"
  "view small_fs = fs_add False rootIno ''f'' (file_attr 3 420 0 0 0) (fs_alloc (view dir_fs))"
  using create_mem(2) [of "''f''" dir_fs rootIno 420 0 0 0]
  by (auto simp: small_fs_def dir_fs_run view_fresh_fs fs_add_def fs_alloc_def Let_def rootIno_def)

lemma dir_fs_inv [simp]: "meta_inv dir_fs"
  using run_meta_inv [of "mem_store fresh_fs" "MMkdir rootIno ''a'' 493 0 0 0"]
  by (simp add: dir_fs_def view_fresh_fs in_int64_def valid_utf8_Cons_ascii)

lemma small_fs_inv [simp]: "meta_inv small_fs"
  using run_meta_inv [of "mem_store dir_fs" "MCreate rootIno ''f'' 420 0 0 0"]
  by (simp add: small_fs_def dir_fs_run view_fresh_fs fs_add_def fs_alloc_def Let_def in_int64_def valid_utf8_Cons_ascii)

lemma small_fs_view:
  "f_dent (view small_fs) rootIno ''a'' = Some (format_uint 2)"
  "f_dent (view small_fs) rootIno ''f'' = Some (format_uint 3)"
  "f_dent (view small_fs) rootIno ''b'' = None"
  "f_ino (view small_fs) 2 = Some (marshal_attr (dir_attr 2 493 0 0 0))"
  "f_ino (view small_fs) 3 = Some (marshal_attr (file_attr 3 420 0 0 0))"
  by (simp_all add: small_fs_run dir_fs_run view_fresh_fs fs_add_def fs_alloc_def Let_def rootIno_def)

lemma small_fs_lookup: "Lookup (mem_store small_fs) rootIno ''f'' = Inr (file_attr 3 420 0 0 0)"
  using small_fs_view Lookup_view [of "mem_store small_fs" rootIno "''f''" 3] by (simp add: in_int64_def)

theorem rename_moves_witness:
  "\<exists>s'. Rename rootIno rootIno ''a'' ''b'' (mem_store small_fs) = (Inr (), s')
     \<and> Lookup s' rootIno ''b'' = Lookup (mem_store small_fs) rootIno ''a''
     \<and> \<not> isl (Lookup (mem_store small_fs) rootIno ''a'') \<and> Lookup s' rootIno ''a'' = Inl ErrNotFound
     \<and> (\<forall>q k. proper k \<longrightarrow> (q, k) \<noteq> (rootIno, ''a'') \<longrightarrow> (q, k) \<noteq> (rootIno, ''b'') \<longrightarrow>
          Lookup s' q k = Lookup (mem_store small_fs) q k)"
proof -
  obtain m' where run: "Rename rootIno rootIno ''a'' ''b'' (mem_store small_fs) = (Inr (), mem_store m')"
    using rename_mem [of small_fs rootIno "''a''" 2 "''b''" rootIno] small_fs_view by auto
  show ?thesis
    using rename_moves [OF _ _ _ run] run by (intro exI [of _ "mem_store m'"]) (simp add: valid_utf8_Cons_ascii)
qed

theorem unlink_removes_witness:
  "\<exists>a s'. Unlink rootIno ''f'' (mem_store small_fs) = (Inr a, s')
     \<and> Lookup (mem_store small_fs) rootIno ''f'' = Inr a \<and> \<not> is_dir a \<and> Lookup s' rootIno ''f'' = Inl ErrNotFound
     \<and> GetAttr s' (at_ino a) = Inl ErrNotFound
     \<and> (\<forall>q k. proper k \<longrightarrow> (q, k) \<noteq> (rootIno, ''f'') \<longrightarrow> Lookup s' q k = Lookup (mem_store small_fs) q k)"
proof -
  have "GetAttr (mem_store small_fs) 3 = Inr (file_attr 3 420 0 0 0)"
    using small_fs_view by (simp add: GetAttr_view in_int64_def)
  then obtain m' where run: "Unlink rootIno ''f'' (mem_store small_fs) = (Inr (file_attr 3 420 0 0 0), mem_store m')"
    using small_fs_view by (simp add: Unlink_def view_reads kv_batch_mem)
  show ?thesis
    using unlink_removes [OF _ _ run] run
    by (intro exI [of _ "file_attr 3 420 0 0 0"] exI [of _ "mem_store m'"]) simp
qed




section \<open>Where the code departs from its intent\<close>

lemma readdir_loop_dangling:
  assumes "\<And>n d. (n, d) \<in> set es \<Longrightarrow> \<exists>i. d = format_uint i \<and> (GetAttr s i = Inl ErrNotFound \<or> (\<exists>a. GetAttr s i = Inr a))"
    and "(n, format_uint j) \<in> set es" "GetAttr s j = Inl ErrNotFound"
  shows "readdir_loop s es out = Inl ErrNotFound"
  using assms
proof (induction es arbitrary: out)
  case (Cons e es)
  obtain k d where e: "e = (k, d)" by fastforce
  obtain i where i: "d = format_uint i" "GetAttr s i = Inl ErrNotFound \<or> (\<exists>a. GetAttr s i = Inr a)"
    using Cons.prems(1) [of k d] e by auto
  show ?case
  proof (cases "GetAttr s i = Inl ErrNotFound")
    case True
    with e i show ?thesis by simp
  next
    case False
    then obtain a where a: "GetAttr s i = Inr a" using i by blast
    then have "(n, format_uint j) \<in> set es" using Cons.prems(2,3) e i False by auto
    with Cons.IH [of "mput k a out"] Cons.prems(1,3) have "readdir_loop s es (mput k a out) = Inl ErrNotFound" by auto
    with e i a show ?thesis by simp
  qed
qed simp

lemma hgetall_mem:
  assumes "mem_wf (kv_mem s)"
  shows "(n, d) \<in> set (kv_hgetall s (direntKey p)) \<longleftrightarrow> f_dent (view (kv_mem s)) p n = Some d"
proof -
  have "mwf (mem_hgetall (kv_mem s) (direntKey p))"
    using mem_wf_hash [OF assms, of "direntKey p"] by (auto simp: mem_hgetall_def split: option.split)
  then show ?thesis by (simp add: kv_reads mget_mem mem_hgetall_fun view_def)
qed

text \<open>
  \<open>Rename\<close> does not move the \<open>..\<close> entry of a directory. Make \<open>/a\<close> and \<open>/a/b\<close>, move
  \<open>/a/b\<close> to \<open>/c\<close>, remove \<open>/a\<close>: every step succeeds, \<open>/c\<close> looks up, and listing \<open>/c\<close> fails
  with ``entry not found'' because its \<open>..\<close> still holds the number of \<open>/a\<close>.
\<close>

lemma readdir_after_rename_fails:
  "\<exists>s1 s2 s3 a. Mkdir 2 ''b'' 493 0 0 0 (mem_store dir_fs) = (Inr (dir_attr 3 493 0 0 0), s1)
     \<and> Rename 2 rootIno ''b'' ''c'' s1 = (Inr (), s2) \<and> Rmdir rootIno ''a'' s2 = (Inr (), s3)
     \<and> Lookup s3 rootIno ''c'' = Inr a \<and> at_ino a = 3 \<and> Readdir s3 3 = Inl ErrNotFound"
proof -
  let ?a = "dir_attr 2 493 0 0 0" and ?b = "dir_attr 3 493 0 0 0"
  note V = dir_fs_run(2) view_fresh_fs fs_add_def fs_alloc_def fs_rename_def fs_undent_def fs_remove_def fs_rmdir_def
    Let_def rootIno_def
  have ok: "attr_ok ?a" "attr_ok ?b" by (simp_all add: in_int64_def)
  have dir: "is_dir ?a" by (simp add: is_dir_def dir_attr_def)
  obtain m1 where 1: "Mkdir 2 ''b'' 493 0 0 0 (mem_store dir_fs) = (Inr ?b, mem_store m1)"
    and v1: "view m1 = fs_add True 2 ''b'' ?b (fs_alloc (view dir_fs))"
    using create_mem(1) [of "''b''" dir_fs 2 493 0 0 0] by (auto simp: V)
  have w1: "meta_inv m1"
    using run_meta_inv [of "mem_store dir_fs" "MMkdir 2 ''b'' 493 0 0 0"] 1
    by (simp add: V in_int64_def valid_utf8_Cons_ascii)
  obtain m2 where 2: "Rename 2 rootIno ''b'' ''c'' (mem_store m1) = (Inr (), mem_store m2)"
    and v2: "view m2 = fs_rename 2 ''b'' rootIno ''c'' 3 (view m1)"
    using rename_mem [of m1 2 "''b''" 3 "''c''" rootIno] v1 by (auto simp: V)
  have w2: "meta_inv m2"
    using run_meta_inv [of "mem_store m1" "MRename 2 rootIno ''b'' ''c''"] 2 w1 by (simp add: valid_utf8_Cons_ascii)
  have "dom (f_dent (view m2) 2) = {''.'', ''..''}" by (auto simp: v2 v1 V split: if_splits)
  then have "kv_hlen (mem_store m2) (direntKey 2) \<le> 2"
    using w2 by (simp add: kv_hlen_card meta_inv_def)
  then obtain m3 where 3: "Rmdir rootIno ''a'' (mem_store m2) = (Inr (), mem_store m3)"
    and v3: "view m3 = fs_rmdir 2 (fs_remove 2 (fs_undent rootIno ''a'' (view m2)))"
    using rmdir_mem [of m2 rootIno "''a''" 2 ?a] ok dir by (auto simp: v2 v1 V)
  have w3: "meta_inv m3"
    using run_meta_inv [of "mem_store m2" "MRmdir rootIno ''a''"] 3 w2 by simp
  let ?s = "mem_store m3"
  have 4: "Lookup ?s rootIno ''c'' = Inr ?b"
    using Lookup_view [of ?s rootIno "''c''" 3 ?b] ok by (simp add: v3 v2 v1 V)
  have g: "GetAttr ?s 2 = Inl ErrNotFound" "GetAttr ?s 3 = Inr ?b"
    using GetAttr_view [of ?s 3 ?b] ok by (simp_all add: GetAttr_def view_reads v3 v2 v1 V)
  have d: "f_dent (view m3) 3 = [''.'' \<mapsto> format_uint 3, ''..'' \<mapsto> format_uint 2]"
    by (simp add: v3 v2 v1 V fun_eq_iff)
  have "Readdir ?s 3 = Inl ErrNotFound"
    unfolding Readdir_def
    by (rule readdir_loop_dangling [of _ _ "''..''" 2])
       (use w3 g in \<open>auto simp: hgetall_mem meta_inv_def d split: if_splits\<close>)
  with 1 2 3 4 show ?thesis by auto
qed

text \<open>
  \<open>Rmdir\<close> does not check the name it is given. In a file system with one directory \<open>/a\<close>,
  removing the entry \<open>..\<close> of \<open>/a\<close> succeeds and deletes the inode of the root, since the root
  holds no dot entries and passes the test for emptiness with up to two children.
\<close>

lemma rmdir_dotdot_deletes_root:
  "\<exists>s. Rmdir 2 ''..'' (mem_store dir_fs) = (Inr (), s) \<and> GetAttr s rootIno = Inl ErrNotFound
     \<and> Lookup (mem_store dir_fs) rootIno ''a'' = Inr (dir_attr 2 493 0 0 0)
     \<and> Lookup s rootIno ''a'' = Inl ErrNotFound"
proof -
  note V = dir_fs_run(2) view_fresh_fs fs_add_def fs_alloc_def fs_undent_def fs_remove_def fs_rmdir_def Let_def rootIno_def
  have "dom (f_dent (view dir_fs) rootIno) = {''a''}" by (auto simp: V split: if_splits)
  then have "kv_hlen (mem_store dir_fs) (direntKey rootIno) \<le> 2"
    using dir_fs_inv by (simp add: kv_hlen_card meta_inv_def del: dir_fs_inv)
  then obtain m where m: "Rmdir 2 ''..'' (mem_store dir_fs) = (Inr (), mem_store m)"
    "view m = fs_rmdir rootIno (fs_remove rootIno (fs_undent 2 ''..'' (view dir_fs)))"
    using rmdir_mem [of dir_fs 2 "''..''" rootIno "root_attr 0 0 0"]
    by (auto simp: V in_int64_def is_dir_def root_attr_def attr_ok_def attr_zero_def)
  have "Lookup (mem_store dir_fs) rootIno ''a'' = Inr (dir_attr 2 493 0 0 0)"
    using Lookup_view [of "mem_store dir_fs" rootIno "''a''" 2 "dir_attr 2 493 0 0 0"]
    by (simp add: V in_int64_def)
  moreover have "GetAttr (mem_store m) rootIno = Inl ErrNotFound" "Lookup (mem_store m) rootIno ''a'' = Inl ErrNotFound"
    by (simp_all add: GetAttr_def Lookup_def view_reads m(2) V)
  ultimately show ?thesis using m(1) by blast
qed

end
