(* ===== verification/Maintenance.thy ===== *)
theory Maintenance
  imports Service
begin

text \<open>
  Statistics, garbage collection and expiry (\<^verbatim>\<open>service/maintenance.go\<close>), capacity sums
  (\<^verbatim>\<open>service/capacity.go\<close>, \<^verbatim>\<open>service/overview.go\<close>) and the creation of files with a time to live
  (\<^verbatim>\<open>service/service.go\<close>). Sums of byte counts wrap at 64 bits as the code's do. The clock is an
  argument, in nanoseconds.
\<close>

definition wrap64 :: "int \<Rightarrow> int" where
  "wrap64 i = sint (word_of_int i :: 64 word)"

record stats =
  st_chunks :: int
  st_disk :: int
  st_quota_bytes :: int
  st_mem :: int
  st_rf :: int
  st_state :: string
  st_epoch :: u64

definition Stats :: "node \<Rightarrow> stats \<times> node" where
  "Stats nd =
     (case syncClusterEpoch nd of (epoch, nd1) \<Rightarrow>
      let base = \<lparr>st_chunks = int (st_count (nd_store nd)), st_disk = 0,
            st_quota_bytes = (if 0 < nd_quota_gb nd then shift_gb (nd_quota_gb nd) else 0), st_mem = 0,
            st_rf = nd_rf nd, st_state = life_string (lc_state (nd_life nd)), st_epoch = epoch\<rparr> in
      ((case nd_store nd of
          QuotaDisk q d \<Rightarrow> base\<lparr>st_disk := ds_usage d\<rparr>
        | DiskStore d \<Rightarrow> base\<lparr>st_disk := ds_usage d\<rparr>
        | QuotaMemory q c \<Rightarrow> base\<lparr>st_mem := ms_usage c\<rparr>
        | PreallocMemory q c \<Rightarrow>
            (if 0 < q then base\<lparr>st_mem := ms_usage c, st_quota_bytes := q\<rparr> else base\<lparr>st_mem := ms_usage c\<rparr>)
        | MemoryStore c \<Rightarrow> base\<lparr>st_mem := ms_usage c\<rparr>), nd1))"

definition RunGC :: "(string \<Rightarrow> err option) \<Rightarrow> node \<Rightarrow> (nat \<times> unit res) \<times> node" where
  "RunGC os nd =
     (case GCOrphans os (ListIndexed (nd_kv nd)) (nd_store nd) of (r, st') \<Rightarrow> (r, nd\<lparr>nd_store := st'\<rparr>))"

section \<open>Expiry\<close>

fun expire_chunks :: "env \<Rightarrow> string \<Rightarrow> string list \<Rightarrow> cluster \<Rightarrow> cluster" where
  "expire_chunks en u [] cl = cl"
| "expire_chunks en u (k # ks) cl =
     expire_chunks en u ks (snd (DeleteChunkRegistry en u k
       (update_node u (\<lambda>nd. nd\<lparr>nd_store := snd (st_delete (en_del en u k) k (nd_store nd))\<rparr>) cl)))"

definition expireFile :: "env \<Rightarrow> string \<Rightarrow> attr \<Rightarrow> cluster \<Rightarrow> unit res \<times> cluster" where
  "expireFile en u a cl =
     (let cl1 = expire_chunks en u (at_chunks a) cl in
      case mget cl1 u of None \<Rightarrow> (Inl conn_refused, cl1)
      | Some nd \<Rightarrow> (case with_kv (PurgeInode (at_ino a)) nd of (r, nd') \<Rightarrow> (r, mput u nd' cl1)))"

text \<open>\<^verbatim>\<open>now.Sub(t)\<close>: a difference of times, limited to the range of a duration.\<close>

definition time_sub :: "int \<Rightarrow> int \<Rightarrow> int" where
  "time_sub a b = max (- (2 ^ 63)) (min (2 ^ 63 - 1) (a - b))"

definition file_expired :: "int \<Rightarrow> int \<Rightarrow> attr \<Rightarrow> bool" where
  "file_expired now max_age a \<longleftrightarrow>
     0 < at_expire a \<and> at_expire a < now div 10 ^ 9
     \<or> 0 < max_age \<and> 0 < at_mtime a \<and> max_age < time_sub now (at_mtime a * 10 ^ 9)"

fun expire_loop :: "env \<Rightarrow> string \<Rightarrow> int \<Rightarrow> int \<Rightarrow> u64 list \<Rightarrow> nat \<Rightarrow> cluster \<Rightarrow> nat \<times> cluster" where
  "expire_loop en u now max_age [] n cl = (n, cl)"
| "expire_loop en u now max_age (i # is) n cl =
     (if i = rootIno then expire_loop en u now max_age is n cl
      else case mget cl u of None \<Rightarrow> (n, cl) | Some nd \<Rightarrow>
        (case GetAttr (nd_kv nd) i of
           Inl _ \<Rightarrow> expire_loop en u now max_age is n cl
         | Inr a \<Rightarrow>
             if is_dir a \<or> \<not> file_expired now max_age a then expire_loop en u now max_age is n cl
             else case expireFile en u a cl of
               (Inl _, cl') \<Rightarrow> expire_loop en u now max_age is n cl'
             | (Inr _, cl') \<Rightarrow> expire_loop en u now max_age is (Suc n) cl'))"

definition ExpireFiles :: "env \<Rightarrow> string \<Rightarrow> int \<Rightarrow> int \<Rightarrow> cluster \<Rightarrow> nat \<times> cluster" where
  "ExpireFiles en u now max_age cl =
     (case mget cl u of None \<Rightarrow> (0, cl) | Some nd \<Rightarrow> expire_loop en u now max_age (ListInos (nd_kv nd)) 0 cl)"

text \<open>\<open>Service.Create\<close>: a file gets its expiry time from the default time to live.\<close>

definition service_create :: "u64 \<Rightarrow> string \<Rightarrow> u32 \<Rightarrow> u32 \<Rightarrow> u32 \<Rightarrow> int \<Rightarrow> node \<Rightarrow> attr res \<times> node" where
  "service_create p n mode uid gid now nd =
     (case Create p n mode uid gid (now div 10 ^ 9) (nd_kv nd) of
        (Inl e, s) \<Rightarrow> (Inl e, nd\<lparr>nd_kv := s\<rparr>)
      | (Inr a, s) \<Rightarrow>
          if 0 < nd_ttl nd then
            (let a' = a\<lparr>at_expire := (now + nd_ttl nd) div 10 ^ 9\<rparr> in
             case UpdateAttr a' s of
               (Inl e, s') \<Rightarrow> (Inl e, nd\<lparr>nd_kv := s'\<rparr>)
             | (Inr _, s') \<Rightarrow> (Inr a', nd\<lparr>nd_kv := s'\<rparr>))
          else (Inr a, nd\<lparr>nd_kv := s\<rparr>))"

section \<open>Capacity\<close>

record node_overview =
  no_url :: string
  no_status :: string
  no_role :: string
  no_state :: string
  no_epoch :: u64
  no_remaining :: int
  no_stats :: stats
  no_reachable :: bool
  no_error :: string

definition normalizeNodeURL :: "string \<Rightarrow> string" where
  "normalizeNodeURL raw =
     trim_right_slash (before_char CHR ''/'' (trim_prefix (trim_prefix (trim_space raw) ''http://'') ''https://''))"

definition nodeURLSet :: "string list \<Rightarrow> string list" where
  "nodeURLSet urls = filter (\<lambda>k. k \<noteq> []) (map normalizeNodeURL urls)"

definition counted :: "string list \<Rightarrow> node_overview \<Rightarrow> bool" where
  "counted want n \<longleftrightarrow> no_reachable n \<and> (want = [] \<or> normalizeNodeURL (no_url n) \<in> set want)"

definition SumDiskUsageBytes :: "node_overview list \<Rightarrow> string list \<Rightarrow> u64" where
  "SumDiskUsageBytes ns urls =
     fold (\<lambda>n used. if counted (nodeURLSet urls) n
             then used + word_of_int (wrap64 (st_disk (no_stats n) + st_mem (no_stats n))) else used) ns 0"

definition SumDiskQuotaBytes :: "node_overview list \<Rightarrow> string list \<Rightarrow> u64" where
  "SumDiskQuotaBytes ns urls =
     fold (\<lambda>n tot. if counted (nodeURLSet urls) n \<and> 0 < st_quota_bytes (no_stats n)
             then tot + word_of_int (st_quota_bytes (no_stats n)) else tot) ns 0"

record cluster_storage =
  cs_quota :: int
  cs_disk :: int
  cs_mem :: int
  cs_reachable :: nat
  cs_total :: nat

definition summarizeClusterStorage :: "node_overview list \<Rightarrow> cluster_storage" where
  "summarizeClusterStorage ns =
     fold (\<lambda>n s. if \<not> no_reachable n then s
             else s\<lparr>cs_reachable := Suc (cs_reachable s), cs_disk := wrap64 (cs_disk s + st_disk (no_stats n)),
                    cs_mem := wrap64 (cs_mem s + st_mem (no_stats n)),
                    cs_quota := wrap64 (cs_quota s + st_quota_bytes (no_stats n))\<rparr>) ns
       \<lparr>cs_quota = 0, cs_disk = 0, cs_mem = 0, cs_reachable = 0, cs_total = length ns\<rparr>"

end
