(* ===== verification/Overview.thy ===== *)
theory Overview
  imports Maintenance
begin

text \<open>
  The status of the cluster as one node sees it (\<^verbatim>\<open>service/overview.go\<close>) and the periodic work of a node:
  one tick of the maintenance loop (\<^verbatim>\<open>service/maintenance.go\<close>). The HTTP client is an argument: a \<open>GET\<close> of
  a URL gives the body of the answer, whatever its status, or an error, and may change the node it reaches. The clock is an
  argument in nanoseconds; \<open>None\<close> is Go's zero time. The time stamps that are only shown are left out.
\<close>

section \<open>The overview\<close>

definition set_stats_field :: "string \<Rightarrow> json \<Rightarrow> stats \<Rightarrow> stats res" where
  "set_stats_field k j s =
     (if k = ''chunk_count'' then map_sum id (\<lambda>x. s\<lparr>st_chunks := x\<rparr>) (dec_int j (st_chunks s))
      else if k = ''disk_bytes'' then map_sum id (\<lambda>x. s\<lparr>st_disk := x\<rparr>) (dec_int j (st_disk s))
      else if k = ''disk_quota_bytes'' then map_sum id (\<lambda>x. s\<lparr>st_quota_bytes := x\<rparr>) (dec_int j (st_quota_bytes s))
      else if k = ''mem_bytes'' then map_sum id (\<lambda>x. s\<lparr>st_mem := x\<rparr>) (dec_int j (st_mem s))
      else if k = ''replica_factor'' then map_sum id (\<lambda>x. s\<lparr>st_rf := x\<rparr>) (dec_int j (st_rf s))
      else if k = ''node_state'' then map_sum id (\<lambda>x. s\<lparr>st_state := x\<rparr>) (dec_string j (st_state s))
      else if k = ''cluster_epoch'' then map_sum id (\<lambda>x. s\<lparr>st_epoch := x\<rparr>) (dec_word j (st_epoch s))
      else Inr s)"

definition enc_stats :: "stats \<Rightarrow> json" where
  "enc_stats s = JObj
     [(''chunk_count'', enc_int (st_chunks s)), (''disk_bytes'', enc_int (st_disk s)), (''disk_quota_bytes'', enc_int (st_quota_bytes s)),
      (''mem_bytes'', enc_int (st_mem s)), (''replica_factor'', enc_int (st_rf s)), (''node_state'', JStr (st_state s)),
      (''cluster_epoch'', enc_word (st_epoch s))]"

definition stats_zero :: stats where
  "stats_zero = \<lparr>st_chunks = 0, st_disk = 0, st_quota_bytes = 0, st_mem = 0, st_rf = 0, st_state = [], st_epoch = 0\<rparr>"

text \<open>The answer of \<^verbatim>\<open>/health\<close>, and the one of \<^verbatim>\<open>/v1/stats\<close>, which wraps the statistics.\<close>

definition set_health_field :: "string \<Rightarrow> json \<Rightarrow> health \<Rightarrow> health res" where
  "set_health_field k j h =
     (if k = ''status'' then map_sum id (\<lambda>x. h\<lparr>he_status := x\<rparr>) (dec_string j (he_status h))
      else if k = ''node_state'' then map_sum id (\<lambda>x. h\<lparr>he_state := x\<rparr>) (dec_string j (he_state h))
      else if k = ''cluster_epoch'' then map_sum id (\<lambda>x. h\<lparr>he_epoch := x\<rparr>) (dec_word j (he_epoch h))
      else if k = ''role'' then map_sum id (\<lambda>x. h\<lparr>he_role := x\<rparr>) (dec_string j (he_role h))
      else if k = ''remaining_chunks'' then map_sum id (\<lambda>x. h\<lparr>he_pending := x\<rparr>) (dec_int j (he_pending h))
      else Inr h)"

definition health_zero :: health where
  "health_zero = \<lparr>he_status = [], he_state = [], he_role = [], he_epoch = 0, he_pending = 0\<rparr>"

definition set_wrapped_field :: "string \<Rightarrow> json \<Rightarrow> stats \<Rightarrow> stats res" where
  "set_wrapped_field k j s = (if k = ''stats'' then dec_struct set_stats_field j s else Inr s)"

type_synonym 'w getter = "string \<Rightarrow> 'w \<Rightarrow> bytes res \<times> 'w"

definition fetchNodeOverview :: "'w getter \<Rightarrow> string \<Rightarrow> 'w \<Rightarrow> node_overview \<times> 'w" where
  "fetchNodeOverview get base0 w =
     (let base = trim_right_slash base0;
          no = \<lparr>no_url = base, no_status = [], no_role = [], no_state = [], no_epoch = 0, no_remaining = 0, no_stats = stats_zero,
                no_reachable = False, no_error = []\<rparr> in
      case get (base @ ''/health'') w of
        (Inl e, w1) \<Rightarrow> (no\<lparr>no_error := error_string e\<rparr>, w1)
      | (Inr body, w1) \<Rightarrow>
          (case unmarshal (dec_struct set_health_field) health_zero body of
             Inl e \<Rightarrow> (no\<lparr>no_error := error_string e\<rparr>, w1)
           | Inr h \<Rightarrow>
               let no1 = no\<lparr>no_reachable := True, no_status := he_status h, no_state := he_state h, no_epoch := he_epoch h,
                     no_role := he_role h, no_remaining := he_pending h\<rparr> in
               (case get (base @ ''/v1/stats'') w1 of
                  (Inl _, w2) \<Rightarrow> (no1, w2)
                | (Inr sb, w2) \<Rightarrow>
                    (case unmarshal (dec_struct set_wrapped_field) stats_zero sb of
                       Inl _ \<Rightarrow> (no1, w2) | Inr st \<Rightarrow> (no1\<lparr>no_stats := st\<rparr>, w2)))))"

record cluster_overview =
  ov_node :: string
  ov_leader :: string
  ov_epoch :: u64
  ov_rf :: int
  ov_repair :: repair_info
  ov_storage :: cluster_storage
  ov_nodes :: "node_overview list"

fun overview_loop :: "'w getter \<Rightarrow> string list \<Rightarrow> string list \<Rightarrow> 'w \<Rightarrow> node_overview list \<times> 'w" where
  "overview_loop get seen [] w = ([], w)"
| "overview_loop get seen (u # us) w =
     (if u \<in> set seen then overview_loop get seen us w
      else case fetchNodeOverview get u w of (no, w1) \<Rightarrow>
        (case overview_loop get (u # seen) us w1 of (ns, w2) \<Rightarrow> (no # ns, w2)))"

definition self_overview :: "node \<Rightarrow> node_overview \<times> node" where
  "self_overview nd =
     (case Health nd of (h, nd1) \<Rightarrow>
      case Stats nd1 of (st, nd2) \<Rightarrow>
        (\<lparr>no_url = nd_http nd2, no_status = he_status h, no_role = he_role h, no_state = he_state h, no_epoch = he_epoch h,
          no_remaining = he_pending h, no_stats = st, no_reachable = True, no_error = []\<rparr>, nd2))"

definition ClusterOverview :: "env \<Rightarrow> cluster getter \<Rightarrow> string \<Rightarrow> node \<Rightarrow> cluster \<Rightarrow> cluster_overview \<times> cluster" where
  "ClusterOverview en get u nd cl =
     (case self_overview nd of (self, nd1) \<Rightarrow>
      case overview_loop get [nd_http nd1] (ListNodes (nd_kv nd1)) (mput u nd1 cl) of (others, cl1) \<Rightarrow>
        (\<lparr>ov_node = nd_id nd, ov_leader = (case LeaderHTTPAddr (en_leader en u) nd of Inl _ \<Rightarrow> [] | Inr l \<Rightarrow> l),
          ov_epoch = no_epoch self, ov_rf = nd_rf nd, ov_repair = queue_info 20 (nd_queue nd1),
          ov_storage = summarizeClusterStorage (self # others), ov_nodes = self # others\<rparr>, cl1))"

section \<open>Maintenance\<close>

record maintenance_config =
  mc_gc :: int
  mc_flush :: int
  mc_ttl :: int

record maintenance_state =
  ms_last_flush :: "int option"
  ms_last_gc :: "int option"

text \<open>The interval of the ticker, and when a task is due.\<close>

definition maintenance_tick :: "maintenance_config \<Rightarrow> int" where
  "maintenance_tick mc =
     (let t0 = 30 * 10 ^ 9; t1 = (if 0 < mc_flush mc \<and> mc_flush mc < t0 then mc_flush mc else t0) in
      if 0 < mc_gc mc \<and> mc_gc mc < t1 then mc_gc mc else t1)"

definition task_due :: "int \<Rightarrow> int \<Rightarrow> int option \<Rightarrow> bool" where
  "task_due now interval prev \<longleftrightarrow> 0 < interval \<and> (case prev of None \<Rightarrow> True | Some t \<Rightarrow> interval \<le> time_sub now t)"

text \<open>
  The work of one tick: a flush (which syncs the files of a disk store and changes nothing else), garbage collection, expiry on the
  leader, and a repair run.
\<close>

definition run_tick :: "nat \<Rightarrow> env \<Rightarrow> maintenance_config \<Rightarrow> string \<Rightarrow> int \<Rightarrow> maintenance_state \<Rightarrow> cluster \<Rightarrow> (maintenance_state \<times> cluster) option" where
  "run_tick hops en mc u now ms cl =
     (let ms1 = (if task_due now (mc_flush mc) (ms_last_flush ms) then ms\<lparr>ms_last_flush := Some now\<rparr> else ms);
          gc = task_due now (mc_gc mc) (ms_last_gc ms1);
          cl1 = (if gc then update_node u (\<lambda>nd. snd (RunGC (en_del en u) nd)) cl else cl);
          ms2 = (if gc then ms1\<lparr>ms_last_gc := Some now\<rparr> else ms1);
          leads = (case mget cl1 u of None \<Rightarrow> False | Some nd \<Rightarrow> IsLeader nd);
          cl2 = (if 0 < mc_ttl mc \<and> leads then snd (ExpireFiles en u now (mc_ttl mc) cl1) else cl1) in
      case RunRepair hops en u cl2 of None \<Rightarrow> None | Some (_, cl3) \<Rightarrow> Some (ms2, cl3))"

fun run_ticks :: "nat \<Rightarrow> env \<Rightarrow> maintenance_config \<Rightarrow> string \<Rightarrow> int list \<Rightarrow> maintenance_state \<Rightarrow> cluster \<Rightarrow> (maintenance_state \<times> cluster) option" where
  "run_ticks hops en mc u [] ms cl = Some (ms, cl)"
| "run_ticks hops en mc u (t # ts) ms cl =
     (case run_tick hops en mc u t ms cl of None \<Rightarrow> None | Some (ms', cl') \<Rightarrow> run_ticks hops en mc u ts ms' cl')"

definition StartMaintenance :: "nat \<Rightarrow> env \<Rightarrow> maintenance_config \<Rightarrow> string \<Rightarrow> int list \<Rightarrow> cluster \<Rightarrow> (maintenance_state \<times> cluster) option" where
  "StartMaintenance hops en mc u ts = run_ticks hops en mc u ts \<lparr>ms_last_flush = None, ms_last_gc = None\<rparr>"

end
