(* ===== verification/Http_Filter.thy ===== *)
theory Http_Filter
  imports Transport
begin

text \<open>
  What an HTTP request passes before it reaches a handler: the check of the bearer token
  (\<^verbatim>\<open>node/auth.go\<close>) and the removal of the URI prefix (\<^verbatim>\<open>node/prefix.go\<close>), in the order
  \<^verbatim>\<open>Server.Handler\<close> of \<^verbatim>\<open>node/server.go\<close> puts them.
\<close>

definition probePath :: "string \<Rightarrow> bool" where
  "probePath p \<longleftrightarrow> p \<in> {''/health'', ''/metrics'', ''/readyz'', ''/livez'', ''/v1/stats''}"

text \<open>The path the handler sees, or \<open>None\<close> for a 404.\<close>

definition PrefixMiddleware :: "string \<Rightarrow> string \<Rightarrow> string option" where
  "PrefixMiddleware prefix path =
     (let p = normalizeURIPrefix prefix in
      if p = [] then Some path
      else if has_prefix path p then Some (if trim_prefix path p = [] then ''/'' else trim_prefix path p)
      else if probePath path then Some path
      else None)"

definition mutating :: "string \<Rightarrow> bool" where
  "mutating m \<longleftrightarrow> m \<in> {''POST'', ''PUT'', ''DELETE''}"

definition open_path :: "string \<Rightarrow> bool" where
  "open_path p \<longleftrightarrow>
     p \<in> {''/health'', ''/metrics'', ''/v1/stats'', ''/v1/cluster/overview'', ''/v1/repair'', ''/''}
     \<or> has_prefix p ''/dashboard'' \<or> has_prefix p ''/v1/fs/getattr'' \<or> has_prefix p ''/v1/fs/lookup''
     \<or> has_prefix p ''/v1/fs/readdir'' \<or> p = ''/v1/chunks/registry/get''
     \<or> has_prefix p ''/v1/cluster/leader'' \<or> has_prefix p ''/v1/cluster/nodes''"

text \<open>The last exemption of the code, for reads of chunks, is behind the test for mutating methods.\<close>

definition requiresAuth :: "string \<Rightarrow> string \<Rightarrow> bool" where
  "requiresAuth m p \<longleftrightarrow> mutating m \<and> \<not> open_path p \<and> \<not> (m = ''GET'' \<and> has_prefix p ''/chunks/'')
     \<and> (has_prefix p ''/v1/'' \<or> has_prefix p ''/chunks/'')"

definition token_ok :: "string \<Rightarrow> string \<Rightarrow> bool" where
  "token_ok token auth \<longleftrightarrow> has_prefix auth ''Bearer '' \<and> trim_prefix auth ''Bearer '' = token"

datatype verdict = Unauthorized | NoRoute | Handle string

definition AuthMiddleware :: "string \<Rightarrow> string \<Rightarrow> string \<Rightarrow> string \<Rightarrow> verdict \<Rightarrow> verdict" where
  "AuthMiddleware token m p auth next =
     (if token = [] \<or> \<not> requiresAuth m p \<or> token_ok token auth then next else Unauthorized)"

definition Handler :: "string \<Rightarrow> string \<Rightarrow> string \<Rightarrow> string \<Rightarrow> string \<Rightarrow> verdict" where
  "Handler token prefix m p auth =
     AuthMiddleware token m p auth (case PrefixMiddleware prefix p of None \<Rightarrow> NoRoute | Some q \<Rightarrow> Handle q)"

lemma token_ok_iff: "token_ok token auth \<longleftrightarrow> auth = ''Bearer '' @ token"
  unfolding token_ok_def has_prefix_iff by (metis trim_prefix_append)

lemma normalize_empty [simp]: "normalizeURIPrefix [] = []"
  by (simp add: normalizeURIPrefix_def trim_space_def trim_left_char_def trim_right_char_def)



text \<open>
  With a URI prefix the token guards nothing: the check sees the path before the prefix is
  removed, so a request under a prefix that does not itself begin like an API path reaches the
  handler of every path, with any method and without a token.
\<close>

lemma prefix_bypasses_token:
  assumes "normalizeURIPrefix prefix = p" "p \<noteq> []" "path \<noteq> []"
    and "\<not> has_prefix (p @ path) ''/v1/''" "\<not> has_prefix (p @ path) ''/chunks/''"
  shows "Handler token prefix m (p @ path) auth = Handle path"
  using assms by (simp add: Handler_def AuthMiddleware_def requiresAuth_def PrefixMiddleware_def Let_def)

end
