(* ===== verification/Membership.thy ===== *)
theory Membership
  imports Service Http_Filter
begin

text \<open>
  Cluster membership: the keys and operations of \<^verbatim>\<open>cluster/registry.go\<close>, admission and removal of
  members on the leader (\<^verbatim>\<open>cluster/membership.go\<close>, \<^verbatim>\<open>cluster/raft_peers.go\<close>), the joining loop of a
  follower (\<^verbatim>\<open>cluster/client.go\<close>), and \<open>Join\<close>, \<open>RemoveNode\<close> and \<open>Leave\<close> of the service.

  What the Raft library answers about its configuration is an argument: the configured servers
  or an error, whether a voter is added or removed, and whether an address can be reached.
\<close>

record member =
  mb_id :: string
  mb_http :: string
  mb_raft :: string
  mb_grpc :: string
  mb_rdma :: string

definition nodeGRPCKey :: "string \<Rightarrow> string" where "nodeGRPCKey i = ''memoryfs:node:grpc:'' @ i"
definition nodeRDMAKey :: "string \<Rightarrow> string" where "nodeRDMAKey i = ''memoryfs:node:rdma:'' @ i"

definition registerOps :: "member \<Rightarrow> op list" where
  "registerOps m =
     [op_hset raftnodeNodesKey (mb_id m) (mb_http m), op_set (nodeHTTPKey (mb_id m)) (mb_http m),
      op_set (nodeRaftKey (mb_id m)) (mb_raft m)]
     @ (if mb_grpc m \<noteq> [] then [op_set (nodeGRPCKey (mb_id m)) (mb_grpc m)] else [])
     @ (if mb_rdma m \<noteq> [] then [op_set (nodeRDMAKey (mb_id m)) (mb_rdma m)] else [])"

definition removeOps :: "string \<Rightarrow> op list" where
  "removeOps i =
     [op_hdel raftnodeNodesKey i, op_del (nodeHTTPKey i), op_del (nodeRaftKey i), op_del (nodeGRPCKey i),
      op_del (nodeRDMAKey i)]"

definition get_or_empty :: "kv \<Rightarrow> string \<Rightarrow> string" where
  "get_or_empty s k = (case kv_get s k of Inl _ \<Rightarrow> [] | Inr d \<Rightarrow> d)"

definition listMembers :: "kv \<Rightarrow> member list" where
  "listMembers s =
     map (\<lambda>(i, http). \<lparr>mb_id = i, mb_http = http, mb_raft = get_or_empty s (nodeRaftKey i),
            mb_grpc = get_or_empty s (nodeGRPCKey i), mb_rdma = get_or_empty s (nodeRDMAKey i)\<rparr>)
       (kv_hgetall s raftnodeNodesKey)"

definition listHTTP :: "kv \<Rightarrow> string list" where
  "listHTTP s = map snd (kv_hgetall s raftnodeNodesKey)"

record raft_env =
  re_servers :: "(string \<times> string) list res"
  re_add :: "string \<Rightarrow> string \<Rightarrow> err option"
  re_remove :: "string \<Rightarrow> err option"
  re_reach :: "string \<Rightarrow> err option"

text \<open>The wrappers of \<^verbatim>\<open>raftnode.Node\<close>; without a Raft instance the node runs alone.\<close>

definition ServerAddress :: "raft_env \<Rightarrow> node \<Rightarrow> string \<Rightarrow> string option res" where
  "ServerAddress re nd i =
     (case kv_raft (nd_kv nd) of
        None \<Rightarrow> Inl (ErrMsg ''standalone mode'')
      | Some _ \<Rightarrow> (case re_servers re of Inl e \<Rightarrow> Inl e | Inr ss \<Rightarrow> Inr (map_of ss i)))"

definition AddVoter :: "raft_env \<Rightarrow> node \<Rightarrow> string \<Rightarrow> string \<Rightarrow> unit res" where
  "AddVoter re nd i addr =
     (case kv_raft (nd_kv nd) of
        None \<Rightarrow> Inl (ErrMsg ''standalone mode'')
      | Some _ \<Rightarrow> if \<not> IsLeader nd then Inl (ErrMsg ''not leader'')
                  else (case re_add re i addr of None \<Rightarrow> Inr () | Some e \<Rightarrow> Inl e))"

definition RemoveVoter :: "raft_env \<Rightarrow> node \<Rightarrow> string \<Rightarrow> unit res" where
  "RemoveVoter re nd i =
     (case kv_raft (nd_kv nd) of
        None \<Rightarrow> Inl (ErrMsg ''standalone mode'')
      | Some _ \<Rightarrow> if \<not> IsLeader nd then Inl (ErrMsg ''not leader'')
                  else (case re_remove re i of None \<Rightarrow> Inr () | Some e \<Rightarrow> Inl e))"

definition ensureRaftVoter :: "raft_env \<Rightarrow> node \<Rightarrow> member \<Rightarrow> unit res" where
  "ensureRaftVoter re nd m =
     (case ServerAddress re nd (mb_id m) of
        Inl e \<Rightarrow> Inl e
      | Inr cur \<Rightarrow>
          if cur = Some (mb_raft m) then Inr ()
          else (case AddVoter re nd (mb_id m) (mb_raft m) of
                  Inr _ \<Rightarrow> Inr ()
                | Inl e \<Rightarrow> Inl (ErrMsg (''raft peer '' @ mb_id m @ '': '' @ error_string e))))"

fun reconcile_loop :: "raft_env \<Rightarrow> node \<Rightarrow> member list \<Rightarrow> unit res" where
  "reconcile_loop re nd [] = Inr ()"
| "reconcile_loop re nd (m # ms) =
     (if mb_raft m = [] then reconcile_loop re nd ms
      else case ensureRaftVoter re nd m of Inl e \<Rightarrow> Inl e | Inr _ \<Rightarrow> reconcile_loop re nd ms)"

definition ReconcileRaftPeers :: "raft_env \<Rightarrow> node \<Rightarrow> unit res" where
  "ReconcileRaftPeers re nd =
     (if \<not> IsLeader nd then Inl (ErrMsg ''not leader'') else reconcile_loop re nd (listMembers (nd_kv nd)))"

definition RegisterSelf :: "member \<Rightarrow> node \<Rightarrow> unit res \<times> node" where
  "RegisterSelf m nd =
     (let m' = (if mb_id m = [] then m\<lparr>mb_id := nd_id nd\<rparr> else m) in with_kv (kv_batch (registerOps m')) nd)"

definition known_member :: "raft_env \<Rightarrow> node \<Rightarrow> member \<Rightarrow> bool" where
  "known_member re nd m \<longleftrightarrow>
     ServerAddress re nd (mb_id m) = Inr (Some (mb_raft m))
     \<and> (\<exists>e \<in> set (listMembers (nd_kv nd)). mb_id e = mb_id m \<and> mb_http e = mb_http m)"

definition waitRaftTCP :: "raft_env \<Rightarrow> string \<Rightarrow> unit res" where
  "waitRaftTCP re addr =
     (if addr = [] then Inl (ErrMsg ''empty raft address'')
      else case re_reach re addr of
        None \<Rightarrow> Inr ()
      | Some e \<Rightarrow> Inl (ErrMsg (''raft '' @ addr @ '' unreachable: '' @ error_string e)))"

definition Admit :: "raft_env \<Rightarrow> member \<Rightarrow> node \<Rightarrow> member list res \<times> node" where
  "Admit re m nd =
     (if \<not> IsLeader nd then (Inl (ErrMsg ''not leader''), nd)
      else if mb_id m = [] \<or> mb_raft m = [] \<or> mb_http m = [] then (Inl (ErrMsg ''member id, raft, and http are required''), nd)
      else if known_member re nd m then (Inr (listMembers (nd_kv nd)), nd)
      else case waitRaftTCP re (mb_raft m) of
        Inl e \<Rightarrow> (Inl e, nd)
      | Inr _ \<Rightarrow>
          (case ensureRaftVoter re nd m of
             Inl e \<Rightarrow> (Inl e, nd)
           | Inr _ \<Rightarrow>
               (case kv_batch (registerOps m) (nd_kv nd) of
                  (Inl e, s1) \<Rightarrow> (Inl e, nd\<lparr>nd_kv := s1\<rparr>)
                | (Inr _, s1) \<Rightarrow>
                    (case kv_incr EpochKey s1 of
                       (Inl e, s2) \<Rightarrow> (Inl e, nd\<lparr>nd_kv := s2\<rparr>)
                     | (Inr _, s2) \<Rightarrow> (Inr (listMembers s2), nd\<lparr>nd_kv := s2\<rparr>)))))"

definition member_remove :: "raft_env \<Rightarrow> string \<Rightarrow> node \<Rightarrow> unit res \<times> node" where
  "member_remove re i nd =
     (if \<not> IsLeader nd then (Inl (ErrMsg ''not leader''), nd)
      else case RemoveVoter re nd i of
        Inl e \<Rightarrow> (Inl e, nd)
      | Inr _ \<Rightarrow>
          (case kv_batch (removeOps i) (nd_kv nd) of
             (Inl e, s1) \<Rightarrow> (Inl e, nd\<lparr>nd_kv := s1\<rparr>)
           | (Inr _, s1) \<Rightarrow>
               (case kv_incr EpochKey s1 of
                  (Inl e, s2) \<Rightarrow> (Inl e, nd\<lparr>nd_kv := s2\<rparr>)
                | (Inr _, s2) \<Rightarrow> (Inr (), nd\<lparr>nd_kv := s2\<rparr>))))"

section \<open>The service\<close>

definition memberHTTPURLs :: "member list \<Rightarrow> string list" where
  "memberHTTPURLs ms = filter (\<lambda>u. u \<noteq> []) (map mb_http ms)"

definition service_join :: "raft_env \<Rightarrow> member \<Rightarrow> node \<Rightarrow> string list res \<times> node" where
  "service_join re m nd =
     (case Admit re m nd of
        (Inl e, nd1) \<Rightarrow> (Inl e, nd1)
      | (Inr ms, nd1) \<Rightarrow> (Inr (memberHTTPURLs ms), recomputeChainStates (snd (syncClusterEpoch nd1))))"

definition RemoveNode :: "raft_env \<Rightarrow> string \<Rightarrow> node \<Rightarrow> unit res \<times> node" where
  "RemoveNode re i nd =
     (case member_remove re i nd of
        (Inl e, nd1) \<Rightarrow> (Inl e, nd1)
      | (Inr _, nd1) \<Rightarrow> (Inr (), recomputeChainStates (snd (syncClusterEpoch nd1))))"

text \<open>
  The leader's answer to a removal request: \<^verbatim>\<open>handleRemove\<close> of \<^verbatim>\<open>node/server.go\<close>. The request
  goes to the path without the URI prefix, unlike the other calls to the leader.
\<close>

definition remove_handler :: "raft_env \<Rightarrow> string \<Rightarrow> node \<Rightarrow> nat \<times> node" where
  "remove_handler re i nd =
     (if PrefixMiddleware (nd_prefix nd) ''/v1/cluster/remove'' \<noteq> Some ''/v1/cluster/remove'' then (404, nd)
      else if \<not> IsLeader nd then (307, nd)
      else if i = [] then (400, nd)
      else case RemoveNode re i nd of (Inl _, nd') \<Rightarrow> (500, nd') | (Inr _, nd') \<Rightarrow> (200, nd'))"

definition Leave :: "nat \<Rightarrow> env \<Rightarrow> raft_env \<Rightarrow> string \<Rightarrow> cluster \<Rightarrow> (drain_result \<times> cluster) option" where
  "Leave hops en re u cl =
     (case Drain hops en u False cl of
        None \<Rightarrow> None
      | Some ((rem, drained, e), cl1) \<Rightarrow>
          if e \<noteq> None \<or> \<not> drained then Some ((rem, drained, e), cl1)
          else case mget cl1 u of None \<Rightarrow> Some ((0, True, Some conn_refused), cl1) | Some nd \<Rightarrow>
            (case LeaderHTTPAddr (en_leader en u) nd of
               Inl x \<Rightarrow> Some ((0, True, Some x), cl1)
             | Inr leader \<Rightarrow>
                 if leader = nd_http nd then
                   (case RemoveNode re (nd_id nd) nd of
                      (Inl x, nd') \<Rightarrow> Some ((0, True, Some x), mput u nd' cl1)
                    | (Inr _, nd') \<Rightarrow> Some ((0, True, None), mput u nd' cl1))
                 else
                   (case post_node en u leader ''remove node'' (remove_handler re (nd_id nd)) cl1 of
                      (Inl x, cl2) \<Rightarrow> Some ((0, True, Some x), cl2)
                    | (Inr _, cl2) \<Rightarrow> Some ((0, True, None), cl2))))"

section \<open>The joining loop\<close>

text \<open>
  The answer to one attempt: accepted, a redirect to another leader, or another failure; what the
  cluster answers at each URL in each attempt is an argument.
\<close>

datatype join_answer = Joined | Redirect string err | JoinFailed err

fun join_loop :: "(nat \<Rightarrow> string \<Rightarrow> join_answer) \<Rightarrow> nat \<Rightarrow> nat \<Rightarrow> string \<Rightarrow> err option \<Rightarrow> unit res \<times> string list" where
  "join_loop ask 0 attempt leader last_err =
     (Inl (ErrMsg (''after '' @ format_nat (attempt - 1) @ '' attempts: ''
        @ (case last_err of None \<Rightarrow> ''join failed'' | Some e \<Rightarrow> error_string e))), [])"
| "join_loop ask (Suc left) attempt leader last_err =
     (case ask attempt leader of
        Joined \<Rightarrow> (Inr (), [leader])
      | Redirect next e \<Rightarrow> apsnd ((#) leader) (join_loop ask left (Suc attempt) (if next = [] then leader else trim_right_slash next) (Some e))
      | JoinFailed e \<Rightarrow> apsnd ((#) leader) (join_loop ask left (Suc attempt) leader (Some e)))"

definition cluster_join :: "(nat \<Rightarrow> string \<Rightarrow> join_answer) \<Rightarrow> int \<Rightarrow> string \<Rightarrow> unit res \<times> string list" where
  "cluster_join ask max_attempts url =
     join_loop ask (nat (if max_attempts \<le> 0 then 60 else max_attempts)) 1 (trim_right_slash (trim_space url)) None"

end
