(* ===== verification/Fs_Api.thy ===== *)
theory Fs_Api
  imports Maintenance
begin

text \<open>
  The file system and registry routes of a node's HTTP server (\<^verbatim>\<open>node/server.go\<close>): the JSON of
  requests and responses, the handlers, and the two wrappers around them. \<open>handleFS\<close> serves reads on
  every node; \<open>handleWrite\<close> serves changes on the leader and names the leader otherwise.

  A response is a status code and a body. The clock (in nanoseconds) and the leader the Raft
  library names are arguments.
\<close>

section \<open>Requests\<close>

record fs_request =
  fq_ino :: u64
  fq_parent :: u64
  fq_name :: string
  fq_mode :: u32
  fq_uid :: u32
  fq_gid :: u32
  fq_target :: string
  fq_old_parent :: u64
  fq_new_parent :: u64
  fq_old_name :: string
  fq_new_name :: string
  fq_attr :: "attr option"
  fq_force :: bool
  fq_chunk :: string
  fq_offset :: int
  fq_chunk_idx :: int
  fq_block_idx :: int
  fq_data :: bytes
  fq_file_size :: u64
  fq_replicas :: "string list"
  fq_epoch :: u64
  fq_chain :: u32
  fq_chain_ver :: u64

definition request_zero :: fs_request where
  "request_zero = \<lparr>fq_ino = 0, fq_parent = 0, fq_name = [], fq_mode = 0, fq_uid = 0, fq_gid = 0, fq_target = [],
     fq_old_parent = 0, fq_new_parent = 0, fq_old_name = [], fq_new_name = [], fq_attr = None, fq_force = False,
     fq_chunk = [], fq_offset = 0, fq_chunk_idx = 0, fq_block_idx = 0, fq_data = [], fq_file_size = 0,
     fq_replicas = [], fq_epoch = 0, fq_chain = 0, fq_chain_ver = 0\<rparr>"

definition dec_bool :: "json \<Rightarrow> bool \<Rightarrow> bool res" where
  "dec_bool j old = (case j of JBool b \<Rightarrow> Inr b | JNull \<Rightarrow> Inr old | _ \<Rightarrow> Inl json_err)"

text \<open>A pointer to a struct: \<open>null\<close> clears it, an object is decoded into the value it points to.\<close>

definition dec_pointer :: "('r \<Rightarrow> json \<Rightarrow> 'r res) \<Rightarrow> 'r \<Rightarrow> json \<Rightarrow> 'r option \<Rightarrow> 'r option res" where
  "dec_pointer f zero j old =
     (case j of JNull \<Rightarrow> Inr None
      | _ \<Rightarrow> map_sum id Some (f (case old of None \<Rightarrow> zero | Some r \<Rightarrow> r) j))"

definition dec_attr :: "attr \<Rightarrow> json \<Rightarrow> attr res" where
  "dec_attr a j = dec_struct set_attr_field j a"

definition set_request_field :: "string \<Rightarrow> json \<Rightarrow> fs_request \<Rightarrow> fs_request res" where
  "set_request_field k j r =
     (if k = ''ino'' then map_sum id (\<lambda>x. r\<lparr>fq_ino := x\<rparr>) (dec_word j (fq_ino r))
      else if k = ''parent_ino'' then map_sum id (\<lambda>x. r\<lparr>fq_parent := x\<rparr>) (dec_word j (fq_parent r))
      else if k = ''name'' then map_sum id (\<lambda>x. r\<lparr>fq_name := x\<rparr>) (dec_string j (fq_name r))
      else if k = ''mode'' then map_sum id (\<lambda>x. r\<lparr>fq_mode := x\<rparr>) (dec_word j (fq_mode r))
      else if k = ''uid'' then map_sum id (\<lambda>x. r\<lparr>fq_uid := x\<rparr>) (dec_word j (fq_uid r))
      else if k = ''gid'' then map_sum id (\<lambda>x. r\<lparr>fq_gid := x\<rparr>) (dec_word j (fq_gid r))
      else if k = ''target'' then map_sum id (\<lambda>x. r\<lparr>fq_target := x\<rparr>) (dec_string j (fq_target r))
      else if k = ''old_parent'' then map_sum id (\<lambda>x. r\<lparr>fq_old_parent := x\<rparr>) (dec_word j (fq_old_parent r))
      else if k = ''new_parent'' then map_sum id (\<lambda>x. r\<lparr>fq_new_parent := x\<rparr>) (dec_word j (fq_new_parent r))
      else if k = ''old_name'' then map_sum id (\<lambda>x. r\<lparr>fq_old_name := x\<rparr>) (dec_string j (fq_old_name r))
      else if k = ''new_name'' then map_sum id (\<lambda>x. r\<lparr>fq_new_name := x\<rparr>) (dec_string j (fq_new_name r))
      else if k = ''attr'' then map_sum id (\<lambda>x. r\<lparr>fq_attr := x\<rparr>) (dec_pointer dec_attr attr_zero j (fq_attr r))
      else if k = ''force'' then map_sum id (\<lambda>x. r\<lparr>fq_force := x\<rparr>) (dec_bool j (fq_force r))
      else if k = ''chunk_id'' then map_sum id (\<lambda>x. r\<lparr>fq_chunk := x\<rparr>) (dec_string j (fq_chunk r))
      else if k = ''offset'' then map_sum id (\<lambda>x. r\<lparr>fq_offset := x\<rparr>) (dec_int j (fq_offset r))
      else if k = ''chunk_idx'' then map_sum id (\<lambda>x. r\<lparr>fq_chunk_idx := x\<rparr>) (dec_int j (fq_chunk_idx r))
      else if k = ''block_idx'' then map_sum id (\<lambda>x. r\<lparr>fq_block_idx := x\<rparr>) (dec_int j (fq_block_idx r))
      else if k = ''data'' then map_sum id (\<lambda>x. r\<lparr>fq_data := x\<rparr>) (dec_bytes j (fq_data r))
      else if k = ''file_size'' then map_sum id (\<lambda>x. r\<lparr>fq_file_size := x\<rparr>) (dec_word j (fq_file_size r))
      else if k = ''replicas'' then
        map_sum id (\<lambda>x. r\<lparr>fq_replicas := x\<rparr>) (dec_list (\<lambda>j. dec_string j []) j (fq_replicas r))
      else if k = ''epoch'' then map_sum id (\<lambda>x. r\<lparr>fq_epoch := x\<rparr>) (dec_word j (fq_epoch r))
      else if k = ''chain_id'' then map_sum id (\<lambda>x. r\<lparr>fq_chain := x\<rparr>) (dec_word j (fq_chain r))
      else if k = ''chain_ver'' then map_sum id (\<lambda>x. r\<lparr>fq_chain_ver := x\<rparr>) (dec_word j (fq_chain_ver r))
      else Inr r)"

text \<open>\<^verbatim>\<open>json.NewDecoder(body).Decode\<close> reads the first value and leaves what follows it.\<close>

definition json_first :: "bytes \<Rightarrow> json option" where
  "json_first s = map_option fst (parse_value (Suc (length s)) s)"

definition decodeJSON :: "bytes \<Rightarrow> fs_request res" where
  "decodeJSON body =
     (case json_first body of
        None \<Rightarrow> Inl json_err
      | Some j \<Rightarrow> dec_struct set_request_field j request_zero)"

section \<open>Responses\<close>

record fs_response =
  fr_attr :: "attr option"
  fr_attrs :: "(string, attr) gomap"
  fr_nodes :: "string list"
  fr_leader :: string
  fr_error :: string
  fr_replicas :: "string list"
  fr_chunk :: string

definition response_zero :: fs_response where
  "response_zero = \<lparr>fr_attr = None, fr_attrs = [], fr_nodes = [], fr_leader = [], fr_error = [], fr_replicas = [], fr_chunk = []\<rparr>"

definition resp_attr :: "attr \<Rightarrow> fs_response" where
  "resp_attr a = response_zero\<lparr>fr_attr := Some a\<rparr>"

definition resp_error :: "string \<Rightarrow> fs_response" where
  "resp_error msg = response_zero\<lparr>fr_error := msg\<rparr>"

definition enc_response :: "fs_response \<Rightarrow> json" where
  "enc_response r = JObj (
     (case fr_attr r of None \<Rightarrow> [] | Some a \<Rightarrow> [(''attr'', enc_attr a)])
     @ omit ''attrs'' (enc_map enc_attr (fr_attrs r)) (fr_attrs r = [])
     @ omit ''nodes'' (JArr (map JStr (fr_nodes r))) (fr_nodes r = [])
     @ omit ''leader'' (JStr (fr_leader r)) (fr_leader r = [])
     @ omit ''error'' (JStr (fr_error r)) (fr_error r = [])
     @ omit ''replicas'' (JArr (map JStr (fr_replicas r))) (fr_replicas r = [])
     @ omit ''chunk_id'' (JStr (fr_chunk r)) (fr_chunk r = []))"

type_synonym answer = "nat \<times> bytes"

text \<open>\<^verbatim>\<open>Encoder.Encode\<close> ends the value with a newline, as \<^verbatim>\<open>http.Error\<close> does its text.\<close>

definition writeJSON :: "nat \<Rightarrow> fs_response \<Rightarrow> answer" where
  "writeJSON code r = (code, json_print (enc_response r) @ [CHR 0x0A])"

definition http_text :: "nat \<Rightarrow> string \<Rightarrow> answer" where
  "http_text code msg = (code, msg @ [CHR 0x0A])"

section \<open>Handlers\<close>

type_synonym fs_handler = "fs_request \<Rightarrow> node \<Rightarrow> (fs_response \<times> nat) \<times> node"

definition answer_attr :: "nat \<Rightarrow> attr res \<Rightarrow> fs_response \<times> nat" where
  "answer_attr code r = (case r of Inl e \<Rightarrow> (resp_error (MapError e), code) | Inr a \<Rightarrow> (resp_attr a, 200))"

definition answer_unit :: "nat \<Rightarrow> unit res \<Rightarrow> fs_response \<times> nat" where
  "answer_unit code r = (case r of Inl e \<Rightarrow> (resp_error (MapError e), code) | Inr _ \<Rightarrow> (response_zero, 200))"

definition on_kv :: "(kv \<Rightarrow> 'a res \<times> kv) \<Rightarrow> ('a res \<Rightarrow> fs_response \<times> nat) \<Rightarrow> node \<Rightarrow> (fs_response \<times> nat) \<times> node" where
  "on_kv f g nd = (case f (nd_kv nd) of (r, s) \<Rightarrow> (g r, nd\<lparr>nd_kv := s\<rparr>))"

definition getattr :: fs_handler where
  "getattr q nd = (answer_attr 404 (GetAttr (nd_kv nd) (fq_ino q)), nd)"

definition lookup_h :: fs_handler where
  "lookup_h q nd = (answer_attr 404 (Lookup (nd_kv nd) (fq_parent q) (fq_name q)), nd)"

definition readdir :: fs_handler where
  "readdir q nd =
     ((case Readdir (nd_kv nd) (fq_parent q) of
         Inl e \<Rightarrow> (resp_error (error_string e), 500)
       | Inr m \<Rightarrow> (response_zero\<lparr>fr_attrs := m\<rparr>, 200)), nd)"

definition mkdir :: "int \<Rightarrow> fs_handler" where
  "mkdir now q nd =
     on_kv (Mkdir (fq_parent q) (fq_name q) (fq_mode q) (fq_uid q) (fq_gid q) (now div 10 ^ 9)) (answer_attr 409) nd"

definition create :: "int \<Rightarrow> fs_handler" where
  "create now q nd =
     (case service_create (fq_parent q) (fq_name q) (fq_mode q) (fq_uid q) (fq_gid q) now nd of
        (r, nd') \<Rightarrow> (answer_attr 409 r, nd'))"

definition symlink :: "int \<Rightarrow> fs_handler" where
  "symlink now q nd =
     on_kv (Symlink (fq_parent q) (fq_name q) (fq_target q) (fq_uid q) (fq_gid q) (now div 10 ^ 9)) (answer_attr 409) nd"

definition unlink :: fs_handler where
  "unlink q nd = on_kv (Unlink (fq_parent q) (fq_name q)) (answer_attr 404) nd"

definition rmdir :: fs_handler where
  "rmdir q nd = on_kv (Rmdir (fq_parent q) (fq_name q)) (answer_unit 409) nd"

definition rename :: fs_handler where
  "rename q nd = on_kv (Rename (fq_old_parent q) (fq_new_parent q) (fq_old_name q) (fq_new_name q)) (answer_unit 409) nd"

definition setattr :: fs_handler where
  "setattr q nd =
     (case fq_attr q of
        None \<Rightarrow> ((resp_error ''missing attr'', 400), nd)
      | Some a \<Rightarrow>
          on_kv (UpdateAttr a)
            (\<lambda>r. case r of Inl e \<Rightarrow> (resp_error (error_string e), 500) | Inr _ \<Rightarrow> (resp_attr a, 200)) nd)"

definition registrySet :: fs_handler where
  "registrySet q nd =
     (if fq_chunk q = [] then ((resp_error ''missing chunk_id'', 400), nd)
      else case ApplyRegistrySet (fq_chunk q) (fq_replicas q) (fq_epoch q) nd of
        (Inl e, nd') \<Rightarrow> ((resp_error (error_string e), 500), nd')
      | (Inr _, nd') \<Rightarrow> ((response_zero, 200), nd'))"

definition registryGet :: fs_handler where
  "registryGet q nd =
     ((if fq_chunk q = [] then (resp_error ''missing chunk_id'', 400)
       else case GetChunkRegistry nd (fq_chunk q) of
         Inl _ \<Rightarrow> (resp_error ''not found'', 404)
       | Inr loc \<Rightarrow> (response_zero\<lparr>fr_chunk := fq_chunk q, fr_replicas := lo_replicas loc\<rparr>, 200)), nd)"

definition registryDelete :: fs_handler where
  "registryDelete q nd =
     (if fq_chunk q = [] then ((resp_error ''missing chunk_id'', 400), nd)
      else case ApplyRegistryDelete (fq_chunk q) nd of
        (Inl e, nd') \<Rightarrow> ((resp_error (error_string e), 500), nd')
      | (Inr _, nd') \<Rightarrow> ((response_zero, 200), nd'))"

section \<open>Dispatch\<close>

record http_request =
  hq_method :: string
  hq_octets :: bool
  hq_query :: url_values
  hq_body :: bytes

definition bodyLimit :: nat where "bodyLimit = 16777216"

definition too_large :: err where "too_large = ErrMsg ''http: request body too large''"

definition parseQueryUint64 :: "string \<Rightarrow> u64 res" where
  "parseQueryUint64 raw = (if raw = [] then Inl (ErrMsg ''empty'') else parse_u64 raw)"

definition parseQueryInt64 :: "string \<Rightarrow> int res" where
  "parseQueryInt64 raw = (if raw = [] then Inr 0 else atoi raw)"

text \<open>A raw body (\<open>application/octet-stream\<close>) carries its position in the query.\<close>

definition parseWriteRequest :: "http_request \<Rightarrow> fs_request res" where
  "parseWriteRequest h =
     (if hq_octets h then
        (case parseQueryUint64 (values_get (hq_query h) ''ino'') of
           Inl _ \<Rightarrow> Inl (ErrMsg ''missing or invalid ino'')
         | Inr ino \<Rightarrow>
             if ino = 0 then Inl (ErrMsg ''missing or invalid ino'')
             else case parseQueryInt64 (values_get (hq_query h) ''offset'') of
               Inl _ \<Rightarrow> Inl (ErrMsg ''invalid offset'')
             | Inr off \<Rightarrow>
                 if bodyLimit < length (hq_body h) then Inl too_large
                 else if hq_body h = [] then Inl (ErrMsg ''missing data'')
                 else Inr (request_zero\<lparr>fq_ino := ino, fq_offset := off, fq_data := hq_body h\<rparr>))
      else decodeJSON (hq_body h))"

definition run_handler :: "fs_handler \<Rightarrow> fs_request \<Rightarrow> node \<Rightarrow> answer \<times> node" where
  "run_handler f q nd = (case f q nd of ((r, code), nd') \<Rightarrow> (writeJSON code r, nd'))"

definition handleFS :: "fs_handler \<Rightarrow> http_request \<Rightarrow> node \<Rightarrow> answer \<times> node" where
  "handleFS f h nd =
     (if hq_method h \<noteq> ''POST'' then (http_text 405 ''method not allowed'', nd)
      else case decodeJSON (hq_body h) of
        Inl e \<Rightarrow> (writeJSON 400 (resp_error (error_string e)), nd)
      | Inr q \<Rightarrow> run_handler f q nd)"

definition leader_or_empty :: "string option \<Rightarrow> node \<Rightarrow> string" where
  "leader_or_empty leader nd = (case LeaderHTTPAddr leader nd of Inl _ \<Rightarrow> [] | Inr l \<Rightarrow> l)"

definition handleWrite :: "string option \<Rightarrow> fs_handler \<Rightarrow> http_request \<Rightarrow> node \<Rightarrow> answer \<times> node" where
  "handleWrite leader f h nd =
     (if hq_method h \<noteq> ''POST'' then (http_text 405 ''method not allowed'', nd)
      else if \<not> IsLeader nd then (writeJSON 307 (response_zero\<lparr>fr_leader := leader_or_empty leader nd\<rparr>), nd)
      else case parseWriteRequest h of
        Inl e \<Rightarrow> (writeJSON 400 (resp_error (error_string e)), nd)
      | Inr q \<Rightarrow> run_handler f q nd)"

definition handleNodes :: "node \<Rightarrow> answer" where
  "handleNodes nd = writeJSON 200 (response_zero\<lparr>fr_nodes := ListNodes (nd_kv nd)\<rparr>)"

definition handleLeader :: "string option \<Rightarrow> node \<Rightarrow> answer" where
  "handleLeader leader nd =
     (case LeaderHTTPAddr leader nd of
        Inl e \<Rightarrow> writeJSON 503 (resp_error (error_string e))
      | Inr l \<Rightarrow> writeJSON 200 (response_zero\<lparr>fr_leader := l\<rparr>))"

text \<open>The routes of the file system, the registry and the membership that the metadata client uses.\<close>

definition serve :: "int \<Rightarrow> string option \<Rightarrow> string \<Rightarrow> http_request \<Rightarrow> node \<Rightarrow> (answer \<times> node) option" where
  "serve now leader path h nd =
     (if path = ''/v1/fs/getattr'' then Some (handleFS getattr h nd)
      else if path = ''/v1/fs/lookup'' then Some (handleFS lookup_h h nd)
      else if path = ''/v1/fs/readdir'' then Some (handleFS readdir h nd)
      else if path = ''/v1/fs/mkdir'' then Some (handleWrite leader (mkdir now) h nd)
      else if path = ''/v1/fs/create'' then Some (handleWrite leader (create now) h nd)
      else if path = ''/v1/fs/symlink'' then Some (handleWrite leader (symlink now) h nd)
      else if path = ''/v1/fs/unlink'' then Some (handleWrite leader unlink h nd)
      else if path = ''/v1/fs/rmdir'' then Some (handleWrite leader rmdir h nd)
      else if path = ''/v1/fs/rename'' then Some (handleWrite leader rename h nd)
      else if path = ''/v1/fs/setattr'' then Some (handleWrite leader setattr h nd)
      else if path = ''/v1/chunks/registry/set'' then Some (handleWrite leader registrySet h nd)
      else if path = ''/v1/chunks/registry/delete'' then Some (handleWrite leader registryDelete h nd)
      else if path = ''/v1/chunks/registry/get'' then Some (handleFS registryGet h nd)
      else if path = ''/v1/cluster/nodes'' then Some (handleNodes nd, nd)
      else if path = ''/v1/cluster/leader'' then Some (handleLeader leader nd, nd)
      else None)"

end
