(* ===== verification/Storage.thy ===== *)
theory Storage
  imports Maintenance
begin

text \<open>
  The chunk client of a mount (\<^verbatim>\<open>storage/chunk.go\<close>, \<^verbatim>\<open>storage/block_writer.go\<close>): which nodes it asks
  for a block, the buffers of blocks that are written but not sent yet, and reading, writing,
  truncating and deleting the data of a file.

  The transport is the Go interface \<^verbatim>\<open>ChunkTransport\<close> as a record of functions on the state \<open>'w\<close> of the
  servers. The requests that \<open>deleteChunk\<close> sends in parallel are served in an order that is part of
  it, and so is the optional \<^verbatim>\<open>BlockFlusher\<close> (\<^verbatim>\<open>cmd/memoryfs/mount.go\<close> passes none). Times are nanoseconds; \<open>lastAutoFlush\<close> is \<open>None\<close> while it is Go's zero time. Offsets and sizes are
  below \<open>2 ^ 63\<close>, where Go's \<open>int\<close>, \<open>int64\<close> and \<open>uint64\<close> agree; the end of a write wraps as in the code.
\<close>

section \<open>Transport\<close>

record 'w chunk_transport =
  tp_put :: "string \<Rightarrow> string \<Rightarrow> bytes \<Rightarrow> write_options \<Rightarrow> 'w \<Rightarrow> unit res \<times> 'w"
  tp_get :: "string \<Rightarrow> string \<Rightarrow> bool \<Rightarrow> 'w \<Rightarrow> bytes res"
  tp_delete :: "string \<Rightarrow> string \<Rightarrow> 'w \<Rightarrow> unit res \<times> 'w"
  tp_replicas :: "(string \<Rightarrow> 'w \<Rightarrow> string list res) option"
  tp_order :: "string list \<Rightarrow> string list"
  tp_flusher :: "(u64 \<Rightarrow> int \<Rightarrow> bytes \<Rightarrow> 'w \<Rightarrow> unit res \<times> 'w) option"

section \<open>Nodes\<close>

record chunk_client =
  ck_seeds :: "string list"
  ck_nodes :: "string list"
  ck_prefix :: string
  ck_rf :: int

definition newChunkStore :: "string list \<Rightarrow> int \<Rightarrow> string \<Rightarrow> chunk_client" where
  "newChunkStore seeds rf prefix =
     \<lparr>ck_seeds = seeds, ck_nodes = seeds, ck_prefix = trim_suffix (trim_space prefix) ''/'',
      ck_rf = (if rf \<le> 0 then DefaultReplicaFactor else rf)\<rparr>"

definition nodeKey :: "string \<Rightarrow> string" where
  "nodeKey raw =
     trim_right_slash (before_char CHR ''/'' (trim_prefix (trim_prefix (trim_space raw) ''http://'') ''https://''))"

fun merge_urls :: "string list \<Rightarrow> string list \<Rightarrow> string list" where
  "merge_urls seen [] = []"
| "merge_urls seen (n # ns) =
     (let m = trim_space n in
      if m = [] \<or> nodeKey m \<in> set seen then merge_urls seen ns
      else m # merge_urls (nodeKey m # seen) ns)"

definition mergeNodeURLs :: "string list \<Rightarrow> string list \<Rightarrow> string list" where
  "mergeNodeURLs existing discovered = merge_urls [] (existing @ discovered)"

definition RefreshNodes :: "string list res \<Rightarrow> chunk_client \<Rightarrow> unit res \<times> chunk_client" where
  "RefreshNodes discovered c =
     (case discovered of
        Inl e \<Rightarrow> (Inl e, c)
      | Inr ns \<Rightarrow> (Inr (), c\<lparr>ck_nodes := mergeNodeURLs (ck_seeds c) ns\<rparr>))"

definition applyNodePrefix :: "string list \<Rightarrow> string \<Rightarrow> string list" where
  "applyNodePrefix ns prefix =
     (let p = trim_suffix (trim_space prefix) ''/'' in
      if p = [] then ns
      else map (\<lambda>n. if has_suffix n p then n else n @ p)
             (filter (\<lambda>n. n \<noteq> []) (map (\<lambda>n. trim_right_slash (trim_space n)) ns)))"

definition writeTargetsForChunk :: "chunk_client \<Rightarrow> string \<Rightarrow> string list" where
  "writeTargetsForChunk c k =
     (let cluster = applyNodePrefix (ck_nodes c) (ck_prefix c) in
      case SelectNodes cluster k (ck_rf c) of Inr sel \<Rightarrow> sel | Inl _ \<Rightarrow> cluster)"

definition nodesForChunk :: "'w chunk_transport \<Rightarrow> chunk_client \<Rightarrow> string \<Rightarrow> 'w \<Rightarrow> string list" where
  "nodesForChunk tp c k w =
     (case tp_replicas tp of
        None \<Rightarrow> writeTargetsForChunk c k
      | Some look \<Rightarrow>
          (case look k w of
             Inr reps \<Rightarrow> if reps \<noteq> [] then applyNodePrefix reps (ck_prefix c) else writeTargetsForChunk c k
           | Inl _ \<Rightarrow> writeTargetsForChunk c k))"

definition readTargetsForChunk :: "'w chunk_transport \<Rightarrow> chunk_client \<Rightarrow> string \<Rightarrow> 'w \<Rightarrow> string list" where
  "readTargetsForChunk tp c k w = rev (nodesForChunk tp c k w)"

definition ErrNoNodes :: err where "ErrNoNodes = ErrMsg ''no nodes available''"

section \<open>Single blocks\<close>

fun read_targets :: "'w chunk_transport \<Rightarrow> string list \<Rightarrow> string \<Rightarrow> 'w \<Rightarrow> err \<Rightarrow> bytes res" where
  "read_targets tp [] k w e = Inl e"
| "read_targets tp (n # ns) k w e =
     (case tp_get tp n k False w of
        Inr d \<Rightarrow> Inr d
      | Inl _ \<Rightarrow> (case tp_get tp n k True w of Inr d \<Rightarrow> Inr d | Inl e' \<Rightarrow> read_targets tp ns k w e'))"

definition readChunk :: "'w chunk_transport \<Rightarrow> chunk_client \<Rightarrow> string \<Rightarrow> 'w \<Rightarrow> bytes res" where
  "readChunk tp c k w = read_targets tp (readTargetsForChunk tp c k w) k w ErrNoNodes"

definition client_options :: "string list \<Rightarrow> write_options" where
  "client_options targets =
     \<lparr>wo_replica = False, wo_from_client = True, wo_stage = ''prepare'', wo_chain = 0, wo_chain_ver = 0, wo_update = 0,
      wo_commit = 0, wo_replicas = targets, wo_syncing = False\<rparr>"

definition writeChunk :: "'w chunk_transport \<Rightarrow> chunk_client \<Rightarrow> string \<Rightarrow> bytes \<Rightarrow> 'w \<Rightarrow> unit res \<times> 'w" where
  "writeChunk tp c k d w =
     (case writeTargetsForChunk c k of
        [] \<Rightarrow> (Inl ErrNoNodes, w)
      | head # rest \<Rightarrow> tp_put tp head k d (client_options (head # rest)) w)"

fun delete_all :: "'w chunk_transport \<Rightarrow> string list \<Rightarrow> string \<Rightarrow> nat \<Rightarrow> err \<Rightarrow> 'w \<Rightarrow> unit res \<times> 'w" where
  "delete_all tp [] k n e w = (if n = 0 then Inl e else Inr (), w)"
| "delete_all tp (v # vs) k n e w =
     (case tp_delete tp v k w of
        (Inr _, w') \<Rightarrow> delete_all tp vs k (Suc n) e w'
      | (Inl e', w') \<Rightarrow> delete_all tp vs k n e' w')"

definition deleteChunk :: "'w chunk_transport \<Rightarrow> chunk_client \<Rightarrow> string \<Rightarrow> 'w \<Rightarrow> unit res \<times> 'w" where
  "deleteChunk tp c k w = delete_all tp (tp_order tp (writeTargetsForChunk c k)) k 0 ErrNoNodes w"

definition readBlock :: "'w chunk_transport \<Rightarrow> chunk_client \<Rightarrow> u64 \<Rightarrow> int \<Rightarrow> int \<Rightarrow> 'w \<Rightarrow> bytes" where
  "readBlock tp c ino ci bi w =
     (case readChunk tp c (BlockID ino ci bi) w of
        Inr d \<Rightarrow> d
      | Inl _ \<Rightarrow> (case readChunk tp c (LegacyChunkID ino (LegacyBlockIndex ci bi)) w of Inr d \<Rightarrow> d | Inl _ \<Rightarrow> []))"

definition deleteBlock :: "'w chunk_transport \<Rightarrow> chunk_client \<Rightarrow> u64 \<Rightarrow> int \<Rightarrow> int \<Rightarrow> 'w \<Rightarrow> 'w" where
  "deleteBlock tp c ino ci bi w =
     snd (deleteChunk tp c (LegacyChunkID ino (LegacyBlockIndex ci bi)) (snd (deleteChunk tp c (BlockID ino ci bi) w)))"

definition ensureChunk :: "attr \<Rightarrow> int \<Rightarrow> attr" where
  "ensureChunk a idx =
     (let cs = at_chunks a; cs' = cs @ replicate (nat (idx + 1) - length cs) [] in
      a\<lparr>at_chunks := cs'[nat idx := ChunkID (at_ino a) idx]\<rparr>)"

definition chunkCount :: "u64 \<Rightarrow> int" where
  "chunkCount sz = (if sz = 0 then 0 else uint (sz - 1) div ChunkSize + 1)"

definition blockCount :: "u64 \<Rightarrow> int" where
  "blockCount sz = (if sz = 0 then 0 else uint (sz - 1) div BlockSize + 1)"

section \<open>Block buffers\<close>

type_synonym block_key = "int \<times> int"

record writer =
  bw_dirty :: "(block_key, bytes) gomap"
  bw_valid :: "(block_key, int) gomap"
  bw_last :: "int option"

definition new_writer :: writer where
  "new_writer = \<lparr>bw_dirty = [], bw_valid = [], bw_last = None\<rparr>"

type_synonym writers = "(u64, writer) gomap"

definition writerFor :: "writers \<Rightarrow> u64 \<Rightarrow> writer" where
  "writerFor ws ino = (case mget ws ino of Some b \<Rightarrow> b | None \<Rightarrow> new_writer)"

definition valid_of :: "writer \<Rightarrow> block_key \<Rightarrow> int" where
  "valid_of b key = (case mget (bw_valid b) key of None \<Rightarrow> 0 | Some v \<Rightarrow> v)"

definition drop_block :: "block_key \<Rightarrow> writer \<Rightarrow> writer" where
  "drop_block key b = b\<lparr>bw_dirty := mdel key (bw_dirty b), bw_valid := mdel key (bw_valid b)\<rparr>"

definition readBuffered :: "writer \<Rightarrow> block_key \<Rightarrow> bytes" where
  "readBuffered b key =
     (case mget (bw_dirty b) key of None \<Rightarrow> [] | Some buf \<Rightarrow> take (nat BlockSize) (take (nat (valid_of b key)) buf))"

definition flushLocked :: "'w chunk_transport \<Rightarrow> chunk_client \<Rightarrow> u64 \<Rightarrow> block_key \<Rightarrow> writer \<Rightarrow> 'w \<Rightarrow> unit res \<times> writer \<times> 'w" where
  "flushLocked tp c ino key b w =
     (case mget (bw_dirty b) key of
        None \<Rightarrow> (Inr (), b, w)
      | Some buf \<Rightarrow>
          if valid_of b key \<le> 0 then (Inr (), drop_block key b, w)
          else case writeChunk tp c (BlockID ino (fst key) (snd key)) (take (nat (valid_of b key)) buf) w of
            (Inl e, w') \<Rightarrow> (Inl e, b, w')
          | (Inr _, w') \<Rightarrow> (Inr (), drop_block key b, w'))"

fun flush_keys :: "'w chunk_transport \<Rightarrow> chunk_client \<Rightarrow> u64 \<Rightarrow> block_key list \<Rightarrow> writer \<Rightarrow> 'w \<Rightarrow> unit res \<times> writer \<times> 'w" where
  "flush_keys tp c ino [] b w = (Inr (), b, w)"
| "flush_keys tp c ino (k # ks) b w =
     (case flushLocked tp c ino k b w of
        (Inl e, b', w') \<Rightarrow> (Inl e, b', w')
      | (Inr _, b', w') \<Rightarrow> flush_keys tp c ino ks b' w')"

text \<open>The size \<open>Flush\<close> computes from the buffers is passed to \<open>flushLocked\<close>, which does not use it.\<close>

definition Flush :: "'w chunk_transport \<Rightarrow> chunk_client \<Rightarrow> u64 \<Rightarrow> writer \<Rightarrow> 'w \<Rightarrow> unit res \<times> writer \<times> 'w" where
  "Flush tp c ino b w = flush_keys tp c ino (mkeys (bw_dirty b)) b w"

definition FlushFile :: "'w chunk_transport \<Rightarrow> chunk_client \<Rightarrow> u64 \<Rightarrow> writers \<Rightarrow> 'w \<Rightarrow> unit res \<times> writers \<times> 'w" where
  "FlushFile tp c ino ws w =
     (case mget ws ino of
        None \<Rightarrow> (Inr (), ws, w)
      | Some b \<Rightarrow> (case Flush tp c ino b w of (r, b', w') \<Rightarrow> (r, mput ino b' ws, w')))"

section \<open>Writing\<close>

type_synonym 'w file_state = "attr \<times> writer \<times> 'w"

definition zero_byte :: char where "zero_byte = CHR 0x00"

text \<open>The buffer of a block before the new bytes are copied into it.\<close>

definition block_buffer :: "'w chunk_transport \<Rightarrow> chunk_client \<Rightarrow> u64 \<Rightarrow> u64 \<Rightarrow> int \<Rightarrow> int \<Rightarrow> int \<Rightarrow> writer \<Rightarrow> 'w \<Rightarrow> bytes" where
  "block_buffer tp c ino old ci bi bo b w =
     (case mget (bw_dirty b) (ci, bi) of
        Some buf \<Rightarrow> buf
      | None \<Rightarrow>
          if 0 < bo \<and> word_of_int (ci * ChunkSize + bi * BlockSize) < old then
            (let ex = take (nat BlockSize) (readBlock tp c ino ci bi w) in ex @ replicate (nat BlockSize - length ex) zero_byte)
          else [])"

definition copy_at :: "nat \<Rightarrow> bytes \<Rightarrow> bytes \<Rightarrow> bytes" where
  "copy_at bo d buf =
     (let buf' = buf @ replicate (bo + length d - length buf) zero_byte in take bo buf' @ d @ drop (bo + length d) buf')"

definition write_block :: "'w chunk_transport \<Rightarrow> chunk_client \<Rightarrow> u64 \<Rightarrow> u64 \<Rightarrow> int \<Rightarrow> int \<Rightarrow> int \<Rightarrow> bytes \<Rightarrow> 'w file_state \<Rightarrow>
    unit res \<times> 'w file_state" where
  "write_block tp c ino old ci bi bo d s =
     (case s of (a, b, w) \<Rightarrow>
      if bo = 0 \<and> int (length d) = BlockSize then
        (case writeChunk tp c (BlockID ino ci bi) d w of (r, w') \<Rightarrow> (r, ensureChunk a ci, drop_block (ci, bi) b, w'))
      else
        let buf = copy_at (nat bo) d (block_buffer tp c ino old ci bi bo b w);
            end_off = bo + int (length d);
            b1 = b\<lparr>bw_dirty := mput (ci, bi) buf (bw_dirty b),
                   bw_valid := (if valid_of b (ci, bi) < end_off then mput (ci, bi) end_off (bw_valid b) else bw_valid b)\<rparr>;
            a1 = ensureChunk a ci in
        if BlockSize \<le> valid_of b1 (ci, bi)
        then (case flushLocked tp c ino (ci, bi) b1 w of (r, b2, w') \<Rightarrow> (r, a1, b2, w'))
        else (Inr (), a1, b1, w))"

definition in_block :: "int \<Rightarrow> nat" where
  "in_block off = (case LocateBlock off of (ci, bi, bo) \<Rightarrow> nat (if BlockSize - bo \<le> 0 then BlockSize else BlockSize - bo))"

lemma in_block_pos [simp]: "0 < in_block off"
  by (simp add: in_block_def BlockSize_def split: prod.split)

function write_loop :: "'w chunk_transport \<Rightarrow> chunk_client \<Rightarrow> u64 \<Rightarrow> u64 \<Rightarrow> bytes \<Rightarrow> int \<Rightarrow> 'w file_state \<Rightarrow> unit res \<times> 'w file_state" where
  "write_loop tp c ino old [] off s = (Inr (), s)"
| "write_loop tp c ino old (x # xs) off s =
     (case LocateBlock off of (ci, bi, bo) \<Rightarrow>
      let n = min (length (x # xs)) (in_block off) in
      case write_block tp c ino old ci bi bo (take n (x # xs)) s of
        (Inl e, s') \<Rightarrow> (Inl e, s')
      | (Inr _, s') \<Rightarrow> write_loop tp c ino old (drop n (x # xs)) (off + int n) s')"
  by pat_completeness auto
termination
  by (relation "measure (\<lambda>(tp, c, ino, old, d, off, s). length d)") (auto simp: Suc_le_eq)

definition smallWriteImmediateFlushBytes :: nat where "smallWriteImmediateFlushBytes = 65536"
definition autoFlushInterval :: int where "autoFlushInterval = 10000000"

definition writer_write :: "'w chunk_transport \<Rightarrow> chunk_client \<Rightarrow> int \<Rightarrow> bytes \<Rightarrow> int \<Rightarrow> 'w file_state \<Rightarrow> unit res \<times> 'w file_state" where
  "writer_write tp c now d off s =
     (case s of (a, b, w) \<Rightarrow>
      if d = [] then (Inr (), s)
      else
        let ino = at_ino a; fin = wrap64 (off + int (length d));
            a0 = (if sint (at_size a) < fin then a\<lparr>at_size := word_of_int fin\<rparr> else a) in
        case write_loop tp c ino (at_size a) d off (a0, b, w) of
          (Inl e, s1) \<Rightarrow> (Inl e, s1)
        | (Inr _, a1, b1, w1) \<Rightarrow>
            let periodic = (case bw_last b1 of None \<Rightarrow> False | Some t \<Rightarrow> autoFlushInterval \<le> time_sub now t);
                small = (length d \<le> smallWriteImmediateFlushBytes \<and> unat (at_size a1) \<le> smallWriteImmediateFlushBytes) in
            if periodic \<or> small then
              (case Flush tp c ino b1 w1 of
                 (Inl e, b2, w2) \<Rightarrow> (Inl e, a1, b2, w2)
               | (Inr _, b2, w2) \<Rightarrow> (Inr (), a1, b2\<lparr>bw_last := Some now\<rparr>, w2))
            else if bw_last b1 = None then (Inr (), a1, b1\<lparr>bw_last := Some now\<rparr>, w1)
            else (Inr (), a1, b1, w1))"

text \<open>\<open>ChunkStore.Write\<close>: with a flusher the data goes straight to it, and the attributes stay as they are.\<close>

definition store_write :: "'w chunk_transport \<Rightarrow> chunk_client \<Rightarrow> int \<Rightarrow> attr \<Rightarrow> bytes \<Rightarrow> int \<Rightarrow> writers \<Rightarrow> 'w \<Rightarrow>
    unit res \<times> attr \<times> writers \<times> 'w" where
  "store_write tp c now a d off ws w =
     (if d = [] then (Inr (), a, ws, w)
      else case tp_flusher tp of
        Some f \<Rightarrow> (case f (at_ino a) off d w of (r, w') \<Rightarrow> (r, a, ws, w'))
      | None \<Rightarrow>
          (case writer_write tp c now d off (a, writerFor ws (at_ino a), w) of
             (r, a', b', w') \<Rightarrow> (r, a', mput (at_ino a) b' ws, w')))"

section \<open>Reading\<close>

definition block_data :: "'w chunk_transport \<Rightarrow> chunk_client \<Rightarrow> u64 \<Rightarrow> int \<Rightarrow> int \<Rightarrow> writers \<Rightarrow> 'w \<Rightarrow> bytes" where
  "block_data tp c ino ci bi ws w =
     (let buffered = (case mget ws ino of None \<Rightarrow> [] | Some b \<Rightarrow> readBuffered b (ci, bi)) in
      if buffered \<noteq> [] then buffered else readBlock tp c ino ci bi w)"

function read_loop :: "'w chunk_transport \<Rightarrow> chunk_client \<Rightarrow> u64 \<Rightarrow> writers \<Rightarrow> 'w \<Rightarrow> nat \<Rightarrow> int \<Rightarrow> bytes" where
  "read_loop tp c ino ws w want off =
     (if want = 0 then []
      else case LocateBlock off of (ci, bi, bo) \<Rightarrow>
        let piece = take (min want (nat (BlockSize - bo))) (drop (nat bo) (block_data tp c ino ci bi ws w)) in
        if piece = [] then []
        else piece @ read_loop tp c ino ws w (want - length piece) (off + int (length piece)))"
  by pat_completeness auto
termination
  by (relation "measure (\<lambda>(tp, c, ino, ws, w, want, off). want)") auto

declare read_loop.simps [simp del]

definition store_read :: "'w chunk_transport \<Rightarrow> chunk_client \<Rightarrow> attr \<Rightarrow> nat \<Rightarrow> int \<Rightarrow> writers \<Rightarrow> 'w \<Rightarrow> bytes" where
  "store_read tp c a n off ws w =
     (if sint (at_size a) \<le> off then []
      else read_loop tp c (at_ino a) ws w (min n (nat (sint (at_size a) - off))) off)"

section \<open>Truncating and deleting\<close>

definition deleteLogicalChunk :: "'w chunk_transport \<Rightarrow> chunk_client \<Rightarrow> u64 \<Rightarrow> int \<Rightarrow> 'w \<Rightarrow> 'w" where
  "deleteLogicalChunk tp c ino ci w = fold (\<lambda>bi. deleteBlock tp c ino ci (int bi)) [0..<nat BlocksPerChunk] w"

definition delete_blocks :: "'w chunk_transport \<Rightarrow> chunk_client \<Rightarrow> u64 \<Rightarrow> nat \<Rightarrow> nat \<Rightarrow> 'w \<Rightarrow> 'w" where
  "delete_blocks tp c ino lo hi w =
     fold (\<lambda>g. deleteBlock tp c ino (int g div BlocksPerChunk) (int g mod BlocksPerChunk)) [lo..<hi] w"

definition trim_block :: "'w chunk_transport \<Rightarrow> chunk_client \<Rightarrow> u64 \<Rightarrow> u64 \<Rightarrow> 'w \<Rightarrow> 'w" where
  "trim_block tp c ino sz w =
     (case LocateBlock (sint sz - 1) of (ci, bi, _) \<Rightarrow>
      case (case readChunk tp c (BlockID ino ci bi) w of
              Inr d \<Rightarrow> Inr d
            | Inl _ \<Rightarrow> readChunk tp c (LegacyChunkID ino (LegacyBlockIndex ci bi)) w) of
        Inl _ \<Rightarrow> w
      | Inr d \<Rightarrow>
          let m = uint sz mod BlockSize; n = nat (if m = 0 then BlockSize else m) in
          if n < length d then snd (writeChunk tp c (BlockID ino ci bi) (take n d) w) else w)"

definition deleteBlocksFrom :: "'w chunk_transport \<Rightarrow> chunk_client \<Rightarrow> u64 \<Rightarrow> u64 \<Rightarrow> u64 \<Rightarrow> 'w \<Rightarrow> 'w" where
  "deleteBlocksFrom tp c ino new old w =
     (let w1 = delete_blocks tp c ino (nat (blockCount new)) (nat (blockCount old)) w in
      if new = 0 then w1 else trim_block tp c ino new w1)"

definition Truncate :: "'w chunk_transport \<Rightarrow> chunk_client \<Rightarrow> attr \<Rightarrow> u64 \<Rightarrow> writers \<Rightarrow> 'w \<Rightarrow> unit res \<times> attr \<times> writers \<times> 'w" where
  "Truncate tp c a sz ws w =
     (case FlushFile tp c (at_ino a) ws w of
        (Inl e, ws1, w1) \<Rightarrow> (Inl e, a, ws1, w1)
      | (Inr _, ws1, w1) \<Rightarrow>
          let n = nat (chunkCount sz); cs = at_chunks a;
              w2 = (if n < length cs then fold (\<lambda>i. deleteLogicalChunk tp c (at_ino a) (int i)) [n..<length cs] w1 else w1);
              a1 = a\<lparr>at_size := sz, at_chunks := (if n < length cs then take n cs else cs)\<rparr>;
              w3 = (if sz < at_size a then deleteBlocksFrom tp c (at_ino a) sz (at_size a) w2 else w2);
              a2 = (if 0 < sz then ensureChunk a1 (uint (sz - 1) div ChunkSize) else a1) in
          (Inr (), a2, ws1, w3))"

definition DeleteChunks :: "'w chunk_transport \<Rightarrow> chunk_client \<Rightarrow> attr \<Rightarrow> writers \<Rightarrow> 'w \<Rightarrow> writers \<times> 'w" where
  "DeleteChunks tp c a ws w =
     (case FlushFile tp c (at_ino a) ws w of (_, ws1, w1) \<Rightarrow>
      (mdel (at_ino a) ws1, delete_blocks tp c (at_ino a) 0 (nat (blockCount (at_size a))) w1))"

end
