(* ===== verification/Storage_Correct.thy ===== *)
theory Storage_Correct
  imports Storage
begin

text \<open>
  What the block buffers of the chunk client do to a file. The client relies on the servers through
  two functions, \<open>writeChunk\<close> and \<open>readChunk\<close>; the locale \<open>chunk_io\<close> states what it needs of them: a block
  that was written is read back, and the other blocks stay as they are. In it, \<open>file_data\<close> says that the
  buffers and the stored blocks together hold the contents of a file, appending to the file keeps that, and
  reading returns the contents.
\<close>

section \<open>Blocks of a file\<close>

abbreviation BS :: nat where "BS \<equiv> nat BlockSize"

lemma BS_pos [simp]: "0 < BS" "BS \<noteq> 0" "int BS = BlockSize" "0 \<le> BlockSize" "0 < BlockSize" "\<not> BlockSize \<le> 0"
  by (simp_all add: BlockSize_def)

definition block_of :: "bytes \<Rightarrow> nat \<Rightarrow> bytes" where
  "block_of f g = take BS (drop (g * BS) f)"

definition key_of :: "nat \<Rightarrow> block_key" where
  "key_of g = (int g div BlocksPerChunk, int g mod BlocksPerChunk)"

lemma key_of_inject [simp]: "key_of g = key_of h \<longleftrightarrow> g = h"
proof
  assume "key_of g = key_of h"
  then have "int g div 16 = int h div 16" "int g mod 16 = int h mod 16"
    by (simp_all add: key_of_def layout_sizes)
  then have "int g = int h" by (metis mult_div_mod_eq)
  then show "g = h" by simp
qed simp

lemma div_mod_16 [simp]: "(x :: int) div 67108864 = x div 4194304 div 16" "x mod 67108864 div 4194304 = x div 4194304 mod 16"
  "x mod 67108864 mod 4194304 = x mod 4194304"
proof -
  show "x div 67108864 = x div 4194304 div 16" using zdiv_zmult2_eq [of 16 x 4194304] by simp
  have m: "x mod 67108864 = 4194304 * (x div 4194304 mod 16) + x mod 4194304" using zmod_zmult2_eq [of 16 x 4194304] by simp
  show "x mod 67108864 div 4194304 = x div 4194304 mod 16" "x mod 67108864 mod 4194304 = x mod 4194304" unfolding m by simp_all
qed

lemma locate_nat: "LocateBlock (int n) = (fst (key_of (n div BS)), snd (key_of (n div BS)), int (n mod BS))"
  by (simp add: LocateBlock_def key_of_def layout_sizes Let_def zdiv_int zmod_int)

lemma block_start: "fst (key_of g) * ChunkSize + snd (key_of g) * BlockSize = int (g * BS)"
proof -
  have "int g = int g div 16 * 16 + int g mod 16" by simp
  then have "int g div 16 * 67108864 + int g mod 16 * 4194304 = int g * 4194304" by linarith
  then show ?thesis by (simp add: key_of_def layout_sizes)
qed

lemma block_last: "block_of f (length f div BS) = drop (length f div BS * BS) f"
  "length (block_of f (length f div BS)) = length f mod BS"
proof -
  have "length (drop (length f div BS * BS) f) = length f mod BS" by (simp add: minus_div_mult_eq_mod)
  moreover from this have "length (drop (length f div BS * BS) f) \<le> BS" using mod_less_divisor [OF BS_pos(1), of "length f"] by linarith
  ultimately show "block_of f (length f div BS) = drop (length f div BS * BS) f"
    "length (block_of f (length f div BS)) = length f mod BS"
    unfolding block_of_def by simp_all
qed

lemma block_append:
  assumes "length f mod BS + length d \<le> BS"
  shows "block_of (f @ d) g = (if g = length f div BS then block_of f g @ d else block_of f g)"
proof -
  let ?n = "length f"
  have n: "?n = ?n div BS * BS + ?n mod BS" by simp
  consider "g = ?n div BS" | "g < ?n div BS" | "?n div BS < g" by linarith
  then show ?thesis
  proof cases
    case 1
    have "drop (g * BS) (f @ d) = drop (g * BS) f @ d" using 1 n by simp
    moreover have "length (drop (g * BS) f @ d) \<le> BS" using assms 1 by (simp add: minus_div_mult_eq_mod)
    ultimately show ?thesis using block_last(1) [of f] 1 by (simp only: block_of_def if_True take_all simp_thms)
  next
    case 2
    then have "Suc g * BS \<le> ?n div BS * BS" by (intro mult_le_mono1) simp
    then have "BS + g * BS \<le> ?n" using n unfolding mult_Suc by linarith
    then show ?thesis using 2 by (simp add: block_of_def)
  next
    case 3
    then have "Suc (?n div BS) * BS \<le> g * BS" by (intro mult_le_mono1) simp
    then have "?n + length d \<le> g * BS" using n assms unfolding mult_Suc by linarith
    then show ?thesis using 3 by (simp add: block_of_def)
  qed
qed

lemma block_take_drop:
  assumes "off < length f"
  shows "drop (off mod BS) (block_of f (off div BS)) = take (BS - off mod BS) (drop off f)"
    and "block_of f (off div BS) \<noteq> []"
proof -
  have "off div BS * BS + off mod BS = off" by simp
  then show "drop (off mod BS) (block_of f (off div BS)) = take (BS - off mod BS) (drop off f)"
    by (simp add: block_of_def drop_take)
  have "off div BS * BS < length f" using assms by (metis div_times_less_eq_dividend le_less_trans)
  then show "block_of f (off div BS) \<noteq> []" by (simp add: block_of_def)
qed

section \<open>Contents in buffers and blocks\<close>

definition block_ok :: "'w chunk_transport \<Rightarrow> chunk_client \<Rightarrow> bytes \<Rightarrow> u64 \<Rightarrow> writer \<Rightarrow> 'w \<Rightarrow> nat \<Rightarrow> bool" where
  "block_ok tp c f ino b w g \<longleftrightarrow>
     (case mget (bw_dirty b) (key_of g) of
        Some buf \<Rightarrow> block_of f g \<noteq> [] \<and> valid_of b (key_of g) = int (length (block_of f g))
          \<and> take (length (block_of f g)) buf = block_of f g
      | None \<Rightarrow> mget (bw_valid b) (key_of g) = None
          \<and> (block_of f g \<noteq> [] \<longrightarrow> readChunk tp c (BlockID ino (fst (key_of g)) (snd (key_of g))) w = Inr (block_of f g)))"

definition file_data :: "'w chunk_transport \<Rightarrow> chunk_client \<Rightarrow> ('w \<Rightarrow> bool) \<Rightarrow> bytes \<Rightarrow> u64 \<Rightarrow> writer \<Rightarrow> 'w \<Rightarrow> bool" where
  "file_data tp c good f ino b w \<longleftrightarrow>
     good w \<and> dom (mget (bw_dirty b)) \<subseteq> range key_of \<and> (\<forall>g. block_ok tp c f ino b w g)"

lemma file_data_last: "file_data tp c good f i (b\<lparr>bw_last := t\<rparr>) w = file_data tp c good f i b w"
  by (simp add: file_data_def block_ok_def valid_of_def cong: option.case_cong)

lemma readBlock_id: "readChunk tp c (BlockID ino ci bi) w = Inr d \<Longrightarrow> readBlock tp c ino ci bi w = d"
  by (simp add: readBlock_def)

lemma flush_or_keep:
  "(if q then (case r of (x, b2, w2) \<Rightarrow> (x, a, b2, w2)) else (Inr (), a, b1, w)) = (Inr (), a', b', w') \<Longrightarrow>
     r = (Inr (), b', w') \<and> a' = a \<or> b' = b1 \<and> w' = w \<and> a' = a"
  by (auto split: if_splits prod.splits)

lemma copy_at_append:
  assumes "take n buf = p" "length p = n"
  shows "\<exists>r. copy_at n d buf = p @ d @ r"
proof -
  have "n \<le> length buf" using assms by (metis length_take min.absorb_iff2)
  then have "take n (buf @ replicate (n + length d - length buf) zero_byte) = p" using assms(1) by simp
  then show ?thesis by (simp add: copy_at_def Let_def)
qed

lemma flushLocked_last: "flushLocked tp c ino key b w = (r, b', w') \<Longrightarrow> bw_last b' = bw_last b"
  by (auto simp: flushLocked_def drop_block_def split: option.splits if_splits prod.splits sum.splits)

locale chunk_io =
  fixes tp :: "'w chunk_transport" and c :: chunk_client and good :: "'w \<Rightarrow> bool"
  assumes write_read: "good w \<Longrightarrow> writeChunk tp c (BlockID i ci bi) d w = (Inr (), w') \<Longrightarrow>
      good w' \<and> (\<forall>i' ci' bi'. readChunk tp c (BlockID i' ci' bi') w' =
         (if (i', ci', bi') = (i, ci, bi) then Inr d else readChunk tp c (BlockID i' ci' bi') w))"
    and no_flusher: "tp_flusher tp = None"
begin

lemma flushLocked_data:
  assumes "file_data tp c good f ino b w" "flushLocked tp c ino key b w = (Inr (), b', w')"
  shows "file_data tp c good f ino b' w'"
proof (cases "mget (bw_dirty b) key")
  case None
  with assms show ?thesis by (simp add: flushLocked_def)
next
  case (Some buf)
  then obtain g where g: "key = key_of g" using assms(1) by (auto simp: file_data_def)
  have ok: "block_ok tp c f ino b w h" for h using assms(1) by (simp add: file_data_def)
  have v: "block_of f g \<noteq> []" "valid_of b key = int (length (block_of f g))" "take (length (block_of f g)) buf = block_of f g"
    using ok [of g] Some by (simp_all add: block_ok_def g)
  have wr: "writeChunk tp c (BlockID ino (fst (key_of g)) (snd (key_of g))) (block_of f g) w = (Inr (), w')"
    and b': "b' = drop_block key b"
    using assms(2) Some v by (auto simp: flushLocked_def g split: prod.splits sum.splits)
  from write_read [OF _ wr] assms(1) have w': "good w'"
    "readChunk tp c (BlockID ino (fst (key_of h)) (snd (key_of h))) w' =
       (if h = g then Inr (block_of f g) else readChunk tp c (BlockID ino (fst (key_of h)) (snd (key_of h))) w)" for h
    using key_of_inject [of h g] by (auto simp: file_data_def prod_eq_iff simp del: key_of_inject)
  have "block_ok tp c f ino b' w' h" for h
    using ok [of h] w'(2) [of h] by (auto simp: block_ok_def b' drop_block_def g valid_of_def split: option.splits)
  moreover have "dom (mget (bw_dirty b')) \<subseteq> range key_of"
    using assms(1) by (auto simp: file_data_def b' drop_block_def split: if_splits)
  ultimately show ?thesis using w'(1) by (simp add: file_data_def)
qed

lemma flush_keys_data:
  "file_data tp c good f ino b w \<Longrightarrow> flush_keys tp c ino ks b w = (Inr (), b', w') \<Longrightarrow> file_data tp c good f ino b' w'"
proof (induction ks arbitrary: b w)
  case (Cons k ks)
  then obtain b1 w1 where "flushLocked tp c ino k b w = (Inr (), b1, w1)" "flush_keys tp c ino ks b1 w1 = (Inr (), b', w')"
    by (auto split: prod.splits sum.splits)
  with Cons flushLocked_data show ?case by blast
qed simp

end

section \<open>Appending\<close>

context chunk_io
begin

text \<open>The buffer a write at the end of the file goes to starts with what the last block holds.\<close>

lemma block_buffer_prefix:
  assumes "file_data tp c good f ino b w" "length f < 2 ^ 63" "length f mod BS \<noteq> 0 \<longrightarrow> unat old = length f"
  shows "take (length f mod BS) (block_buffer tp c ino old (fst (key_of (length f div BS))) (snd (key_of (length f div BS)))
           (int (length f mod BS)) b w) = block_of f (length f div BS)"
proof -
  let ?g = "length f div BS" and ?m = "length f mod BS"
  have l: "length (block_of f ?g) = ?m" by (rule block_last)
  have ok: "block_ok tp c f ino b w ?g" using assms(1) by (simp add: file_data_def)
  show ?thesis
  proof (cases "mget (bw_dirty b) (key_of ?g)")
    case (Some buf)
    with ok l show ?thesis by (simp add: block_buffer_def block_ok_def)
  next
    case None
    show ?thesis
    proof (cases "?m = 0")
      case True
      then show ?thesis using l by simp
    next
      case False
      then have "block_of f ?g \<noteq> []" using l by (metis list.size(3))
      then have rd: "readBlock tp c ino (fst (key_of ?g)) (snd (key_of ?g)) w = block_of f ?g"
        using ok None by (intro readBlock_id) (simp add: block_ok_def)
      have "?g * BS < length f" using False by (metis div_times_less_eq_dividend le_less mod_mult_self2_is_0 mult.commute)
      moreover have "unat old = length f" using False assms(3) by simp
      moreover from calculation assms(2) have "unat (of_nat (?g * BS) :: u64) = ?g * BS"
        by (simp add: unsigned_of_nat take_bit_nat_eq_self del: of_nat_mult)
      ultimately have lt: "of_nat (?g * BS) < old" by (simp add: word_less_nat_alt)
      have "take BS (block_of f ?g) = block_of f ?g" by (simp add: block_of_def)
      then show ?thesis using False None l
        by (simp add: block_buffer_def Let_def rd block_start lt del: of_nat_mult)
    qed
  qed
qed

lemma write_block_data:
  assumes "file_data tp c good f ino b w" "length f < 2 ^ 63" "length f mod BS \<noteq> 0 \<longrightarrow> unat old = length f"
    and "d \<noteq> []" "length f mod BS + length d \<le> BS"
    and "write_block tp c ino old (fst (key_of (length f div BS))) (snd (key_of (length f div BS))) (int (length f mod BS)) d (a, b, w)
           = (Inr (), a', b', w')"
  shows "file_data tp c good (f @ d) ino b' w' \<and> bw_last b' = bw_last b \<and> a' = ensureChunk a (fst (key_of (length f div BS)))"
proof -
  let ?g = "length f div BS" and ?m = "length f mod BS"
  let ?key = "key_of ?g"
  have l: "length (block_of f ?g) = ?m" by (rule block_last)
  have ok: "block_ok tp c f ino b w h" for h using assms(1) by (simp add: file_data_def)
  have blk: "block_of (f @ d) h = (if h = ?g then block_of f ?g @ d else block_of f h)" for h
    using block_append [OF assms(5), of h] by simp
  show ?thesis
  proof (cases "?m = 0 \<and> length d = BS")
    case True
    then have e: "block_of f ?g = []" using l by simp
    obtain wr: "writeChunk tp c (BlockID ino (fst ?key) (snd ?key)) d w = (Inr (), w')"
      and b': "b' = drop_block ?key b" "a' = ensureChunk a (fst ?key)"
      using assms(6) True by (auto simp: write_block_def split: prod.splits)
    from write_read [OF _ wr] assms(1) have w': "good w'"
      "readChunk tp c (BlockID ino (fst (key_of h)) (snd (key_of h))) w' =
         (if h = ?g then Inr d else readChunk tp c (BlockID ino (fst (key_of h)) (snd (key_of h))) w)" for h
      using key_of_inject [of h ?g] by (auto simp: file_data_def prod_eq_iff simp del: key_of_inject)
    have "block_ok tp c (f @ d) ino b' w' h" for h
      using ok [of h] w'(2) [of h] e unfolding block_ok_def blk
      by (auto simp: b' drop_block_def valid_of_def split: option.splits)
    moreover have "dom (mget (bw_dirty b')) \<subseteq> range key_of"
      using assms(1) by (auto simp: file_data_def b' drop_block_def split: if_splits)
    ultimately show ?thesis using w'(1) by (simp add: file_data_def b' drop_block_def)
  next
    case False
    let ?buf = "copy_at ?m d (block_buffer tp c ino old (fst ?key) (snd ?key) (int ?m) b w)"
    let ?b1 = "b\<lparr>bw_dirty := mput ?key ?buf (bw_dirty b), bw_valid := mput ?key (int ?m + int (length d)) (bw_valid b)\<rparr>"
    obtain r where buf: "?buf = block_of f ?g @ d @ r"
      using copy_at_append [OF block_buffer_prefix [OF assms(1-3)] l] by blast
    have v: "valid_of b ?key \<le> int ?m"
      using ok [of ?g] l by (auto simp: block_ok_def valid_of_def split: option.splits)
    then have v': "valid_of b ?key < int ?m + int (length d)" using assms(4) by (cases d) auto
    have nf: "\<not> (int ?m = 0 \<and> int (length d) = BlockSize)"
    proof
      assume "int ?m = 0 \<and> int (length d) = BlockSize"
      then have "?m = 0" "length d = BS" by (linarith, metis nat_int)
      with False show False by blast
    qed
    have b1: "file_data tp c good (f @ d) ino ?b1 w"
    proof -
      have "block_ok tp c (f @ d) ino ?b1 w h" for h
        using ok [of h] buf l assms(4) unfolding block_ok_def blk
        by (auto simp: valid_of_def split: option.splits)
      moreover have "dom (mget (bw_dirty ?b1)) \<subseteq> insert ?key (dom (mget (bw_dirty b)))" by (auto split: if_splits)
      then have "dom (mget (bw_dirty ?b1)) \<subseteq> range key_of" using assms(1) unfolding file_data_def by blast
      ultimately show ?thesis using assms(1) by (simp add: file_data_def)
    qed
    have key: "(fst ?key, snd ?key) = ?key" by simp
    have "(if BlockSize \<le> valid_of ?b1 ?key
           then (case flushLocked tp c ino ?key ?b1 w of (x, b2, w2) \<Rightarrow> (x, ensureChunk a (fst ?key), b2, w2))
           else (Inr (), ensureChunk a (fst ?key), ?b1, w)) = (Inr (), a', b', w')"
      using assms(6) unfolding write_block_def key prod.case Let_def nat_int if_not_P [OF nf] if_P [OF v'] .
    from flush_or_keep [OF this] show ?thesis
    proof (elim disjE conjE)
      assume fl: "flushLocked tp c ino ?key ?b1 w = (Inr (), b', w')" "a' = ensureChunk a (fst ?key)"
      then show ?thesis using flushLocked_data [OF b1 fl(1)] flushLocked_last [OF fl(1)] by simp
    next
      assume "b' = ?b1" "w' = w" "a' = ensureChunk a (fst ?key)"
      then show ?thesis using b1 by simp
    qed
  qed
qed

end

lemma in_block_nat: "in_block (int n) = BS - n mod BS"
proof -
  have "int (n mod BS) < BlockSize" using mod_less_divisor [OF BS_pos(1), of n] BS_pos(3) by linarith
  then show ?thesis by (simp add: in_block_def locate_nat nat_diff_distrib')
qed

lemma ensureChunk_size [simp]: "at_size (ensureChunk a i) = at_size a" "at_ino (ensureChunk a i) = at_ino a"
  by (simp_all add: ensureChunk_def Let_def)

context chunk_io
begin

lemma write_loop_data:
  assumes "file_data tp c good f ino b w" "length f + length d < 2 ^ 63" "length f mod BS \<noteq> 0 \<longrightarrow> unat old = length f"
    and "write_loop tp c ino old d (int (length f)) (a, b, w) = (Inr (), a', b', w')"
  shows "file_data tp c good (f @ d) ino b' w' \<and> bw_last b' = bw_last b \<and> at_size a' = at_size a \<and> at_ino a' = at_ino a"
  using assms
proof (induction "length d" arbitrary: f d a b w rule: less_induct)
  case less
  show ?case
  proof (cases d)
    case Nil
    with less.prems show ?thesis by simp
  next
    case (Cons x xs)
    let ?m = "length f mod BS" and ?k = "key_of (length f div BS)"
    let ?n = "min (length d) (BS - ?m)"
    have mlt: "?m < BS" by simp
    with Cons have n: "0 < ?n" "take ?n d \<noteq> []" "length (take ?n d) = ?n" by (auto simp del: mod_less_divisor)
    obtain a1 b1 w1 where step: "write_block tp c ino old (fst ?k) (snd ?k) (int ?m) (take ?n d) (a, b, w) = (Inr (), a1, b1, w1)"
      and rest: "write_loop tp c ino old (drop ?n d) (int (length f) + int ?n) (a1, b1, w1) = (Inr (), a', b', w')"
      using less.prems(4) unfolding Cons write_loop.simps locate_nat prod.case Let_def in_block_nat
      by (auto split: prod.splits sum.splits)
    have d1: "file_data tp c good (f @ take ?n d) ino b1 w1 \<and> bw_last b1 = bw_last b \<and> a1 = ensureChunk a (fst ?k)"
      by (rule write_block_data [OF less.prems(1) _ less.prems(3) n(2) _ step]) (use less.prems(2) n(3) mlt in linarith)+
    have off: "int (length f) + int ?n = int (length (f @ take ?n d))" using n(3) by simp
    show ?thesis
    proof (cases "drop ?n d = []")
      case True
      then have "take ?n d = d" by (metis append_take_drop_id append_Nil2)
      with True rest d1 show ?thesis by auto
    next
      case False
      then have "\<not> length d \<le> ?n" by simp
      then have "?n = BS - ?m" by linarith
      then have len: "length (f @ take ?n d) = length f + (BS - ?m)" using n(3) by simp
      have "length (f @ take ?n d) mod BS = 0"
      proof -
        have "length f + (BS - ?m) = (length f div BS + 1) * BS"
          using mlt div_mult_mod_eq [of "length f" BS] unfolding add_mult_distrib mult_1 by linarith
        then show ?thesis unfolding len by (metis mod_mult_self2_is_0)
      qed
      then have "length (f @ take ?n d) mod BS \<noteq> 0 \<longrightarrow> unat old = length (f @ take ?n d)" by blast
      moreover have "length (f @ take ?n d) + length (drop ?n d) < 2 ^ 63" using less.prems(2) n(3) by simp
      moreover have "length (drop ?n d) < length d" using n(1) Cons by simp
      ultimately have "file_data tp c good ((f @ take ?n d) @ drop ?n d) ino b' w' \<and> bw_last b' = bw_last b1
          \<and> at_size a' = at_size a1 \<and> at_ino a' = at_ino a1"
        using less.hyps [OF _ conjunct1 [OF d1] _ _ rest [unfolded off]] by blast
      then show ?thesis using d1 by simp
    qed
  qed
qed

end

definition file_ok :: "'w chunk_transport \<Rightarrow> chunk_client \<Rightarrow> ('w \<Rightarrow> bool) \<Rightarrow> bytes \<Rightarrow> attr \<Rightarrow> writers \<Rightarrow> 'w \<Rightarrow> bool" where
  "file_ok tp c good f a ws w \<longleftrightarrow>
     unat (at_size a) = length f \<and> length f < 2 ^ 63 \<and> file_data tp c good f (at_ino a) (writerFor ws (at_ino a)) w"

lemma size_sint: "unat (s :: u64) < 2 ^ 63 \<Longrightarrow> sint s = int (unat s)"
proof -
  assume "unat s < 2 ^ 63"
  then have "int (unat s) < int (2 ^ 63)" by (simp only: of_nat_less_iff)
  then have "signed_take_bit 63 (int (unat s)) = int (unat s)" 
    by (intro signed_take_bit_int_eq_self) (simp_all add: order_trans [OF _ uint_ge_0])
  then show ?thesis by (simp add: sint_uint)
qed

lemma wrap64_small: "0 \<le> i \<Longrightarrow> i < 2 ^ 63 \<Longrightarrow> wrap64 i = i"
  by (simp add: wrap64_def signed_of_int signed_take_bit_int_eq_self)

lemma file_ok_new: "good w \<Longrightarrow> at_size a = 0 \<Longrightarrow> mget ws (at_ino a) = None \<Longrightarrow> file_ok tp c good [] a ws w"
  by (simp add: file_ok_def file_data_def block_ok_def block_of_def writerFor_def new_writer_def)

context chunk_io
begin

lemma writer_write_data:
  assumes "file_data tp c good f (at_ino a) b w" "unat (at_size a) = length f" "length f + length d < 2 ^ 63"
    and "writer_write tp c now d (int (length f)) (a, b, w) = (Inr (), a', b', w')"
  shows "file_data tp c good (f @ d) (at_ino a) b' w' \<and> unat (at_size a') = length (f @ d) \<and> at_ino a' = at_ino a"
proof (cases "d = []")
  case True
  with assms show ?thesis by (simp add: writer_write_def)
next
  case False
  let ?fin = "int (length f) + int (length d)"
  let ?a0 = "a\<lparr>at_size := word_of_int ?fin\<rparr>"
  have "int (length f + length d) < int (2 ^ 63)" using assms(3) by (simp only: of_nat_less_iff)
  then have fin: "wrap64 ?fin = ?fin" by (intro wrap64_small) auto
  have s: "sint (at_size a) = int (length f)" using size_sint [of "at_size a"] assms(2,3) by simp
  then have lt: "sint (at_size a) < ?fin" using False by simp
  obtain a1 b1 w1 where loop: "write_loop tp c (at_ino a) (at_size a) d (int (length f)) (?a0, b, w) = (Inr (), a1, b1, w1)"
    and fl: "(b' = b1\<lparr>bw_last := Some now\<rparr> \<and> w' = w1 \<or> b' = b1 \<and> w' = w1
        \<or> (\<exists>b2. Flush tp c (at_ino a) b1 w1 = (Inr (), b2, w') \<and> b' = b2\<lparr>bw_last := Some now\<rparr>)) \<and> a' = a1"
    using assms(4) False unfolding writer_write_def prod.case if_not_P [OF False] Let_def fin if_P [OF lt]
    by (auto split: prod.splits sum.splits if_splits)
  have d1: "file_data tp c good (f @ d) (at_ino a) b1 w1 \<and> bw_last b1 = bw_last b \<and> at_size a1 = at_size ?a0 \<and> at_ino a1 = at_ino ?a0"
    by (rule write_loop_data [OF assms(1) assms(3) _ loop]) (simp add: assms(2))
  have "file_data tp c good (f @ d) (at_ino a) b' w'"
    using fl d1 flush_keys_data unfolding Flush_def by (auto simp: file_data_last)
  moreover have "unat (word_of_int ?fin :: u64) = length f + length d"
  proof -
    have "(word_of_int ?fin :: u64) = of_nat (length f + length d)" by simp
    moreover have "length f + length d < 2 ^ 64" using assms(3) by simp
    ultimately show ?thesis by (simp add: unsigned_of_nat take_bit_nat_eq_self del: of_nat_add)
  qed
  ultimately show ?thesis using fl d1 by simp
qed

text \<open>A successful write at the end of a file appends to its contents.\<close>

lemma store_append:
  assumes "file_ok tp c good f a ws w" "length f + length d < 2 ^ 63"
    and "store_write tp c now a d (int (length f)) ws w = (Inr (), a', ws', w')"
  shows "file_ok tp c good (f @ d) a' ws' w' \<and> at_ino a' = at_ino a"
proof (cases "d = []")
  case False
  obtain b' where wr: "writer_write tp c now d (int (length f)) (a, writerFor ws (at_ino a), w) = (Inr (), a', b', w')"
    and ws': "ws' = mput (at_ino a) b' ws"
    using assms(3) False by (auto simp: store_write_def no_flusher split: prod.splits)
  from writer_write_data [OF _ _ assms(2) wr] assms(1) ws' show ?thesis using assms(2)
    by (auto simp: file_ok_def writerFor_def)
qed (use assms in \<open>simp add: store_write_def\<close>)

end

section \<open>Reading\<close>

context chunk_io
begin

lemma block_data_of:
  assumes "file_data tp c good f ino (writerFor ws ino) w" "block_of f g \<noteq> []"
  shows "block_data tp c ino (fst (key_of g)) (snd (key_of g)) ws w = block_of f g"
proof -
  let ?b = "writerFor ws ino"
  have ok: "block_ok tp c f ino ?b w g" using assms(1) by (simp add: file_data_def)
  have buffered: "(case mget ws ino of None \<Rightarrow> [] | Some b \<Rightarrow> readBuffered b (key_of g)) = readBuffered ?b (key_of g)"
    by (simp add: writerFor_def readBuffered_def new_writer_def split: option.split)
  have BSl: "take BS (block_of f g) = block_of f g" by (simp add: block_of_def)
  show ?thesis
  proof (cases "mget (bw_dirty ?b) (key_of g)")
    case None
    then have "readChunk tp c (BlockID ino (fst (key_of g)) (snd (key_of g))) w = Inr (block_of f g)"
      using ok assms(2) by (simp add: block_ok_def)
    with None show ?thesis using buffered unfolding block_data_def prod.collapse Let_def by (simp add: readBuffered_def readBlock_id)
  next
    case (Some buf)
    then have "readBuffered ?b (key_of g) = block_of f g"
      using ok BSl by (simp add: block_ok_def readBuffered_def)
    then show ?thesis using buffered assms(2) unfolding block_data_def prod.collapse Let_def by simp
  qed
qed

lemma read_loop_data:
  assumes "file_data tp c good f ino (writerFor ws ino) w"
  shows "off + want \<le> length f \<Longrightarrow> read_loop tp c ino ws w want (int off) = take want (drop off f)"
proof (induction want arbitrary: off rule: less_induct)
  case (less want)
  show ?case
  proof (cases "want = 0")
    case True
    then show ?thesis by (simp add: read_loop.simps)
  next
    case False
    then have lt: "off < length f" using less.prems by simp
    let ?m = "off mod BS"
    let ?n = "min want (BS - ?m)"
    have "?m < BS" by simp
    with False have n: "0 < ?n" by (simp del: mod_less_divisor)
    have bo: "nat (BlockSize - int ?m) = BS - ?m" by (simp add: nat_diff_distrib')
    have piece: "take ?n (drop ?m (block_of f (off div BS))) = take ?n (drop off f)"
      unfolding block_take_drop(1) [OF lt] by simp
    have len: "length (take ?n (drop off f)) = ?n" using less.prems by simp
    have ne: "take ?n (drop off f) \<noteq> []"
    proof
      assume "take ?n (drop off f) = []"
      then have "?n = 0" using len by (simp only: list.size)
      with n show False by (simp only: less_irrefl)
    qed
    have "read_loop tp c ino ws w want (int off) =
        take ?n (drop off f) @ read_loop tp c ino ws w (want - ?n) (int off + int ?n)"
      by (subst read_loop.simps)
        (simp only: if_not_P [OF False] locate_nat prod.case Let_def block_data_of [OF assms block_take_drop(2) [OF lt]]
          bo nat_int piece if_not_P [OF ne] len)
    also have "int off + int ?n = int (off + ?n)" by simp
    also have "read_loop tp c ino ws w (want - ?n) (int (off + ?n)) = take (want - ?n) (drop (off + ?n) f)"
      using n less.prems by (intro less.IH) auto
    also have "take ?n (drop off f) @ take (want - ?n) (drop (off + ?n) f) = take want (drop off f)"
      using take_add [of ?n "want - ?n" "drop off f"] by (simp add: add.commute)
    finally show ?thesis .
  qed
qed

lemma store_read_data:
  assumes "file_ok tp c good f a ws w"
  shows "store_read tp c a n (int off) ws w = take n (drop off f)"
proof -
  have s: "sint (at_size a) = int (length f)" using assms size_sint [of "at_size a"] by (simp add: file_ok_def)
  have fd: "file_data tp c good f (at_ino a) (writerFor ws (at_ino a)) w" using assms by (simp add: file_ok_def)
  show ?thesis
  proof (cases "length f \<le> off")
    case False
    then have "read_loop tp c (at_ino a) ws w (min n (length f - off)) (int off) = take (min n (length f - off)) (drop off f)"
      by (intro read_loop_data [OF fd]) auto
    moreover have "nat (int (length f) - int off) = length f - off" by simp
    ultimately show ?thesis using False s by (simp add: store_read_def take_all_iff min_def)
  qed (simp add: store_read_def s)
qed

end

section \<open>Overwriting\<close>

lemma block_first: "length f \<le> BS \<Longrightarrow> block_of f g = (if g = 0 then f else [])"
proof -
  assume l: "length f \<le> BS"
  have "length f \<le> g * BS" if "g \<noteq> 0" using l that by (cases g) (simp_all add: trans_le_add1)
  then show ?thesis using l by (simp add: block_of_def)
qed

lemma key_zero: "key_of 0 = (0, 0)"
  by (simp add: key_of_def)

context chunk_io
begin

text \<open>
  A write inside the only block of a file whose block is not buffered: the buffer gets the bytes before the
  write and the written bytes, and the bytes behind them are no longer part of it.
\<close>

lemma overwrite_block:
  assumes "file_data tp c good f ino b w" "mget (bw_dirty b) (0, 0) = None" "unat old = length f" "length f \<le> BS"
    and "d \<noteq> []" "off + length d < length f"
    and "write_loop tp c ino old d (int off) (a, b, w) = (Inr (), a', b', w')"
  shows "file_data tp c good (take off f @ d) ino b' w' \<and> at_size a' = at_size a \<and> at_ino a' = at_ino a"
proof -
  have off: "off < BS" "off div BS = 0" "off mod BS = off" using assms(4,6) by simp_all
  have ok: "block_ok tp c f ino b w h" for h using assms(1) by (simp add: file_data_def)
  note bf = block_first [OF assms(4)]
  have rd: "readChunk tp c (BlockID ino 0 0) w = Inr f" "mget (bw_valid b) (0, 0) = None"
    using ok [of 0] assms(2,6) by (auto simp: block_ok_def key_zero bf)
  let ?buf = "copy_at off d (block_buffer tp c ino old 0 0 (int off) b w)"
  have pre: "take off (block_buffer tp c ino old 0 0 (int off) b w) = take off f"
  proof (cases "off = 0")
    case False
    then have "(0 :: u64) < old" using assms(3,6) by (metis not_less_zero unat_0 word_gt_0)
    moreover have "take BS f = f" using assms(4) by simp
    ultimately show ?thesis using False assms(2,6)
      by (simp add: block_buffer_def Let_def readBlock_id [OF rd(1)])
  qed simp
  have lo: "length (take off f) = off" using assms(6) by simp
  obtain r where buf: "?buf = take off f @ d @ r" using copy_at_append [OF pre lo] by blast
  let ?b1 = "b\<lparr>bw_dirty := mput (0, 0) ?buf (bw_dirty b), bw_valid := mput (0, 0) (int off + int (length d)) (bw_valid b)\<rparr>"
  have loop: "write_loop tp c ino old d (int off) (a, b, w) = (Inr (), ensureChunk a 0, ?b1, w)"
  proof -
    obtain x xs where x: "d = x # xs" using assms(5) by (cases d) auto
    have n: "min (length d) (BS - off) = length d" using assms(4,6) by simp
    have nf: "\<not> (int off = 0 \<and> int (length d) = BlockSize)" using assms(4,6) by linarith
    have v: "valid_of b (0, 0) < int off + int (length d)" using rd(2) assms(5) by (cases d) (simp_all add: valid_of_def)
    have nfl: "\<not> BlockSize \<le> valid_of ?b1 (0, 0)" using assms(4,6) by (simp add: valid_of_def)
    have "write_block tp c ino old 0 0 (int off) d (a, b, w) = (Inr (), ensureChunk a 0, ?b1, w)"
      unfolding write_block_def prod.case Let_def nat_int if_not_P [OF nf] if_P [OF v] if_not_P [OF nfl] ..
    then show ?thesis
      unfolding x write_loop.simps locate_nat off key_zero fst_conv snd_conv prod.case Let_def in_block_nat
      using n x by (simp add: off)
  qed
  have g: "length (take off f @ d) \<le> BS" using lo assms(4,6) by simp
  have "block_ok tp c (take off f @ d) ino ?b1 w h" for h
    using ok [of h] buf lo assms(5,6) key_of_inject [of h 0] unfolding block_ok_def block_first [OF g] bf
    by (auto simp: key_zero valid_of_def split: option.splits)
  moreover have "dom (mget (bw_dirty ?b1)) \<subseteq> insert (key_of 0) (dom (mget (bw_dirty b)))"
    by (auto simp: key_zero split: if_splits)
  then have "dom (mget (bw_dirty ?b1)) \<subseteq> range key_of" using assms(1) unfolding file_data_def by blast
  ultimately have "file_data tp c good (take off f @ d) ino ?b1 w" using assms(1) by (simp add: file_data_def)
  with loop assms(7) show ?thesis by auto
qed

lemma read_short:
  assumes "file_data tp c good f ino (writerFor ws ino) w" "f \<noteq> []" "length f < BS" "length f \<le> want"
  shows "read_loop tp c ino ws w want 0 = f"
proof -
  have bf: "block_of f 0 = f" using block_first [of f 0] assms(3) by simp
  have bd: "block_data tp c ino 0 0 ws w = f" using block_data_of [OF assms(1), of 0] assms(2) by (simp add: bf key_zero)
  have l0: "LocateBlock 0 = (0, 0, 0)" using locate_nat [of 0] by (simp add: key_zero)
  have l1: "LocateBlock (int (length f)) = (0, 0, int (length f))" using locate_nat [of "length f"] assms(3) by (simp add: key_zero)
  have tk: "take (min want BS) f = f" using assms(3,4) by simp
  have "read_loop tp c ino ws w n (int (length f)) = []" for n
    by (subst read_loop.simps) (simp add: l1 bd)
  moreover have "min want BS \<noteq> 0" "want \<noteq> 0" using assms(2,4) by (cases f; auto)+
  ultimately show ?thesis using assms(2,4) tk
    by (subst read_loop.simps) (simp add: l0 bd Let_def)
qed

end

section \<open>Writes that succeed\<close>

text \<open>Servers that take every block of the right size: then every write succeeds, whatever the buffers hold.\<close>

locale chunk_io_up = chunk_io +
  assumes up: "good w \<Longrightarrow> length d \<le> BS \<Longrightarrow> \<exists>w'. writeChunk tp c (BlockID i ci bi) d w = (Inr (), w')"

definition valids_ok :: "writer \<Rightarrow> bool" where
  "valids_ok b \<longleftrightarrow> (\<forall>key. valid_of b key \<le> BlockSize)"

lemma valids_ok_drop: "valids_ok b \<Longrightarrow> valids_ok (drop_block key b)"
  by (simp add: valids_ok_def valid_of_def drop_block_def)

context chunk_io_up
begin

lemma write_good: "good w \<Longrightarrow> length d \<le> BS \<Longrightarrow> \<exists>w'. writeChunk tp c (BlockID i ci bi) d w = (Inr (), w') \<and> good w'"
  using up write_read by blast

lemma flushLocked_good:
  assumes "good w" "valids_ok b"
  shows "\<exists>b' w'. flushLocked tp c ino key b w = (Inr (), b', w') \<and> good w' \<and> valids_ok b'"
proof (cases "mget (bw_dirty b) key")
  case (Some buf)
  have "valid_of b key \<le> BlockSize" using assms(2) unfolding valids_ok_def by blast
  then have "nat (valid_of b key) \<le> BS" by (rule nat_mono)
  then have "length (take (nat (valid_of b key)) buf) \<le> BS" by simp
  from write_good [OF assms(1) this, of ino "fst key" "snd key"] obtain w' where
    "writeChunk tp c (BlockID ino (fst key) (snd key)) (take (nat (valid_of b key)) buf) w = (Inr (), w')" "good w'" by blast
  then show ?thesis using Some assms valids_ok_drop by (auto simp: flushLocked_def)
qed (use assms in \<open>simp add: flushLocked_def\<close>)

lemma flush_keys_good:
  "good w \<Longrightarrow> valids_ok b \<Longrightarrow> \<exists>b' w'. flush_keys tp c ino ks b w = (Inr (), b', w') \<and> good w' \<and> valids_ok b'"
proof (induction ks arbitrary: b w)
  case (Cons k ks)
  obtain b1 w1 where "flushLocked tp c ino k b w = (Inr (), b1, w1)" "good w1" "valids_ok b1"
    using flushLocked_good [OF Cons.prems] by blast
  then show ?case using Cons.IH [of w1 b1] by simp
qed auto

lemma write_block_good:
  assumes "good w" "valids_ok b" "0 \<le> bo" "bo + int (length d) \<le> BlockSize"
  shows "\<exists>a' b' w'. write_block tp c ino old ci bi bo d (a, b, w) = (Inr (), a', b', w') \<and> good w' \<and> valids_ok b'"
proof (cases "bo = 0 \<and> int (length d) = BlockSize")
  case True
  then have "length d \<le> BS" by linarith
  from write_good [OF assms(1) this, of ino ci bi] obtain w' where "writeChunk tp c (BlockID ino ci bi) d w = (Inr (), w')" "good w'"
    by blast
  then show ?thesis using True valids_ok_drop [OF assms(2)] by (simp add: write_block_def)
next
  case False
  define b1 where "b1 = b\<lparr>bw_dirty := mput (ci, bi) (copy_at (nat bo) d (block_buffer tp c ino old ci bi bo b w)) (bw_dirty b),
     bw_valid := (if valid_of b (ci, bi) < bo + int (length d) then mput (ci, bi) (bo + int (length d)) (bw_valid b) else bw_valid b)\<rparr>"
  have v: "valids_ok b1" using assms(2,4) by (auto simp: valids_ok_def valid_of_def b1_def)
  have eq: "write_block tp c ino old ci bi bo d (a, b, w) =
     (if BlockSize \<le> valid_of b1 (ci, bi) then (case flushLocked tp c ino (ci, bi) b1 w of (r, b2, w') \<Rightarrow> (r, ensureChunk a ci, b2, w'))
      else (Inr (), ensureChunk a ci, b1, w))"
    unfolding write_block_def prod.case Let_def if_not_P [OF False] b1_def ..
  obtain b2 w2 where "flushLocked tp c ino (ci, bi) b1 w = (Inr (), b2, w2)" "good w2" "valids_ok b2"
    using flushLocked_good [OF assms(1) v] by blast
  then show ?thesis using assms(1) v unfolding eq by auto
qed

lemma write_loop_good:
  "good w \<Longrightarrow> valids_ok b \<Longrightarrow> \<exists>a' b' w'. write_loop tp c ino old d off (a, b, w) = (Inr (), a', b', w') \<and> good w' \<and> valids_ok b'"
proof (induction "length d" arbitrary: d off a b w rule: less_induct)
  case less
  show ?case
  proof (cases d)
    case Nil
    then show ?thesis using less.prems by simp
  next
    case (Cons x xs)
    obtain ci bi bo where lb: "LocateBlock off = (ci, bi, bo)" by (cases "LocateBlock off")
    let ?n = "min (length d) (in_block off)"
    have "0 \<le> bo" "bo < BlockSize" using lb by (auto simp: LocateBlock_def Let_def layout_sizes)
    then have bo: "0 \<le> bo" "bo + int (length (take ?n d)) \<le> BlockSize" 
      by (simp, simp add: in_block_def lb min_def) linarith
    obtain a1 b1 w1 where s: "write_block tp c ino old ci bi bo (take ?n d) (a, b, w) = (Inr (), a1, b1, w1)" "good w1" "valids_ok b1"
      using write_block_good [OF less.prems bo] by blast
    have "0 < ?n" using Cons by simp
    then have "length (drop ?n d) < length d" using Cons by simp
    from less.hyps [OF this s(2,3)] s(1) show ?thesis
      unfolding Cons write_loop.simps lb prod.case Let_def by fastforce
  qed
qed

lemma writer_write_good:
  assumes "good w" "valids_ok b"
  shows "\<exists>a' b' w'. writer_write tp c now d off (a, b, w) = (Inr (), a', b', w') \<and> good w' \<and> valids_ok b'"
proof (cases "d = []")
  case False
  let ?a0 = "if sint (at_size a) < wrap64 (off + int (length d)) then a\<lparr>at_size := word_of_int (wrap64 (off + int (length d)))\<rparr> else a"
  obtain a1 b1 w1 where l: "write_loop tp c (at_ino a) (at_size a) d off (?a0, b, w) = (Inr (), a1, b1, w1)" "good w1" "valids_ok b1"
    using write_loop_good [OF assms] by blast
  obtain b2 w2 where f: "Flush tp c (at_ino a) b1 w1 = (Inr (), b2, w2)" "good w2" "valids_ok b2"
    using flush_keys_good [OF l(2,3)] unfolding Flush_def by blast
  have last: "valids_ok (x\<lparr>bw_last := t\<rparr>) = valids_ok x" for x t by (simp add: valids_ok_def valid_of_def)
  show ?thesis using False f l unfolding writer_write_def prod.case if_not_P [OF False] Let_def
    by (auto simp: last)
qed (use assms in \<open>simp add: writer_write_def\<close>)

lemma store_write_good:
  assumes "good w" "valids_ok (writerFor ws (at_ino a))"
  shows "\<exists>a' ws' w'. store_write tp c now a d off ws w = (Inr (), a', ws', w') \<and> good w' \<and> valids_ok (writerFor ws' (at_ino a))"
proof (cases "d = []")
  case False
  obtain a' b' w' where "writer_write tp c now d off (a, writerFor ws (at_ino a), w) = (Inr (), a', b', w')" "good w'" "valids_ok b'"
    using writer_write_good [OF assms] by blast
  then show ?thesis using False by (simp add: store_write_def no_flusher writerFor_def)
qed (use assms in \<open>simp add: store_write_def\<close>)

end

end
