(* ===== verification/Chunk_Api.thy ===== *)
theory Chunk_Api
  imports Fs_Api Storage_Correct
begin

text \<open>
  The chunk route of a node's HTTP server (\<^verbatim>\<open>handleChunks\<close> of \<^verbatim>\<open>node/server.go\<close>), and the HTTP
  transport of the chunk client on top of it (\<^verbatim>\<open>transport/http.go\<close>): the transport sends to the URL it
  builds, the node at that address answers, and the status decides. With it the chunk client runs on
  the cluster of theory \<open>Craq\<close>. A request that does not return ends at the client's deadline.
\<close>

section \<open>The chunk route\<close>

definition readChunkBody :: "bytes \<Rightarrow> bytes res" where
  "readChunkBody body = (if bodyLimit < length body then Inl too_large else Inr body)"

definition get_chunk :: "url_values \<Rightarrow> string \<Rightarrow> node \<Rightarrow> answer" where
  "get_chunk vs k nd =
     (case GetChunkWithVisibility nd k (values_get vs ''allow_uncommitted'' = ''1'') of
        Inr d \<Rightarrow> (200, d)
      | Inl e \<Rightarrow>
          if contains_str (error_string e) ''not committed'' then http_text 409 (error_string e)
          else http_text 404 ''404 page not found'')"

definition put_chunk :: "nat \<Rightarrow> env \<Rightarrow> string \<Rightarrow> url_values \<Rightarrow> string \<Rightarrow> bytes \<Rightarrow> cluster \<Rightarrow> (answer \<times> cluster) option" where
  "put_chunk hops en u vs k body cl =
     (case readChunkBody body of
        Inl e \<Rightarrow> Some (http_text 400 (error_string e), cl)
      | Inr d \<Rightarrow>
          if values_get vs ''replica'' = ''1'' then
            (case parseReplicaWriteRequest vs of
               Inl e \<Rightarrow> Some (http_text 400 (error_string e), cl)
             | Inr req \<Rightarrow>
                 (case StoreChunkLocal hops en u k d req cl of
                    None \<Rightarrow> None
                  | Some (Inl e, cl') \<Rightarrow> Some (http_text 500 (error_string e), cl')
                  | Some (Inr _, cl') \<Rightarrow> Some ((201, []), cl')))
          else
            (case PutChunk hops en u k d cl of
               None \<Rightarrow> None
             | Some (Inl e, cl') \<Rightarrow> Some (http_text 503 (error_string e), cl')
             | Some (Inr _, cl') \<Rightarrow> Some ((201, []), cl')))"

definition handleChunks :: "nat \<Rightarrow> env \<Rightarrow> string \<Rightarrow> string \<Rightarrow> string \<Rightarrow> url_values \<Rightarrow> bytes \<Rightarrow> cluster \<Rightarrow> (answer \<times> cluster) option" where
  "handleChunks hops en u meth path vs body cl =
     (let k = trim_prefix path ''/chunks/'' in
      case mget cl u of
        None \<Rightarrow> None
      | Some nd \<Rightarrow>
          if k = [] then Some (http_text 400 ''missing chunk id'', cl)
          else if meth = ''GET'' then Some (get_chunk vs k nd, cl)
          else if meth = ''PUT'' then put_chunk hops en u vs k body cl
          else if meth = ''DELETE'' then
            (case DeleteChunk hops en u k cl of None \<Rightarrow> None | Some (_, cl') \<Rightarrow> Some ((204, []), cl'))
          else Some (http_text 405 ''method not allowed'', cl))"

section \<open>The HTTP transport of a client\<close>

definition deadline_exceeded :: err where "deadline_exceeded = ErrMsg ''context deadline exceeded''"

text \<open>
  A request to a URL below a node: the node is the one whose address and URI prefix the URL begins
  with, the path is the rest. Addresses are the keys of the cluster.
\<close>

definition server_at :: "cluster \<Rightarrow> string \<Rightarrow> string option" where
  "server_at cl n =
     find (\<lambda>v. case mget cl v of None \<Rightarrow> False
               | Some nd \<Rightarrow> trim_right_slash v @ normalizeURIPrefix (nd_prefix nd) = trim_right_slash n) (mkeys cl)"

definition request_path :: "string \<Rightarrow> string" where
  "request_path k = ''/chunks/'' @ k"

definition send :: "env \<Rightarrow> string \<Rightarrow> string \<Rightarrow> (string \<Rightarrow> cluster \<Rightarrow> (answer \<times> cluster) option) \<Rightarrow> cluster \<Rightarrow> answer res \<times> cluster" where
  "send en client n handle cl =
     (case server_at cl n of
        None \<Rightarrow> (Inl conn_refused, cl)
      | Some u \<Rightarrow>
          (case en_post en client u of
             Drop e \<Rightarrow> (Inl e, cl)
           | LostReply _ e \<Rightarrow> (Inl e, case handle u cl of None \<Rightarrow> cl | Some (_, cl') \<Rightarrow> cl')
           | Deliver _ \<Rightarrow> (case handle u cl of None \<Rightarrow> (Inl deadline_exceeded, cl) | Some (a, cl') \<Rightarrow> (Inr a, cl'))))"

definition http_put :: "nat \<Rightarrow> env \<Rightarrow> string \<Rightarrow> string \<Rightarrow> string \<Rightarrow> bytes \<Rightarrow> write_options \<Rightarrow> cluster \<Rightarrow> unit res \<times> cluster" where
  "http_put hops en client n k d opts cl =
     (case send en client n (\<lambda>u. handleChunks hops en u ''PUT'' (request_path k) (parse_query (raw_query (put_url [] n k opts))) d) cl of
        (Inl e, cl') \<Rightarrow> (Inl e, cl')
      | (Inr (code, body), cl') \<Rightarrow>
          (if code = 200 \<or> code = 201 then Inr ()
           else Inl (ErrMsg (''http put chunk status='' @ format_nat code @ '' body='' @ body)), cl'))"

definition http_get :: "nat \<Rightarrow> env \<Rightarrow> string \<Rightarrow> string \<Rightarrow> string \<Rightarrow> bool \<Rightarrow> cluster \<Rightarrow> bytes res" where
  "http_get hops en client n k allow cl =
     (let vs = (if allow then [(''allow_uncommitted'', ''1'')] else []) in
      case fst (send en client n (\<lambda>u. handleChunks hops en u ''GET'' (request_path k) vs []) cl) of
        Inl e \<Rightarrow> Inl e
      | Inr (code, body) \<Rightarrow>
          if code = 404 then Inl (ErrMsg ''chunk not found'')
          else if code \<noteq> 200 then Inl (ErrMsg (''http get chunk status='' @ format_nat code @ '' body='' @ body))
          else Inr body)"

definition http_delete :: "nat \<Rightarrow> env \<Rightarrow> string \<Rightarrow> string \<Rightarrow> string \<Rightarrow> cluster \<Rightarrow> unit res \<times> cluster" where
  "http_delete hops en client n k cl =
     (case send en client n (\<lambda>u. handleChunks hops en u ''DELETE'' (request_path k) [] []) cl of
        (Inl e, cl') \<Rightarrow> (Inl e, cl') | (Inr _, cl') \<Rightarrow> (Inr (), cl'))"

definition http_transport :: "nat \<Rightarrow> env \<Rightarrow> string \<Rightarrow> (string \<Rightarrow> cluster \<Rightarrow> string list res) option \<Rightarrow> (string list \<Rightarrow> string list) \<Rightarrow>
    cluster chunk_transport" where
  "http_transport hops en client look order =
     \<lparr>tp_put = http_put hops en client, tp_get = http_get hops en client, tp_delete = http_delete hops en client,
      tp_replicas = look, tp_order = order, tp_flusher = None\<rparr>"

end
