(* ===== verification/Admin_Api.thy ===== *)
theory Admin_Api
  imports Overview Membership Chunk_Api
begin

text \<open>
  The administration routes of a node (\<^verbatim>\<open>node/server.go\<close>, \<^verbatim>\<open>node/dashboard.go\<close>): health, membership, draining,
  statistics, garbage collection, repair and the state of chains, and the loop that follows the leadership (\<^verbatim>\<open>cluster/leader.go\<close>).
  A handler gives the status code and the fields of the answer; the text of these answers is not modelled. Handlers that call other
  nodes run on the whole cluster, and give \<open>None\<close> when a chain of replicas is longer than \<open>hops\<close>.
\<close>

section \<open>Answers and requests\<close>

record admin_response =
  ar_nodes :: "string list"
  ar_leader :: string
  ar_error :: string
  ar_status :: string
  ar_state :: string
  ar_epoch :: u64
  ar_role :: string
  ar_drained :: bool
  ar_remaining :: int
  ar_stats :: "stats option"
  ar_gc :: nat
  ar_overview :: "cluster_overview option"
  ar_repair :: "repair_info option"
  ar_fixed :: nat
  ar_failed :: nat
  ar_pending :: nat
  ar_chain :: "chain_status option"
  ar_sync :: "(u32 \<times> u64 \<times> chunk_meta list) option"

definition admin_zero :: admin_response where
  "admin_zero = \<lparr>ar_nodes = [], ar_leader = [], ar_error = [], ar_status = [], ar_state = [], ar_epoch = 0, ar_role = [], ar_drained = False,
     ar_remaining = 0, ar_stats = None, ar_gc = 0, ar_overview = None, ar_repair = None, ar_fixed = 0, ar_failed = 0, ar_pending = 0,
     ar_chain = None, ar_sync = None\<rparr>"

type_synonym admin_answer = "nat \<times> admin_response"

definition admin_error :: "nat \<Rightarrow> string \<Rightarrow> admin_answer" where
  "admin_error code msg = (code, admin_zero\<lparr>ar_error := msg\<rparr>)"

definition not_allowed :: admin_answer where
  "not_allowed = admin_error 405 ''method not allowed''"

definition redirect :: "string option \<Rightarrow> node \<Rightarrow> admin_answer" where
  "redirect leader nd = (307, admin_zero\<lparr>ar_leader := leader_or_empty leader nd\<rparr>)"

definition decode_into :: "(string \<Rightarrow> json \<Rightarrow> 'r \<Rightarrow> 'r res) \<Rightarrow> 'r \<Rightarrow> bytes \<Rightarrow> 'r res" where
  "decode_into f zero body = (case json_first body of None \<Rightarrow> Inl json_err | Some j \<Rightarrow> dec_struct f j zero)"

definition set_join_field :: "string \<Rightarrow> json \<Rightarrow> member \<Rightarrow> member res" where
  "set_join_field k j m =
     (if k = ''id'' then map_sum id (\<lambda>x. m\<lparr>mb_id := x\<rparr>) (dec_string j (mb_id m))
      else if k = ''raft_addr'' then map_sum id (\<lambda>x. m\<lparr>mb_raft := x\<rparr>) (dec_string j (mb_raft m))
      else if k = ''http_addr'' then map_sum id (\<lambda>x. m\<lparr>mb_http := x\<rparr>) (dec_string j (mb_http m))
      else if k = ''grpc_addr'' then map_sum id (\<lambda>x. m\<lparr>mb_grpc := x\<rparr>) (dec_string j (mb_grpc m))
      else if k = ''rdma_addr'' then map_sum id (\<lambda>x. m\<lparr>mb_rdma := x\<rparr>) (dec_string j (mb_rdma m))
      else Inr m)"

definition member_zero :: member where
  "member_zero = \<lparr>mb_id = [], mb_http = [], mb_raft = [], mb_grpc = [], mb_rdma = []\<rparr>"

definition set_remove_field :: "string \<Rightarrow> json \<Rightarrow> string \<Rightarrow> string res" where
  "set_remove_field k j i = (if k = ''id'' then dec_string j i else Inr i)"

section \<open>Handlers of one node\<close>

definition handleHealth :: "node \<Rightarrow> admin_answer \<times> node" where
  "handleHealth nd =
     (case Health nd of (h, nd') \<Rightarrow>
        ((200, admin_zero\<lparr>ar_status := he_status h, ar_state := he_state h, ar_epoch := he_epoch h, ar_role := he_role h,
            ar_remaining := he_pending h\<rparr>), nd'))"

definition handleJoin :: "raft_env \<Rightarrow> string option \<Rightarrow> string \<Rightarrow> bytes \<Rightarrow> node \<Rightarrow> admin_answer \<times> node" where
  "handleJoin re leader meth body nd =
     (if meth \<noteq> ''POST'' then (not_allowed, nd)
      else if \<not> IsLeader nd then (redirect leader nd, nd)
      else case decode_into set_join_field member_zero body of
        Inl e \<Rightarrow> (admin_error 400 (error_string e), nd)
      | Inr m \<Rightarrow>
          (case service_join re m nd of
             (Inl e, nd') \<Rightarrow> (admin_error 500 (error_string e), nd')
           | (Inr ns, nd') \<Rightarrow> ((200, admin_zero\<lparr>ar_nodes := ns\<rparr>), nd')))"

definition handleRemove :: "raft_env \<Rightarrow> string option \<Rightarrow> string \<Rightarrow> bytes \<Rightarrow> node \<Rightarrow> admin_answer \<times> node" where
  "handleRemove re leader meth body nd =
     (if meth \<noteq> ''POST'' then (not_allowed, nd)
      else if \<not> IsLeader nd then (redirect leader nd, nd)
      else case decode_into set_remove_field [] body of
        Inl e \<Rightarrow> (admin_error 400 (error_string e), nd)
      | Inr i \<Rightarrow>
          if i = [] then (admin_error 400 ''missing id'', nd)
          else (case RemoveNode re i nd of
                  (Inl e, nd') \<Rightarrow> (admin_error 500 (error_string e), nd')
                | (Inr _, nd') \<Rightarrow> ((200, admin_zero), nd')))"

definition handleStats :: "string \<Rightarrow> node \<Rightarrow> admin_answer \<times> node" where
  "handleStats meth nd =
     (if meth \<noteq> ''GET'' then (not_allowed, nd)
      else case Stats nd of (st, nd') \<Rightarrow> ((200, admin_zero\<lparr>ar_stats := Some st\<rparr>), nd'))"

definition handleGC :: "(string \<Rightarrow> err option) \<Rightarrow> string \<Rightarrow> node \<Rightarrow> admin_answer \<times> node" where
  "handleGC os meth nd =
     (if meth \<noteq> ''POST'' then (not_allowed, nd)
      else case RunGC os nd of
        ((n, Inl e), nd') \<Rightarrow> (admin_error 500 (error_string e), nd')
      | ((n, Inr _), nd') \<Rightarrow> ((200, admin_zero\<lparr>ar_gc := n\<rparr>), nd'))"

definition handleRepairStatus :: "string \<Rightarrow> node \<Rightarrow> admin_answer" where
  "handleRepairStatus meth nd =
     (if meth \<noteq> ''GET'' then not_allowed else (200, admin_zero\<lparr>ar_repair := Some (queue_info 50 (nd_queue nd))\<rparr>))"

type_synonym admin_handler = "fs_request \<Rightarrow> node \<Rightarrow> admin_answer \<times> node"

definition chainState :: admin_handler where
  "chainState q nd = (case GetChainState (fq_chain q) nd of (st, nd') \<Rightarrow> ((200, admin_zero\<lparr>ar_chain := Some st\<rparr>), nd'))"

definition chainSyncStart :: admin_handler where
  "chainSyncStart q nd =
     (case SyncStart (fq_chain q) (fq_chain_ver q) nd of
        ((v, ms), nd') \<Rightarrow> ((200, admin_zero\<lparr>ar_sync := Some (fq_chain q, v, ms)\<rparr>), nd'))"

definition chainSyncDone :: admin_handler where
  "chainSyncDone q nd =
     (case SyncDone (fq_chain q) (fq_chain_ver q) nd of
        (Inl e, nd') \<Rightarrow> (admin_error 500 (error_string e), nd') | (Inr _, nd') \<Rightarrow> ((200, admin_zero), nd'))"

definition handle_chain :: "admin_handler \<Rightarrow> string \<Rightarrow> bytes \<Rightarrow> node \<Rightarrow> admin_answer \<times> node" where
  "handle_chain f meth body nd =
     (if meth \<noteq> ''POST'' then (not_allowed, nd)
      else case decodeJSON body of Inl e \<Rightarrow> (admin_error 400 (error_string e), nd) | Inr q \<Rightarrow> f q nd)"

section \<open>Handlers that call other nodes\<close>

definition drain_answer :: "drain_result \<Rightarrow> admin_answer" where
  "drain_answer r =
     (case r of (rem, drained, e) \<Rightarrow>
        (case e of
           Some x \<Rightarrow> (409, admin_zero\<lparr>ar_error := error_string x, ar_remaining := int rem, ar_drained := drained\<rparr>)
         | None \<Rightarrow> (200, admin_zero\<lparr>ar_drained := drained, ar_remaining := int rem\<rparr>)))"

text \<open>
  The error of decoding the body is dropped: a body that is no JSON counts as one without \<open>force\<close>, and a member of the wrong type does not
  keep the decoder from setting \<open>force\<close>.
\<close>

definition drain_force :: "bytes \<Rightarrow> bool" where
  "drain_force body =
     (case json_first body of
        Some (JObj ms) \<Rightarrow>
          fold (\<lambda>(k, j) b. if fold_name k = ''force'' then (case j of JBool x \<Rightarrow> x | _ \<Rightarrow> b) else b) ms False
      | _ \<Rightarrow> False)"

definition handleDrain :: "nat \<Rightarrow> env \<Rightarrow> string \<Rightarrow> string \<Rightarrow> bytes \<Rightarrow> cluster \<Rightarrow> (admin_answer \<times> cluster) option" where
  "handleDrain hops en u meth body cl =
     (if meth \<noteq> ''POST'' then Some (not_allowed, cl)
      else map_option (apfst drain_answer) (Drain hops en u (drain_force body) cl))"

definition handleLeave :: "nat \<Rightarrow> env \<Rightarrow> raft_env \<Rightarrow> string \<Rightarrow> string \<Rightarrow> cluster \<Rightarrow> (admin_answer \<times> cluster) option" where
  "handleLeave hops en re u meth cl =
     (if meth \<noteq> ''POST'' then Some (not_allowed, cl) else map_option (apfst drain_answer) (Leave hops en re u cl))"

definition handleReady :: "env \<Rightarrow> string \<Rightarrow> string \<Rightarrow> cluster \<Rightarrow> admin_answer \<times> cluster" where
  "handleReady en u meth cl =
     (if meth \<noteq> ''POST'' then (not_allowed, cl) else ((200, admin_zero\<lparr>ar_status := ''active''\<rparr>), Ready en u cl))"

definition handleRepair :: "nat \<Rightarrow> env \<Rightarrow> string \<Rightarrow> string \<Rightarrow> cluster \<Rightarrow> (admin_answer \<times> cluster) option" where
  "handleRepair hops en u meth cl =
     (if meth \<noteq> ''POST'' then Some (not_allowed, cl)
      else case RunRepair hops en u cl of
        None \<Rightarrow> None
      | Some ((fixed, failed), cl') \<Rightarrow>
          Some ((200, admin_zero\<lparr>ar_fixed := fixed, ar_failed := failed,
             ar_pending := (case mget cl' u of None \<Rightarrow> 0 | Some nd \<Rightarrow> ri_pending (queue_info 0 (nd_queue nd)))\<rparr>), cl'))"

definition handleOverview :: "env \<Rightarrow> cluster getter \<Rightarrow> string \<Rightarrow> string \<Rightarrow> node \<Rightarrow> cluster \<Rightarrow> admin_answer \<times> cluster" where
  "handleOverview en get u meth nd cl =
     (if meth \<noteq> ''GET'' then (not_allowed, cl)
      else case ClusterOverview en get u nd cl of (ov, cl') \<Rightarrow> ((200, admin_zero\<lparr>ar_overview := Some ov\<rparr>), cl'))"

section \<open>Following the leadership\<close>

text \<open>
  One round of \<open>RunLeaderLoop\<close>: a node that has just become the leader registers itself, brings the Raft voters in line and runs
  the hook; errors are only logged.
\<close>

definition leader_round :: "raft_env \<Rightarrow> member \<Rightarrow> (node \<Rightarrow> node) \<Rightarrow> bool \<Rightarrow> node \<Rightarrow> bool \<times> unit res option \<times> node" where
  "leader_round re self hook was nd =
     (IsLeader nd,
      if IsLeader nd \<and> \<not> was then (let nd1 = snd (RegisterSelf self nd) in (Some (ReconcileRaftPeers re nd1), hook nd1)) else (None, nd))"

fun RunLeaderLoop :: "raft_env list \<Rightarrow> member \<Rightarrow> (node \<Rightarrow> node) \<Rightarrow> bool \<Rightarrow> node \<Rightarrow> bool \<times> node" where
  "RunLeaderLoop [] self hook was nd = (was, nd)"
| "RunLeaderLoop (re # res) self hook was nd =
     (case leader_round re self hook was nd of (was', _, nd') \<Rightarrow> RunLeaderLoop res self hook was' nd')"

end
