(* ===== verification/Grpc.thy ===== *)
theory Grpc
  imports Admin_Api
begin

text \<open>
  The gRPC interface of a node: the methods of the server (\<^verbatim>\<open>grpcserver/server.go\<close>), the transport of chunks over it
  (\<^verbatim>\<open>transport/grpc.go\<close>), the RDMA transports that wrap it (\<^verbatim>\<open>transport/rdma_stub.go\<close>, \<^verbatim>\<open>transport/rdma_linux.go\<close>) and the
  fallback from one transport to the next (\<^verbatim>\<open>transport/transport.go\<close>).

  The messages are the records of \<^verbatim>\<open>memoryfs.proto\<close>. What the gRPC library does is an argument: which address can be dialled
  and who listens there, which messages can be sent (they encode, and are not above the limit), and what becomes of a call. A handler
  gives \<open>None\<close> when it does not return, because a chain of replicas is longer than \<open>hops\<close>; a method that dereferences a nil pointer gives
  \<open>None\<close> too, since the process ends with it.
\<close>

section \<open>Status codes and attributes\<close>

datatype grpc_code = CodeUnknown | CodeNotFound | CodeAlreadyExists | CodeFailedPrecondition | CodeAborted | CodeInternal | CodeUnavailable

type_synonym rpc_status = "grpc_code \<times> string"
type_synonym 'a rpc = "rpc_status + 'a"

fun code_string :: "grpc_code \<Rightarrow> string" where
  "code_string CodeUnknown = ''Unknown''"
| "code_string CodeNotFound = ''NotFound''"
| "code_string CodeAlreadyExists = ''AlreadyExists''"
| "code_string CodeFailedPrecondition = ''FailedPrecondition''"
| "code_string CodeAborted = ''Aborted''"
| "code_string CodeInternal = ''Internal''"
| "code_string CodeUnavailable = ''Unavailable''"

text \<open>The error a client sees.\<close>

definition status_error :: "rpc_status \<Rightarrow> err" where
  "status_error st = ErrMsg (''rpc error: code = '' @ code_string (fst st) @ '' desc = '' @ snd st)"

record proto_attr =
  pa_ino :: u64
  pa_mode :: u32
  pa_size :: u64
  pa_uid :: u32
  pa_gid :: u32
  pa_mtime :: int
  pa_nlink :: u32
  pa_target :: string
  pa_chunks :: "string list"

definition toProtoAttr :: "attr \<Rightarrow> proto_attr" where
  "toProtoAttr a =
     \<lparr>pa_ino = at_ino a, pa_mode = at_mode a, pa_size = at_size a, pa_uid = at_uid a, pa_gid = at_gid a, pa_mtime = at_mtime a,
      pa_nlink = at_nlink a, pa_target = at_target a, pa_chunks = at_chunks a\<rparr>"

definition fromProtoAttr :: "proto_attr \<Rightarrow> attr" where
  "fromProtoAttr p =
     \<lparr>at_ino = pa_ino p, at_mode = pa_mode p, at_size = pa_size p, at_uid = pa_uid p, at_gid = pa_gid p, at_mtime = pa_mtime p,
      at_nlink = pa_nlink p, at_expire = 0, at_target = pa_target p, at_chunks = pa_chunks p\<rparr>"

definition toStatus :: "err \<Rightarrow> rpc_status" where
  "toStatus e =
     (if e = ErrNotFound then (CodeNotFound, MapError e)
      else if e = ErrExists then (CodeAlreadyExists, MapError e)
      else if e = ErrNotEmpty then (CodeFailedPrecondition, MapError e)
      else (CodeInternal, error_string e))"

definition not_leader_status :: "string option \<Rightarrow> node \<Rightarrow> rpc_status" where
  "not_leader_status leader nd = (CodeFailedPrecondition, ''not leader, try '' @ leader_or_empty leader nd)"

definition requireLeader :: "string option \<Rightarrow> node \<Rightarrow> rpc_status option" where
  "requireLeader leader nd = (if \<not> IsLeader nd then Some (not_leader_status leader nd) else None)"

section \<open>Cluster methods\<close>

record health_response =
  hr_status :: string
  hr_state :: string
  hr_epoch :: u64
  hr_leader :: bool
  hr_pending :: int

definition int32 :: "int \<Rightarrow> int" where
  "int32 i = sint (word_of_int i :: 32 word)"

definition Health_rpc :: "node \<Rightarrow> health_response rpc \<times> node" where
  "Health_rpc nd =
     (case Health nd of (h, nd') \<Rightarrow>
        (Inr \<lparr>hr_status = he_status h, hr_state = he_state h, hr_epoch = he_epoch h, hr_leader = (he_role h = ''leader''),
              hr_pending = int32 (he_pending h)\<rparr>, nd'))"

definition GetLeader_rpc :: "string option \<Rightarrow> node \<Rightarrow> string rpc" where
  "GetLeader_rpc leader nd =
     (case LeaderHTTPAddr leader nd of Inl e \<Rightarrow> Inl (CodeUnavailable, error_string e) | Inr l \<Rightarrow> Inr l)"

definition ListNodes_rpc :: "node \<Rightarrow> string list rpc" where
  "ListNodes_rpc nd = Inr (ListNodes (nd_kv nd))"

definition Join_rpc :: "raft_env \<Rightarrow> string option \<Rightarrow> member \<Rightarrow> node \<Rightarrow> unit rpc \<times> node" where
  "Join_rpc re leader m nd =
     (if \<not> IsLeader nd then (Inl (not_leader_status leader nd), nd)
      else case service_join re m nd of
        (Inl e, nd') \<Rightarrow> (Inl (CodeInternal, error_string e), nd') | (Inr _, nd') \<Rightarrow> (Inr (), nd'))"

definition Drain_rpc :: "nat \<Rightarrow> env \<Rightarrow> string \<Rightarrow> bool \<Rightarrow> cluster \<Rightarrow> ((int \<times> bool) rpc \<times> cluster) option" where
  "Drain_rpc hops en u force cl =
     (case Drain hops en u force cl of
        None \<Rightarrow> None
      | Some ((rem, drained, Some e), cl') \<Rightarrow> Some (Inl (CodeAborted, error_string e), cl')
      | Some ((rem, drained, None), cl') \<Rightarrow> Some (Inr (0, True), cl'))"

definition Ready_rpc :: "env \<Rightarrow> string \<Rightarrow> cluster \<Rightarrow> string rpc \<times> cluster" where
  "Ready_rpc en u cl = (Inr ''active'', Ready en u cl)"

section \<open>Metadata methods\<close>

definition attr_reply :: "attr res \<Rightarrow> proto_attr rpc" where
  "attr_reply r = (case r of Inl e \<Rightarrow> Inl (toStatus e) | Inr a \<Rightarrow> Inr (toProtoAttr a))"

definition unit_reply :: "unit res \<Rightarrow> unit rpc" where
  "unit_reply r = (case r of Inl e \<Rightarrow> Inl (toStatus e) | Inr _ \<Rightarrow> Inr ())"

definition kv_call :: "(kv \<Rightarrow> 'a res \<times> kv) \<Rightarrow> ('a res \<Rightarrow> 'b rpc) \<Rightarrow> node \<Rightarrow> 'b rpc \<times> node" where
  "kv_call f reply nd = (case f (nd_kv nd) of (r, s) \<Rightarrow> (reply r, nd\<lparr>nd_kv := s\<rparr>))"

definition as_leader :: "string option \<Rightarrow> (node \<Rightarrow> 'b rpc \<times> node) \<Rightarrow> node \<Rightarrow> 'b rpc \<times> node" where
  "as_leader leader f nd = (case requireLeader leader nd of Some st \<Rightarrow> (Inl st, nd) | None \<Rightarrow> f nd)"

definition GetAttr_rpc :: "u64 \<Rightarrow> node \<Rightarrow> proto_attr rpc" where
  "GetAttr_rpc ino nd = attr_reply (GetAttr (nd_kv nd) ino)"

definition Lookup_rpc :: "u64 \<Rightarrow> string \<Rightarrow> node \<Rightarrow> proto_attr rpc" where
  "Lookup_rpc p n nd = attr_reply (Lookup (nd_kv nd) p n)"

definition Readdir_rpc :: "u64 \<Rightarrow> node \<Rightarrow> (string, proto_attr) gomap rpc" where
  "Readdir_rpc p nd =
     (case Readdir (nd_kv nd) p of
        Inl e \<Rightarrow> Inl (CodeInternal, error_string e)
      | Inr m \<Rightarrow> Inr (map (apsnd toProtoAttr) m))"

definition Mkdir_rpc :: "int \<Rightarrow> string option \<Rightarrow> u64 \<Rightarrow> string \<Rightarrow> u32 \<Rightarrow> u32 \<Rightarrow> u32 \<Rightarrow> node \<Rightarrow> proto_attr rpc \<times> node" where
  "Mkdir_rpc now leader p n mode uid gid = as_leader leader (kv_call (Mkdir p n mode uid gid (now div 10 ^ 9)) attr_reply)"

definition Create_rpc :: "int \<Rightarrow> string option \<Rightarrow> u64 \<Rightarrow> string \<Rightarrow> u32 \<Rightarrow> u32 \<Rightarrow> u32 \<Rightarrow> node \<Rightarrow> proto_attr rpc \<times> node" where
  "Create_rpc now leader p n mode uid gid =
     as_leader leader (\<lambda>nd. case service_create p n mode uid gid now nd of (r, nd') \<Rightarrow> (attr_reply r, nd'))"

definition Symlink_rpc :: "int \<Rightarrow> string option \<Rightarrow> u64 \<Rightarrow> string \<Rightarrow> string \<Rightarrow> u32 \<Rightarrow> u32 \<Rightarrow> node \<Rightarrow> proto_attr rpc \<times> node" where
  "Symlink_rpc now leader p n t uid gid = as_leader leader (kv_call (Symlink p n t uid gid (now div 10 ^ 9)) attr_reply)"

definition Unlink_rpc :: "string option \<Rightarrow> u64 \<Rightarrow> string \<Rightarrow> node \<Rightarrow> proto_attr rpc \<times> node" where
  "Unlink_rpc leader p n = as_leader leader (kv_call (Unlink p n) attr_reply)"

definition Rmdir_rpc :: "string option \<Rightarrow> u64 \<Rightarrow> string \<Rightarrow> node \<Rightarrow> unit rpc \<times> node" where
  "Rmdir_rpc leader p n = as_leader leader (kv_call (Rmdir p n) unit_reply)"

definition Rename_rpc :: "string option \<Rightarrow> u64 \<Rightarrow> u64 \<Rightarrow> string \<Rightarrow> string \<Rightarrow> node \<Rightarrow> unit rpc \<times> node" where
  "Rename_rpc leader p p' n n' = as_leader leader (kv_call (Rename p p' n n') unit_reply)"

text \<open>A request without attributes reaches \<^verbatim>\<open>UpdateAttr(nil)\<close>, which reads the inode number of a nil pointer.\<close>

definition SetAttr_rpc :: "string option \<Rightarrow> proto_attr option \<Rightarrow> node \<Rightarrow> (proto_attr rpc \<times> node) option" where
  "SetAttr_rpc leader pa nd =
     (case requireLeader leader nd of
        Some st \<Rightarrow> Some (Inl st, nd)
      | None \<Rightarrow>
          (case pa of
             None \<Rightarrow> None
           | Some p \<Rightarrow>
               (let a = fromProtoAttr p in
                Some (kv_call (UpdateAttr a)
                  (\<lambda>r. case r of Inl e \<Rightarrow> Inl (CodeInternal, error_string e) | Inr _ \<Rightarrow> Inr (toProtoAttr a)) nd))))"

section \<open>Chunk methods\<close>

record put_message =
  pm_chunk :: string
  pm_data :: bytes
  pm_replica :: bool
  pm_stage :: string
  pm_chain :: u32
  pm_chain_ver :: u64
  pm_update :: u64
  pm_commit :: u64
  pm_replicas :: "string list"
  pm_from_client :: bool
  pm_syncing :: bool

definition message_request :: "put_message \<Rightarrow> replica_write" where
  "message_request m =
     \<lparr>rw_stage = (if pm_stage m = [] then ''prepare'' else pm_stage m), rw_chain = pm_chain m, rw_chain_ver = pm_chain_ver m,
      rw_update = pm_update m, rw_commit = pm_commit m, rw_replicas = pm_replicas m, rw_from_client = pm_from_client m,
      rw_syncing = pm_syncing m\<rparr>"

record put_state =
  ps_chunk :: string
  ps_data :: bytes
  ps_req :: replica_write
  ps_replica :: bool
  ps_received :: bool

definition put_state_zero :: put_state where
  "put_state_zero = \<lparr>ps_chunk = [], ps_data = [],
     ps_req = \<lparr>rw_stage = [], rw_chain = 0, rw_chain_ver = 0, rw_update = 0, rw_commit = 0, rw_replicas = [], rw_from_client = False,
               rw_syncing = False\<rparr>, ps_replica = False, ps_received = False\<rparr>"

definition recv_message :: "put_message \<Rightarrow> put_state \<Rightarrow> put_state" where
  "recv_message m s =
     (let s1 = (if \<not> ps_received s then s\<lparr>ps_replica := pm_replica m, ps_req := message_request m, ps_received := True\<rparr> else s);
          s2 = (if ps_chunk s1 = [] then s1\<lparr>ps_chunk := pm_chunk m\<rparr> else s1) in
      s2\<lparr>ps_data := ps_data s2 @ pm_data m\<rparr>)"

text \<open>A stream of messages ends with EOF (\<open>None\<close>) or with an error.\<close>

definition PutChunk_rpc :: "nat \<Rightarrow> env \<Rightarrow> string \<Rightarrow> put_message list \<Rightarrow> rpc_status option \<Rightarrow> cluster \<Rightarrow> (string list rpc \<times> cluster) option" where
  "PutChunk_rpc hops en u ms ends cl =
     (case ends of
        Some st \<Rightarrow> Some (Inl st, cl)
      | None \<Rightarrow>
          (let s = fold recv_message ms put_state_zero in
           if ps_replica s then
             (case StoreChunkLocal hops en u (ps_chunk s) (ps_data s) (ps_req s) cl of
                None \<Rightarrow> None
              | Some (Inl e, cl') \<Rightarrow> Some (Inl (CodeInternal, error_string e), cl')
              | Some (Inr _, cl') \<Rightarrow> Some (Inr (rw_replicas (ps_req s)), cl'))
           else
             (case PutChunk hops en u (ps_chunk s) (ps_data s) cl of
                None \<Rightarrow> None
              | Some (Inl e, cl') \<Rightarrow> Some (Inl (CodeInternal, error_string e), cl')
              | Some (Inr rs, cl') \<Rightarrow> Some (Inr rs, cl'))))"

text \<open>The whole chunk is one message of the reply.\<close>

definition GetChunk_rpc :: "string \<Rightarrow> bool \<Rightarrow> node \<Rightarrow> bytes list rpc" where
  "GetChunk_rpc k allow nd =
     (case GetChunkWithVisibility nd k allow of
        Inl e \<Rightarrow>
          if error_string e = ''chunk not committed'' then Inl (CodeFailedPrecondition, error_string e)
          else Inl (CodeNotFound, error_string e)
      | Inr d \<Rightarrow> Inr [d])"

definition DeleteChunk_rpc :: "nat \<Rightarrow> env \<Rightarrow> string \<Rightarrow> string \<Rightarrow> cluster \<Rightarrow> (unit rpc \<times> cluster) option" where
  "DeleteChunk_rpc hops en u k cl =
     (case DeleteChunk hops en u k cl of
        None \<Rightarrow> None
      | Some (Inl e, cl') \<Rightarrow> Some (Inl (CodeInternal, error_string e), cl')
      | Some (Inr _, cl') \<Rightarrow> Some (Inr (), cl'))"

end
