(* ===== verification/Grpc_Transport.thy ===== *)
theory Grpc_Transport
  imports Grpc
begin

text \<open>
  The transports of chunks that are not HTTP: gRPC (\<^verbatim>\<open>transport/grpc.go\<close>) as a client of the server of theory \<open>Grpc\<close>, RDMA in the
  default build (\<^verbatim>\<open>transport/rdma_stub.go\<close>) and in the build with RDMA (\<^verbatim>\<open>transport/rdma_linux.go\<close>), and the fallback over a list of
  them (\<^verbatim>\<open>transport/transport.go\<close>). A write, a read and a deletion of a chunk over gRPC do what they do over HTTP.
\<close>

section \<open>Addresses\<close>

definition HTTP_port :: string where "HTTP_port = ''19800''"
definition GRPC_port :: string where "GRPC_port = ''19801''"
definition RDMA_port :: string where "RDMA_port = ''19803''"

text \<open>\<^verbatim>\<open>strings.Cut\<close> at a colon: what follows the first one.\<close>

definition after_char :: "char \<Rightarrow> string \<Rightarrow> string" where
  "after_char c s = tl (dropWhile (\<lambda>x. x \<noteq> c) s)"

definition strip_url :: "string \<Rightarrow> string" where
  "strip_url url = before_char CHR ''/'' (trim_prefix (trim_prefix url ''http://'') ''https://'')"

definition normalizeGRPC :: "string \<Rightarrow> string" where
  "normalizeGRPC url =
     (let addr = strip_url url in
      if CHR '':'' \<notin> set addr then addr @ '':'' @ GRPC_port
      else if after_char CHR '':'' addr = HTTP_port then before_char CHR '':'' addr @ '':'' @ GRPC_port
      else addr)"

definition normalizeRDMAFromNodeURL :: "string \<Rightarrow> string" where
  "normalizeRDMAFromNodeURL url =
     (let addr = strip_url url in
      if CHR '':'' \<notin> set addr then addr @ '':'' @ RDMA_port
      else if after_char CHR '':'' addr = HTTP_port then before_char CHR '':'' addr @ '':'' @ RDMA_port
      else addr)"

definition normalizeRDMAAddr :: "string \<Rightarrow> string" where
  "normalizeRDMAAddr addr = (if addr = [] then ''127.0.0.1:'' @ RDMA_port else addr)"

section \<open>The gRPC transport\<close>

text \<open>
  The library: the error of making a connection to an address, the node that listens there, the error of sending a message, the error
  of receiving the messages of a chunk, and the fate of a call from a client to a node.
\<close>

record grpc_lib =
  gl_dial :: "string \<Rightarrow> err option"
  gl_listen :: "string \<Rightarrow> string option"
  gl_send :: "put_message \<Rightarrow> err option"
  gl_recv :: "bytes list \<Rightarrow> err option"
  gl_link :: "string \<Rightarrow> string \<Rightarrow> link"

definition put_message_of :: "string \<Rightarrow> bytes \<Rightarrow> write_options \<Rightarrow> put_message" where
  "put_message_of k d w =
     \<lparr>pm_chunk = k, pm_data = d, pm_replica = wo_replica w, pm_stage = wo_stage w, pm_chain = wo_chain w, pm_chain_ver = wo_chain_ver w,
      pm_update = wo_update w, pm_commit = wo_commit w, pm_replicas = wo_replicas w, pm_from_client = wo_from_client w,
      pm_syncing = wo_syncing w\<rparr>"

definition rpc_call :: "grpc_lib \<Rightarrow> string \<Rightarrow> string \<Rightarrow> (string \<Rightarrow> cluster \<Rightarrow> ('a rpc \<times> cluster) option) \<Rightarrow> cluster \<Rightarrow> 'a res \<times> cluster" where
  "rpc_call gl client u handle cl =
     (case gl_link gl client u of
        Drop e \<Rightarrow> (Inl e, cl)
      | LostReply _ e \<Rightarrow> (Inl e, case handle u cl of None \<Rightarrow> cl | Some (_, cl') \<Rightarrow> cl')
      | Deliver _ \<Rightarrow>
          (case handle u cl of
             None \<Rightarrow> (Inl deadline_exceeded, cl)
           | Some (r, cl') \<Rightarrow> (map_sum status_error id r, cl')))"

definition with_conn :: "grpc_lib \<Rightarrow> string \<Rightarrow> (string \<Rightarrow> cluster \<Rightarrow> 'a res \<times> cluster) \<Rightarrow> cluster \<Rightarrow> 'a res \<times> cluster" where
  "with_conn gl url f cl =
     (case gl_dial gl (normalizeGRPC url) of
        Some e \<Rightarrow> (Inl e, cl)
      | None \<Rightarrow> (case gl_listen gl (normalizeGRPC url) of None \<Rightarrow> (Inl conn_refused, cl) | Some u \<Rightarrow> f u cl))"

definition grpc_put :: "nat \<Rightarrow> grpc_lib \<Rightarrow> env \<Rightarrow> string \<Rightarrow> string \<Rightarrow> string \<Rightarrow> bytes \<Rightarrow> write_options \<Rightarrow> cluster \<Rightarrow> unit res \<times> cluster" where
  "grpc_put hops gl en client url k d opts =
     with_conn gl url (\<lambda>u cl.
       case gl_send gl (put_message_of k d opts) of
         Some e \<Rightarrow> (Inl e, cl)
       | None \<Rightarrow>
           apfst (map_sum id (\<lambda>_. ()))
             (rpc_call gl client u (\<lambda>u. PutChunk_rpc hops en u [put_message_of k d opts] None) cl))"

definition grpc_get :: "grpc_lib \<Rightarrow> string \<Rightarrow> string \<Rightarrow> string \<Rightarrow> bool \<Rightarrow> cluster \<Rightarrow> bytes res" where
  "grpc_get gl client url k allow cl =
     (case fst (with_conn gl url (\<lambda>u. rpc_call gl client u
              (\<lambda>u cl. case mget cl u of None \<Rightarrow> None | Some nd \<Rightarrow> Some (GetChunk_rpc k allow nd, cl))) cl) of
        Inl e \<Rightarrow> Inl e
      | Inr ds \<Rightarrow>
          (case gl_recv gl ds of
             Some e \<Rightarrow> Inl e
           | None \<Rightarrow> if concat ds = [] then Inl (ErrMsg ''chunk not found'') else Inr (concat ds)))"

definition grpc_delete :: "nat \<Rightarrow> grpc_lib \<Rightarrow> env \<Rightarrow> string \<Rightarrow> string \<Rightarrow> string \<Rightarrow> cluster \<Rightarrow> unit res \<times> cluster" where
  "grpc_delete hops gl en client url k = with_conn gl url (\<lambda>u. rpc_call gl client u (\<lambda>u. DeleteChunk_rpc hops en u k))"

definition grpc_transport :: "nat \<Rightarrow> grpc_lib \<Rightarrow> env \<Rightarrow> string \<Rightarrow> (string \<Rightarrow> cluster \<Rightarrow> string list res) option \<Rightarrow> (string list \<Rightarrow> string list) \<Rightarrow>
    cluster chunk_transport" where
  "grpc_transport hops gl en client look order =
     \<lparr>tp_put = grpc_put hops gl en client, tp_get = grpc_get gl client, tp_delete = grpc_delete hops gl en client,
      tp_replicas = look, tp_order = order, tp_flusher = None\<rparr>"

section \<open>The RDMA transports\<close>

text \<open>In the default build every method is that of the fallback, if there is one.\<close>

definition rdma_disabled :: err where "rdma_disabled = ErrMsg ''rdma not enabled''"
definition rdma_rebuild :: err where "rdma_rebuild = ErrMsg ''rdma not enabled: rebuild with -tags rdma or use grpc/http''"

definition stub_put :: "'w chunk_transport option \<Rightarrow> string \<Rightarrow> string \<Rightarrow> bytes \<Rightarrow> write_options \<Rightarrow> 'w \<Rightarrow> unit res \<times> 'w" where
  "stub_put fb url k d opts w = (case fb of None \<Rightarrow> (Inl rdma_disabled, w) | Some t \<Rightarrow> tp_put t url k d opts w)"

definition stub_get :: "'w chunk_transport option \<Rightarrow> string \<Rightarrow> string \<Rightarrow> bool \<Rightarrow> 'w \<Rightarrow> bytes res" where
  "stub_get fb url k allow w = (case fb of None \<Rightarrow> Inl rdma_rebuild | Some t \<Rightarrow> tp_get t url k allow w)"

definition stub_delete :: "'w chunk_transport option \<Rightarrow> string \<Rightarrow> string \<Rightarrow> 'w \<Rightarrow> unit res \<times> 'w" where
  "stub_delete fb url k w = (case fb of None \<Rightarrow> (Inl rdma_disabled, w) | Some t \<Rightarrow> tp_delete t url k w)"

text \<open>
  With RDMA the frames go over a TCP connection. The operating system is an argument: the names in the directory of the devices, and
  what comes of writing a frame to an address and of the first read after it.
\<close>

record 'w tcp_net =
  tn_devices :: "string list res"
  tn_write :: "string \<Rightarrow> bytes \<Rightarrow> bytes \<Rightarrow> 'w \<Rightarrow> unit res \<times> 'w"
  tn_read :: "string \<Rightarrow> bytes \<Rightarrow> 'w \<Rightarrow> bytes res"

definition rdmaDevicesPresent :: "string list res \<Rightarrow> bool" where
  "rdmaDevicesPresent entries =
     (case entries of Inl _ \<Rightarrow> False | Inr names \<Rightarrow> list_ex (\<lambda>n. has_prefix n ''uverbs'') names)"

definition plain_options :: "write_options \<Rightarrow> bool" where
  "plain_options w \<longleftrightarrow> \<not> (wo_replica w \<or> wo_stage w \<noteq> [] \<or> wo_chain w \<noteq> 0 \<or> wo_chain_ver w \<noteq> 0 \<or> wo_update w \<noteq> 0 \<or> wo_commit w \<noteq> 0
     \<or> 0 < length (wo_replicas w) \<or> wo_from_client w \<or> wo_syncing w)"

definition options_zero :: write_options where
  "options_zero = \<lparr>wo_replica = False, wo_from_client = False, wo_stage = [], wo_chain = 0, wo_chain_ver = 0, wo_update = 0, wo_commit = 0,
     wo_replicas = [], wo_syncing = False\<rparr>"

definition rdmaPut :: "'w tcp_net \<Rightarrow> string \<Rightarrow> string \<Rightarrow> bytes \<Rightarrow> 'w \<Rightarrow> unit res \<times> 'w" where
  "rdmaPut tn addr k d w =
     tn_write tn (normalizeRDMAAddr addr) (''PUT '' @ k @ '' '' @ format_nat (length d) @ [CHR 0x0A]) d w"

definition rdmaGet :: "'w tcp_net \<Rightarrow> string \<Rightarrow> string \<Rightarrow> 'w \<Rightarrow> bytes res" where
  "rdmaGet tn addr k w =
     map_sum id (take 4194304) (tn_read tn (normalizeRDMAAddr addr) (''GET '' @ k @ [CHR 0x0A]) w)"

definition rdma_put :: "'w tcp_net \<Rightarrow> 'w chunk_transport \<Rightarrow> string \<Rightarrow> string \<Rightarrow> bytes \<Rightarrow> write_options \<Rightarrow> 'w \<Rightarrow> unit res \<times> 'w" where
  "rdma_put tn fb url k d opts w =
     (if \<not> plain_options opts then tp_put fb url k d opts w
      else if rdmaDevicesPresent (tn_devices tn) then
        (case rdmaPut tn (normalizeRDMAFromNodeURL url) k d w of
           (Inr _, w') \<Rightarrow> (Inr (), w')
         | (Inl _, w') \<Rightarrow> tp_put fb url k d options_zero w')
      else tp_put fb url k d options_zero w)"

definition rdma_get :: "'w tcp_net \<Rightarrow> 'w chunk_transport \<Rightarrow> string \<Rightarrow> string \<Rightarrow> bool \<Rightarrow> 'w \<Rightarrow> bytes res" where
  "rdma_get tn fb url k allow w =
     (if allow then tp_get fb url k allow w
      else if rdmaDevicesPresent (tn_devices tn) then
        (case rdmaGet tn (normalizeRDMAFromNodeURL url) k w of Inr d \<Rightarrow> Inr d | Inl _ \<Rightarrow> tp_get fb url k False w)
      else tp_get fb url k False w)"

section \<open>Fallback\<close>

text \<open>The first transport that succeeds answers; else the last error does. A list without transports reports success.\<close>

fun first_success :: "('t \<Rightarrow> 'w \<Rightarrow> unit res \<times> 'w) \<Rightarrow> 't list \<Rightarrow> unit res \<Rightarrow> 'w \<Rightarrow> unit res \<times> 'w" where
  "first_success f [] r w = (r, w)"
| "first_success f (t # ts) r w =
     (case f t w of (Inr _, w') \<Rightarrow> (Inr (), w') | (Inl e, w') \<Rightarrow> first_success f ts (Inl e) w')"

definition multi_put_options :: "'w chunk_transport list \<Rightarrow> string \<Rightarrow> string \<Rightarrow> bytes \<Rightarrow> write_options \<Rightarrow> 'w \<Rightarrow> unit res \<times> 'w" where
  "multi_put_options ts url k d opts w = first_success (\<lambda>t. tp_put t url k d opts) ts (Inr ()) w"

definition multi_delete :: "'w chunk_transport list \<Rightarrow> string \<Rightarrow> string \<Rightarrow> 'w \<Rightarrow> unit res \<times> 'w" where
  "multi_delete ts url k w = first_success (\<lambda>t. tp_delete t url k) ts (Inr ()) w"

text \<open>Without transports a read returns no data and no error.\<close>

fun multi_get :: "'w chunk_transport list \<Rightarrow> string \<Rightarrow> string \<Rightarrow> bool \<Rightarrow> bytes res \<Rightarrow> 'w \<Rightarrow> bytes res" where
  "multi_get [] url k allow r w = r"
| "multi_get (t # ts) url k allow r w =
     (case tp_get t url k allow w of Inr d \<Rightarrow> Inr d | Inl e \<Rightarrow> multi_get ts url k allow (Inl e) w)"

definition multi_transport :: "'w chunk_transport list \<Rightarrow> (string \<Rightarrow> 'w \<Rightarrow> string list res) option \<Rightarrow> (string list \<Rightarrow> string list) \<Rightarrow>
    'w chunk_transport" where
  "multi_transport ts look order =
     \<lparr>tp_put = multi_put_options ts, tp_get = (\<lambda>url k allow. multi_get ts url k allow (Inr [])), tp_delete = multi_delete ts,
      tp_replicas = look, tp_order = order, tp_flusher = None\<rparr>"

text \<open>The transport of a node and of a mount that is not limited to HTTP, in the default build.\<close>

definition stub_transport :: "'w chunk_transport \<Rightarrow> 'w chunk_transport" where
  "stub_transport fb =
     fb\<lparr>tp_put := stub_put (Some fb), tp_get := stub_get (Some fb), tp_delete := stub_delete (Some fb)\<rparr>"

definition node_transport :: "nat \<Rightarrow> grpc_lib \<Rightarrow> env \<Rightarrow> string \<Rightarrow> (string \<Rightarrow> cluster \<Rightarrow> string list res) option \<Rightarrow> (string list \<Rightarrow> string list) \<Rightarrow>
    cluster chunk_transport" where
  "node_transport hops gl en client look order =
     (let g = grpc_transport hops gl en client look order in
      multi_transport [stub_transport g, g, http_transport hops en client look order] look order)"

section \<open>gRPC and HTTP agree\<close>

text \<open>Both clients reach the same node, and a request meets the same fate on both ways.\<close>

definition same_route :: "grpc_lib \<Rightarrow> env \<Rightarrow> string \<Rightarrow> string \<Rightarrow> string \<Rightarrow> cluster \<Rightarrow> bool" where
  "same_route gl en client url u cl \<longleftrightarrow> gl_dial gl (normalizeGRPC url) = None \<and> gl_listen gl (normalizeGRPC url) = Some u
     \<and> server_at cl url = Some u \<and> gl_link gl client u = en_post en client u"

lemma same_route_conn: "same_route gl en client url u cl \<Longrightarrow> with_conn gl url f cl = f u cl"
  by (simp add: with_conn_def same_route_def)

lemma same_route_node: "same_route gl en client url u cl \<Longrightarrow> \<exists>nd. mget cl u = Some nd"
  by (auto simp: same_route_def server_at_def find_Some_iff split: option.splits)

lemma request_message [simp]: "message_request (put_message_of k d w) = grpc_replica_write w"
  by (simp add: message_request_def put_message_of_def grpc_replica_write_def)

lemma one_message:
  "recv_message (put_message_of k d w) put_state_zero =
     \<lparr>ps_chunk = k, ps_data = d, ps_req = grpc_replica_write w, ps_replica = wo_replica w, ps_received = True\<rparr>"
  by (simp add: recv_message_def put_state_zero_def Let_def) (simp add: put_message_of_def)

text \<open>What a handler does to the cluster, and whether its answer is a success.\<close>

definition outcome :: "('a \<Rightarrow> bool) \<Rightarrow> ('a \<times> cluster) option \<Rightarrow> (bool \<times> cluster) option" where
  "outcome ok r = map_option (apfst ok) r"

abbreviation created :: "answer \<Rightarrow> bool" where
  "created a \<equiv> fst a = 200 \<or> fst a = 201"

abbreviation rpc_ok :: "'a rpc \<Rightarrow> bool" where
  "rpc_ok r \<equiv> \<not> isl r"

lemma put_outcome:
  assumes "csv_ok (wo_replicas w)" "CHR ''?'' \<notin> set (chunkURL [] url k False)" "length d \<le> bodyLimit" "k \<noteq> []" "mget cl u = Some nd"
  shows "outcome created (handleChunks hops en u ''PUT'' (request_path k) (parse_query (raw_query (put_url [] url k w))) d cl)
    = outcome rpc_ok (PutChunk_rpc hops en u [put_message_of k d w] None cl)"
proof -
  have path: "trim_prefix (request_path k) ''/chunks/'' = k" by (simp only: request_path_def trim_prefix_append)
  note q = parse_put_url [OF assms(1,2)]
  show ?thesis
  proof (cases "wo_replica w")
    case True
    then show ?thesis using assms(3,4,5) q
      by (simp add: handleChunks_def path put_chunk_def readChunkBody_def PutChunk_rpc_def one_message Let_def outcome_def http_text_def
          split: option.split sum.split)
  next
    case False
    then show ?thesis using assms(3,4,5) q
      by (simp add: handleChunks_def path put_chunk_def readChunkBody_def PutChunk_rpc_def one_message Let_def outcome_def http_text_def
          split: option.split sum.split)
  qed
qed

lemma call_outcome:
  assumes "same_route gl en client url u cl" "outcome okh (h u cl) = outcome rpc_ok (g u cl)"
  shows "snd (send en client url h cl) = snd (rpc_call gl client u g cl)
    \<and> (case fst (send en client url h cl) of Inl _ \<Rightarrow> False | Inr a \<Rightarrow> okh a) = (\<not> isl (fst (rpc_call gl client u g cl)))"
  using assms
  by (cases "h u cl"; cases "g u cl"; cases "en_post en client u")
    (auto simp: same_route_def send_def rpc_call_def outcome_def isl_map_sum split: sum.splits)


definition witness_env :: env where
  "witness_env = \<lparr>en_put = (\<lambda>_ _. OsOk), en_del = (\<lambda>_ _. None), en_links = (\<lambda>_ _. []), en_post = (\<lambda>_ _. Deliver ViaHTTP), en_leader = (\<lambda>_. None)\<rparr>"

definition witness_lib :: grpc_lib where
  "witness_lib = \<lparr>gl_dial = (\<lambda>_. None), gl_listen = (\<lambda>a. if a = ''h:19801'' then Some ''http://h:19800'' else None), gl_send = (\<lambda>_. None),
     gl_recv = (\<lambda>_. None), gl_link = (\<lambda>_ _. Deliver ViaHTTP)\<rparr>"

definition witness_cluster :: cluster where
  "witness_cluster = [(''http://h:19800'', NewService ''n1'' ''http://h:19800'' [] (mem_store new_memory_kv) (MemoryStore []) 2 0 0)]"


end
