(* ===== verification/Api_Invariant.thy ===== *)
theory Api_Invariant
  imports Admin_Api Meta_Correct
begin

text \<open>
  Whatever a node is sent, its state stays well formed: the key-value store, the chunk store and the repair queue keep their representation
  invariants under every route that is served by one node, for any request and any answer of Raft.
\<close>

section \<open>The key-value store\<close>

lemma raft_each_wf: "mem_wf m \<Longrightarrow> mem_wf (snd (snd (raft_each qs r m)))"
proof (induction qs arbitrary: r m)
  case (Cons q qs)
  obtain x r1 m1 where a: "raft_apply q r m = (x, r1, m1)" by (cases "raft_apply q r m")
  have "mem_wf m1" using raft_submit_wf [OF Cons.prems, of "marshal_op q" r] a by (simp add: raft_apply_def)
  then show ?case using Cons.IH [of m1 r1] a by (cases x) simp_all
qed simp

lemma with_raft_wf:
  "mem_wf (snd plain) \<Longrightarrow> (\<And>r. mem_wf (snd (snd (f r (kv_mem s))))) \<Longrightarrow> mem_wf (kv_mem (snd (with_raft s plain f)))"
  by (auto simp: with_raft_def split: option.split prod.split) (metis snd_conv)

lemma kv_wf_each:
  assumes "mem_wf (kv_mem s)"
  shows "mem_wf (kv_mem (snd (kv_sadd k xs s)))" "mem_wf (kv_mem (snd (kv_srem k xs s)))" "mem_wf (kv_mem (snd (kv_del ks s)))"
  unfolding kv_sadd_def kv_srem_def kv_del_def by (rule with_raft_wf; simp add: assms raft_each_wf)+

lemma kv_wf_registry:
  assumes "mem_wf (kv_mem s)"
  shows "mem_wf (kv_mem (snd (SetLocation l s)))" "mem_wf (kv_mem (snd (reg_delete k s)))"
proof -
  obtain x s1 where s: "kv_set (chunkLocKey (lo_chunk l)) (marshal_location l) s = (x, s1)"
    by (cases "kv_set (chunkLocKey (lo_chunk l)) (marshal_location l) s")
  then have "mem_wf (kv_mem s1)" using kv_wf(3) [OF assms] by (metis snd_conv)
  then show "mem_wf (kv_mem (snd (SetLocation l s)))"
    using assms s by (cases x) (simp_all add: SetLocation_def kv_wf_each)
  show "mem_wf (kv_mem (snd (reg_delete k s)))" unfolding reg_delete_def by (intro kv_wf_each assms)
qed

section \<open>The node\<close>

definition node_ok :: "node \<Rightarrow> bool" where
  "node_ok nd \<longleftrightarrow> mem_wf (kv_mem (nd_kv nd)) \<and> st_inv (nd_store nd) \<and> queue_ok (nd_queue nd)"

lemma node_ok_cong:
  "nd_kv nd' = nd_kv nd \<Longrightarrow> nd_store nd' = nd_store nd \<Longrightarrow> nd_queue nd' = nd_queue nd \<Longrightarrow> node_ok nd' = node_ok nd"
  by (simp add: node_ok_def)

lemma node_ok_kv: "node_ok nd \<Longrightarrow> mem_wf (kv_mem s) \<Longrightarrow> node_ok (nd\<lparr>nd_kv := s\<rparr>)"
  by (simp add: node_ok_def)

text \<open>The parts of a node that the chain states, versions and the epoch are not.\<close>

definition core :: "node \<Rightarrow> kv \<times> store \<times> repair_queue" where
  "core nd = (nd_kv nd, nd_store nd, nd_queue nd)"

lemma node_ok_core: "core nd' = core nd \<Longrightarrow> node_ok nd' = node_ok nd"
  by (simp add: node_ok_def core_def)

lemma sync_core [simp]: "core (snd (syncClusterEpoch nd)) = core nd"
  by (simp add: syncClusterEpoch_def core_def split: sum.split)

lemma recompute_core [simp]: "core (recomputeChainStates nd) = core nd"
proof -
  have "core (fold (recompute_chain e) t n) = core n" for e t n
    by (induction t arbitrary: n) (simp_all add: recompute_chain_def core_def Let_def)
  then show ?thesis using sync_core [of nd]
    by (cases "syncClusterEpoch nd") (simp add: recomputeChainStates_def split: sum.split)
qed

lemma chain_core [simp]:
  "core (snd (GetChainState c nd)) = core nd" "core (snd (SyncStart c v nd)) = core nd" "core (snd (SyncDone c v nd)) = core nd"
  "core (snd (Health nd)) = core nd" "core (snd (Stats nd)) = core nd"
proof -
  have m: "core (markChainSyncing c b nd) = core nd" "core (bump_chain_ver c v nd) = core nd" for b nd
    by (simp_all add: markChainSyncing_def bump_chain_ver_def core_def)
  show "core (snd (GetChainState c nd)) = core nd" "core (snd (SyncStart c v nd)) = core nd" "core (snd (SyncDone c v nd)) = core nd"
    by (simp_all add: GetChainState_def SyncStart_def SyncDone_def Let_def m)
  show "core (snd (Health nd)) = core nd" "core (snd (Stats nd)) = core nd"
    using sync_core [of nd] by (cases "syncClusterEpoch nd"; simp add: Health_def Stats_def Let_def)+
qed

section \<open>Every route\<close>

text \<open>The metadata routes: a handler that runs an operation on the key-value store.\<close>

lemma on_kv_ok: "node_ok nd \<Longrightarrow> mem_wf (kv_mem (snd (f (nd_kv nd)))) \<Longrightarrow> node_ok (snd (on_kv f g nd))"
  by (cases "f (nd_kv nd)") (simp add: on_kv_def node_ok_kv)

lemma meta_wf:
  assumes "mem_wf (kv_mem s)"
  shows "mem_wf (kv_mem (snd (Mkdir p n mode uid gid now s)))" "mem_wf (kv_mem (snd (Create p n mode uid gid now s)))"
    "mem_wf (kv_mem (snd (Symlink p n t uid gid now s)))" "mem_wf (kv_mem (snd (Unlink p n s)))" "mem_wf (kv_mem (snd (Rmdir p n s)))"
    "mem_wf (kv_mem (snd (Rename p p' n n' s)))" "mem_wf (kv_mem (snd (UpdateAttr a s)))"
  using run_meta_wf [OF assms, of "MMkdir p n mode uid gid now"] run_meta_wf [OF assms, of "MCreate p n mode uid gid now"]
    run_meta_wf [OF assms, of "MSymlink p n t uid gid now"] run_meta_wf [OF assms, of "MUnlink p n"]
    run_meta_wf [OF assms, of "MRmdir p n"] run_meta_wf [OF assms, of "MRename p p' n n'"] run_meta_wf [OF assms, of "MUpdateAttr a"]
  by simp_all

lemma handler_ok:
  assumes "node_ok nd"
  shows "node_ok (snd (getattr q nd))" "node_ok (snd (lookup_h q nd))" "node_ok (snd (readdir q nd))" "node_ok (snd (mkdir now q nd))"
    "node_ok (snd (create now q nd))" "node_ok (snd (symlink now q nd))" "node_ok (snd (unlink q nd))" "node_ok (snd (rmdir q nd))"
    "node_ok (snd (rename q nd))" "node_ok (snd (setattr q nd))" "node_ok (snd (registrySet q nd))" "node_ok (snd (registryGet q nd))"
    "node_ok (snd (registryDelete q nd))"
proof -
  have wf: "mem_wf (kv_mem (nd_kv nd))" using assms by (simp add: node_ok_def)
  show "node_ok (snd (getattr q nd))" "node_ok (snd (lookup_h q nd))" "node_ok (snd (readdir q nd))" "node_ok (snd (registryGet q nd))"
    using assms by (simp_all add: getattr_def lookup_h_def readdir_def registryGet_def)
  show "node_ok (snd (mkdir now q nd))" "node_ok (snd (symlink now q nd))" "node_ok (snd (unlink q nd))" "node_ok (snd (rmdir q nd))"
    "node_ok (snd (rename q nd))" "node_ok (snd (setattr q nd))"
    using assms wf by (simp_all add: mkdir_def symlink_def unlink_def rmdir_def rename_def setattr_def on_kv_ok meta_wf split: option.split)
  obtain x s1 where c: "Create (fq_parent q) (fq_name q) (fq_mode q) (fq_uid q) (fq_gid q) (now div 10 ^ 9) (nd_kv nd) = (x, s1)"
    by (cases "Create (fq_parent q) (fq_name q) (fq_mode q) (fq_uid q) (fq_gid q) (now div 10 ^ 9) (nd_kv nd)")
  then have "mem_wf (kv_mem s1)" using meta_wf(2) [OF wf] by (metis snd_conv)
  then have u: "mem_wf (kv_mem (snd (UpdateAttr a s1)))" "mem_wf (kv_mem s1)" for a by (simp_all add: meta_wf)
  then show "node_ok (snd (create now q nd))"
    using c assms by (auto simp: create_def service_create_def Let_def node_ok_kv split: sum.split prod.split) (metis node_ok_kv snd_conv)+
  show "node_ok (snd (registrySet q nd))" "node_ok (snd (registryDelete q nd))"
    using assms kv_wf_registry [OF wf]
    by (auto simp: registrySet_def registryDelete_def ApplyRegistrySet_def ApplyRegistryDelete_def with_kv_def split: sum.split prod.split)
      (metis node_ok_kv snd_conv)+
qed

lemma run_handler_ok: "node_ok (snd (f q nd)) \<Longrightarrow> node_ok (snd (run_handler f q nd))"
  by (cases "f q nd") (simp add: run_handler_def split: prod.split)

lemma handleFS_ok: "node_ok nd \<Longrightarrow> (\<And>q. node_ok (snd (f q nd))) \<Longrightarrow> node_ok (snd (handleFS f h nd))"
  by (simp add: handleFS_def run_handler_ok split: sum.split)

lemma handleWrite_ok: "node_ok nd \<Longrightarrow> (\<And>q. node_ok (snd (f q nd))) \<Longrightarrow> node_ok (snd (handleWrite leader f h nd))"
  by (simp add: handleWrite_def run_handler_ok split: sum.split)

lemma serve_ok: "node_ok nd \<Longrightarrow> serve now leader path h nd = Some (a, nd') \<Longrightarrow> node_ok nd'"
  using handleFS_ok handleWrite_ok handler_ok by (auto simp: serve_def split: if_splits dest!: arg_cong [of _ _ snd])

text \<open>The membership routes.\<close>

lemma admit_ok: "node_ok nd \<Longrightarrow> node_ok (snd (Admit re m nd))"
proof -
  assume ok: "node_ok nd"
  then have wf: "mem_wf (kv_mem (nd_kv nd))" by (simp add: node_ok_def)
  obtain x s1 where b: "kv_batch (registerOps m) (nd_kv nd) = (x, s1)" by (cases "kv_batch (registerOps m) (nd_kv nd)")
  then have w1: "mem_wf (kv_mem s1)" using kv_wf(1) [OF wf] by (metis snd_conv)
  obtain y s2 where i: "kv_incr EpochKey s1 = (y, s2)" by (cases "kv_incr EpochKey s1")
  then have w2: "mem_wf (kv_mem s2)" using kv_wf(2) [OF w1] by (metis snd_conv)
  show ?thesis using ok w1 w2 by (simp add: Admit_def b i node_ok_kv split: sum.split)
qed

lemma remove_ok: "node_ok nd \<Longrightarrow> node_ok (snd (member_remove re i nd))"
proof -
  assume ok: "node_ok nd"
  then have wf: "mem_wf (kv_mem (nd_kv nd))" by (simp add: node_ok_def)
  obtain x s1 where b: "kv_batch (removeOps i) (nd_kv nd) = (x, s1)" by (cases "kv_batch (removeOps i) (nd_kv nd)")
  then have w1: "mem_wf (kv_mem s1)" using kv_wf(1) [OF wf] by (metis snd_conv)
  obtain y s2 where i: "kv_incr EpochKey s1 = (y, s2)" by (cases "kv_incr EpochKey s1")
  then have w2: "mem_wf (kv_mem s2)" using kv_wf(2) [OF w1] by (metis snd_conv)
  show ?thesis using ok w1 w2 by (simp add: member_remove_def b i node_ok_kv split: sum.split)
qed

lemma join_remove_ok:
  assumes "node_ok nd"
  shows "node_ok (snd (service_join re m nd))" "node_ok (snd (RemoveNode re i nd))"
proof -
  have "node_ok (recomputeChainStates (snd (syncClusterEpoch n))) = node_ok n" for n by (rule node_ok_core) simp
  then show "node_ok (snd (service_join re m nd))" "node_ok (snd (RemoveNode re i nd))"
    using admit_ok [OF assms, of re m] remove_ok [OF assms, of re i]
    by (cases "Admit re m nd"; cases "fst (Admit re m nd)"; cases "member_remove re i nd"; cases "fst (member_remove re i nd)";
        simp add: service_join_def RemoveNode_def)+
qed

lemma gc_ok: "node_ok nd \<Longrightarrow> node_ok (snd (RunGC os nd))"
proof -
  assume ok: "node_ok nd"
  then have inv: "st_inv (nd_store nd)" by (simp add: node_ok_def)
  obtain n r st' where g: "GCOrphans os (ListIndexed (nd_kv nd)) (nd_store nd) = ((n, r), st')"
    by (metis prod.exhaust)
  have "distinct (st_list (nd_store nd))" "\<And>k. k \<in> set (st_list (nd_store nd)) \<Longrightarrow> id_ok k"
    using st.list_sorted [OF inv] st.list_mem [OF inv] by auto
  then have "st_inv st'" using gc_loop_facts [OF inv _ _ g [unfolded GCOrphans_def]] by blast
  then show ?thesis using ok by (simp add: RunGC_def g node_ok_def)
qed

text \<open>
  The calls one node serves on its own, and a node that just started: the file system and registry routes, and the administration ones.
\<close>

datatype node_call =
    CallApi int "string option" string http_request
  | CallHealth
  | CallJoin raft_env "string option" string bytes
  | CallRemove raft_env "string option" string bytes
  | CallStats string
  | CallGC "string \<Rightarrow> err option" string
  | CallChainState string bytes
  | CallSyncStart string bytes
  | CallSyncDone string bytes

fun call_node :: "node_call \<Rightarrow> node \<Rightarrow> node" where
  "call_node (CallApi now leader path h) nd = (case serve now leader path h nd of None \<Rightarrow> nd | Some (_, nd') \<Rightarrow> nd')"
| "call_node CallHealth nd = snd (handleHealth nd)"
| "call_node (CallJoin re leader meth body) nd = snd (handleJoin re leader meth body nd)"
| "call_node (CallRemove re leader meth body) nd = snd (handleRemove re leader meth body nd)"
| "call_node (CallStats meth) nd = snd (handleStats meth nd)"
| "call_node (CallGC os meth) nd = snd (handleGC os meth nd)"
| "call_node (CallChainState meth body) nd = snd (handle_chain chainState meth body nd)"
| "call_node (CallSyncStart meth body) nd = snd (handle_chain chainSyncStart meth body nd)"
| "call_node (CallSyncDone meth body) nd = snd (handle_chain chainSyncDone meth body nd)"

lemma snd_case_prod: "(\<And>a b. snd (f a b) = b) \<Longrightarrow> snd (case x of (a, b) \<Rightarrow> f a b) = snd x"
  by (cases x) simp

lemma chain_handlers_core [simp]:
  "core (snd (chainState q nd)) = core nd" "core (snd (chainSyncStart q nd)) = core nd" "core (snd (chainSyncDone q nd)) = core nd"
proof -
  have "snd (chainState q nd) = snd (GetChainState (fq_chain q) nd)" by (simp add: chainState_def snd_case_prod)
  then show "core (snd (chainState q nd)) = core nd" by simp
  have "snd (chainSyncStart q nd) = snd (SyncStart (fq_chain q) (fq_chain_ver q) nd)"
    by (simp add: chainSyncStart_def split: prod.split)
  then show "core (snd (chainSyncStart q nd)) = core nd" by simp
  have "snd (chainSyncDone q nd) = snd (SyncDone (fq_chain q) (fq_chain_ver q) nd)"
    by (simp add: chainSyncDone_def split: prod.split sum.split)
  then show "core (snd (chainSyncDone q nd)) = core nd" by simp
qed

lemma call_node_ok:
  assumes "node_ok nd"
  shows "node_ok (call_node c nd)"
proof (cases c)
  case (CallApi now leader path h)
  then show ?thesis using serve_ok [OF assms, of now leader path h] assms by (auto split: option.split)
next
  case CallHealth
  have "node_ok (snd (Health nd)) = node_ok nd" by (rule node_ok_core) simp
  with CallHealth assms show ?thesis by (simp add: handleHealth_def snd_case_prod)
next
  case (CallJoin re leader meth body)
  have "snd (case service_join re m nd of (Inl e, n) \<Rightarrow> (admin_error 500 (error_string e), n)
      | (Inr ns, n) \<Rightarrow> ((200, admin_zero\<lparr>ar_nodes := ns\<rparr>), n)) = snd (service_join re m nd)" for m
    by (simp split: prod.split sum.split)
  then show ?thesis using CallJoin assms join_remove_ok [OF assms] by (simp add: handleJoin_def split: sum.split)
next
  case (CallRemove re leader meth body)
  have "snd (case RemoveNode re i nd of (Inl e, n) \<Rightarrow> (admin_error 500 (error_string e), n)
      | (Inr _, n) \<Rightarrow> ((200, admin_zero), n)) = snd (RemoveNode re i nd)" for i
    by (simp split: prod.split sum.split)
  then show ?thesis using CallRemove assms join_remove_ok [OF assms] by (simp add: handleRemove_def split: sum.split)
next
  case (CallStats meth)
  have "node_ok (snd (Stats nd)) = node_ok nd" by (rule node_ok_core) simp
  with CallStats assms show ?thesis by (simp add: handleStats_def snd_case_prod)
next
  case (CallGC os meth)
  have "snd (handleGC os meth nd) = (if meth \<noteq> ''POST'' then nd else snd (RunGC os nd))"
    by (simp add: handleGC_def split: prod.split sum.split)
  with CallGC assms gc_ok [OF assms, of os] show ?thesis by simp
next
  case (CallChainState meth body)
  have "node_ok (snd (chainState q nd))" for q using assms node_ok_core [of "snd (chainState q nd)" nd] by simp
  with CallChainState assms show ?thesis by (simp add: handle_chain_def split: sum.split)
next
  case (CallSyncStart meth body)
  have "node_ok (snd (chainSyncStart q nd))" for q using assms node_ok_core [of "snd (chainSyncStart q nd)" nd] by simp
  with CallSyncStart assms show ?thesis by (simp add: handle_chain_def split: sum.split)
next
  case (CallSyncDone meth body)
  have "node_ok (snd (chainSyncDone q nd))" for q using assms node_ok_core [of "snd (chainSyncDone q nd)" nd] by simp
  with CallSyncDone assms show ?thesis by (simp add: handle_chain_def split: sum.split)
qed

end
