(* ===== verification/Grpc_Correct.thy ===== *)
theory Grpc_Correct
  imports Grpc_Transport Api_Invariant
begin

text \<open>
  The metadata methods of the gRPC server do what the routes of the HTTP server do: the same operation on the node, the same answer, the
  same text of an error. They differ in what they tell a client of a follower, and in the expiry time, for which the protobuf attributes
  have no field.
\<close>

section \<open>Attributes\<close>

lemma proto_attr_id [simp]: "toProtoAttr (fromProtoAttr p) = p"
  by (simp add: toProtoAttr_def fromProtoAttr_def)

lemma proto_attr_no_expiry: "fromProtoAttr (toProtoAttr a) = a\<lparr>at_expire := 0\<rparr>"
  by (cases a) (simp add: toProtoAttr_def fromProtoAttr_def)

lemma MapError_text [simp]: "MapError e = error_string e"
  by (cases e) (simp_all add: MapError_def)

lemma toStatus_text [simp]: "snd (toStatus e) = error_string e"
  by (simp add: toStatus_def)

lemma toStatus_pair: "toStatus e = (code, msg) \<Longrightarrow> msg = error_string e"
  using toStatus_text [of e] by simp

section \<open>Calls\<close>

datatype fs_rpc =
    RGetAttr u64
  | RLookup u64 string
  | RReaddir u64
  | RMkdir u64 string u32 u32 u32
  | RCreate u64 string u32 u32 u32
  | RSymlink u64 string string u32 u32
  | RUnlink u64 string
  | RRmdir u64 string
  | RRename u64 u64 string string
  | RSetAttr proto_attr

datatype rpc_reply = ReplyAttr proto_attr | ReplyEntries "(string, proto_attr) gomap" | ReplyNone

fun changes :: "fs_rpc \<Rightarrow> bool" where
  "changes (RGetAttr _) = False"
| "changes (RLookup _ _) = False"
| "changes (RReaddir _) = False"
| "changes _ = True"

definition lift_reply :: "('a \<Rightarrow> rpc_reply) \<Rightarrow> 'a rpc \<times> node \<Rightarrow> (rpc_reply rpc \<times> node) option" where
  "lift_reply f x = Some (apfst (map_sum id f) x)"

fun call_rpc :: "int \<Rightarrow> string option \<Rightarrow> fs_rpc \<Rightarrow> node \<Rightarrow> (rpc_reply rpc \<times> node) option" where
  "call_rpc now leader (RGetAttr i) nd = lift_reply ReplyAttr (GetAttr_rpc i nd, nd)"
| "call_rpc now leader (RLookup p n) nd = lift_reply ReplyAttr (Lookup_rpc p n nd, nd)"
| "call_rpc now leader (RReaddir p) nd = lift_reply ReplyEntries (Readdir_rpc p nd, nd)"
| "call_rpc now leader (RMkdir p n mode uid gid) nd = lift_reply ReplyAttr (Mkdir_rpc now leader p n mode uid gid nd)"
| "call_rpc now leader (RCreate p n mode uid gid) nd = lift_reply ReplyAttr (Create_rpc now leader p n mode uid gid nd)"
| "call_rpc now leader (RSymlink p n t uid gid) nd = lift_reply ReplyAttr (Symlink_rpc now leader p n t uid gid nd)"
| "call_rpc now leader (RUnlink p n) nd = lift_reply ReplyAttr (Unlink_rpc leader p n nd)"
| "call_rpc now leader (RRmdir p n) nd = lift_reply (\<lambda>_. ReplyNone) (Rmdir_rpc leader p n nd)"
| "call_rpc now leader (RRename p p' n n') nd = lift_reply (\<lambda>_. ReplyNone) (Rename_rpc leader p p' n n' nd)"
| "call_rpc now leader (RSetAttr a) nd = Option.bind (SetAttr_rpc leader (Some a) nd) (lift_reply ReplyAttr)"

text \<open>The handler of the HTTP route of a call, with its request, and what its answer is in the reply of gRPC.\<close>

fun call_http :: "int \<Rightarrow> fs_rpc \<Rightarrow> node \<Rightarrow> (fs_response \<times> nat) \<times> node" where
  "call_http now (RGetAttr i) nd = getattr (request_zero\<lparr>fq_ino := i\<rparr>) nd"
| "call_http now (RLookup p n) nd = lookup_h (request_zero\<lparr>fq_parent := p, fq_name := n\<rparr>) nd"
| "call_http now (RReaddir p) nd = readdir (request_zero\<lparr>fq_parent := p\<rparr>) nd"
| "call_http now (RMkdir p n mode uid gid) nd =
     mkdir now (request_zero\<lparr>fq_parent := p, fq_name := n, fq_mode := mode, fq_uid := uid, fq_gid := gid\<rparr>) nd"
| "call_http now (RCreate p n mode uid gid) nd =
     create now (request_zero\<lparr>fq_parent := p, fq_name := n, fq_mode := mode, fq_uid := uid, fq_gid := gid\<rparr>) nd"
| "call_http now (RSymlink p n t uid gid) nd =
     symlink now (request_zero\<lparr>fq_parent := p, fq_name := n, fq_target := t, fq_uid := uid, fq_gid := gid\<rparr>) nd"
| "call_http now (RUnlink p n) nd = unlink (request_zero\<lparr>fq_parent := p, fq_name := n\<rparr>) nd"
| "call_http now (RRmdir p n) nd = rmdir (request_zero\<lparr>fq_parent := p, fq_name := n\<rparr>) nd"
| "call_http now (RRename p p' n n') nd =
     rename (request_zero\<lparr>fq_old_parent := p, fq_new_parent := p', fq_old_name := n, fq_new_name := n'\<rparr>) nd"
| "call_http now (RSetAttr a) nd = setattr (request_zero\<lparr>fq_attr := Some (fromProtoAttr a)\<rparr>) nd"

definition reply_of :: "fs_response \<Rightarrow> rpc_reply" where
  "reply_of r = (case fr_attr r of Some a \<Rightarrow> ReplyAttr (toProtoAttr a) | None \<Rightarrow> ReplyNone)"

definition entries_of :: "fs_response \<Rightarrow> rpc_reply" where
  "entries_of r = ReplyEntries (map (apsnd toProtoAttr) (fr_attrs r))"

fun reply_http :: "fs_rpc \<Rightarrow> fs_response \<Rightarrow> rpc_reply" where
  "reply_http (RReaddir _) r = entries_of r"
| "reply_http _ r = reply_of r"

text \<open>The two answers say the same.\<close>

definition same_answer :: "fs_rpc \<Rightarrow> rpc_reply rpc \<Rightarrow> fs_response \<times> nat \<Rightarrow> bool" where
  "same_answer c r a \<longleftrightarrow>
     (case r of Inr x \<Rightarrow> snd a = 200 \<and> reply_http c (fst a) = x | Inl st \<Rightarrow> snd a \<noteq> 200 \<and> fr_error (fst a) = snd st)"

definition agrees :: "fs_rpc \<Rightarrow> (rpc_reply rpc \<times> node) option \<Rightarrow> (fs_response \<times> nat) \<times> node \<Rightarrow> bool" where
  "agrees c r a \<longleftrightarrow> (case r of None \<Rightarrow> False | Some (x, nd) \<Rightarrow> nd = snd a \<and> same_answer c x (fst a))"

lemmas answer_defs = agrees_def same_answer_def lift_reply_def reply_of_def entries_of_def resp_attr_def resp_error_def response_zero_def
  answer_attr_def answer_unit_def attr_reply_def unit_reply_def

lemma leader_runs [simp]: "IsLeader nd \<Longrightarrow> as_leader leader f nd = f nd" "IsLeader nd \<Longrightarrow> requireLeader leader nd = None"
  by (simp_all add: as_leader_def requireLeader_def)

lemma follower_refuses [simp]: "\<not> IsLeader nd \<Longrightarrow> as_leader leader f nd = (Inl (not_leader_status leader nd), nd)"
  by (simp add: as_leader_def requireLeader_def)

lemma kv_call_agrees:
  assumes "reply_http c = reply_of" "code \<noteq> 200"
  shows "agrees c (lift_reply ReplyAttr (kv_call f attr_reply nd)) (on_kv f (answer_attr code) nd)"
    and "agrees c (lift_reply (\<lambda>_. ReplyNone) (kv_call g unit_reply nd)) (on_kv g (answer_unit code) nd)"
  using assms
  by (auto simp: answer_defs kv_call_def on_kv_def split: prod.split sum.split)

lemma reads_agree: "\<not> changes c \<Longrightarrow> agrees c (call_rpc now leader c nd) (call_http now c nd)"
  by (cases c) (auto simp: answer_defs GetAttr_rpc_def Lookup_rpc_def Readdir_rpc_def getattr_def lookup_h_def readdir_def
      dest: toStatus_pair split: sum.split prod.split)

lemma leader_agrees: "IsLeader nd \<Longrightarrow> agrees c (call_rpc now leader c nd) (call_http now c nd)"
proof (cases c)
  case (RCreate p n mode uid gid)
  assume "IsLeader nd"
  with RCreate show ?thesis
    by (auto simp: answer_defs Create_rpc_def create_def request_zero_def dest: toStatus_pair split: sum.split prod.split)
next
  case (RSetAttr a)
  assume "IsLeader nd"
  with RSetAttr show ?thesis
    by (auto simp: answer_defs SetAttr_rpc_def setattr_def kv_call_def on_kv_def Let_def split: sum.split prod.split)
qed (use reads_agree [of c] in \<open>auto simp: Mkdir_rpc_def mkdir_def Symlink_rpc_def symlink_def Unlink_rpc_def unlink_def Rmdir_rpc_def rmdir_def
        Rename_rpc_def rename_def intro!: kv_call_agrees ext\<close>)

text \<open>
  C21. The gRPC server serves the metadata as the HTTP server does. On the leader every call leaves the node in the state the handler of
  the HTTP route leaves it in, succeeds when that answers 200, and then returns the same attributes or entries; when it fails, the text
  of the status is the error in the HTTP answer. Reads agree on every node, and a change that is sent to a follower is refused with
  the address of the leader and changes nothing.
\<close>

theorem grpc_metadata_like_http:
  "(IsLeader nd \<or> \<not> changes c \<longrightarrow> agrees c (call_rpc now leader c nd) (call_http now c nd))
   \<and> (\<not> IsLeader nd \<and> changes c \<longrightarrow>
        call_rpc now leader c nd = Some (Inl (CodeFailedPrecondition, ''not leader, try '' @ leader_or_empty leader nd), nd))"
proof (intro conjI impI)
  show "IsLeader nd \<or> \<not> changes c \<Longrightarrow> agrees c (call_rpc now leader c nd) (call_http now c nd)"
    using leader_agrees reads_agree by blast
next
  assume "\<not> IsLeader nd \<and> changes c"
  then show "call_rpc now leader c nd = Some (Inl (CodeFailedPrecondition, ''not leader, try '' @ leader_or_empty leader nd), nd)"
    by (cases c) (auto simp: lift_reply_def Mkdir_rpc_def Create_rpc_def Symlink_rpc_def Unlink_rpc_def Rmdir_rpc_def Rename_rpc_def
        SetAttr_rpc_def requireLeader_def not_leader_status_def)
qed

theorem grpc_metadata_like_http_witness:
  "let nd = NewService ''n1'' ''http://a'' [] (mem_store new_memory_kv) (MemoryStore []) 2 0 0; c = RRmdir 1 ''x'' in
   IsLeader nd \<and> agrees c (call_rpc 0 None c nd) (call_http 0 c nd)"
proof -
  have "IsLeader (NewService ''n1'' ''http://a'' [] (mem_store new_memory_kv) (MemoryStore []) 2 0 0)"
    by (simp add: IsLeader_def NewService_def mem_store_def)
  then show ?thesis using grpc_metadata_like_http unfolding Let_def by blast
qed

text \<open>A request without attributes ends the process of the leader: there is no check for it.\<close>

lemma setattr_without_attr: "IsLeader nd \<Longrightarrow> SetAttr_rpc leader None nd = None"
  by (simp add: SetAttr_rpc_def)

section \<open>Whatever a node is sent\<close>

lemma call_http_ok: "node_ok nd \<Longrightarrow> node_ok (snd (call_http now c nd))"
  by (cases c) (simp_all add: handler_ok)

lemma call_rpc_ok:
  assumes "node_ok nd" "call_rpc now leader c nd = Some (r, nd')"
  shows "node_ok nd'"
proof (cases "IsLeader nd \<or> \<not> changes c")
  case True
  then have "agrees c (call_rpc now leader c nd) (call_http now c nd)" using leader_agrees reads_agree by blast
  then have "nd' = snd (call_http now c nd)" using assms(2) by (simp add: agrees_def)
  then show ?thesis using call_http_ok [OF assms(1)] by simp
next
  case False
  then have "nd' = nd" using assms(2)
    by (cases c) (auto simp: lift_reply_def Mkdir_rpc_def Create_rpc_def Symlink_rpc_def Unlink_rpc_def Rmdir_rpc_def Rename_rpc_def
        SetAttr_rpc_def requireLeader_def)
  then show ?thesis using assms(1) by simp
qed

text \<open>A request over HTTP or over gRPC; one that ends the process leaves the node as it was.\<close>

datatype node_event =
    EventHttp node_call
  | EventRpc int "string option" fs_rpc
  | EventHealth
  | EventJoin raft_env "string option" member

fun on_event :: "node_event \<Rightarrow> node \<Rightarrow> node" where
  "on_event (EventHttp c) nd = call_node c nd"
| "on_event (EventRpc now leader c) nd = (case call_rpc now leader c nd of None \<Rightarrow> nd | Some (_, nd') \<Rightarrow> nd')"
| "on_event EventHealth nd = snd (Health_rpc nd)"
| "on_event (EventJoin re leader m) nd = snd (Join_rpc re leader m nd)"

lemma on_event_ok:
  assumes "node_ok nd"
  shows "node_ok (on_event ev nd)"
proof (cases ev)
  case (EventHttp c)
  then show ?thesis using call_node_ok [OF assms] by simp
next
  case (EventRpc now leader c)
  then show ?thesis using assms call_rpc_ok [OF assms] by (auto split: option.split)
next
  case EventHealth
  have "node_ok (snd (Health nd)) = node_ok nd" by (rule node_ok_core) simp
  with EventHealth assms show ?thesis by (simp add: Health_rpc_def snd_case_prod)
next
  case (EventJoin re leader m)
  have "snd (case service_join re m nd of (Inl e, n) \<Rightarrow> (Inl (CodeInternal, error_string e) :: unit rpc, n) | (Inr _, n) \<Rightarrow> (Inr (), n))
      = snd (service_join re m nd)" by (simp split: prod.split sum.split)
  with EventJoin assms join_remove_ok(1) [OF assms] show ?thesis by (simp add: Join_rpc_def)
qed



end
