(* ===== verification/Startup.thy ===== *)
theory Startup
  imports Admin_Api
begin

text \<open>
  How a node comes up: the settings a container gets from its environment (\<^verbatim>\<open>cmd/memoryfs/node_env.go\<close>), the start of Raft and the check
  of what it finds on disk (\<^verbatim>\<open>raftnode/node.go\<close>, \<^verbatim>\<open>raftnode/validate.go\<close>), the order of the steps of \<^verbatim>\<open>runNode\<close>
  (\<^verbatim>\<open>cmd/memoryfs/node.go\<close>) up to the point where it serves, the request of a joining node (\<^verbatim>\<open>cluster/client.go\<close>), and how the other
  commands find the cluster (\<^verbatim>\<open>cmd/memoryfs/conn.go\<close>).

  The environment is a function from names to values, where an unset variable is empty, as \<^verbatim>\<open>os.Getenv\<close> has it. What the Raft library, the
  file system and the network answer are arguments.
\<close>

section \<open>Strings and paths\<close>

text \<open>\<^verbatim>\<open>strings.LastIndex\<close> and \<^verbatim>\<open>strings.IndexByte\<close>.\<close>

definition index_char :: "char \<Rightarrow> string \<Rightarrow> nat option" where
  "index_char c s = (if c \<in> set s then Some (length (takeWhile (\<lambda>x. x \<noteq> c) s)) else None)"

definition last_index :: "char \<Rightarrow> string \<Rightarrow> nat option" where
  "last_index c s = map_option (\<lambda>i. length s - 1 - i) (index_char c (rev s))"

text \<open>\<^verbatim>\<open>filepath.Join\<close>: the parts that are not empty, joined and cleaned. A relative path keeps the \<^verbatim>\<open>..\<close> that lead out of it.\<close>

fun path_step :: "bool \<Rightarrow> string \<Rightarrow> string list \<Rightarrow> string list" where
  "path_step rooted c acc =
     (if c = [] \<or> c = ''.'' then acc
      else if c = ''..'' then
        (if acc \<noteq> [] \<and> last acc \<noteq> ''..'' then butlast acc else if rooted then acc else acc @ [''..''])
      else acc @ [c])"

definition filepath_clean :: "string \<Rightarrow> string" where
  "filepath_clean p =
     (if p = [] then ''.''
      else let rooted = (hd p = CHR ''/''); body = join_with ''/'' (fold (path_step rooted) (split_on CHR ''/'' p) []) in
      if rooted then CHR ''/'' # body else if body = [] then ''.'' else body)"

definition filepath_join :: "string list \<Rightarrow> string" where
  "filepath_join ps =
     (let qs = filter (\<lambda>p. p \<noteq> []) ps in if qs = [] then [] else filepath_clean (join_with ''/'' qs))"

section \<open>Settings from the environment\<close>

type_synonym environ = "string \<Rightarrow> string"

definition envOr :: "environ \<Rightarrow> string \<Rightarrow> string \<Rightarrow> string" where
  "envOr env key def = (if env key \<noteq> [] then env key else def)"

definition envBool :: "environ \<Rightarrow> string \<Rightarrow> bool" where
  "envBool env key = (let v = map lower_char (trim_space (env key)) in v = ''true'' \<or> v = ''1'' \<or> v = ''yes'')"

definition normalizeUint :: "string \<Rightarrow> string" where
  "normalizeUint s = (let ds = filter is_digit s in if ds = [] then ''0'' else ds)"

definition portFromListen :: "string \<Rightarrow> string \<Rightarrow> string" where
  "portFromListen addr fallback =
     (case last_index CHR '':'' addr of
        Some i \<Rightarrow> if i < length addr - 1 then drop (i + 1) addr else fallback
      | None \<Rightarrow> fallback)"

definition lastDashOrdinal :: "string \<Rightarrow> string" where
  "lastDashOrdinal name =
     (case last_index CHR ''-'' name of
        Some i \<Rightarrow> if i < length name - 1 then drop (i + 1) name else []
      | None \<Rightarrow> [])"

definition stripLastDashSegment :: "string \<Rightarrow> string" where
  "stripLastDashSegment name = (case last_index CHR ''-'' name of Some i \<Rightarrow> take i name | None \<Rightarrow> name)"

definition deriveAdvertise :: "environ \<Rightarrow> string \<Rightarrow> string \<Rightarrow> string \<Rightarrow> string \<Rightarrow> string \<Rightarrow> string \<Rightarrow> string \<Rightarrow> string \<times> string" where
  "deriveAdvertise env pod headless ns httpListen raftListen httpPort raftPort =
     (let ip = env ''MEMORYFS_HOST_IP'' in
      if env ''MEMORYFS_HTTP_URL'' \<noteq> [] then
        (env ''MEMORYFS_HTTP_URL'', if ip \<noteq> [] then ip @ '':'' @ raftPort else raftListen)
      else if ip \<noteq> [] then (''http://'' @ ip @ '':'' @ httpPort, ip @ '':'' @ raftPort)
      else if pod \<noteq> [] \<and> headless \<noteq> [] then
        (let fqdn = pod @ ''.'' @ headless @ ''.'' @ ns @ ''.svc.cluster.local'' in
         (''http://'' @ fqdn @ '':'' @ httpPort, fqdn @ '':'' @ raftPort))
      else if has_prefix httpListen '':'' then (''http://127.0.0.1'' @ httpListen, raftListen)
      else (''http://'' @ httpListen, raftListen))"

text \<open>The role of a pod: the first of a stateful set bootstraps, the others join it.\<close>

definition pod_role :: "environ \<Rightarrow> string \<Rightarrow> bool \<times> string" where
  "pod_role env httpPort =
     (let bootstrap = envBool env ''MEMORYFS_BOOTSTRAP''; joinURL = env ''MEMORYFS_JOIN''; pod = env ''POD_NAME'';
          headless = env ''MEMORYFS_HEADLESS_SERVICE''; ns = envOr env ''POD_NAMESPACE'' ''default'' in
      if pod \<noteq> [] \<and> \<not> bootstrap \<and> \<not> envBool env ''MEMORYFS_STANDALONE'' \<and> joinURL = [] then
        (if lastDashOrdinal pod = ''0'' then (True, joinURL)
         else if headless \<noteq> [] then
           (bootstrap, ''http://'' @ stripLastDashSegment pod @ ''-0.'' @ headless @ ''.'' @ ns @ ''.svc:'' @ httpPort)
         else (bootstrap, joinURL))
      else (bootstrap, joinURL))"

definition node_env_dirs :: "environ \<Rightarrow> string \<Rightarrow> string \<times> string \<times> string" where
  "node_env_dirs env i =
     (let dataRoot = (if env ''MEMORYFS_INSTANCE_ID'' \<noteq> [] \<and> env ''MEMORYFS_STORAGE_ROOT'' \<noteq> []
                      then filepath_join [env ''MEMORYFS_STORAGE_ROOT'', env ''MEMORYFS_INSTANCE_ID'']
                      else envOr env ''MEMORYFS_DATA'' ''/data'');
          nodeData = filepath_join [dataRoot, i] in
      (dataRoot, nodeData, envOr env ''MEMORYFS_CHUNK_DIR'' (filepath_join [nodeData, ''chunks''])))"

definition opt_arg :: "string \<Rightarrow> string \<Rightarrow> string list" where
  "opt_arg name v = (if v \<noteq> [] then [name, v] else [])"

text \<open>The arguments \<^verbatim>\<open>runNodeEnv\<close> passes to \<^verbatim>\<open>runNode\<close>.\<close>

definition node_env_id :: "environ \<Rightarrow> string" where
  "node_env_id env = (if env ''POD_NAME'' = [] then envOr env ''MEMORYFS_ID'' ''n1'' else env ''POD_NAME'')"

definition host_listen :: "environ \<Rightarrow> string \<Rightarrow> string \<Rightarrow> string" where
  "host_listen env listen port = (if env ''MEMORYFS_HOST_IP'' \<noteq> [] then env ''MEMORYFS_HOST_IP'' @ '':'' @ port else listen)"

definition node_env_args :: "environ \<Rightarrow> string list \<Rightarrow> string list" where
  "node_env_args env extra =
     (let httpListen = envOr env ''MEMORYFS_HTTP_LISTEN'' '':19800''; grpcListen = envOr env ''MEMORYFS_GRPC_LISTEN'' '':19801'';
          raftListen = envOr env ''MEMORYFS_RAFT_LISTEN'' '':19802''; rdmaListen = envOr env ''MEMORYFS_RDMA_LISTEN'' '':19803'';
          i = node_env_id env; httpPort = portFromListen httpListen ''19800''; raftPort = portFromListen raftListen ''19802'';
          grpcPort = portFromListen grpcListen ''19801''; rdmaPort = portFromListen rdmaListen ''19803'';
          (bootstrap, joinURL) = pod_role env httpPort;
          (dataRoot, nodeData, chunkDir) = node_env_dirs env i;
          (advertiseHTTP, advertiseRaft) =
            deriveAdvertise env (env ''POD_NAME'') (env ''MEMORYFS_HEADLESS_SERVICE'') (envOr env ''POD_NAMESPACE'' ''default'')
              httpListen raftListen httpPort raftPort in
      [''-id'', i, ''-http'', httpListen, ''-advertise-http'', advertiseHTTP, ''-grpc'', host_listen env grpcListen grpcPort,
       ''-rdma'', host_listen env rdmaListen rdmaPort, ''-raft'', host_listen env raftListen raftPort,
       ''-advertise-raft'', envOr env ''MEMORYFS_RAFT_URL'' advertiseRaft, ''-data'', dataRoot, ''-chunk-dir'', chunkDir,
       ''-chunk-backend'', envOr env ''MEMORYFS_CHUNK_BACKEND'' ''memory'',
       ''-replica-factor'', normalizeUint (envOr env ''MEMORYFS_REPLICA_FACTOR'' ''2''),
       ''-disk-quota-gb'', normalizeUint (envOr env ''MEMORYFS_DISK_QUOTA_GB'' ''0''),
       ''-gc-interval'', envOr env ''MEMORYFS_GC_INTERVAL'' ''5m'', ''-flush-interval'', envOr env ''MEMORYFS_FLUSH_INTERVAL'' ''30s'',
       ''-default-ttl'', envOr env ''MEMORYFS_DEFAULT_TTL'' ''0'', ''-max-file-age'', envOr env ''MEMORYFS_MAX_FILE_AGE'' ''0'']
      @ (if bootstrap then [''-bootstrap''] else [])
      @ (if envBool env ''MEMORYFS_STANDALONE'' then [''-standalone''] else [])
      @ opt_arg ''-join'' joinURL @ opt_arg ''-api-token'' (env ''MEMORYFS_API_TOKEN'') @ opt_arg ''-uri-prefix'' (env ''MEMORYFS_URI_PREFIX'')
      @ extra)"

section \<open>Raft on disk\<close>

text \<open>\<^verbatim>\<open>net.SplitHostPort\<close>, without the texts of its errors.\<close>

definition SplitHostPort :: "string \<Rightarrow> (string \<times> string) option" where
  "SplitHostPort s =
     (case last_index CHR '':'' s of
        None \<Rightarrow> None
      | Some i \<Rightarrow>
          if hd s = CHR ''['' then
            (case index_char CHR '']'' s of
               None \<Rightarrow> None
             | Some e \<Rightarrow>
                 if e + 1 \<noteq> i \<or> CHR ''['' \<in> set (drop 1 s) \<or> CHR '']'' \<in> set (drop (e + 1) s) then None
                 else Some (take (e - 1) (drop 1 s), drop (i + 1) s))
          else if CHR '':'' \<in> set (take i s) \<or> CHR ''['' \<in> set s \<or> CHR '']'' \<in> set s then None
          else Some (take i s, drop (i + 1) s))"

definition addrPort :: "string \<Rightarrow> string" where
  "addrPort addr =
     (let a = trim_space addr in
      if a = [] then []
      else if has_prefix a '':'' then trim_prefix a '':''
      else case SplitHostPort a of None \<Rightarrow> [] | Some (_, port) \<Rightarrow> port)"

definition stale_peers :: "string \<Rightarrow> (string \<times> string) list \<Rightarrow> string list" where
  "stale_peers port servers =
     map (\<lambda>(i, a). i @ ''@'' @ a) (filter (\<lambda>(i, a). addrPort a \<noteq> [] \<and> addrPort a \<noteq> port) servers)"

definition validatePeerPorts :: "(string \<times> string) list \<Rightarrow> string \<Rightarrow> string \<Rightarrow> unit res" where
  "validatePeerPorts servers port dir =
     (if port = [] then Inr ()
      else let stale = stale_peers port servers in
      if stale = [] then Inr ()
      else Inl (ErrMsg (''stale raft peer addresses ['' @ join_with '', '' stale @ ''] (this node listens on port '' @ port @ ''); delete '' @ dir
        @ '' (raft.db and snapshots/) on every cluster node, then helm uninstall and reinstall'')))"

record raft_config =
  rc_id :: string
  rc_raft :: string
  rc_advertise :: string
  rc_data :: string
  rc_bootstrap :: bool
  rc_standalone :: bool
  rc_http :: string

text \<open>
  The library: the first error of making the directories, the stores, the transport and the instance; whether there is a state on disk;
  the configured servers; bootstrapping; the address of the transport; and the store and the leadership it starts with.
\<close>

record raft_lib =
  rl_open :: "err option"
  rl_has_state :: "bool res"
  rl_servers :: "(string \<times> string) list res"
  rl_bootstrap :: "(string \<times> string) list \<Rightarrow> err option"
  rl_local :: string
  rl_kv :: kv

definition validateExistingConfig :: "raft_lib \<Rightarrow> raft_config \<Rightarrow> unit res" where
  "validateExistingConfig lib cfg =
     (case rl_has_state lib of
        Inl e \<Rightarrow> Inl (ErrMsg (''raft state check: '' @ error_string e))
      | Inr has \<Rightarrow>
          if \<not> has then Inr ()
          else let port = (if addrPort (rc_advertise cfg) = [] then addrPort (rc_raft cfg) else addrPort (rc_advertise cfg)) in
          if port = [] then Inr ()
          else case rl_servers lib of
            Inl e \<Rightarrow> Inl (ErrMsg (''raft configuration: '' @ error_string e))
          | Inr ss \<Rightarrow> validatePeerPorts ss port (rc_data cfg))"

definition bootstrap_servers :: "raft_lib \<Rightarrow> raft_config \<Rightarrow> (string \<times> string) list" where
  "bootstrap_servers lib cfg = [(rc_id cfg, if rc_advertise cfg = [] then rl_local lib else rc_advertise cfg)]"

definition Start :: "raft_lib \<Rightarrow> raft_config \<Rightarrow> kv res" where
  "Start lib cfg =
     (if rc_standalone cfg then Inr (mem_store new_memory_kv)
      else case rl_open lib of Some e \<Rightarrow> Inl e | None \<Rightarrow>
      case validateExistingConfig lib cfg of Inl e \<Rightarrow> Inl e | Inr _ \<Rightarrow>
      if \<not> rc_bootstrap cfg then Inr (rl_kv lib)
      else case rl_has_state lib of
        Inl e \<Rightarrow> Inl (ErrMsg (''bootstrap check: '' @ error_string e))
      | Inr True \<Rightarrow> Inr (rl_kv lib)
      | Inr False \<Rightarrow>
          (case rl_bootstrap lib (bootstrap_servers lib cfg) of
             Some e \<Rightarrow> Inl (ErrMsg (''bootstrap: '' @ error_string e))
           | None \<Rightarrow> Inr (rl_kv lib)))"

section \<open>Starting a node\<close>

text \<open>The parsed flags of \<^verbatim>\<open>memoryfs node\<close> that the start depends on. Durations are nanoseconds.\<close>

record node_flags =
  nf_id :: string
  nf_http :: string
  nf_advertise_http :: string
  nf_grpc :: string
  nf_rdma :: string
  nf_raft :: string
  nf_advertise_raft :: string
  nf_data :: string
  nf_chunk_dir :: string
  nf_backend :: string
  nf_rf :: int
  nf_quota_gb :: int
  nf_default_ttl :: int
  nf_bootstrap :: bool
  nf_standalone :: bool
  nf_prefix :: string

definition normalizeHTTP :: "string \<Rightarrow> string" where
  "normalizeHTTP addr =
     (if has_prefix addr ''http'' then addr
      else if has_prefix addr '':'' then ''http://127.0.0.1'' @ addr
      else ''http://'' @ addr)"

definition flags_url :: "node_flags \<Rightarrow> string" where
  "flags_url fl = normalizeHTTP (if nf_advertise_http fl \<noteq> [] then nf_advertise_http fl else nf_http fl)"

definition flags_data_dir :: "node_flags \<Rightarrow> string" where
  "flags_data_dir fl = filepath_join [trim_suffix (nf_data fl) ''/'', nf_id fl]"

definition flags_chunk_dir :: "node_flags \<Rightarrow> string" where
  "flags_chunk_dir fl = (if nf_chunk_dir fl = [] then filepath_join [flags_data_dir fl, ''chunks''] else nf_chunk_dir fl)"

definition flags_raft :: "node_flags \<Rightarrow> raft_config" where
  "flags_raft fl =
     \<lparr>rc_id = nf_id fl, rc_raft = nf_raft fl, rc_advertise = (if nf_advertise_raft fl = [] then nf_raft fl else nf_advertise_raft fl),
      rc_data = flags_data_dir fl, rc_bootstrap = nf_bootstrap fl, rc_standalone = nf_standalone fl, rc_http = flags_url fl\<rparr>"

definition flags_member :: "node_flags \<Rightarrow> member" where
  "flags_member fl =
     \<lparr>mb_id = nf_id fl, mb_http = flags_url fl, mb_raft = rc_advertise (flags_raft fl), mb_grpc = nf_grpc fl, mb_rdma = nf_rdma fl\<rparr>"

text \<open>
  The wait for the root inode: one list element per round before the deadline, the change Raft makes to the store while the loop sleeps.
\<close>

fun ensureRootAsLeader :: "u32 \<Rightarrow> u32 \<Rightarrow> int \<Rightarrow> (kv \<Rightarrow> kv) list \<Rightarrow> kv \<Rightarrow> unit res \<times> kv" where
  "ensureRootAsLeader uid gid now [] s = (Inl (ErrMsg ''timed out waiting to initialize root inode as leader''), s)"
| "ensureRootAsLeader uid gid now (w # ws) s =
     (if case kv_raft s of None \<Rightarrow> True | Some r \<Rightarrow> is_leader r then
        (case initRoot uid gid now s of
           (Inl e, s1) \<Rightarrow>
             if \<not> isNotLeaderErr e then (Inl e, s1)
             else if \<not> isl (GetAttr s1 rootIno) then (Inr (), s1) else ensureRootAsLeader uid gid now ws (w s1)
         | (Inr _, s1) \<Rightarrow> if \<not> isl (GetAttr s1 rootIno) then (Inr (), s1) else ensureRootAsLeader uid gid now ws (w s1))
      else ensureRootAsLeader uid gid now ws (w s))"

text \<open>
  The steps of \<^verbatim>\<open>runNode\<close> until the node serves: Raft, the metadata store, the chunk store, the service, the cluster settings, for a
  node that runs alone its registration, and \<open>Ready\<close>. The operating system: the files in the chunk directory and the error of making it.
\<close>

definition build_node :: "raft_lib \<Rightarrow> err option \<Rightarrow> (string, bytes) gomap \<Rightarrow> u32 \<Rightarrow> u32 \<Rightarrow> int \<Rightarrow> (kv \<Rightarrow> kv) list \<Rightarrow> node_flags \<Rightarrow> node res" where
  "build_node lib os files uid gid now rounds fl =
     (case Start lib (flags_raft fl) of Inl e \<Rightarrow> Inl (ErrMsg (''start node: '' @ error_string e)) | Inr s0 \<Rightarrow>
      case initRoot uid gid now s0 of (Inl e, _) \<Rightarrow> Inl (ErrMsg (''meta store: '' @ error_string e)) | (Inr _, s1) \<Rightarrow>
      case (if nf_standalone fl then ensureRootAsLeader uid gid now rounds s1 else (Inr (), s1)) of
        (Inl e, _) \<Rightarrow> Inl (ErrMsg (''meta store: '' @ error_string e))
      | (Inr _, s2) \<Rightarrow>
      case OpenStoreWithOptions os files (nf_backend fl) (flags_chunk_dir fl) (nf_quota_gb fl) of
        Inl e \<Rightarrow> Inl (ErrMsg (''chunk store: '' @ error_string e))
      | Inr st \<Rightarrow>
          Inr (LoadClusterConfig (NewService (nf_id fl) (flags_url fl) (nf_prefix fl) s2 st (nf_rf fl) (nf_quota_gb fl) (nf_default_ttl fl))))"

definition runNode :: "raft_lib \<Rightarrow> err option \<Rightarrow> (string, bytes) gomap \<Rightarrow> u32 \<Rightarrow> u32 \<Rightarrow> int \<Rightarrow> (kv \<Rightarrow> kv) list \<Rightarrow> env \<Rightarrow> node_flags \<Rightarrow> cluster \<Rightarrow>
    cluster res" where
  "runNode lib os files uid gid now rounds en fl cl =
     (case build_node lib os files uid gid now rounds fl of
        Inl e \<Rightarrow> Inl e
      | Inr nd \<Rightarrow>
          Inr (Ready en (flags_url fl)
            (mput (flags_url fl) (if nf_standalone fl then snd (RegisterSelf (flags_member fl) nd) else nd) cl)))"

end
