(* ===== verification/Remote_Meta.thy ===== *)
theory Remote_Meta
  imports Fs_Api
begin

text \<open>
  The metadata client of a mount (\<^verbatim>\<open>client/meta.go\<close>): a file system interface over HTTP. A call is
  tried at one node after the other; a follower's answer names the leader, which is then asked and
  remembered. The network with the servers behind it is an argument: what a POST of a body to a URL
  returns, an error of the connection or a status with a body, and what it leaves.

  One response value serves all attempts of a call, and decoding a body into it leaves the fields the
  body does not mention as they were. A body that is not JSON leaves it alone; the partial result of
  a body whose members have the wrong type is not modelled, the call fails in both cases.
\<close>

section \<open>Requests and responses on the wire\<close>

definition enc_request :: "fs_request \<Rightarrow> json" where
  "enc_request q = JObj (
     omit ''ino'' (enc_word (fq_ino q)) (fq_ino q = 0)
     @ omit ''parent_ino'' (enc_word (fq_parent q)) (fq_parent q = 0)
     @ omit ''name'' (JStr (fq_name q)) (fq_name q = [])
     @ omit ''mode'' (enc_word (fq_mode q)) (fq_mode q = 0)
     @ omit ''uid'' (enc_word (fq_uid q)) (fq_uid q = 0)
     @ omit ''gid'' (enc_word (fq_gid q)) (fq_gid q = 0)
     @ omit ''target'' (JStr (fq_target q)) (fq_target q = [])
     @ omit ''old_parent'' (enc_word (fq_old_parent q)) (fq_old_parent q = 0)
     @ omit ''new_parent'' (enc_word (fq_new_parent q)) (fq_new_parent q = 0)
     @ omit ''old_name'' (JStr (fq_old_name q)) (fq_old_name q = [])
     @ omit ''new_name'' (JStr (fq_new_name q)) (fq_new_name q = [])
     @ omit ''chunk_id'' (JStr (fq_chunk q)) (fq_chunk q = [])
     @ (case fq_attr q of None \<Rightarrow> [] | Some a \<Rightarrow> [(''attr'', enc_attr a)])
     @ omit ''offset'' (enc_int (fq_offset q)) (fq_offset q = 0)
     @ omit ''chunk_idx'' (enc_int (fq_chunk_idx q)) (fq_chunk_idx q = 0)
     @ omit ''block_idx'' (enc_int (fq_block_idx q)) (fq_block_idx q = 0)
     @ omit ''data'' (enc_bytes (fq_data q)) (fq_data q = [])
     @ omit ''file_size'' (enc_word (fq_file_size q)) (fq_file_size q = 0))"

record fs_resp =
  rs_attr :: "attr option"
  rs_attrs :: "(string, attr option) gomap"
  rs_nodes :: "string list"
  rs_leader :: string
  rs_replicas :: "string list"
  rs_chunk :: string
  rs_error :: string

definition resp_zero :: fs_resp where
  "resp_zero = \<lparr>rs_attr = None, rs_attrs = [], rs_nodes = [], rs_leader = [], rs_replicas = [], rs_chunk = [], rs_error = []\<rparr>"

definition set_resp_field :: "string \<Rightarrow> json \<Rightarrow> fs_resp \<Rightarrow> fs_resp res" where
  "set_resp_field k j r =
     (if k = ''attr'' then map_sum id (\<lambda>x. r\<lparr>rs_attr := x\<rparr>) (dec_pointer dec_attr attr_zero j (rs_attr r))
      else if k = ''attrs'' then
        map_sum id (\<lambda>x. r\<lparr>rs_attrs := x\<rparr>) (dec_map (\<lambda>j. dec_pointer dec_attr attr_zero j None) j (rs_attrs r))
      else if k = ''nodes'' then
        map_sum id (\<lambda>x. r\<lparr>rs_nodes := x\<rparr>) (dec_list (\<lambda>j. dec_string j []) j (rs_nodes r))
      else if k = ''leader'' then map_sum id (\<lambda>x. r\<lparr>rs_leader := x\<rparr>) (dec_string j (rs_leader r))
      else if k = ''replicas'' then
        map_sum id (\<lambda>x. r\<lparr>rs_replicas := x\<rparr>) (dec_list (\<lambda>j. dec_string j []) j (rs_replicas r))
      else if k = ''chunk_id'' then map_sum id (\<lambda>x. r\<lparr>rs_chunk := x\<rparr>) (dec_string j (rs_chunk r))
      else if k = ''error'' then map_sum id (\<lambda>x. r\<lparr>rs_error := x\<rparr>) (dec_string j (rs_error r))
      else Inr r)"

section \<open>The client\<close>

record remote_meta =
  rm_nodes :: "string list"
  rm_leader :: string
  rm_prefix :: string

type_synonym 'w net = "string \<Rightarrow> bytes \<Rightarrow> 'w \<Rightarrow> answer res \<times> 'w"

definition prefixedNodeURL :: "string \<Rightarrow> string \<Rightarrow> string" where
  "prefixedNodeURL base prefix =
     (let b = trim_right_slash base in if prefix = [] \<or> has_suffix b prefix then b else b @ prefix)"

definition prefixed_nodes :: "string list \<Rightarrow> string \<Rightarrow> string list" where
  "prefixed_nodes ns prefix = map (\<lambda>n. prefixedNodeURL n prefix) (filter (\<lambda>n. n \<noteq> []) (map trim_space ns))"

text \<open>The prefix is the one \<^verbatim>\<open>cli.DetectPrefix\<close> found at the first node.\<close>

definition NewRemoteMeta :: "string list \<Rightarrow> string \<Rightarrow> remote_meta" where
  "NewRemoteMeta ns prefix =
     \<lparr>rm_nodes = (if ns = [] then [] else prefixed_nodes ns prefix), rm_leader = [], rm_prefix = (if ns = [] then [] else prefix)\<rparr>"

definition SetLeader :: "string \<Rightarrow> remote_meta \<Rightarrow> remote_meta" where
  "SetLeader leader r =
     (let l = trim_space leader in if l = [] then r else r\<lparr>rm_leader := prefixedNodeURL l (rm_prefix r)\<rparr>)"

definition nodeList :: "bool \<Rightarrow> remote_meta \<Rightarrow> string list" where
  "nodeList wr r = (if wr \<and> rm_leader r \<noteq> [] then [rm_leader r] else rm_nodes r)"

definition mapClientError :: "string \<Rightarrow> err" where
  "mapClientError msg =
     (if msg = ''file exists'' then ErrExists
      else if msg = ''entry not found'' then ErrNotFound
      else if msg = ''directory not empty'' then ErrNotEmpty
      else if msg = ''is a directory'' then ErrIsDir
      else if msg = ''not a directory'' then ErrNotDir
      else ErrMsg msg)"

definition answered :: "string \<Rightarrow> bytes \<Rightarrow> nat \<Rightarrow> fs_resp \<Rightarrow> unit res" where
  "answered url raw code r =
     (if code = 307 \<or> code = 409 then Inl (ErrMsg ''redirect'')
      else if 400 \<le> code then
        Inl (if rs_error r \<noteq> [] then mapClientError (rs_error r) else ErrMsg (url @ '': '' @ raw))
      else if rs_error r \<noteq> [] then Inl (mapClientError (rs_error r))
      else Inr ())"

definition doPost :: "'w net \<Rightarrow> string \<Rightarrow> fs_request \<Rightarrow> fs_resp \<Rightarrow> 'w \<Rightarrow> (unit res \<times> fs_resp) \<times> 'w" where
  "doPost net url q r w =
     (case net url (json_print (enc_request q)) w of
        (Inl e, w') \<Rightarrow> ((Inl e, r), w')
      | (Inr (code, raw), w') \<Rightarrow>
          (case unmarshal (dec_struct set_resp_field) r raw of
             Inl _ \<Rightarrow> ((Inl (ErrMsg (url @ '': '' @ raw)), r), w')
           | Inr r' \<Rightarrow> ((answered url raw code r', r'), w')))"

definition error_field :: "fs_resp \<Rightarrow> unit res" where
  "error_field r = (if rs_error r \<noteq> [] then Inl (mapClientError (rs_error r)) else Inr ())"

definition tryPost :: "'w net \<Rightarrow> string \<Rightarrow> string \<Rightarrow> fs_request \<Rightarrow> bool \<Rightarrow> fs_resp \<Rightarrow> remote_meta \<Rightarrow> 'w \<Rightarrow>
    (unit res \<times> fs_resp) \<times> remote_meta \<times> 'w" where
  "tryPost net url path q wr r rm w =
     (case doPost net url q r w of
        ((Inl e, r1), w1) \<Rightarrow>
          if wr \<and> rs_leader r1 \<noteq> [] then
            (let leader = prefixedNodeURL (rs_leader r1) (rm_prefix rm); rm1 = SetLeader leader rm in
             case doPost net (leader @ path) q r1 w1 of
               ((Inl e2, r2), w2) \<Rightarrow> ((Inl e2, r2), rm1, w2)
             | ((Inr _, r2), w2) \<Rightarrow> ((error_field r2, r2), rm1, w2))
          else ((Inl e, r1), rm, w1)
      | ((Inr _, r1), w1) \<Rightarrow> ((error_field r1, r1), rm, w1))"

fun post_loop :: "'w net \<Rightarrow> string list \<Rightarrow> string \<Rightarrow> fs_request \<Rightarrow> bool \<Rightarrow> err \<Rightarrow> fs_resp \<Rightarrow> remote_meta \<Rightarrow> 'w \<Rightarrow>
    (unit res \<times> fs_resp) \<times> remote_meta \<times> 'w" where
  "post_loop net [] path q wr e r rm w = ((Inl e, r), rm, w)"
| "post_loop net (b # bs) path q wr e r rm w =
     (case tryPost net (b @ path) path q wr r rm w of
        ((Inr _, r1), s) \<Rightarrow> ((Inr (), r1), s)
      | ((Inl e1, r1), rm1, w1) \<Rightarrow>
          if \<not> wr \<and> e1 = ErrNotFound then ((Inl e1, r1), rm1, w1)
          else post_loop net bs path q wr e1 r1 rm1 w1)"

definition post :: "'w net \<Rightarrow> string \<Rightarrow> fs_request \<Rightarrow> bool \<Rightarrow> remote_meta \<Rightarrow> 'w \<Rightarrow> (unit res \<times> fs_resp) \<times> remote_meta \<times> 'w" where
  "post net path q wr rm w = post_loop net (nodeList wr rm) path q wr (ErrMsg ''no nodes configured'') resp_zero rm w"

definition post_attr :: "'w net \<Rightarrow> string \<Rightarrow> fs_request \<Rightarrow> bool \<Rightarrow> remote_meta \<Rightarrow> 'w \<Rightarrow> attr option res \<times> remote_meta \<times> 'w" where
  "post_attr net path q wr rm w =
     (case post net path q wr rm w of ((Inl e, _), s) \<Rightarrow> (Inl e, s) | ((Inr _, r), s) \<Rightarrow> (Inr (rs_attr r), s))"

section \<open>The operations\<close>

definition rm_getattr :: "'w net \<Rightarrow> u64 \<Rightarrow> remote_meta \<Rightarrow> 'w \<Rightarrow> attr option res \<times> remote_meta \<times> 'w" where
  "rm_getattr net ino = post_attr net ''/v1/fs/getattr'' (request_zero\<lparr>fq_ino := ino\<rparr>) False"

definition rm_lookup :: "'w net \<Rightarrow> u64 \<Rightarrow> string \<Rightarrow> remote_meta \<Rightarrow> 'w \<Rightarrow> attr option res \<times> remote_meta \<times> 'w" where
  "rm_lookup net p n = post_attr net ''/v1/fs/lookup'' (request_zero\<lparr>fq_parent := p, fq_name := n\<rparr>) False"

definition rm_readdir :: "'w net \<Rightarrow> u64 \<Rightarrow> remote_meta \<Rightarrow> 'w \<Rightarrow> (string, attr option) gomap res \<times> remote_meta \<times> 'w" where
  "rm_readdir net p rm w =
     (case post net ''/v1/fs/readdir'' (request_zero\<lparr>fq_parent := p\<rparr>) False rm w of
        ((Inl e, _), s) \<Rightarrow> (Inl e, s) | ((Inr _, r), s) \<Rightarrow> (Inr (rs_attrs r), s))"

definition new_request :: "u64 \<Rightarrow> string \<Rightarrow> u32 \<Rightarrow> u32 \<Rightarrow> u32 \<Rightarrow> fs_request" where
  "new_request p n mode uid gid = request_zero\<lparr>fq_parent := p, fq_name := n, fq_mode := mode, fq_uid := uid, fq_gid := gid\<rparr>"

definition rm_mkdir :: "'w net \<Rightarrow> u64 \<Rightarrow> string \<Rightarrow> u32 \<Rightarrow> u32 \<Rightarrow> u32 \<Rightarrow> remote_meta \<Rightarrow> 'w \<Rightarrow> attr option res \<times> remote_meta \<times> 'w" where
  "rm_mkdir net p n mode uid gid = post_attr net ''/v1/fs/mkdir'' (new_request p n mode uid gid) True"

definition rm_create :: "'w net \<Rightarrow> u64 \<Rightarrow> string \<Rightarrow> u32 \<Rightarrow> u32 \<Rightarrow> u32 \<Rightarrow> remote_meta \<Rightarrow> 'w \<Rightarrow> attr option res \<times> remote_meta \<times> 'w" where
  "rm_create net p n mode uid gid = post_attr net ''/v1/fs/create'' (new_request p n mode uid gid) True"

definition rm_symlink :: "'w net \<Rightarrow> u64 \<Rightarrow> string \<Rightarrow> string \<Rightarrow> u32 \<Rightarrow> u32 \<Rightarrow> remote_meta \<Rightarrow> 'w \<Rightarrow> attr option res \<times> remote_meta \<times> 'w" where
  "rm_symlink net p n target uid gid =
     post_attr net ''/v1/fs/symlink'' ((new_request p n 0 uid gid)\<lparr>fq_target := target\<rparr>) True"

definition rm_unlink :: "'w net \<Rightarrow> u64 \<Rightarrow> string \<Rightarrow> remote_meta \<Rightarrow> 'w \<Rightarrow> attr option res \<times> remote_meta \<times> 'w" where
  "rm_unlink net p n = post_attr net ''/v1/fs/unlink'' (request_zero\<lparr>fq_parent := p, fq_name := n\<rparr>) True"

definition post_unit :: "'w net \<Rightarrow> string \<Rightarrow> fs_request \<Rightarrow> remote_meta \<Rightarrow> 'w \<Rightarrow> unit res \<times> remote_meta \<times> 'w" where
  "post_unit net path q rm w = (case post net path q True rm w of ((x, _), s) \<Rightarrow> (x, s))"

definition rm_rmdir :: "'w net \<Rightarrow> u64 \<Rightarrow> string \<Rightarrow> remote_meta \<Rightarrow> 'w \<Rightarrow> unit res \<times> remote_meta \<times> 'w" where
  "rm_rmdir net p n = post_unit net ''/v1/fs/rmdir'' (request_zero\<lparr>fq_parent := p, fq_name := n\<rparr>)"

definition rm_rename :: "'w net \<Rightarrow> u64 \<Rightarrow> u64 \<Rightarrow> string \<Rightarrow> string \<Rightarrow> remote_meta \<Rightarrow> 'w \<Rightarrow> unit res \<times> remote_meta \<times> 'w" where
  "rm_rename net p p' n n' =
     post_unit net ''/v1/fs/rename''
       (request_zero\<lparr>fq_old_parent := p, fq_new_parent := p', fq_old_name := n, fq_new_name := n'\<rparr>)"

definition rm_update :: "'w net \<Rightarrow> attr \<Rightarrow> remote_meta \<Rightarrow> 'w \<Rightarrow> unit res \<times> remote_meta \<times> 'w" where
  "rm_update net a = post_unit net ''/v1/fs/setattr'' (request_zero\<lparr>fq_attr := Some a\<rparr>)"

definition rm_list_nodes :: "'w net \<Rightarrow> remote_meta \<Rightarrow> 'w \<Rightarrow> string list res \<times> remote_meta \<times> 'w" where
  "rm_list_nodes net rm w =
     (case post net ''/v1/cluster/nodes'' request_zero False rm w of
        ((Inl e, _), s) \<Rightarrow> (Inl e, s)
      | ((Inr _, r), rm1, w1) \<Rightarrow>
          if rs_nodes r \<noteq> [] then
            (let ns = prefixed_nodes (rs_nodes r) (rm_prefix rm1) in (Inr ns, rm1\<lparr>rm_nodes := ns\<rparr>, w1))
          else (Inr [], rm1, w1))"

definition ChunkReplicas :: "'w net \<Rightarrow> string \<Rightarrow> remote_meta \<Rightarrow> 'w \<Rightarrow> string list res \<times> remote_meta \<times> 'w" where
  "ChunkReplicas net k rm w =
     (case post net ''/v1/chunks/registry/get'' (request_zero\<lparr>fq_chunk := k\<rparr>) False rm w of
        ((Inl e, _), s) \<Rightarrow> (Inl e, s)
      | ((Inr _, r), rm1, w1) \<Rightarrow>
          if rs_replicas r = [] then (Inl (ErrMsg ''no replicas''), rm1, w1)
          else (Inr (prefixed_nodes (rs_replicas r) (rm_prefix rm1)), rm1, w1))"

end
