(* ===== verification/Commands.thy ===== *)
theory Commands
  imports Startup Remote_Meta
begin

text \<open>
  The clients of a cluster that are not a mount: the request of a node that joins (\<^verbatim>\<open>cluster/client.go\<close>), the HTTP client of the command
  line (\<^verbatim>\<open>cli/client.go\<close>), the connection it uses (\<^verbatim>\<open>cmd/memoryfs/conn.go\<close>, \<^verbatim>\<open>cmd/memoryfs/status.go\<close>) and the file that remembers it
  (\<^verbatim>\<open>cliconfig/config.go\<close>). The HTTP exchange is an argument: a URL and a body give a status and a body, or an error.
\<close>

section \<open>Joining\<close>

type_synonym exchange = "string \<Rightarrow> bytes \<Rightarrow> (nat \<times> bytes) res"

text \<open>\<^verbatim>\<open>json.Marshal\<close> of a map sorts its keys.\<close>

definition join_body :: "member \<Rightarrow> bytes" where
  "join_body m =
     json_print (JObj [(''grpc_addr'', JStr (mb_grpc m)), (''http_addr'', JStr (mb_http m)), (''id'', JStr (mb_id m)),
       (''raft_addr'', JStr (mb_raft m)), (''rdma_addr'', JStr (mb_rdma m))])"

text \<open>The error of decoding is dropped: a member that is no string leaves the leader as it was, and the decoder goes on.\<close>

definition set_leader_field :: "string \<Rightarrow> json \<Rightarrow> string \<Rightarrow> string res" where
  "set_leader_field k j l = Inr (if k = ''leader'' then (case j of JStr s \<Rightarrow> s | _ \<Rightarrow> l) else l)"

definition redirect_leader :: "bytes \<Rightarrow> string" where
  "redirect_leader raw = (case unmarshal (dec_struct set_leader_field) [] raw of Inl _ \<Rightarrow> [] | Inr l \<Rightarrow> l)"

definition join_url :: "string \<Rightarrow> string \<Rightarrow> string" where
  "join_url leader prefix = trim_right_slash leader @ normalizeURIPrefix prefix @ ''/v1/cluster/join''"

definition join_status :: "nat \<Rightarrow> err" where
  "join_status code = ErrMsg (''join status '' @ format_nat code)"

definition joinOnce :: "exchange \<Rightarrow> string \<Rightarrow> string \<Rightarrow> member \<Rightarrow> join_answer" where
  "joinOnce ex leader prefix m =
     (case ex (join_url leader prefix) (join_body m) of
        Inl e \<Rightarrow> JoinFailed e
      | Inr (code, raw) \<Rightarrow>
          if code = 307 \<or> code = 302 then
            (if redirect_leader raw \<noteq> [] then Redirect (redirect_leader raw) (join_status code) else JoinFailed (join_status code))
          else if 300 \<le> code then JoinFailed (join_status code)
          else Joined)"

text \<open>The loop of \<open>Membership\<close> over these requests; the exchange may differ from attempt to attempt.\<close>

definition Join :: "(nat \<Rightarrow> exchange) \<Rightarrow> int \<Rightarrow> string \<Rightarrow> string \<Rightarrow> member \<Rightarrow> unit res \<times> string list" where
  "Join ex max_attempts url prefix m = cluster_join (\<lambda>attempt leader. joinOnce (ex attempt) leader prefix m) max_attempts url"

text \<open>
  Joining at the start of a node: one that Raft already knows tries in the background and only logs an error, a new one ends when it cannot
  join. The result says whether the node keeps running.
\<close>

definition startClusterJoin :: "(string \<times> string) list res \<Rightarrow> (nat \<Rightarrow> exchange) \<Rightarrow> string \<Rightarrow> string \<Rightarrow> member \<Rightarrow> bool" where
  "startClusterJoin servers ex url prefix m =
     (let already = (case servers of Inl _ \<Rightarrow> False | Inr ss \<Rightarrow> mb_id m \<in> set (map fst ss)) in
      already \<or> \<not> isl (fst (Join ex 0 url prefix m)))"

section \<open>The command line client\<close>

record cli_client =
  cc_seed :: string
  cc_prefix :: string
  cc_token :: string

definition NewClient :: "string \<Rightarrow> string \<Rightarrow> string \<Rightarrow> cli_client" where
  "NewClient seed prefix token =
     \<lparr>cc_seed = trim_right_slash (trim_space seed), cc_prefix = normalizeURIPrefix prefix, cc_token = token\<rparr>"

definition client_path :: "cli_client \<Rightarrow> string \<Rightarrow> string" where
  "client_path c p = cc_seed c @ cc_prefix c @ (if has_prefix p ''/'' then p else ''/'' @ p)"

text \<open>A request: method, URL, bearer token (empty for none) and body.\<close>

type_synonym 'w web = "string \<Rightarrow> string \<Rightarrow> string \<Rightarrow> bytes \<Rightarrow> 'w \<Rightarrow> (nat \<times> bytes) res \<times> 'w"

definition http_status_error :: "nat \<Rightarrow> bytes \<Rightarrow> err" where
  "http_status_error code raw = ErrMsg (''HTTP '' @ format_nat code @ '': '' @ trim_space raw)"

definition client_do :: "'w web \<Rightarrow> cli_client \<Rightarrow> string \<Rightarrow> string \<Rightarrow> bytes \<Rightarrow> 'w \<Rightarrow> bytes res \<times> 'w" where
  "client_do web c meth p body w =
     (case web meth (client_path c p) (cc_token c) body w of
        (Inl e, w') \<Rightarrow> (Inl e, w')
      | (Inr (code, raw), w') \<Rightarrow> (if 400 \<le> code then Inl (http_status_error code raw) else Inr raw, w'))"

definition cli_put_chunk :: "'w web \<Rightarrow> cli_client \<Rightarrow> string \<Rightarrow> bytes \<Rightarrow> 'w \<Rightarrow> unit res \<times> 'w" where
  "cli_put_chunk web c k d w = apfst (map_sum id (\<lambda>_. ())) (client_do web c ''PUT'' (''/chunks/'' @ k) d w)"

definition cli_get_chunk :: "'w web \<Rightarrow> cli_client \<Rightarrow> string \<Rightarrow> 'w \<Rightarrow> bytes res \<times> 'w" where
  "cli_get_chunk web c k w = client_do web c ''GET'' (''/chunks/'' @ k) [] w"

definition cli_delete_chunk :: "'w web \<Rightarrow> cli_client \<Rightarrow> string \<Rightarrow> 'w \<Rightarrow> unit res \<times> 'w" where
  "cli_delete_chunk web c k w = apfst (map_sum id (\<lambda>_. ())) (client_do web c ''DELETE'' (''/chunks/'' @ k) [] w)"

text \<open>The prefix that answers the overview: \<open>/memoryfs\<close>, else none.\<close>

definition DetectPrefix :: "(cli_client \<Rightarrow> cluster_overview res) \<Rightarrow> string \<Rightarrow> string \<Rightarrow> string" where
  "DetectPrefix overview seed token =
     (case find (\<lambda>p. \<not> isl (overview (NewClient seed p token))) [''/memoryfs'', []] of None \<Rightarrow> [] | Some p \<Rightarrow> p)"

section \<open>Which cluster\<close>

fun first_node :: "string list \<Rightarrow> string" where
  "first_node [] = []"
| "first_node (n # ns) = (if trim_space n \<noteq> [] then trim_right_slash (trim_space n) else first_node ns)"

definition firstNode :: "string \<Rightarrow> string" where
  "firstNode nodes = first_node (split_on CHR '','' nodes)"

definition joinNodes :: "string list \<Rightarrow> string" where
  "joinNodes nodes = fold (\<lambda>n out. if out = [] then n else out @ '','' @ n) nodes []"

text \<open>The saved configuration; the time stamp is kept as the text it is saved with, \<open>None\<close> is the zero time.\<close>

record cli_config =
  cf_nodes :: "string list"
  cf_prefix :: string
  cf_token :: string
  cf_mount :: string
  cf_leader :: string
  cf_rf :: int
  cf_updated :: "string option"

record conn_info =
  ci_seed :: string
  ci_prefix :: string
  ci_token :: string
  ci_source :: string

definition conn_seed :: "environ \<Rightarrow> string \<Rightarrow> string \<times> string" where
  "conn_seed env flagSeed =
     (if firstNode flagSeed \<noteq> [] then (firstNode flagSeed, ''flag'')
      else if firstNode (env ''MEMORYFS_NODES'') \<noteq> [] then (firstNode (env ''MEMORYFS_NODES''), ''env'')
      else ([], ''default''))"

definition with_config :: "cli_config \<Rightarrow> conn_info \<Rightarrow> conn_info" where
  "with_config cfg c =
     (let n = firstNode (joinNodes (cf_nodes cfg));
          c1 = (if ci_seed c = [] \<and> n \<noteq> []
                then c\<lparr>ci_seed := n, ci_source := (if ci_source c = ''default'' then ''config'' else ci_source c)\<rparr> else c);
          c2 = (if ci_prefix c1 = [] \<and> cf_prefix cfg \<noteq> [] then c1\<lparr>ci_prefix := cf_prefix cfg\<rparr> else c1) in
      if ci_token c2 = [] \<and> cf_token cfg \<noteq> [] then c2\<lparr>ci_token := cf_token cfg\<rparr> else c2)"

definition default_url :: string where "default_url = ''http://127.0.0.1:19800''"

definition resolveConn :: "environ \<Rightarrow> cli_config res \<Rightarrow> string \<Rightarrow> string \<Rightarrow> string \<Rightarrow> conn_info" where
  "resolveConn env load flagSeed flagPrefix flagToken =
     (let c0 = \<lparr>ci_seed = fst (conn_seed env flagSeed),
                ci_prefix = (if flagPrefix = [] then env ''MEMORYFS_URI_PREFIX'' else flagPrefix),
                ci_token = (if flagToken = [] then env ''MEMORYFS_API_TOKEN'' else flagToken),
                ci_source = snd (conn_seed env flagSeed)\<rparr>;
          c1 = (if ci_seed c0 = [] \<or> (ci_prefix c0 = [] \<and> ci_token c0 = [])
                then (case load of Inl _ \<Rightarrow> c0 | Inr cfg \<Rightarrow> with_config cfg c0) else c0) in
      if ci_seed c1 = [] then c1\<lparr>ci_seed := default_url\<rparr> else c1)"

definition config_path :: "environ \<Rightarrow> string option \<Rightarrow> string \<Rightarrow> string" where
  "config_path env home tmp =
     (if trim_space (env ''MEMORYFS_CONFIG'') \<noteq> [] then trim_space (env ''MEMORYFS_CONFIG'')
      else if trim_space (env ''XDG_CONFIG_HOME'') \<noteq> [] then filepath_join [trim_space (env ''XDG_CONFIG_HOME''), ''memoryfs'', ''config.json'']
      else case home of
        Some h \<Rightarrow> if h \<noteq> [] then filepath_join [h, ''.memoryfs'', ''config.json''] else filepath_join [tmp, ''memoryfs'', ''config.json'']
      | None \<Rightarrow> filepath_join [tmp, ''memoryfs'', ''config.json''])"

text \<open>What a mount derives from its arguments and the overview of the cluster.\<close>

definition mount_nodes :: "string \<Rightarrow> string list" where
  "mount_nodes nodes = filter (\<lambda>n. n \<noteq> []) (map trim_space (split_on CHR '','' nodes))"

definition prefixedLeaderURL :: "string \<Rightarrow> string \<Rightarrow> string" where
  "prefixedLeaderURL leader prefix =
     (let l = trim_right_slash (trim_space leader) in if prefix = [] \<or> has_suffix l prefix then l else l @ prefix)"

definition detectReplicaFactor :: "(cli_client \<Rightarrow> cluster_overview res) \<Rightarrow> string list \<Rightarrow> int" where
  "detectReplicaFactor overview nodes =
     (case nodes of
        [] \<Rightarrow> DefaultReplicaFactor
      | n # _ \<Rightarrow>
          (let seed = trim_right_slash (trim_space n) in
           case overview (NewClient seed (DetectPrefix overview seed []) []) of
             Inl _ \<Rightarrow> DefaultReplicaFactor
           | Inr ov \<Rightarrow> if ov_rf ov \<le> 0 then DefaultReplicaFactor else ov_rf ov))"

definition reachableNodes :: "cluster_overview \<Rightarrow> nat" where
  "reachableNodes ov = length (filter no_reachable (ov_nodes ov))"

end
