(* ===== verification/Remote_Correct.thy ===== *)
theory Remote_Correct
  imports Remote_Meta
begin

text \<open>
  The metadata client against the server of the leader: the JSON of requests and responses is read
  back, and what each kind of answer becomes at the client.
\<close>

section \<open>The wire\<close>

lemma json_object_rest:
  assumes "json_ok (JObj ms)" "length (json_print (JObj ms)) \<le> n"
  shows "parse_value n (json_print (JObj ms) @ r) = Some (JObj ms, r)"
  using compact.parse_object [OF assms(1), of 0 n r] assms(2) by (simp only: json_print_pp(1) [of _ 0])

lemma json_first_object: "json_ok (JObj ms) \<Longrightarrow> json_first (json_print (JObj ms)) = Some (JObj ms)"
  using json_object_rest [of ms "Suc (length (json_print (JObj ms)))" "[]"]
  by (simp add: json_first_def del: parse_value.simps json_print.simps)

lemma json_parse_line: "json_ok (JObj ms) \<Longrightarrow> json_parse (json_print (JObj ms) @ [CHR 0x0A]) = Some (JObj ms)"
  using json_object_rest [of ms "Suc (length (json_print (JObj ms) @ [CHR 0x0A]))" "[CHR 0x0A]"]
  by (simp add: json_parse_def skip_ws_def json_ws_def del: parse_value.simps json_print.simps)

definition request_ok :: "fs_request \<Rightarrow> bool" where
  "request_ok q \<longleftrightarrow> valid_utf8 (fq_name q) \<and> valid_utf8 (fq_target q) \<and> valid_utf8 (fq_old_name q) \<and> valid_utf8 (fq_new_name q)
     \<and> valid_utf8 (fq_chunk q) \<and> (\<forall>a. fq_attr q = Some a \<longrightarrow> attr_ok a)
     \<and> fq_offset q = 0 \<and> fq_chunk_idx q = 0 \<and> fq_block_idx q = 0
     \<and> \<not> fq_force q \<and> fq_replicas q = [] \<and> fq_epoch q = 0 \<and> fq_chain q = 0 \<and> fq_chain_ver q = 0"

lemma fold_name_wire [simp]:
  "fold_name ''parent_ino'' = ''parent_ino''" "fold_name ''old_parent'' = ''old_parent''" "fold_name ''new_parent'' = ''new_parent''"
  "fold_name ''old_name'' = ''old_name''" "fold_name ''new_name'' = ''new_name''" "fold_name ''attr'' = ''attr''"
  "fold_name ''chunk_id'' = ''chunk_id''" "fold_name ''data'' = ''data''" "fold_name ''file_size'' = ''file_size''"
  "fold_name ''attrs'' = ''attrs''" "fold_name ''nodes'' = ''nodes''" "fold_name ''leader'' = ''leader''"
  "fold_name ''error'' = ''error''" "fold_name ''replicas'' = ''replicas''"
  by (simp_all add: fold_name_def lower_char_def)

lemma valid_utf8_wire [simp]:
  "valid_utf8 ''parent_ino''" "valid_utf8 ''old_parent''" "valid_utf8 ''new_parent''"
  "valid_utf8 ''old_name''" "valid_utf8 ''new_name''" "valid_utf8 ''attr''" "valid_utf8 ''chunk_id''" "valid_utf8 ''data''"
  "valid_utf8 ''file_size''" "valid_utf8 ''attrs''" "valid_utf8 ''nodes''" "valid_utf8 ''leader''" "valid_utf8 ''error''"
  "valid_utf8 ''replicas''" "valid_utf8 ''offset''" "valid_utf8 ''chunk_idx''" "valid_utf8 ''block_idx''"
  by (simp_all add: valid_utf8_Cons_ascii)

lemma dec_attr_enc [simp]: "attr_ok a \<Longrightarrow> dec_attr attr_zero (enc_attr a) = Inr a"
proof -
  assume a: "attr_ok a"
  then have "json_ok (enc_attr a)" by (auto simp: enc_attr_def attr_ok_def omit_def)
  with unmarshal_marshal_attr [OF a] show ?thesis by (simp add: unmarshal_attr_def marshal_attr_def unmarshal_print dec_attr_def)
qed

lemma json_ok_attr [simp]: "attr_ok a \<Longrightarrow> json_ok (enc_attr a)"
  by (auto simp: enc_attr_def attr_ok_def omit_def)

lemma dec_pointer_attr [simp]: "attr_ok a \<Longrightarrow> dec_pointer dec_attr attr_zero (enc_attr a) None = Inr (Some a)"
  using dec_attr_enc [of a] by (simp add: dec_pointer_def enc_attr_def)

lemma dec_strings [simp]: "dec_list (\<lambda>j. dec_string j []) (JArr (map JStr xs)) old = Inr xs"
  using dec_elems_map [of xs "\<lambda>j. dec_string j []" JStr id] by (simp add: dec_list_def)

text \<open>Decoding a struct member by member; a field that was left out has its zero value already.\<close>

lemma request_words:
  "fq_ino r = 0 \<Longrightarrow> dec_members set_request_field (omit ''ino'' (enc_word v) (v = 0) @ ms) r = dec_members set_request_field ms (r\<lparr>fq_ino := v\<rparr>)"
  "fq_parent r = 0 \<Longrightarrow> dec_members set_request_field (omit ''parent_ino'' (enc_word v) (v = 0) @ ms) r = dec_members set_request_field ms (r\<lparr>fq_parent := v\<rparr>)"
  "fq_mode r = 0 \<Longrightarrow> dec_members set_request_field (omit ''mode'' (enc_word w) (w = 0) @ ms) r = dec_members set_request_field ms (r\<lparr>fq_mode := w\<rparr>)"
  "fq_uid r = 0 \<Longrightarrow> dec_members set_request_field (omit ''uid'' (enc_word w) (w = 0) @ ms) r = dec_members set_request_field ms (r\<lparr>fq_uid := w\<rparr>)"
  "fq_gid r = 0 \<Longrightarrow> dec_members set_request_field (omit ''gid'' (enc_word w) (w = 0) @ ms) r = dec_members set_request_field ms (r\<lparr>fq_gid := w\<rparr>)"
  "fq_old_parent r = 0 \<Longrightarrow> dec_members set_request_field (omit ''old_parent'' (enc_word v) (v = 0) @ ms) r = dec_members set_request_field ms (r\<lparr>fq_old_parent := v\<rparr>)"
  "fq_new_parent r = 0 \<Longrightarrow> dec_members set_request_field (omit ''new_parent'' (enc_word v) (v = 0) @ ms) r = dec_members set_request_field ms (r\<lparr>fq_new_parent := v\<rparr>)"
  "fq_file_size r = 0 \<Longrightarrow> dec_members set_request_field (omit ''file_size'' (enc_word v) (v = 0)) r = Inr (r\<lparr>fq_file_size := v\<rparr>)"
  by (rule omit_step omit_last; simp add: set_request_field_def)+

lemma request_strings:
  "fq_name r = [] \<Longrightarrow> dec_members set_request_field (omit ''name'' (JStr s) (s = []) @ ms) r = dec_members set_request_field ms (r\<lparr>fq_name := s\<rparr>)"
  "fq_target r = [] \<Longrightarrow> dec_members set_request_field (omit ''target'' (JStr s) (s = []) @ ms) r = dec_members set_request_field ms (r\<lparr>fq_target := s\<rparr>)"
  "fq_old_name r = [] \<Longrightarrow> dec_members set_request_field (omit ''old_name'' (JStr s) (s = []) @ ms) r = dec_members set_request_field ms (r\<lparr>fq_old_name := s\<rparr>)"
  "fq_new_name r = [] \<Longrightarrow> dec_members set_request_field (omit ''new_name'' (JStr s) (s = []) @ ms) r = dec_members set_request_field ms (r\<lparr>fq_new_name := s\<rparr>)"
  "fq_chunk r = [] \<Longrightarrow> dec_members set_request_field (omit ''chunk_id'' (JStr s) (s = []) @ ms) r = dec_members set_request_field ms (r\<lparr>fq_chunk := s\<rparr>)"
  "fq_data r = [] \<Longrightarrow> dec_members set_request_field (omit ''data'' (enc_bytes b) (b = []) @ ms) r = dec_members set_request_field ms (r\<lparr>fq_data := b\<rparr>)"
  by (rule omit_step; simp add: set_request_field_def)+

lemma request_attr:
  assumes "fq_attr r = None" "\<forall>a. x = Some a \<longrightarrow> attr_ok a"
  shows "dec_members set_request_field ((case x of None \<Rightarrow> [] | Some a \<Rightarrow> [(''attr'', enc_attr a)]) @ ms) r
     = dec_members set_request_field ms (r\<lparr>fq_attr := x\<rparr>)"
  using assms by (cases x; cases r) (simp_all add: set_request_field_def)

lemma omit_zero: "omit k j True = []"
  by (simp add: omit_def)

lemma decode_request:
  assumes "request_ok q"
  shows "decodeJSON (json_print (enc_request q)) = Inr q"
proof -
  have ok: "json_ok (enc_request q)"
    using assms by (auto simp: enc_request_def request_ok_def omit_def split: option.splits)
  have at: "\<forall>a. fq_attr q = Some a \<longrightarrow> attr_ok a" using assms by (simp add: request_ok_def)
  have z: "fq_offset q = 0" "fq_chunk_idx q = 0" "fq_block_idx q = 0" "\<not> fq_force q" "fq_replicas q = []" "fq_epoch q = 0"
    "fq_chain q = 0" "fq_chain_ver q = 0" using assms by (simp_all add: request_ok_def)
  have "dec_struct set_request_field (enc_request q) request_zero = Inr q"
    unfolding dec_struct_def enc_request_def json.case z(1-3)
    by (simp add: request_words request_strings request_attr [OF _ at] request_zero_def omit_zero z)
  with ok json_first_object show ?thesis unfolding decodeJSON_def enc_request_def by simp
qed

definition response_ok :: "fs_response \<Rightarrow> bool" where
  "response_ok r \<longleftrightarrow> (\<forall>a. fr_attr r = Some a \<longrightarrow> attr_ok a) \<and> fr_attrs r = [] \<and> fr_nodes r = [] \<and> fr_leader r = []
     \<and> valid_utf8 (fr_error r) \<and> fr_replicas r = [] \<and> fr_chunk r = []"

lemma decode_response:
  assumes "response_ok r"
  shows "unmarshal (dec_struct set_resp_field) resp_zero (json_print (enc_response r) @ [CHR 0x0A])
     = Inr (resp_zero\<lparr>rs_attr := fr_attr r, rs_error := fr_error r\<rparr>)"
proof -
  have ok: "json_ok (enc_response r)"
    using assms by (auto simp: enc_response_def response_ok_def omit_def split: option.splits)
  have "dec_struct set_resp_field (enc_response r) resp_zero = Inr (resp_zero\<lparr>rs_attr := fr_attr r, rs_error := fr_error r\<rparr>)"
    using assms by (cases "fr_attr r")
      (simp_all add: dec_struct_def enc_response_def response_ok_def omit_def set_resp_field_def resp_zero_def)
  with ok json_parse_line show ?thesis unfolding unmarshal_def enc_response_def by simp
qed

section \<open>The leader answers\<close>

text \<open>The network of a client whose node runs at the URL \<open>base\<close>.\<close>

definition post_request :: "bytes \<Rightarrow> http_request" where
  "post_request body = \<lparr>hq_method = ''POST'', hq_octets = False, hq_query = [], hq_body = body\<rparr>"

definition leader_net :: "int \<Rightarrow> string \<Rightarrow> node net" where
  "leader_net now base url body nd =
     (if has_prefix url base then
        (case serve now None (drop (length base) url) (post_request body) nd of
           None \<Rightarrow> (Inr (http_text 404 ''404 page not found''), nd)
         | Some (a, nd') \<Rightarrow> (Inr a, nd'))
      else (Inl conn_refused, nd))"

lemma post_served:
  assumes "serve now None path (post_request (json_print (enc_request q))) nd = Some (run_handler f q nd)"
    and "f q nd = ((r, code), nd')" "response_ok r" "nodeList wr rm = [b]"
  shows "post (leader_net now b) path q wr rm nd
     = ((answered (b @ path) (json_print (enc_response r) @ [CHR 0x0A]) code (resp_zero\<lparr>rs_attr := fr_attr r, rs_error := fr_error r\<rparr>),
         resp_zero\<lparr>rs_attr := fr_attr r, rs_error := fr_error r\<rparr>), rm, nd')"
proof -
  let ?r = "resp_zero\<lparr>rs_attr := fr_attr r, rs_error := fr_error r\<rparr>"
  let ?raw = "json_print (enc_response r) @ [CHR 0x0A]"
  have net: "leader_net now b (b @ path) (json_print (enc_request q)) nd = (Inr (code, ?raw), nd')"
    using assms(1,2) by (simp add: leader_net_def run_handler_def writeJSON_def)
  have do: "doPost (leader_net now b) (b @ path) q resp_zero nd = ((answered (b @ path) ?raw code ?r, ?r), nd')"
    by (simp add: doPost_def net decode_response [OF assms(3)])
  have l: "rs_leader ?r = []" by (simp add: resp_zero_def)
  have "answered (b @ path) ?raw code ?r = Inr () \<Longrightarrow> error_field ?r = Inr ()"
    by (auto simp: answered_def error_field_def split: if_splits)
  then have "tryPost (leader_net now b) (b @ path) path q wr resp_zero rm nd = ((answered (b @ path) ?raw code ?r, ?r), rm, nd')"
    by (cases "answered (b @ path) ?raw code ?r") (simp_all add: tryPost_def do l)
  then show ?thesis by (cases "answered (b @ path) ?raw code ?r") (simp_all add: post_def assms(4))
qed

lemma serve_read:
  "request_ok q \<Longrightarrow> handleFS f (post_request (json_print (enc_request q))) nd = run_handler f q nd"
  by (simp add: handleFS_def post_request_def decode_request)

lemma serve_write:
  "request_ok q \<Longrightarrow> IsLeader nd \<Longrightarrow> handleWrite None f (post_request (json_print (enc_request q))) nd = run_handler f q nd"
  by (simp add: handleWrite_def post_request_def parseWriteRequest_def decode_request)

definition meta_error :: "err \<Rightarrow> bool" where
  "meta_error e \<longleftrightarrow> e \<in> {ErrExists, ErrNotFound, ErrNotEmpty, ErrIsDir, ErrNotDir}"

lemma meta_error_wire:
  "meta_error e \<Longrightarrow> mapClientError (MapError e) = e" "meta_error e \<Longrightarrow> MapError e \<noteq> []" "meta_error e \<Longrightarrow> valid_utf8 (MapError e)"
  by (auto simp: meta_error_def mapClientError_def MapError_def valid_utf8_Cons_ascii)

lemma answered_simps [simp]:
  "answered url raw 409 r = Inl (ErrMsg ''redirect'')"
  "rs_error r = [] \<Longrightarrow> answered url raw 200 r = Inr ()"
  "rs_error r \<noteq> [] \<Longrightarrow> answered url raw 404 r = Inl (mapClientError (rs_error r))"
  by (simp_all add: answered_def)

lemma response_ok_simps [simp]:
  "valid_utf8 m \<Longrightarrow> response_ok (resp_error m)" "attr_ok a \<Longrightarrow> response_ok (resp_attr a)" "response_ok response_zero"
  "fr_error (resp_error m) = m" "fr_attr (resp_error m) = None" "fr_error (resp_attr a) = []" "fr_attr (resp_attr a) = Some a"
  by (simp_all add: response_ok_def resp_error_def resp_attr_def response_zero_def)

text \<open>
  An operation with an attribute as its result, at a route that answers failures with \<open>code\<close>: the
  result comes through; a failure comes through with 404 and turns into \<open>redirect\<close> with 409.
\<close>

lemma post_attr_served:
  assumes "serve now None path (post_request (json_print (enc_request q))) nd = Some (run_handler f q nd)"
    and "f q nd = (answer_attr code x, nd')" "nodeList wr rm = [b]" "code \<in> {404, 409}"
    and "\<forall>a. x = Inr a \<longrightarrow> attr_ok a" "\<forall>e. x = Inl e \<longrightarrow> meta_error e"
  shows "post_attr (leader_net now b) path q wr rm nd
     = (case x of Inr a \<Rightarrow> Inr (Some a) | Inl e \<Rightarrow> Inl (if code = 409 then ErrMsg ''redirect'' else e), rm, nd')"
proof (cases x)
  case (Inl e)
  with assms(6) have e: "meta_error e" by simp
  have h: "f q nd = ((resp_error (MapError e), code), nd')" using assms(2) Inl by (simp add: answer_attr_def)
  show ?thesis using post_served [OF assms(1) h _ assms(3)] assms(4) Inl by (auto simp: post_attr_def meta_error_wire [OF e])
next
  case (Inr a)
  with assms(5) have a: "attr_ok a" by simp
  have h: "f q nd = ((resp_attr a, 200), nd')" using assms(2) Inr by (simp add: answer_attr_def)
  show ?thesis using post_served [OF assms(1) h _ assms(3)] a Inr by (simp add: post_attr_def resp_zero_def)
qed

lemma post_unit_served:
  assumes "serve now None path (post_request (json_print (enc_request q))) nd = Some (run_handler f q nd)"
    and "f q nd = (answer_unit 409 x, nd')" "nodeList True rm = [b]" "\<forall>e. x = Inl e \<longrightarrow> meta_error e"
  shows "post_unit (leader_net now b) path q rm nd = (case x of Inr _ \<Rightarrow> Inr () | Inl e \<Rightarrow> Inl (ErrMsg ''redirect''), rm, nd')"
proof (cases x)
  case (Inl e)
  with assms(4) have e: "meta_error e" by simp
  have h: "f q nd = ((resp_error (MapError e), 409), nd')" using assms(2) Inl by (simp add: answer_unit_def)
  show ?thesis using post_served [OF assms(1) h _ assms(3)] Inl by (simp add: post_unit_def meta_error_wire [OF e])
next
  case (Inr u)
  have h: "f q nd = ((response_zero, 200), nd')" using assms(2) Inr by (simp add: answer_unit_def)
  have "fr_attr response_zero = None" "fr_error response_zero = []" by (simp_all add: response_zero_def)
  then show ?thesis using post_served [OF assms(1) h _ assms(3)] Inr by (simp add: post_unit_def resp_zero_def)
qed

lemma request_ok_simps [simp]:
  "request_ok request_zero"
  "valid_utf8 n \<Longrightarrow> request_ok (request_zero\<lparr>fq_parent := p, fq_name := n\<rparr>)"
  "valid_utf8 n \<Longrightarrow> request_ok (new_request p n mode uid gid)"
  "valid_utf8 n \<Longrightarrow> valid_utf8 n' \<Longrightarrow>
     request_ok (request_zero\<lparr>fq_old_parent := p, fq_new_parent := p', fq_old_name := n, fq_new_name := n'\<rparr>)"
  by (simp_all add: request_ok_def request_zero_def new_request_def)

lemma new_request_fields [simp]:
  "fq_parent (new_request p n mode uid gid) = p" "fq_name (new_request p n mode uid gid) = n"
  "fq_mode (new_request p n mode uid gid) = mode" "fq_uid (new_request p n mode uid gid) = uid"
  "fq_gid (new_request p n mode uid gid) = gid"
  by (simp_all add: new_request_def)

text \<open>
  C25. What the errors of the leader become at a mount. A lookup and an unlink that fail keep their
  error, and results come through unchanged. But the client takes the status 409, with which
  the server answers every failed \<open>mkdir\<close>, \<open>rmdir\<close> and \<open>rename\<close>, for a redirect: whatever the error was,
  the caller sees \<open>redirect\<close>, so \<open>ErrExists\<close> and \<open>ErrNotEmpty\<close> never reach it and the codes of the
  operating system for them are never returned.
\<close>

theorem remote_meta_errors:
  assumes "IsLeader nd" "nodeList True rm = [b]" "nodeList False rm = [b]" "valid_utf8 n" "valid_utf8 n'"
  shows "(\<forall>x s. Mkdir p n mode uid gid (now div 10 ^ 9) (nd_kv nd) = (x, s) \<longrightarrow>
            (\<forall>a. x = Inr a \<longrightarrow> attr_ok a) \<longrightarrow> (\<forall>e. x = Inl e \<longrightarrow> meta_error e) \<longrightarrow>
            rm_mkdir (leader_net now b) p n mode uid gid rm nd
              = (case x of Inr a \<Rightarrow> Inr (Some a) | Inl _ \<Rightarrow> Inl (ErrMsg ''redirect''), rm, nd\<lparr>nd_kv := s\<rparr>))
       \<and> (\<forall>x s. Rmdir p n (nd_kv nd) = (x, s) \<longrightarrow> (\<forall>e. x = Inl e \<longrightarrow> meta_error e) \<longrightarrow>
            rm_rmdir (leader_net now b) p n rm nd
              = (case x of Inr _ \<Rightarrow> Inr () | Inl _ \<Rightarrow> Inl (ErrMsg ''redirect''), rm, nd\<lparr>nd_kv := s\<rparr>))
       \<and> (\<forall>x s. Rename p p' n n' (nd_kv nd) = (x, s) \<longrightarrow> (\<forall>e. x = Inl e \<longrightarrow> meta_error e) \<longrightarrow>
            rm_rename (leader_net now b) p p' n n' rm nd
              = (case x of Inr _ \<Rightarrow> Inr () | Inl _ \<Rightarrow> Inl (ErrMsg ''redirect''), rm, nd\<lparr>nd_kv := s\<rparr>))
       \<and> (\<forall>x s. Unlink p n (nd_kv nd) = (x, s) \<longrightarrow>
            (\<forall>a. x = Inr a \<longrightarrow> attr_ok a) \<longrightarrow> (\<forall>e. x = Inl e \<longrightarrow> meta_error e) \<longrightarrow>
            rm_unlink (leader_net now b) p n rm nd
              = (case x of Inr a \<Rightarrow> Inr (Some a) | Inl e \<Rightarrow> Inl e, rm, nd\<lparr>nd_kv := s\<rparr>))
       \<and> (\<forall>x. Lookup (nd_kv nd) p n = x \<longrightarrow>
            (\<forall>a. x = Inr a \<longrightarrow> attr_ok a) \<longrightarrow> (\<forall>e. x = Inl e \<longrightarrow> meta_error e) \<longrightarrow>
            rm_lookup (leader_net now b) p n rm nd = (case x of Inr a \<Rightarrow> Inr (Some a) | Inl e \<Rightarrow> Inl e, rm, nd))"
proof (intro conjI allI impI)
  fix x s
  assume h: "Mkdir p n mode uid gid (now div 10 ^ 9) (nd_kv nd) = (x, s)" "\<forall>a. x = Inr a \<longrightarrow> attr_ok a" "\<forall>e. x = Inl e \<longrightarrow> meta_error e"
  show "rm_mkdir (leader_net now b) p n mode uid gid rm nd
      = (case x of Inr a \<Rightarrow> Inr (Some a) | Inl _ \<Rightarrow> Inl (ErrMsg ''redirect''), rm, nd\<lparr>nd_kv := s\<rparr>)"
    unfolding rm_mkdir_def
    by (subst post_attr_served [where f = "mkdir now" and code = 409 and x = x and nd' = "nd\<lparr>nd_kv := s\<rparr>"])
      (use assms h in \<open>simp_all add: serve_def serve_write mkdir_def on_kv_def split: sum.split\<close>)
next
  fix x s
  assume h: "Rmdir p n (nd_kv nd) = (x, s)" "\<forall>e. x = Inl e \<longrightarrow> meta_error e"
  show "rm_rmdir (leader_net now b) p n rm nd = (case x of Inr _ \<Rightarrow> Inr () | Inl _ \<Rightarrow> Inl (ErrMsg ''redirect''), rm, nd\<lparr>nd_kv := s\<rparr>)"
    unfolding rm_rmdir_def
    by (subst post_unit_served [where f = rmdir and x = x and nd' = "nd\<lparr>nd_kv := s\<rparr>"])
      (use assms h in \<open>simp_all add: serve_def serve_write rmdir_def on_kv_def split: sum.split\<close>)
next
  fix x s
  assume h: "Rename p p' n n' (nd_kv nd) = (x, s)" "\<forall>e. x = Inl e \<longrightarrow> meta_error e"
  show "rm_rename (leader_net now b) p p' n n' rm nd = (case x of Inr _ \<Rightarrow> Inr () | Inl _ \<Rightarrow> Inl (ErrMsg ''redirect''), rm, nd\<lparr>nd_kv := s\<rparr>)"
    unfolding rm_rename_def
    by (subst post_unit_served [where f = rename and x = x and nd' = "nd\<lparr>nd_kv := s\<rparr>"])
      (use assms h in \<open>simp_all add: serve_def serve_write rename_def on_kv_def split: sum.split\<close>)
next
  fix x s
  assume h: "Unlink p n (nd_kv nd) = (x, s)" "\<forall>a. x = Inr a \<longrightarrow> attr_ok a" "\<forall>e. x = Inl e \<longrightarrow> meta_error e"
  show "rm_unlink (leader_net now b) p n rm nd = (case x of Inr a \<Rightarrow> Inr (Some a) | Inl e \<Rightarrow> Inl e, rm, nd\<lparr>nd_kv := s\<rparr>)"
    unfolding rm_unlink_def
    by (subst post_attr_served [where f = unlink and code = 404 and x = x and nd' = "nd\<lparr>nd_kv := s\<rparr>"])
      (use assms h in \<open>simp_all add: serve_def serve_write unlink_def on_kv_def split: sum.split\<close>)
next
  fix x
  assume h: "Lookup (nd_kv nd) p n = x" "\<forall>a. x = Inr a \<longrightarrow> attr_ok a" "\<forall>e. x = Inl e \<longrightarrow> meta_error e"
  show "rm_lookup (leader_net now b) p n rm nd = (case x of Inr a \<Rightarrow> Inr (Some a) | Inl e \<Rightarrow> Inl e, rm, nd)"
    unfolding rm_lookup_def
    by (subst post_attr_served [where f = lookup_h and code = 404 and x = x and nd' = nd])
      (use assms h in \<open>simp_all add: serve_def serve_read lookup_h_def split: sum.split\<close>)
qed

definition fresh_node :: node where
  "fresh_node = NewService ''n1'' ''http://a'' [] (mem_store new_memory_kv) (MemoryStore []) 2 0 0"

definition fresh_client :: remote_meta where
  "fresh_client = \<lparr>rm_nodes = [''http://a''], rm_leader = [], rm_prefix = []\<rparr>"

theorem remote_meta_errors_witness:
  "rm_rmdir (leader_net 0 ''http://a'') 1 ''x'' fresh_client fresh_node = (Inl (ErrMsg ''redirect''), fresh_client, fresh_node)
   \<and> rm_lookup (leader_net 0 ''http://a'') 1 ''x'' fresh_client fresh_node = (Inl ErrNotFound, fresh_client, fresh_node)"
proof -
  have kv: "nd_kv fresh_node = mem_store new_memory_kv" by (simp add: fresh_node_def NewService_def)
  have "Rmdir 1 ''x'' (nd_kv fresh_node) = (Inl ErrNotFound, nd_kv fresh_node)" "Lookup (nd_kv fresh_node) 1 ''x'' = Inl ErrNotFound"
    by (simp_all add: kv Rmdir_def Lookup_def kv_hget_def mem_store_def mem_hget_def new_memory_kv_def)
  moreover have "nodeList True fresh_client = [''http://a'']" "nodeList False fresh_client = [''http://a'']"
    by (simp_all add: nodeList_def fresh_client_def)
  moreover have "IsLeader fresh_node" by (simp add: IsLeader_def kv mem_store_def)
  ultimately show ?thesis
    using remote_meta_errors [of fresh_node fresh_client "''http://a''" "''x''" "''x''" 1 0 0 0 0 1]
    by (simp add: valid_utf8_Cons_ascii meta_error_def)
qed

end
