(* ===== verification/Startup_Correct.thy ===== *)
theory Startup_Correct
  imports Commands Remote_Correct Api_Invariant
begin

text \<open>
  What the start of a cluster gives: a node that runs alone comes up as a leader with an empty file system that satisfies the invariants of
  theories \<open>Meta_Spec\<close> and \<open>Api_Invariant\<close>; the node that bootstraps and those that join it agree on who that is; and a node whose
  request to join was accepted is a member.
\<close>

section \<open>Joining\<close>

definition member_ok :: "member \<Rightarrow> bool" where
  "member_ok m \<longleftrightarrow> valid_utf8 (mb_id m) \<and> valid_utf8 (mb_http m) \<and> valid_utf8 (mb_raft m) \<and> valid_utf8 (mb_grpc m) \<and> valid_utf8 (mb_rdma m)"

lemma fold_name_join [simp]:
  "fold_name ''grpc_addr'' = ''grpc_addr''" "fold_name ''http_addr'' = ''http_addr''" "fold_name ''id'' = ''id''"
  "fold_name ''raft_addr'' = ''raft_addr''" "fold_name ''rdma_addr'' = ''rdma_addr''" "fold_name ''leader'' = ''leader''"
  by (simp_all add: fold_name_def lower_char_def)

lemma valid_utf8_join [simp]:
  "valid_utf8 ''grpc_addr''" "valid_utf8 ''http_addr''" "valid_utf8 ''id''" "valid_utf8 ''raft_addr''" "valid_utf8 ''rdma_addr''"
  by (simp_all add: valid_utf8_Cons_ascii)

lemma decode_join_body: "member_ok m \<Longrightarrow> decode_into set_join_field member_zero (join_body m) = Inr m"
  unfolding decode_into_def join_body_def
  by (subst json_first_object) (simp_all add: member_ok_def dec_struct_def set_join_field_def member_zero_def dec_string_def)

lemma membership_keys [simp, key_simps]:
  "nodeHTTPKey i \<noteq> inoKey j" "nodeRaftKey i \<noteq> inoKey j" "nodeGRPCKey i \<noteq> inoKey j" "nodeRDMAKey i \<noteq> inoKey j"
  "nodeHTTPKey i \<noteq> inodeLinkKey j" "nodeRaftKey i \<noteq> inodeLinkKey j" "nodeGRPCKey i \<noteq> inodeLinkKey j" "nodeRDMAKey i \<noteq> inodeLinkKey j"
  "direntKey j \<noteq> raftnodeNodesKey" "nextInoKey \<noteq> EpochKey" "inodeLinkKey j \<noteq> EpochKey" "inoKey j \<noteq> EpochKey"
  "inodeIndexKey \<noteq> chunkIndexKey" "chunkIndexKey \<noteq> inodeIndexKey"
  by (simp_all add: nodeHTTPKey_def nodeRaftKey_def nodeGRPCKey_def nodeRDMAKey_def inoKey_def inodeLinkKey_def direntKey_def
      raftnodeNodesKey_def EpochKey_def nextInoKey_def inodeIndexKey_def chunkIndexKey_def)

lemma valid_utf8_membership [simp]:
  "valid_utf8 raftnodeNodesKey" "valid_utf8 EpochKey" "valid_utf8 i \<Longrightarrow> valid_utf8 (nodeHTTPKey i)" "valid_utf8 i \<Longrightarrow> valid_utf8 (nodeRaftKey i)"
  "valid_utf8 i \<Longrightarrow> valid_utf8 (nodeGRPCKey i)" "valid_utf8 i \<Longrightarrow> valid_utf8 (nodeRDMAKey i)"
proof -
  have "valid_utf8 ''memoryfs:node:http:''" "valid_utf8 ''memoryfs:node:raft:''" "valid_utf8 ''memoryfs:node:grpc:''" "valid_utf8 ''memoryfs:node:rdma:''"
    by (simp_all add: valid_utf8_Cons_ascii)
  then show "valid_utf8 i \<Longrightarrow> valid_utf8 (nodeHTTPKey i)" "valid_utf8 i \<Longrightarrow> valid_utf8 (nodeRaftKey i)"
    "valid_utf8 i \<Longrightarrow> valid_utf8 (nodeGRPCKey i)" "valid_utf8 i \<Longrightarrow> valid_utf8 (nodeRDMAKey i)"
    unfolding nodeHTTPKey_def nodeRaftKey_def nodeGRPCKey_def nodeRDMAKey_def by (simp_all only: valid_utf8_append)
qed (simp_all add: raftnodeNodesKey_def EpochKey_def valid_utf8_Cons_ascii)

lemma registerOps_good: "member_ok m \<Longrightarrow> \<forall>q \<in> set (registerOps m). op_good q"
  by (auto simp: registerOps_def member_ok_def)

text \<open>Registration as writes of the store: one field of the hash of nodes, and keys that nothing of the file system is stored under.\<close>

definition put_if :: "string \<Rightarrow> bytes \<Rightarrow> memkv \<Rightarrow> memkv" where
  "put_if k v m = (if v \<noteq> [] then mem_set k v m else m)"

definition registered :: "member \<Rightarrow> memkv \<Rightarrow> memkv" where
  "registered m s = put_if (nodeRDMAKey (mb_id m)) (mb_rdma m) (put_if (nodeGRPCKey (mb_id m)) (mb_grpc m)
     (mem_set (nodeRaftKey (mb_id m)) (mb_raft m) (mem_set (nodeHTTPKey (mb_id m)) (mb_http m)
       (mem_hset raftnodeNodesKey (mb_id m) (mb_http m) s))))"

lemma mem_batch_register: "mem_batch (registerOps m) s = (Inr (), registered m s)"
  by (simp add: registerOps_def registered_def put_if_def)

lemma registered_hash [simp]: "kv_hash (registered m s) = kv_hash (mem_hset raftnodeNodesKey (mb_id m) (mb_http m) s)"
  "kv_sets (registered m s) = kv_sets s" "kv_incrs (registered m s) = kv_incrs s"
  by (simp_all add: registered_def put_if_def mem_set_def mem_hset_def Let_def)

lemma registered_nodes: "mget (mem_hgetall (registered m s) raftnodeNodesKey) (mb_id m) = Some (mb_http m)"
  by (simp add: mem_hgetall_def mem_hset_def Let_def)

lemma view_set_other: "(\<And>j. k \<noteq> inoKey j \<and> k \<noteq> inodeLinkKey j) \<Longrightarrow> view (mem_set k v s) = view s"
  by (auto simp: view_def fun_eq_iff)

lemma view_registered [simp]: "view (registered m s) = view s"
proof -
  have "view (mem_hset raftnodeNodesKey i v s) = view s" for i v by (simp add: view_def fun_eq_iff)
  then show ?thesis by (simp add: registered_def put_if_def view_set_other)
qed

lemma listMembers_of: "mget (kv_hgetall s raftnodeNodesKey) i = Some h \<Longrightarrow> \<exists>e \<in> set (listMembers s). mb_id e = i \<and> mb_http e = h"
  by (force simp: listMembers_def dest: map_of_SomeD)

lemma admit_registers:
  assumes "member_ok m" "Admit re m nd = (Inr ms, nd')"
  shows "\<exists>e \<in> set ms. mb_id e = mb_id m \<and> mb_http e = mb_http m" "ms = listMembers (nd_kv nd')"
proof -
  have "(known_member re nd m \<and> ms = listMembers (nd_kv nd) \<and> nd' = nd)
    \<or> (\<exists>s1 v s2. kv_batch (registerOps m) (nd_kv nd) = (Inr (), s1) \<and> kv_incr EpochKey s1 = (Inr v, s2) \<and> ms = listMembers s2
         \<and> nd' = nd\<lparr>nd_kv := s2\<rparr>)"
    using assms(2) by (auto simp: Admit_def split: if_splits sum.splits prod.splits)
  then have "ms = listMembers (nd_kv nd') \<and> (\<exists>e \<in> set ms. mb_id e = mb_id m \<and> mb_http e = mb_http m)"
  proof (elim disjE exE conjE)
    fix s1 v s2
    assume b: "kv_batch (registerOps m) (nd_kv nd) = (Inr (), s1)" and i: "kv_incr EpochKey s1 = (Inr v, s2)" and e: "ms = listMembers s2"
      and n: "nd' = nd\<lparr>nd_kv := s2\<rparr>"
    have "kv_mem s1 = registered m (kv_mem (nd_kv nd))"
      using kvb.batch_ok [OF registerOps_good [OF assms(1)] b] by (simp add: mem_batch_register)
    moreover have "kv_hash (kv_mem s2) = kv_hash (kv_mem s1)" using kv_incr_ok(2) [OF _ i] by (simp add: mem_incr_def Let_def)
    ultimately have "mget (kv_hgetall s2 raftnodeNodesKey) (mb_id m) = Some (mb_http m)"
      using registered_nodes [of m "kv_mem (nd_kv nd)"] by (simp add: kv_reads mem_hgetall_def)
    with e n show ?thesis using listMembers_of by auto
  qed (auto simp: known_member_def)
  then show "ms = listMembers (nd_kv nd')" "\<exists>e \<in> set ms. mb_id e = mb_id m \<and> mb_http e = mb_http m" by auto
qed

text \<open>The answer of a node to a request to join, as the text of the HTTP response.\<close>

definition join_answer_text :: "admin_answer \<Rightarrow> nat \<times> bytes" where
  "join_answer_text a = writeJSON (fst a) (response_zero\<lparr>fr_nodes := ar_nodes (snd a), fr_leader := ar_leader (snd a), fr_error := ar_error (snd a)\<rparr>)"

definition ask_node :: "raft_env \<Rightarrow> string option \<Rightarrow> node \<Rightarrow> exchange" where
  "ask_node re leader nd url body = Inr (join_answer_text (fst (handleJoin re leader ''POST'' body nd)))"

lemma redirect_text:
  assumes "valid_utf8 l"
  shows "redirect_leader (snd (writeJSON code (response_zero\<lparr>fr_leader := l\<rparr>))) = l"
proof -
  have v: "valid_utf8 ''leader''" by (simp add: valid_utf8_Cons_ascii)
  show ?thesis
  proof (cases "l = []")
    case True
    have "unmarshal (dec_struct set_leader_field) [] (json_print (JObj []) @ [CHR 0x0A]) = Inr []"
      using json_parse_line [of "[]"] by (simp add: unmarshal_def dec_struct_def)
    with True show ?thesis by (simp add: redirect_leader_def writeJSON_def enc_response_def response_zero_def omit_def)
  next
    case False
    have "unmarshal (dec_struct set_leader_field) [] (json_print (JObj [(''leader'', JStr l)]) @ [CHR 0x0A]) = Inr l"
      using json_parse_line [of "[(''leader'', JStr l)]"] assms v by (simp add: unmarshal_def dec_struct_def set_leader_field_def)
    with False show ?thesis by (simp add: redirect_leader_def writeJSON_def enc_response_def response_zero_def omit_def)
  qed
qed

text \<open>
  C20. Joining a cluster is what it says. When the request of a joining node is accepted, the node that took it is the leader, and its
  member list then has an entry with the id and the HTTP address of the new node, whatever the Raft library did on the way. A node
  that is not the leader and knows who is sends the joining node there, and one that does not know makes it try again; neither
  changes anything.
\<close>

theorem join_accepted_is_member:
  assumes "member_ok m"
  shows "(joinOnce (ask_node re leader nd) url prefix m = Joined \<longrightarrow>
      IsLeader nd \<and> (\<exists>e \<in> set (listMembers (nd_kv (snd (handleJoin re leader ''POST'' (join_body m) nd)))).
        mb_id e = mb_id m \<and> mb_http e = mb_http m))
    \<and> (\<not> IsLeader nd \<longrightarrow> valid_utf8 (leader_or_empty leader nd) \<longrightarrow>
        joinOnce (ask_node re leader nd) url prefix m =
          (if leader_or_empty leader nd = [] then JoinFailed (join_status 307) else Redirect (leader_or_empty leader nd) (join_status 307))
        \<and> snd (handleJoin re leader ''POST'' (join_body m) nd) = nd)"
proof (intro conjI impI)
  assume joined: "joinOnce (ask_node re leader nd) url prefix m = Joined"
  show lead: "IsLeader nd"
  proof (rule ccontr)
    assume "\<not> IsLeader nd"
    then show False using joined
      by (simp add: joinOnce_def ask_node_def handleJoin_def redirect_def join_answer_text_def writeJSON_def split: if_splits)
  qed
  obtain r nd1 where j: "service_join re m nd = (r, nd1)" by fastforce
  have "\<not> isl r"
    using joined lead j
    by (cases r) (simp_all add: joinOnce_def ask_node_def handleJoin_def decode_join_body [OF assms] admin_error_def join_answer_text_def writeJSON_def)
  then obtain ns where r: "r = Inr ns" by (cases r) auto
  obtain ms nd0 where a: "Admit re m nd = (Inr ms, nd0)" "nd1 = recomputeChainStates (snd (syncClusterEpoch nd0))"
    using j r by (auto simp: service_join_def split: prod.splits sum.splits)
  have "core nd1 = core nd0" by (simp add: a(2))
  then have "nd_kv nd1 = nd_kv nd0" by (simp add: core_def)
  then show "\<exists>e \<in> set (listMembers (nd_kv (snd (handleJoin re leader ''POST'' (join_body m) nd)))). mb_id e = mb_id m \<and> mb_http e = mb_http m"
    using admit_registers [OF assms a(1)] lead j r by (simp add: handleJoin_def decode_join_body [OF assms])
next
  assume nl: "\<not> IsLeader nd" and v: "valid_utf8 (leader_or_empty leader nd)"
  have "fst (handleJoin re leader ''POST'' (join_body m) nd) = (307, admin_zero\<lparr>ar_leader := leader_or_empty leader nd\<rparr>)"
    using nl by (simp add: handleJoin_def redirect_def)
  then have t: "join_answer_text (fst (handleJoin re leader ''POST'' (join_body m) nd)) = writeJSON 307 (response_zero\<lparr>fr_leader := leader_or_empty leader nd\<rparr>)"
    by (simp add: join_answer_text_def admin_zero_def response_zero_def)
  then show "joinOnce (ask_node re leader nd) url prefix m =
      (if leader_or_empty leader nd = [] then JoinFailed (join_status 307) else Redirect (leader_or_empty leader nd) (join_status 307))"
    using redirect_text [OF v, of 307] by (simp add: joinOnce_def ask_node_def writeJSON_def)
  show "snd (handleJoin re leader ''POST'' (join_body m) nd) = nd" using nl by (simp add: handleJoin_def)
qed

definition witness_member :: member where
  "witness_member = \<lparr>mb_id = ''n2'', mb_http = ''http://b'', mb_raft = ''b:19802'', mb_grpc = [], mb_rdma = []\<rparr>"

definition witness_raft :: raft_env where
  "witness_raft = \<lparr>re_servers = Inr [(''n2'', ''b:19802'')], re_add = (\<lambda>_ _. None), re_remove = (\<lambda>_. None), re_reach = (\<lambda>_. None)\<rparr>"

definition witness_leader :: node where
  "witness_leader = NewService ''n1'' ''http://a'' []
     \<lparr>kv_raft = Some \<lparr>r_plan = (\<lambda>_. Commit), r_tick = 0\<rparr>, kv_mem = registered witness_member new_memory_kv\<rparr> (MemoryStore []) 2 0 0"

theorem join_accepted_is_member_witness:
  "joinOnce (ask_node witness_raft None witness_leader) ''http://a'' [] witness_member = Joined
   \<and> (\<exists>e \<in> set (listMembers (nd_kv (snd (handleJoin witness_raft None ''POST'' (join_body witness_member) witness_leader)))).
        mb_id e = ''n2'' \<and> mb_http e = ''http://b'')"
proof -
  have ok: "member_ok witness_member" by (simp add: member_ok_def witness_member_def valid_utf8_Cons_ascii)
  have kv: "nd_kv witness_leader = \<lparr>kv_raft = Some \<lparr>r_plan = (\<lambda>_. Commit), r_tick = 0\<rparr>, kv_mem = registered witness_member new_memory_kv\<rparr>"
    by (simp add: witness_leader_def NewService_def)
  have lead: "IsLeader witness_leader" by (simp add: IsLeader_def kv is_leader_def)
  have "mget (kv_hgetall (nd_kv witness_leader) raftnodeNodesKey) (mb_id witness_member) = Some (mb_http witness_member)"
    using registered_nodes by (simp add: kv kv_reads)
  then have known: "known_member witness_raft witness_leader witness_member"
    using listMembers_of by (fastforce simp: known_member_def ServerAddress_def kv witness_raft_def witness_member_def)
  have "\<exists>ns nd'. service_join witness_raft witness_member witness_leader = (Inr ns, nd')"
    using lead known by (simp add: service_join_def Admit_def witness_member_def)
  then have "joinOnce (ask_node witness_raft None witness_leader) ''http://a'' [] witness_member = Joined"
    using lead decode_join_body [OF ok]
    by (auto simp: joinOnce_def ask_node_def handleJoin_def join_answer_text_def writeJSON_def)
  with join_accepted_is_member [OF ok] show ?thesis by (metis (no_types, lifting) member.select_convs(1,2) witness_member_def)
qed

section \<open>A node that runs alone\<close>

definition root_store :: "u32 \<Rightarrow> u32 \<Rightarrow> int \<Rightarrow> kv" where
  "root_store uid gid now = mem_store (snd (mem_batch (root_ops uid gid now) new_memory_kv))"

lemma init_root_new: "initRoot uid gid now (mem_store new_memory_kv) = (Inr (), root_store uid gid now)"
  by (simp add: initRoot_def root_store_def root_ops_def kv_reads mem_exists_def mem_store_def new_memory_kv_def kv_batch_def with_raft_def)

lemma root_store_facts:
  assumes "in_int64 now"
  shows "GetAttr (root_store uid gid now) rootIno = Inr (root_attr uid gid now)" "kv_exists (root_store uid gid now) (inoKey rootIno)"
    "meta_inv (kv_mem (root_store uid gid now))"
proof -
  show ex: "kv_exists (root_store uid gid now) (inoKey rootIno)"
    by (simp add: root_store_def root_ops_def mem_store_def kv_reads mem_exists_def mem_set_def mem_sadd_def mem_incr_def Let_def)
  show "GetAttr (root_store uid gid now) rootIno = Inr (root_attr uid gid now)"
    using assms by (simp add: GetAttr_def root_store_def root_ops_def mem_store_def kv_reads mem_get_def unmarshal_marshal_attr)
  show "meta_inv (kv_mem (root_store uid gid now))"
    by (rule meta_inv_init [OF _ assms init_root_new ex]) (simp add: mem_store_def)
qed

lemma ensure_root_store:
  assumes "in_int64 now" "rounds \<noteq> []"
  shows "ensureRootAsLeader uid gid now rounds (root_store uid gid now) = (Inr (), root_store uid gid now)"
proof -
  have "kv_raft (root_store uid gid now) = None" by (simp add: root_store_def mem_store_def)
  then show ?thesis using assms root_store_facts [OF assms(1)] by (cases rounds) (simp_all add: initRoot_def)
qed

lemma root_store_empty [simp]:
  "kv_hgetall (root_store uid gid now) raftnodeNodesKey = []" "ListIndexed (root_store uid gid now) = []"
  by (simp_all add: root_store_def root_ops_def mem_store_def new_memory_kv_def kv_reads mem_hgetall_def ListIndexed_def mem_smembers_def
      mem_set_def mem_sadd_def mem_incr_def Let_def)

text \<open>What the cluster settings and the chain states do not touch.\<close>

lemma load_config_core [simp]:
  "core (LoadClusterConfig nd) = core nd" "nd_http (LoadClusterConfig nd) = nd_http nd" "nd_id (LoadClusterConfig nd) = nd_id nd"
  by (simp_all add: LoadClusterConfig_def core_def Let_def split: sum.split)

lemma recompute_http_life [simp]: "nd_http (recomputeChainStates nd) = nd_http nd" "lc_state (nd_life (recomputeChainStates nd)) = lc_state (nd_life nd)"
proof -
  have "nd_http (fold (recompute_chain e) t n) = nd_http n \<and> nd_life (fold (recompute_chain e) t n) = nd_life n" for e t n
    by (induction t arbitrary: n) (simp_all add: recompute_chain_def Let_def)
  then show "nd_http (recomputeChainStates nd) = nd_http nd" "lc_state (nd_life (recomputeChainStates nd)) = lc_state (nd_life nd)"
    by (simp_all add: recomputeChainStates_def syncClusterEpoch_def SetEpoch_def split: sum.split prod.split)
qed

lemma mput_empty: "mput k v [] = [(k, v)]"
  by (simp add: mput_def)

lemma rebuild_nothing: "ListIndexed s = [] \<Longrightarrow> Rebuild fetch os self rf s nodes st = ((0, Inr ()), st)"
  by (simp add: Rebuild_def)

lemma ready_nothing:
  assumes "mget cl u = Some nd" "ListIndexed (nd_kv nd) = []"
  shows "mget (Ready en u cl) u = Some (recomputeChainStates (nd\<lparr>nd_life := life_ready (nd_life nd)\<rparr>))"
proof -
  let ?nd = "recomputeChainStates (nd\<lparr>nd_life := life_ready (nd_life nd)\<rparr>)"
  have "core ?nd = core nd" by (simp add: core_def [of nd] core_def [of "nd\<lparr>nd_life := l\<rparr>" for l])
  then have "nd_kv ?nd = nd_kv nd" by (simp add: core_def)
  then show ?thesis
    using assms by (simp add: Ready_def service_rebuild_def update_node_def rebuild_nothing)
qed

text \<open>
  C19. A node started with \<^verbatim>\<open>-standalone\<close> comes up ready: if its chunk store opens, all steps of the start succeed, and the node is
  leader, accepts chunks, has itself as the only member and the chunks it found in its store, and serves a file system whose root has
  the attributes of the start. Its state satisfies the invariants that all later requests keep: the one of the file system and the ones of
  the key-value store, the chunk store and the repair queue.
\<close>

theorem standalone_comes_up:
  assumes "nf_standalone fl" "rounds \<noteq> []" "in_int64 now" "st_inv st"
    and "OpenStoreWithOptions os files (nf_backend fl) (flags_chunk_dir fl) (nf_quota_gb fl) = Inr st"
  shows "\<exists>cl' nd. runNode lib os files uid gid now rounds en fl cl = Inr cl' \<and> mget cl' (flags_url fl) = Some nd
    \<and> IsLeader nd \<and> AcceptsChunks (nd_life nd) \<and> ListNodes (nd_kv nd) = [flags_url fl] \<and> nd_http nd = flags_url fl \<and> nd_store nd = st
    \<and> GetAttr (nd_kv nd) rootIno = Inr (root_attr uid gid now) \<and> meta_inv (kv_mem (nd_kv nd)) \<and> node_ok nd"
proof -
  let ?s = "root_store uid gid now"
  let ?new = "NewService (nf_id fl) (flags_url fl) (nf_prefix fl) ?s st (nf_rf fl) (nf_quota_gb fl) (nf_default_ttl fl)"
  define nd0 where "nd0 = LoadClusterConfig ?new"
  have start: "Start lib (flags_raft fl) = Inr (mem_store new_memory_kv)" using assms(1) by (simp add: Start_def flags_raft_def)
  have build: "build_node lib os files uid gid now rounds fl = Inr nd0"
    using assms(1,5) ensure_root_store [OF assms(3,2)] by (simp add: build_node_def start init_root_new nd0_def)
  have "core nd0 = core ?new" by (simp add: nd0_def)
  then have nd0: "nd_kv nd0 = ?s" "nd_store nd0 = st" "nd_queue nd0 = []"
    by (simp_all add: core_def NewService_def NewRepairQueue_def)
  have id0: "nd_http nd0 = flags_url fl" "nd_id nd0 = nf_id fl" by (simp_all add: nd0_def NewService_def)
  let ?m = "flags_member fl"
  let ?kv = "mem_store (registered ?m (kv_mem ?s))"
  have raft: "kv_raft ?s = None" by (simp add: root_store_def mem_store_def)
  have reg: "snd (RegisterSelf ?m nd0) = nd0\<lparr>nd_kv := ?kv\<rparr>"
  proof -
    have m: "(if mb_id ?m = [] then ?m\<lparr>mb_id := nd_id nd0\<rparr> else ?m) = ?m" by (simp add: id0 flags_member_def)
    have "kv_batch (registerOps ?m) ?s = (Inr (), ?kv)"
      using raft by (simp add: kv_batch_def with_raft_def mem_batch_register mem_store_def)
    then show ?thesis unfolding RegisterSelf_def Let_def m by (simp add: with_kv_def nd0)
  qed
  let ?nd1 = "nd0\<lparr>nd_kv := ?kv\<rparr>"
  define nd where "nd = recomputeChainStates (?nd1\<lparr>nd_life := life_ready (nd_life ?nd1)\<rparr>)"
  have idx: "ListIndexed ?kv = []"
    using root_store_empty(2) [of uid gid now] by (simp add: ListIndexed_def kv_reads mem_store_def mem_smembers_def)
  have run: "runNode lib os files uid gid now rounds en fl cl = Inr (Ready en (flags_url fl) (mput (flags_url fl) ?nd1 cl))"
    using assms(1) by (simp add: runNode_def build reg)
  have at: "mget (Ready en (flags_url fl) (mput (flags_url fl) ?nd1 cl)) (flags_url fl) = Some nd"
    unfolding nd_def by (rule ready_nothing) (simp_all add: idx)
  have "core nd = core (?nd1\<lparr>nd_life := life_ready (nd_life ?nd1)\<rparr>)" by (simp add: nd_def)
  then have parts: "nd_kv nd = ?kv" "nd_store nd = st" "nd_queue nd = []" by (simp_all add: core_def nd0)
  have view: "view (kv_mem ?kv) = view (kv_mem ?s)" by (simp add: mem_store_def)
  have wf: "mem_wf (kv_mem ?kv)"
    using root_store_facts(3) [OF assms(3)] mem_wf_batch [of "kv_mem ?s" "registerOps ?m"]
    by (simp add: meta_inv_def mem_batch_register mem_store_def)
  have inv: "meta_inv (kv_mem ?kv)" using root_store_facts(3) [OF assms(3)] wf view by (simp add: meta_inv_def)
  have attr: "GetAttr ?kv rootIno = Inr (root_attr uid gid now)"
    using root_store_facts(1) [OF assms(3), of uid gid] view by (simp add: GetAttr_def view_reads)
  have nodes: "ListNodes ?kv = [flags_url fl]"
    using root_store_empty(1) [of uid gid now]
    by (auto simp: mput_empty ListNodes_def kv_reads mem_hgetall_def mem_store_def mem_hset_def Let_def flags_member_def split: option.splits)
  have "node_ok nd" using wf assms(4) by (simp add: node_ok_def parts queue_ok_def)
  moreover have "IsLeader nd" by (simp add: IsLeader_def parts mem_store_def)
  moreover have "AcceptsChunks (nd_life nd)" by (simp add: nd_def AcceptsChunks_def life_ready_def)
  moreover have "nd_http nd = flags_url fl" by (simp add: nd_def id0)
  ultimately show ?thesis using run at parts inv attr nodes by auto
qed

definition witness_flags :: node_flags where
  "witness_flags = \<lparr>nf_id = ''n1'', nf_http = '':19800'', nf_advertise_http = [], nf_grpc = '':19801'', nf_rdma = '':19803'', nf_raft = '':19802'',
     nf_advertise_raft = [], nf_data = ''./data'', nf_chunk_dir = [], nf_backend = ''memory'', nf_rf = 2, nf_quota_gb = 0, nf_default_ttl = 0,
     nf_bootstrap = False, nf_standalone = True, nf_prefix = []\<rparr>"

theorem standalone_comes_up_witness:
  "flags_url witness_flags = ''http://127.0.0.1:19800'' \<and> flags_chunk_dir witness_flags = ''data/n1/chunks''
   \<and> (\<forall>lib en. \<exists>cl' nd. runNode lib None [] 0 0 1000 [id] en witness_flags [] = Inr cl' \<and> mget cl' ''http://127.0.0.1:19800'' = Some nd
         \<and> meta_inv (kv_mem (nd_kv nd)) \<and> node_ok nd)"
proof -
  have url: "flags_url witness_flags = ''http://127.0.0.1:19800''"
    by (simp add: flags_url_def witness_flags_def normalizeHTTP_def has_prefix_def)
  have dir: "flags_chunk_dir witness_flags = ''data/n1/chunks''"
    by (simp add: flags_chunk_dir_def flags_data_dir_def witness_flags_def filepath_join_def filepath_clean_def trim_suffix_def has_suffix_def
        has_prefix_def Let_def)
  have "OpenStoreWithOptions None [] (nf_backend witness_flags) d (nf_quota_gb witness_flags) = Inr (MemoryStore [])" for d
    by (simp add: OpenStoreWithOptions_def witness_flags_def)
  moreover have "nf_standalone witness_flags" "st_inv (MemoryStore [])" "in_int64 1000" "[id] \<noteq> ([] :: (kv \<Rightarrow> kv) list)"
    by (simp_all add: witness_flags_def ms_inv_def in_int64_def)
  ultimately have "\<exists>cl' nd. runNode lib None [] 0 0 1000 [id] en witness_flags [] = Inr cl' \<and> mget cl' ''http://127.0.0.1:19800'' = Some nd
         \<and> meta_inv (kv_mem (nd_kv nd)) \<and> node_ok nd" for lib en
    using standalone_comes_up [of witness_flags "[id]" 1000 "MemoryStore []" None "[]" lib 0 0 en "[]"] url by auto
  with url dir show ?thesis by blast
qed

section \<open>Pods and settings\<close>

text \<open>In a stateful set the pod with ordinal 0 bootstraps and every other pod joins it, at one address that depends on the set only.\<close>

lemma last_index_append: "c \<notin> set t \<Longrightarrow> last_index c (s @ c # t) = Some (length s)"
proof -
  assume "c \<notin> set t"
  then have "takeWhile (\<lambda>x. x \<noteq> c) (rev t @ c # rev s) = rev t" by (subst takeWhile_append2) auto
  then show ?thesis by (simp add: last_index_def index_char_def)
qed

lemma pod_roles:
  assumes "env ''POD_NAME'' = base @ CHR ''-'' # ord" "CHR ''-'' \<notin> set ord" "ord \<noteq> []"
    and "\<not> envBool env ''MEMORYFS_BOOTSTRAP''" "\<not> envBool env ''MEMORYFS_STANDALONE''" "env ''MEMORYFS_JOIN'' = []"
    and "env ''MEMORYFS_HEADLESS_SERVICE'' = svc" "svc \<noteq> []"
  shows "pod_role env port =
     (if ord = ''0'' then (True, [])
      else (False, ''http://'' @ base @ ''-0.'' @ svc @ ''.'' @ envOr env ''POD_NAMESPACE'' ''default'' @ ''.svc:'' @ port))"
  using assms by (simp add: pod_role_def lastDashOrdinal_def stripLastDashSegment_def last_index_append Let_def)

text \<open>A saved token is not used by a command that is given the nodes and the prefix, although it has no token of its own.\<close>

lemma saved_token_dropped:
  assumes "firstNode seed \<noteq> []" "prefix \<noteq> []" "env ''MEMORYFS_API_TOKEN'' = []"
  shows "ci_token (resolveConn env (Inr cfg) seed prefix []) = []"
  using assms by (simp add: resolveConn_def conn_seed_def Let_def)

lemma resolved_seed: "ci_seed (resolveConn env load seed prefix token) \<noteq> []"
  by (auto simp: resolveConn_def Let_def default_url_def)

end
