(* ===== verification/Cli_Config.thy ===== *)
theory Cli_Config
  imports Commands
begin

text \<open>
  The file in which a mount leaves its connection for the other commands (\<^verbatim>\<open>cliconfig/config.go\<close>), and \<^verbatim>\<open>memoryfs config\<close>
  (\<^verbatim>\<open>cmd/memoryfs/config.go\<close>). The files are a map from paths to contents; what the system calls of \<open>Save\<close> answer is an argument, and
  \<open>Save\<close> gives the files after each of its calls, so that what another process can see in between is part of the model. The modes of files are left
  out. Time stamps are kept as text; which texts are times is an argument.
\<close>

section \<open>The JSON of the configuration\<close>

definition zero_time :: string where "zero_time = ''0001-01-01T00:00:00Z''"

definition config_zero :: cli_config where
  "config_zero = \<lparr>cf_nodes = [], cf_prefix = [], cf_token = [], cf_mount = [], cf_leader = [], cf_rf = 0, cf_updated = None\<rparr>"

text \<open>A list of no nodes is Go's nil slice.\<close>

definition enc_config :: "cli_config \<Rightarrow> json" where
  "enc_config c = JObj (
     (''nodes'', if cf_nodes c = [] then JNull else JArr (map JStr (cf_nodes c)))
     # omit ''uri_prefix'' (JStr (cf_prefix c)) (cf_prefix c = [])
     @ omit ''api_token'' (JStr (cf_token c)) (cf_token c = [])
     @ omit ''mount_point'' (JStr (cf_mount c)) (cf_mount c = [])
     @ omit ''leader'' (JStr (cf_leader c)) (cf_leader c = [])
     @ omit ''replica_factor'' (enc_int (cf_rf c)) (cf_rf c = 0)
     @ [(''updated_at'', JStr (case cf_updated c of None \<Rightarrow> zero_time | Some t \<Rightarrow> t))])"

definition dec_time :: "(string \<Rightarrow> bool) \<Rightarrow> json \<Rightarrow> string option \<Rightarrow> string option res" where
  "dec_time time_ok j old = (case j of
     JStr s \<Rightarrow> if time_ok s then Inr (if s = zero_time then None else Some s) else Inl json_err
   | JNull \<Rightarrow> Inr old
   | _ \<Rightarrow> Inl json_err)"

definition set_config_field :: "(string \<Rightarrow> bool) \<Rightarrow> string \<Rightarrow> json \<Rightarrow> cli_config \<Rightarrow> cli_config res" where
  "set_config_field time_ok k j c =
     (if k = ''nodes'' then map_sum id (\<lambda>x. c\<lparr>cf_nodes := x\<rparr>) (dec_list (\<lambda>j. dec_string j []) j (cf_nodes c))
      else if k = ''uri_prefix'' then map_sum id (\<lambda>x. c\<lparr>cf_prefix := x\<rparr>) (dec_string j (cf_prefix c))
      else if k = ''api_token'' then map_sum id (\<lambda>x. c\<lparr>cf_token := x\<rparr>) (dec_string j (cf_token c))
      else if k = ''mount_point'' then map_sum id (\<lambda>x. c\<lparr>cf_mount := x\<rparr>) (dec_string j (cf_mount c))
      else if k = ''leader'' then map_sum id (\<lambda>x. c\<lparr>cf_leader := x\<rparr>) (dec_string j (cf_leader c))
      else if k = ''replica_factor'' then map_sum id (\<lambda>x. c\<lparr>cf_rf := x\<rparr>) (dec_int j (cf_rf c))
      else if k = ''updated_at'' then map_sum id (\<lambda>x. c\<lparr>cf_updated := x\<rparr>) (dec_time time_ok j (cf_updated c))
      else Inr c)"

section \<open>Saving and loading\<close>

type_synonym files = "(string, bytes) gomap"

text \<open>The answers of the system: an error, or none; the name of the temporary file; how much of a failed write reached it.\<close>

record save_os =
  so_mkdir :: "err option"
  so_temp :: "string res"
  so_write :: "(err \<times> nat) option"
  so_close :: "err option"
  so_chmod :: "err option"
  so_rename :: "err option"
  so_remove :: "err option"

text \<open>\<^verbatim>\<open>filepath.Dir\<close>.\<close>

definition filepath_dir :: "string \<Rightarrow> string" where
  "filepath_dir p = filepath_clean (rev (dropWhile (\<lambda>c. c \<noteq> CHR ''/'') (rev p)))"

definition save_error :: "string \<Rightarrow> err \<Rightarrow> err" where
  "save_error what e = ErrMsg (''cliconfig: '' @ what @ '': '' @ error_string e)"

definition config_bytes :: "cli_config \<Rightarrow> bytes" where
  "config_bytes c = json_indent (enc_config c) @ [CHR 0x0A]"

definition stamped :: "string \<Rightarrow> cli_config \<Rightarrow> cli_config" where
  "stamped now c = (if cf_updated c = None then c\<lparr>cf_updated := Some now\<rparr> else c)"

text \<open>The deferred removal of the temporary file, whose error is dropped.\<close>

definition removed :: "save_os \<Rightarrow> string \<Rightarrow> files \<Rightarrow> files" where
  "removed os tmp f = (case so_remove os of None \<Rightarrow> mdel tmp f | Some _ \<Rightarrow> f)"

text \<open>The calls after the temporary file has been created.\<close>

definition fill_temp :: "save_os \<Rightarrow> string \<Rightarrow> string \<Rightarrow> bytes \<Rightarrow> files \<Rightarrow> unit res \<times> files list" where
  "fill_temp os path tmp data f =
     (case so_write os of
        Some (e, n) \<Rightarrow> (Inl (save_error ''write'' e), [mput tmp (take n data) f])
      | None \<Rightarrow>
          (let f1 = mput tmp data f in
           case so_close os of Some e \<Rightarrow> (Inl (save_error ''close'' e), [f1]) | None \<Rightarrow>
           case so_chmod os of Some e \<Rightarrow> (Inl (save_error ''chmod'' e), [f1]) | None \<Rightarrow>
           case so_rename os of Some e \<Rightarrow> (Inl (save_error ''rename'' e), [f1]) | None \<Rightarrow>
             (Inr (), [f1, mput path data (mdel tmp f1)])))"

definition Save :: "save_os \<Rightarrow> string \<Rightarrow> string \<Rightarrow> cli_config option \<Rightarrow> files \<Rightarrow> unit res \<times> files list" where
  "Save os path now c f =
     (case c of
        None \<Rightarrow> (Inl (ErrMsg ''cliconfig: nil config''), [f])
      | Some cfg \<Rightarrow>
          (case so_mkdir os of
             Some e \<Rightarrow> (Inl (save_error (''mkdir '' @ filepath_dir path) e), [f])
           | None \<Rightarrow>
               (case so_temp os of
                  Inl e \<Rightarrow> (Inl (save_error ''tempfile'' e), [f])
                | Inr tmp \<Rightarrow>
                    let f0 = mput tmp [] f in
                    case fill_temp os path tmp (config_bytes (stamped now cfg)) f0 of
                      (r, fs) \<Rightarrow> (r, f0 # fs @ [removed os tmp (last fs)]))))"

definition not_exist :: "string \<Rightarrow> err" where
  "not_exist path = ErrMsg (''open '' @ path @ '': no such file or directory'')"

definition read_file :: "files \<Rightarrow> string \<Rightarrow> bytes res" where
  "read_file f path = (case mget f path of None \<Rightarrow> Inl (not_exist path) | Some d \<Rightarrow> Inr d)"

definition Load :: "(string \<Rightarrow> bool) \<Rightarrow> (string \<Rightarrow> bytes res) \<Rightarrow> string \<Rightarrow> cli_config res" where
  "Load time_ok rd path =
     (case rd path of
        Inl e \<Rightarrow> Inl e
      | Inr d \<Rightarrow>
          (case unmarshal (dec_struct (set_config_field time_ok)) config_zero d of
             Inl e \<Rightarrow> Inl (save_error (''parse '' @ path) e)
           | Inr c \<Rightarrow> Inr c))"

text \<open>The removal answers with an error or removes the file; that the file is not there is no error.\<close>

definition config_remove :: "err option \<Rightarrow> string \<Rightarrow> files \<Rightarrow> unit res \<times> files" where
  "config_remove oe path f =
     (if mget f path = None then (Inr (), f)
      else case oe of Some e \<Rightarrow> (Inl e, f) | None \<Rightarrow> (Inr (), mdel path f))"

section \<open>The configuration is read back\<close>

definition time_text :: "(string \<Rightarrow> bool) \<Rightarrow> string \<Rightarrow> bool" where
  "time_text time_ok t \<longleftrightarrow> time_ok t \<and> t \<noteq> zero_time \<and> valid_utf8 t"

definition config_ok :: "(string \<Rightarrow> bool) \<Rightarrow> cli_config \<Rightarrow> bool" where
  "config_ok time_ok c \<longleftrightarrow> list_all valid_utf8 (cf_nodes c) \<and> list_all valid_utf8 [cf_prefix c, cf_token c, cf_mount c, cf_leader c]
     \<and> in_int64 (cf_rf c) \<and> (case cf_updated c of None \<Rightarrow> True | Some t \<Rightarrow> time_text time_ok t)"

lemma stamped_ok: "config_ok time_ok c \<Longrightarrow> time_text time_ok now \<Longrightarrow> config_ok time_ok (stamped now c) \<and> cf_updated (stamped now c) \<noteq> None"
  by (auto simp: config_ok_def stamped_def)

lemma json_ok_config: "config_ok time_ok c \<Longrightarrow> cf_updated c \<noteq> None \<Longrightarrow> json_ok (enc_config c)"
  by (auto simp: config_ok_def enc_config_def omit_def list_all_iff time_text_def valid_utf8_Cons_ascii)

lemma config_names [simp]:
  "fold_name ''nodes'' = ''nodes''" "fold_name ''uri_prefix'' = ''uri_prefix''" "fold_name ''api_token'' = ''api_token''"
  "fold_name ''mount_point'' = ''mount_point''" "fold_name ''leader'' = ''leader''" "fold_name ''replica_factor'' = ''replica_factor''"
  "fold_name ''updated_at'' = ''updated_at''"
  by (simp_all add: fold_name_def lower_char_def)

lemma config_strings:
  "cf_prefix c = [] \<Longrightarrow> dec_members (set_config_field ok) (omit ''uri_prefix'' (JStr s) (s = []) @ ms) c = dec_members (set_config_field ok) ms (c\<lparr>cf_prefix := s\<rparr>)"
  "cf_token c = [] \<Longrightarrow> dec_members (set_config_field ok) (omit ''api_token'' (JStr s) (s = []) @ ms) c = dec_members (set_config_field ok) ms (c\<lparr>cf_token := s\<rparr>)"
  "cf_mount c = [] \<Longrightarrow> dec_members (set_config_field ok) (omit ''mount_point'' (JStr s) (s = []) @ ms) c = dec_members (set_config_field ok) ms (c\<lparr>cf_mount := s\<rparr>)"
  "cf_leader c = [] \<Longrightarrow> dec_members (set_config_field ok) (omit ''leader'' (JStr s) (s = []) @ ms) c = dec_members (set_config_field ok) ms (c\<lparr>cf_leader := s\<rparr>)"
  by (rule omit_step; simp add: set_config_field_def)+

lemma config_factor:
  "cf_rf c = 0 \<Longrightarrow> in_int64 i \<Longrightarrow>
     dec_members (set_config_field ok) (omit ''replica_factor'' (enc_int i) (i = 0) @ ms) c = dec_members (set_config_field ok) ms (c\<lparr>cf_rf := i\<rparr>)"
  by (rule omit_step; simp add: set_config_field_def parse_int64_format)

lemma config_nodes:
  "cf_nodes c = [] \<Longrightarrow> dec_members (set_config_field ok) ((''nodes'', if ns = [] then JNull else JArr (map JStr ns)) # ms) c
     = dec_members (set_config_field ok) ms (c\<lparr>cf_nodes := ns\<rparr>)"
  using dec_elems_map [of ns "\<lambda>j. dec_string j []" JStr id] by (simp add: set_config_field_def dec_list_def)

lemma dec_enc_config:
  assumes "config_ok time_ok c" "cf_updated c = Some t"
  shows "dec_struct (set_config_field time_ok) (enc_config c) config_zero = Inr c"
proof -
  have "in_int64 (cf_rf c)" "time_text time_ok t" using assms by (simp_all add: config_ok_def)
  moreover have "dec_members (set_config_field time_ok) [(''updated_at'', JStr t)] d = Inr (d\<lparr>cf_updated := Some t\<rparr>)" for d
    using \<open>time_text time_ok t\<close> by (simp add: set_config_field_def dec_time_def time_text_def)
  ultimately show ?thesis
    unfolding dec_struct_def enc_config_def json.case assms(2)
    by (simp add: config_nodes config_strings config_factor config_zero_def assms(2) del: dec_members.simps)
qed

lemma load_saved: "config_ok time_ok c \<Longrightarrow> cf_updated c \<noteq> None \<Longrightarrow> mget f path = Some (config_bytes c) \<Longrightarrow> Load time_ok (read_file f) path = Inr c"
  using json_parse_indent [OF json_ok_config] dec_enc_config
  by (auto simp: Load_def read_file_def config_bytes_def unmarshal_def)

section \<open>Saving is atomic\<close>

lemma fill_temp_states:
  assumes "fill_temp os path tmp data f = (r, fs)" "tmp \<noteq> path"
  shows "fs \<noteq> []" "g \<in> set fs \<Longrightarrow> mget g path = mget f path \<or> mget g path = Some data"
    and "mget (last fs) path = (if isl r then mget f path else Some data)"
    and "p \<noteq> path \<Longrightarrow> p \<noteq> tmp \<Longrightarrow> mget (last fs) p = mget f p"
  using assms by (auto simp: fill_temp_def Let_def split: option.splits prod.splits)

text \<open>
  C27. The saved configuration is replaced as a whole. Whichever system call of a save fails: in every state the files go through, the
  configuration file is the old one or the complete new one; after an error it is the old one, after a success it reads back, field by
  field, as the configuration that was saved, with its time stamp; and no other file changes but the temporary one.
\<close>

theorem config_save_atomic:
  assumes "config_ok time_ok cfg" "time_text time_ok now" "so_temp os = Inr tmp" "tmp \<noteq> path" "Save os path now (Some cfg) f = (r, fs)"
  shows "(\<forall>g \<in> set fs. mget g path = mget f path \<or> Load time_ok (read_file g) path = Inr (stamped now cfg))
     \<and> (case r of Inl e \<Rightarrow> mget (last fs) path = mget f path | Inr _ \<Rightarrow> Load time_ok (read_file (last fs)) path = Inr (stamped now cfg))
     \<and> (\<forall>p. p \<noteq> path \<and> p \<noteq> tmp \<longrightarrow> mget (last fs) p = mget f p)"
proof (cases "so_mkdir os")
  case (Some e)
  then show ?thesis using assms(5) by (auto simp: Save_def)
next
  case None
  let ?d = "config_bytes (stamped now cfg)" and ?f0 = "mput tmp [] f"
  obtain gs where g: "fill_temp os path tmp ?d ?f0 = (r, gs)" "fs = ?f0 # gs @ [removed os tmp (last gs)]"
    using assms(3,5) None by (auto simp: Save_def Let_def split: prod.splits)
  note F = fill_temp_states [OF g(1) assms(4)]
  have rm: "p \<noteq> tmp \<Longrightarrow> mget (removed os tmp h) p = mget h p" for p h by (simp add: removed_def split: option.split)
  have read: "mget h path = Some ?d \<Longrightarrow> Load time_ok (read_file h) path = Inr (stamped now cfg)" for h
    using load_saved stamped_ok [OF assms(1,2)] by simp
  have "mget h path = mget f path \<or> mget h path = Some ?d" if "h \<in> set fs" for h
    using that F(1) F(2) [of h] F(2) [of "last gs"] rm [of path "last gs"] assms(4) g(2) by auto
  then have "\<forall>h \<in> set fs. mget h path = mget f path \<or> Load time_ok (read_file h) path = Inr (stamped now cfg)" using read by blast
  moreover have "mget (last fs) path = (if isl r then mget f path else Some ?d)"
    using F(3) g(2) rm [of path "last gs"] assms(4) by auto
  moreover have "p \<noteq> path \<Longrightarrow> p \<noteq> tmp \<Longrightarrow> mget (last fs) p = mget f p" for p using F(4) g(2) rm [of p "last gs"] by simp
  ultimately show ?thesis using read by (auto split: sum.split)
qed

text \<open>A save of a mount's configuration, and a failed one.\<close>

definition demo_config :: cli_config where
  "demo_config = config_zero\<lparr>cf_nodes := [''http://10.0.0.1:19800'', ''http://10.0.0.2:19800''], cf_prefix := ''/memoryfs'', cf_rf := 2\<rparr>"

definition demo_os :: save_os where
  "demo_os = \<lparr>so_mkdir = None, so_temp = Inr ''/c/.config-1.json.tmp'', so_write = None, so_close = None, so_chmod = None, so_rename = None, so_remove = None\<rparr>"

definition demo_stamp :: string where "demo_stamp = ''2024-05-01T10:00:00Z''"

theorem config_save_atomic_witness:
  "\<exists>fs gs e. Save demo_os ''/c/config.json'' demo_stamp (Some demo_config) [] = (Inr (), fs)
     \<and> Load (\<lambda>t. t = demo_stamp) (read_file (last fs)) ''/c/config.json'' = Inr (stamped demo_stamp demo_config)
     \<and> Save (demo_os\<lparr>so_write := Some (ErrMsg ''no space left on device'', 5)\<rparr>) ''/c/config.json'' demo_stamp (Some demo_config) (last fs) = (Inl e, gs)
     \<and> mget (last gs) ''/c/config.json'' = mget (last fs) ''/c/config.json''"
proof -
  let ?bad = "demo_os\<lparr>so_write := Some (ErrMsg ''no space left on device'', 5)\<rparr>" and ?p = "''/c/config.json''" and ?ok = "\<lambda>t. t = demo_stamp"
  have ok: "config_ok ?ok demo_config" "time_text ?ok demo_stamp"
    by (simp_all add: config_ok_def demo_config_def config_zero_def time_text_def demo_stamp_def zero_time_def valid_utf8_Cons_ascii in_int64_def)
  have tmp: "so_temp demo_os = Inr ''/c/.config-1.json.tmp''" "so_temp ?bad = Inr ''/c/.config-1.json.tmp''" "''/c/.config-1.json.tmp'' \<noteq> ?p"
    by (simp_all add: demo_os_def)
  obtain fs where fs: "Save demo_os ?p demo_stamp (Some demo_config) [] = (Inr (), fs)"
    by (simp add: Save_def fill_temp_def demo_os_def Let_def)
  obtain e gs where gs: "Save ?bad ?p demo_stamp (Some demo_config) (last fs) = (Inl e, gs)"
    by (simp add: Save_def fill_temp_def demo_os_def Let_def)
  from config_save_atomic [OF ok tmp(1,3) fs] config_save_atomic [OF ok tmp(2,3) gs] fs gs show ?thesis by auto
qed

text \<open>Without flags and environment the other commands then use the saved connection.\<close>

lemma firstNode_join: "CHR '','' \<notin> set n \<Longrightarrow> n \<noteq> [] \<Longrightarrow> trim_space n = n \<Longrightarrow> firstNode (joinNodes (n # ns)) = trim_right_slash n"
proof -
  assume n: "CHR '','' \<notin> set n" "n \<noteq> []" "trim_space n = n"
  have "\<exists>t. fold (\<lambda>n out. if out = [] then n else out @ '','' @ n) ns m = m @ t \<and> (t = [] \<or> hd t = CHR '','')" if "m \<noteq> []" for m
    using that
  proof (induction ns arbitrary: m)
    case (Cons x ns)
    from Cons.IH [of "m @ '','' @ x"] Cons.prems show ?case by auto
  qed simp
  from this [OF n(2)] obtain t where t: "joinNodes (n # ns) = n @ t" "t = [] \<or> hd t = CHR '',''" by (auto simp: joinNodes_def)
  have "\<exists>ws. split_on CHR '','' (n @ t) = n # ws"
    using t(2) split_on_append_sep [OF n(1), of "tl t"] split_on_no_sep [OF n(1)] by (cases t) auto
  then show ?thesis using n t(1) by (auto simp: firstNode_def)
qed

lemma saved_connection:
  assumes "cf_nodes cfg = n # ns" "CHR '','' \<notin> set n" "n \<noteq> []" "trim_space n = n" "trim_right_slash n \<noteq> []"
    and "env ''MEMORYFS_NODES'' = []" "env ''MEMORYFS_URI_PREFIX'' = []" "env ''MEMORYFS_API_TOKEN'' = []"
  shows "resolveConn env (Inr cfg) [] [] [] =
     \<lparr>ci_seed = trim_right_slash n, ci_prefix = cf_prefix cfg, ci_token = cf_token cfg, ci_source = ''config''\<rparr>"
proof -
  have "firstNode [] = []" by (simp add: firstNode_def trim_space_def trim_left_char_def trim_right_char_def)
  then show ?thesis using firstNode_join [OF assms(2-4), of ns] assms
    by (simp add: resolveConn_def conn_seed_def with_config_def Let_def)
qed

section \<open>The command\<close>

text \<open>What a command prints and the code it exits with.\<close>

record cmd_result =
  cr_out :: string
  cr_err :: string
  cr_code :: nat

definition newline :: string where "newline = [CHR 0x0A]"

definition configUsage :: string where
  "configUsage = ''memoryfs config '' @ [CHR 0xE2, CHR 0x80, CHR 0x94] @ '' manage saved CLI connection info'' @ newline @ newline
     @ ''Subcommands:'' @ newline
     @ ''  show   print the saved config (mount writes this file on success)'' @ newline
     @ ''  path   print the file path'' @ newline
     @ ''  clear  delete the saved config'' @ newline @ newline
     @ ''The file stores nodes/uri-prefix/api-token from the last successful'' @ newline
     @ [CHR 0x22] @ ''memoryfs mount'' @ [CHR 0x22] @ '' so status/benchmark can be invoked without re-typing.'' @ newline
     @ ''Override location via $MEMORYFS_CONFIG.'' @ newline"

definition config_show :: "(string \<Rightarrow> bool) \<Rightarrow> (string \<Rightarrow> bytes res) \<Rightarrow> string \<Rightarrow> cmd_result" where
  "config_show time_ok rd path =
     (case Load time_ok rd path of
        Inl e \<Rightarrow>
          \<lparr>cr_out = [],
           cr_err = (if e = not_exist path then ''no saved config ('' @ path @ ''); run `memoryfs mount` first'' else ''load: '' @ error_string e) @ newline,
           cr_code = 1\<rparr>
      | Inr cfg \<Rightarrow> \<lparr>cr_out = config_bytes cfg, cr_err = [], cr_code = 0\<rparr>)"

definition runConfig :: "(string \<Rightarrow> bool) \<Rightarrow> err option \<Rightarrow> string \<Rightarrow> string list \<Rightarrow> files \<Rightarrow> cmd_result \<times> files" where
  "runConfig time_ok oe path args f =
     (case args of
        [] \<Rightarrow> (\<lparr>cr_out = [], cr_err = configUsage, cr_code = 2\<rparr>, f)
      | a # _ \<Rightarrow>
          (let sub = map lower_char a in
           if sub = ''show'' then (config_show time_ok (read_file f) path, f)
           else if sub = ''path'' then (\<lparr>cr_out = path @ newline, cr_err = [], cr_code = 0\<rparr>, f)
           else if sub = ''clear'' then
             (case config_remove oe path f of
                (Inl e, f') \<Rightarrow> (\<lparr>cr_out = [], cr_err = ''clear: '' @ error_string e @ newline, cr_code = 1\<rparr>, f')
              | (Inr _, f') \<Rightarrow> (\<lparr>cr_out = ''removed '' @ path @ newline, cr_err = [], cr_code = 0\<rparr>, f'))
           else if sub = ''help'' \<or> sub = ''-h'' \<or> sub = ''--help'' then (\<lparr>cr_out = configUsage, cr_err = [], cr_code = 0\<rparr>, f)
           else (\<lparr>cr_out = [], cr_err = ''unknown config subcommand: '' @ a @ newline @ newline @ configUsage, cr_code = 2\<rparr>, f)))"

text \<open>After \<open>clear\<close> there is no saved configuration, and \<open>show\<close> says so; a \<open>show\<close> after a save prints the bytes of the file.\<close>

lemma clear_then_show:
  assumes "runConfig time_ok oe path [''clear''] f = (r, f')" "cr_code r = 0"
  shows "runConfig time_ok oe' path [''show''] f' = (\<lparr>cr_out = [], cr_err = ''no saved config ('' @ path @ ''); run `memoryfs mount` first'' @ newline, cr_code = 1\<rparr>, f')"
proof -
  have "mget f' path = None" using assms
    by (auto simp: runConfig_def lower_char_def config_remove_def split: prod.splits sum.splits option.splits if_splits)
  then show ?thesis by (simp add: runConfig_def lower_char_def config_show_def Load_def read_file_def)
qed

lemma show_saved:
  assumes "config_ok time_ok c" "cf_updated c \<noteq> None" "mget f path = Some (config_bytes c)"
  shows "runConfig time_ok oe path [''show''] f = (\<lparr>cr_out = config_bytes c, cr_err = [], cr_code = 0\<rparr>, f)"
  using load_saved [OF assms] by (simp add: runConfig_def lower_char_def config_show_def)

end
