(* ===== verification/Workers.thy ===== *)
theory Workers
  imports Prelude "HOL-Library.Multiset"
begin

text \<open>
  The worker pool of the benchmark (\<^verbatim>\<open>runWorkers\<close> of \<^verbatim>\<open>cli/benchmark.go\<close>): goroutines that take the numbers of jobs from an unbuffered
  channel, a producer that offers the numbers in order and closes the channel, a channel for the first error, and a context that may be
  cancelled at any time. A step of \<open>pool_step\<close> is one action of one goroutine; every interleaving is a run. A job is one step: it changes the
  world \<open>'w\<close> and may fail. \<open>po_done\<close> and \<open>po_failed\<close> record which jobs have run; no step depends on them.
\<close>

section \<open>The pool\<close>

datatype worker = WIdle | WBusy nat | WExited

record 'w pool =
  po_next :: nat
  po_closed :: bool
  po_cancelled :: bool
  po_workers :: "worker list"
  po_err :: "err option"
  po_world :: 'w
  po_done :: "nat list"
  po_failed :: "nat list"

type_synonym 'w job = "nat \<Rightarrow> 'w \<Rightarrow> err option \<times> 'w"

definition pool_start :: "nat \<Rightarrow> nat \<Rightarrow> 'w \<Rightarrow> 'w pool" where
  "pool_start workers njobs w =
     \<lparr>po_next = 0, po_closed = False, po_cancelled = False, po_workers = replicate (min workers njobs) WIdle, po_err = None,
      po_world = w, po_done = [], po_failed = []\<rparr>"

text \<open>The buffer of the error channel holds one error; an error that finds it full is dropped.\<close>

definition send_err :: "err \<Rightarrow> err option \<Rightarrow> err option" where
  "send_err e c = (case c of None \<Rightarrow> Some e | Some x \<Rightarrow> Some x)"

inductive pool_step :: "nat \<Rightarrow> 'w job \<Rightarrow> 'w pool \<Rightarrow> 'w pool \<Rightarrow> bool" for njobs :: nat and job :: "'w job" where
  hand_out: "\<lbrakk>k < length (po_workers p); po_workers p ! k = WIdle; po_next p < njobs; \<not> po_closed p\<rbrakk> \<Longrightarrow>
    pool_step njobs job p (p\<lparr>po_next := Suc (po_next p), po_workers := (po_workers p)[k := WBusy (po_next p)]\<rparr>)"
| all_sent: "\<lbrakk>po_next p = njobs; \<not> po_closed p\<rbrakk> \<Longrightarrow> pool_step njobs job p (p\<lparr>po_closed := True\<rparr>)"
| stop_sending: "\<lbrakk>po_next p < njobs; po_cancelled p; \<not> po_closed p\<rbrakk> \<Longrightarrow> pool_step njobs job p (p\<lparr>po_closed := True\<rparr>)"
| job_done: "\<lbrakk>k < length (po_workers p); po_workers p ! k = WBusy i; job i (po_world p) = (None, w)\<rbrakk> \<Longrightarrow>
    pool_step njobs job p (p\<lparr>po_workers := (po_workers p)[k := WIdle], po_world := w, po_done := i # po_done p\<rparr>)"
| job_failed: "\<lbrakk>k < length (po_workers p); po_workers p ! k = WBusy i; job i (po_world p) = (Some e, w)\<rbrakk> \<Longrightarrow>
    pool_step njobs job p (p\<lparr>po_workers := (po_workers p)[k := WExited], po_world := w, po_err := send_err e (po_err p),
      po_failed := i # po_failed p\<rparr>)"
| no_more: "\<lbrakk>k < length (po_workers p); po_workers p ! k = WIdle; po_closed p\<rbrakk> \<Longrightarrow>
    pool_step njobs job p (p\<lparr>po_workers := (po_workers p)[k := WExited]\<rparr>)"
| cancel: "\<not> po_cancelled p \<Longrightarrow> pool_step njobs job p (p\<lparr>po_cancelled := True\<rparr>)"

inductive_cases pool_stepE [consumes 1, case_names hand_out all_sent stop_sending job_done job_failed no_more cancel]:
  "pool_step njobs job p q"

definition finished :: "'w pool \<Rightarrow> bool" where
  "finished p \<longleftrightarrow> (\<forall>x \<in> set (po_workers p). x = WExited)"

text \<open>What \<^verbatim>\<open>runWorkers\<close> returns once all workers have exited: the first error, else the error of the context.\<close>

definition pool_result :: "err \<Rightarrow> 'w pool \<Rightarrow> err option" where
  "pool_result ctx p = (case po_err p of Some e \<Rightarrow> Some e | None \<Rightarrow> if po_cancelled p then Some ctx else None)"

definition runWorkers :: "err \<Rightarrow> nat \<Rightarrow> nat \<Rightarrow> 'w job \<Rightarrow> 'w \<Rightarrow> 'w pool \<Rightarrow> bool" where
  "runWorkers ctx workers njobs job w p \<longleftrightarrow>
     (if njobs = 0 then p = pool_start workers njobs w
      else (pool_step njobs job)\<^sup>*\<^sup>* (pool_start workers njobs w) p \<and> finished p)"

section \<open>Invariant\<close>

fun held :: "worker \<Rightarrow> nat multiset" where
  "held (WBusy i) = {#i#}"
| "held _ = {#}"

definition busy :: "worker list \<Rightarrow> nat multiset" where
  "busy ws = sum_list (map held ws)"

lemma busy_update: "k < length ws \<Longrightarrow> busy (ws[k := x]) + held (ws ! k) = busy ws + held x"
proof (induction ws arbitrary: k)
  case (Cons w ws)
  then show ?case by (cases k) (auto simp: busy_def ac_simps)
qed simp

lemma busy_replicate [simp]: "busy (replicate n WIdle) = {#}"
  by (induction n) (auto simp: busy_def)

lemma busy_finished: "finished p \<Longrightarrow> busy (po_workers p) = {#}"
proof -
  have "\<forall>x \<in> set ws. x = WExited \<Longrightarrow> busy ws = {#}" for ws by (induction ws) (auto simp: busy_def)
  then show "finished p \<Longrightarrow> busy (po_workers p) = {#}" by (simp add: finished_def)
qed

text \<open>Every number that has been handed out is with one worker or has run once.\<close>

definition accounted :: "'w pool \<Rightarrow> bool" where
  "accounted p \<longleftrightarrow> mset (po_done p) + busy (po_workers p) + mset (po_failed p) = mset [0..<po_next p]"

lemma busy_take: "k < length ws \<Longrightarrow> ws ! k = WBusy i \<Longrightarrow> held x = {#} \<Longrightarrow> busy ws = add_mset i (busy (ws[k := x]))"
  using busy_update [of k ws x] by simp

lemma busy_idle: "k < length ws \<Longrightarrow> ws ! k = WIdle \<Longrightarrow> busy (ws[k := x]) = busy ws + held x"
  using busy_update [of k ws x] by simp

lemma accounted_step:
  assumes "pool_step njobs job p q" "accounted p"
  shows "accounted q"
  using assms(1)
proof (cases rule: pool_stepE)
  case (job_done k i w)
  with busy_take [of k "po_workers p" i WIdle] assms(2) show ?thesis by (simp add: accounted_def)
next
  case (job_failed k i e w)
  with busy_take [of k "po_workers p" i WExited] assms(2) show ?thesis by (simp add: accounted_def)
qed (use assms(2) busy_idle [of _ "po_workers p"] in \<open>auto simp: accounted_def\<close>)

text \<open>A worker only leaves on an error or a closed channel, and the error reported is that of a job.\<close>

definition pool_inv :: "nat \<Rightarrow> 'w job \<Rightarrow> 'w pool \<Rightarrow> bool" where
  "pool_inv njobs job p \<longleftrightarrow> accounted p \<and> po_next p \<le> njobs
     \<and> (po_closed p \<longrightarrow> po_next p = njobs \<or> po_cancelled p) \<and> (po_failed p = [] \<longleftrightarrow> po_err p = None)
     \<and> (WExited \<in> set (po_workers p) \<longrightarrow> po_closed p \<or> po_err p \<noteq> None)
     \<and> (\<forall>e. po_err p = Some e \<longrightarrow> (\<exists>i w. i \<in> set (po_failed p) \<and> fst (job i w) = Some e))"

lemma pool_inv_start: "pool_inv njobs job (pool_start workers njobs w)"
  by (auto simp: pool_inv_def accounted_def pool_start_def)

lemma set_update_other: "y \<in> set (xs[k := x]) \<Longrightarrow> y \<noteq> x \<Longrightarrow> y \<in> set xs"
  using set_update_subset_insert [of xs k x] by auto

lemma pool_inv_step:
  assumes "pool_step njobs job p q" "pool_inv njobs job p"
  shows "pool_inv njobs job q"
proof -
  have "accounted q" using accounted_step [OF assms(1)] assms(2) by (simp add: pool_inv_def)
  from assms(1) this show ?thesis
  proof (cases rule: pool_stepE)
    case (job_failed k i e w)
    then have "\<exists>w. fst (job i w) = Some e" by (intro exI [of _ "po_world p"]) simp
    with job_failed assms(2) \<open>accounted q\<close> show ?thesis
      by (cases "po_err p") (auto simp: pool_inv_def send_err_def)
  qed (use assms(2) in \<open>auto simp: pool_inv_def dest: set_update_other\<close>)
qed

lemma pool_inv_reach: "(pool_step njobs job)\<^sup>*\<^sup>* (pool_start workers njobs w) p \<Longrightarrow> pool_inv njobs job p"
  by (induction rule: rtranclp_induct) (auto intro: pool_inv_start pool_inv_step)

lemma pool_workers_length: "(pool_step njobs job)\<^sup>*\<^sup>* p q \<Longrightarrow> length (po_workers q) = length (po_workers p)"
  by (induction rule: rtranclp_induct) (auto elim: pool_stepE)

section \<open>Every run ends\<close>

fun weight :: "worker \<Rightarrow> nat" where
  "weight WIdle = 1"
| "weight (WBusy i) = 2"
| "weight WExited = 0"

definition pool_measure :: "nat \<Rightarrow> 'w pool \<Rightarrow> nat" where
  "pool_measure njobs p = 3 * (njobs - po_next p) + of_bool (\<not> po_closed p) + of_bool (\<not> po_cancelled p) + sum_list (map weight (po_workers p))"

lemma weight_update: "k < length ws \<Longrightarrow> sum_list (map weight (ws[k := x])) + weight (ws ! k) = sum_list (map weight ws) + weight x"
proof (induction ws arbitrary: k)
  case (Cons w ws)
  then show ?case by (cases k) auto
qed simp

lemma pool_step_measure:
  assumes "pool_step njobs job p q"
  shows "pool_measure njobs q < pool_measure njobs p"
  using assms
proof (cases rule: pool_stepE)
  case (hand_out k)
  with weight_update [of k "po_workers p" "WBusy (po_next p)"] show ?thesis by (simp add: pool_measure_def)
next
  case (job_done k i w)
  with weight_update [of k "po_workers p" WIdle] show ?thesis by (simp add: pool_measure_def)
next
  case (job_failed k i e w)
  with weight_update [of k "po_workers p" WExited] show ?thesis by (simp add: pool_measure_def)
next
  case (no_more k)
  with weight_update [of k "po_workers p" WExited] show ?thesis by (simp add: pool_measure_def)
qed (simp_all add: pool_measure_def)

lemma pool_progress:
  assumes "pool_inv njobs job p" "\<not> finished p"
  shows "\<exists>q. pool_step njobs job p q \<and> po_cancelled q = po_cancelled p"
proof -
  obtain x where "x \<in> set (po_workers p)" "x \<noteq> WExited" using assms(2) by (auto simp: finished_def)
  then obtain k where k: "k < length (po_workers p)" "po_workers p ! k = x" "x \<noteq> WExited" by (metis in_set_conv_nth)
  have le: "po_next p \<le> njobs" using assms(1) by (simp add: pool_inv_def)
  show ?thesis
  proof (cases x)
    case WIdle
    consider "po_closed p" | "\<not> po_closed p" "po_next p < njobs" | "\<not> po_closed p" "po_next p = njobs" using le by linarith
    then show ?thesis
    proof cases
      case 1
      show ?thesis by (rule exI, rule conjI, rule pool_step.no_more [OF k(1) k(2) [unfolded WIdle] 1]) simp
    next
      case 2
      show ?thesis by (rule exI, rule conjI, rule pool_step.hand_out [OF k(1) k(2) [unfolded WIdle] 2(2,1)]) simp
    next
      case 3
      show ?thesis by (rule exI, rule conjI, rule pool_step.all_sent [OF 3(2,1)]) simp
    qed
  next
    case (WBusy i)
    obtain r w where r: "job i (po_world p) = (r, w)" by fastforce
    show ?thesis
    proof (cases r)
      case None
      show ?thesis by (rule exI, rule conjI, rule pool_step.job_done [OF k(1) k(2) [unfolded WBusy], of job w]) (simp_all add: r None)
    next
      case (Some e)
      show ?thesis by (rule exI, rule conjI, rule pool_step.job_failed [OF k(1) k(2) [unfolded WBusy], of job e w]) (simp_all add: r Some)
    qed
  qed (use k in simp)
qed

text \<open>From every state a run can end, also one in which the context is not cancelled.\<close>

lemma pool_ends: "pool_inv njobs job p \<Longrightarrow> \<exists>q. (pool_step njobs job)\<^sup>*\<^sup>* p q \<and> finished q \<and> po_cancelled q = po_cancelled p"
proof (induction "pool_measure njobs p" arbitrary: p rule: less_induct)
  case less
  show ?case
  proof (cases "finished p")
    case False
    then obtain q where q: "pool_step njobs job p q" "po_cancelled q = po_cancelled p" using pool_progress less.prems by blast
    then show ?thesis using less.hyps [OF pool_step_measure [OF q(1)] pool_inv_step [OF q(1) less.prems]] converse_rtranclp_into_rtranclp by metis
  qed auto
qed

section \<open>The world of the jobs\<close>

lemma busy_member: "k < length ws \<Longrightarrow> ws ! k = WBusy i \<Longrightarrow> i \<in># busy ws"
  using busy_take [of k ws i WIdle] by simp

lemma busy_below: "pool_inv njobs job p \<Longrightarrow> k < length (po_workers p) \<Longrightarrow> po_workers p ! k = WBusy i \<Longrightarrow> i < njobs"
proof -
  assume I: "pool_inv njobs job p" and "k < length (po_workers p)" "po_workers p ! k = WBusy i"
  then have "i \<in># mset (po_done p) + busy (po_workers p) + mset (po_failed p)" using busy_member by auto
  with I show "i < njobs" by (auto simp: pool_inv_def accounted_def)
qed

text \<open>A fact about the jobs done so far and the world, kept by every job, holds all along.\<close>

lemma pool_world:
  assumes "(pool_step njobs job)\<^sup>*\<^sup>* (pool_start workers njobs w) p" "P {} w"
    and "\<And>i D v v'. i < njobs \<Longrightarrow> P D v \<Longrightarrow> job i v = (None, v') \<Longrightarrow> P (insert i D) v'"
    and "\<And>i D v v' e. i < njobs \<Longrightarrow> P D v \<Longrightarrow> job i v = (Some e, v') \<Longrightarrow> P D v'"
  shows "P (set (po_done p)) (po_world p)"
  using assms(1)
proof (induction rule: rtranclp_induct)
  case base
  then show ?case using assms(2) by (simp add: pool_start_def)
next
  case (step p q)
  note below = busy_below [OF pool_inv_reach [OF step.hyps(1)]]
  from step.hyps(2) show ?case
  proof (cases rule: pool_stepE)
    case (job_done k i v)
    with assms(3) [OF below [OF job_done(2,3)] step.IH job_done(4)] show ?thesis by simp
  next
    case (job_failed k i e v)
    with assms(4) [OF below [OF job_failed(2,3)] step.IH job_failed(4)] show ?thesis by simp
  qed (use step.IH in simp_all)
qed

lemma run_world:
  assumes "runWorkers ctx workers njobs job w p" "P {} w"
    and "\<And>i D v v'. i < njobs \<Longrightarrow> P D v \<Longrightarrow> job i v = (None, v') \<Longrightarrow> P (insert i D) v'"
    and "\<And>i D v v' e. i < njobs \<Longrightarrow> P D v \<Longrightarrow> job i v = (Some e, v') \<Longrightarrow> P D v'"
  shows "P (set (po_done p)) (po_world p)"
proof (cases "njobs = 0")
  case True
  with assms(1,2) show ?thesis by (simp add: runWorkers_def pool_start_def)
next
  case False
  then have "(pool_step njobs job)\<^sup>*\<^sup>* (pool_start workers njobs w) p" using assms(1) by (simp add: runWorkers_def)
  then show ?thesis by (rule pool_world) (fact assms)+
qed

lemma run_facts:
  assumes "0 < workers" "runWorkers ctx workers njobs job w p" "njobs \<noteq> 0"
  shows "pool_inv njobs job p" "mset (po_done p @ po_failed p) = mset [0..<po_next p]" "WExited \<in> set (po_workers p)"
proof -
  have run: "(pool_step njobs job)\<^sup>*\<^sup>* (pool_start workers njobs w) p" "finished p" using assms(2,3) by (simp_all add: runWorkers_def)
  show I: "pool_inv njobs job p" by (rule pool_inv_reach [OF run(1)])
  then show "mset (po_done p @ po_failed p) = mset [0..<po_next p]" using busy_finished [OF run(2)] by (simp add: pool_inv_def accounted_def)
  have "po_workers p \<noteq> []" using pool_workers_length [OF run(1)] assms(1,3) by (auto simp: pool_start_def)
  then show "WExited \<in> set (po_workers p)" using run(2) by (cases "po_workers p") (auto simp: finished_def)
qed

lemma run_all_done:
  assumes "0 < workers" "runWorkers ctx workers njobs job w p" "pool_result ctx p = None"
  shows "mset (po_done p) = mset [0..<njobs]" "po_failed p = []"
proof -
  have none: "po_err p = None" "\<not> po_cancelled p" using assms(3) by (auto simp: pool_result_def split: option.splits if_splits)
  have "mset (po_done p) = mset [0..<njobs] \<and> po_failed p = []"
  proof (cases "njobs = 0")
    case False
    note R = run_facts [OF assms(1,2) False]
    then show ?thesis using none by (auto simp: pool_inv_def)
  qed (use assms(2) in \<open>simp add: runWorkers_def pool_start_def\<close>)
  then show "mset (po_done p) = mset [0..<njobs]" "po_failed p = []" by simp_all
qed

text \<open>Jobs that cannot fail under an invariant of the world leave no error.\<close>

lemma run_no_error:
  assumes "runWorkers ctx workers njobs job w p" "Q w"
    and "\<And>i v. i < njobs \<Longrightarrow> Q v \<Longrightarrow> fst (job i v) = None \<and> Q (snd (job i v))"
  shows "po_err p = None"
proof (cases "njobs = 0")
  case False
  then have run: "(pool_step njobs job)\<^sup>*\<^sup>* (pool_start workers njobs w) p" using assms(1) by (simp add: runWorkers_def)
  then have "po_err p = None \<and> Q (po_world p)"
  proof (induction rule: rtranclp_induct)
    case base
    then show ?case using assms(2) by (simp add: pool_start_def)
  next
    case (step p q)
    note below = busy_below [OF pool_inv_reach [OF step.hyps(1)]]
    from step.hyps(2) show ?case by (cases rule: pool_stepE) (use step.IH assms(3) below in fastforce)+
  qed
  then show ?thesis by simp
qed (use assms(1) in \<open>simp add: runWorkers_def pool_start_def\<close>)

lemma run_exists: "\<exists>p. runWorkers ctx workers njobs job w p \<and> \<not> po_cancelled p"
proof -
  have "\<not> po_cancelled (pool_start workers njobs w)" by (simp add: pool_start_def)
  with pool_ends [OF pool_inv_start [of njobs job workers w]] show ?thesis unfolding runWorkers_def by (cases "njobs = 0") (simp, auto)
qed

section \<open>Properties\<close>

text \<open>
  The worker pool runs every job, once, and reports truly. However the goroutines are interleaved: when all workers have exited and the
  pool returns no error, every job has run exactly once and with success; when it returns an error, some job failed with it or
  it is the error of a cancelled context; and no job ever runs twice.
\<close>

lemma run_workers_correct:
  assumes "0 < workers" "runWorkers ctx workers njobs job w p"
  shows "distinct (po_done p @ po_failed p) \<and> set (po_done p @ po_failed p) \<subseteq> {..<njobs}
     \<and> (case pool_result ctx p of
          None \<Rightarrow> mset (po_done p) = mset [0..<njobs] \<and> po_failed p = []
        | Some e \<Rightarrow> e = ctx \<and> po_cancelled p \<or> (\<exists>i w. i \<in> set (po_failed p) \<and> fst (job i w) = Some e))"
proof (cases "njobs = 0")
  case True
  with assms(2) show ?thesis by (simp add: runWorkers_def pool_start_def pool_result_def)
next
  case False
  note R = run_facts [OF assms False]
  have "distinct (po_done p @ po_failed p)" using R(2) by (metis distinct_upt mset_eq_imp_distinct_iff)
  moreover have "set (po_done p @ po_failed p) \<subseteq> {..<njobs}" using mset_eq_setD [OF R(2)] R(1) by (auto simp: pool_inv_def)
  moreover have "po_err p = Some e \<Longrightarrow> \<exists>i w. i \<in> set (po_failed p) \<and> fst (job i w) = Some e" for e using R(1) by (simp add: pool_inv_def)
  ultimately show ?thesis using run_all_done [OF assms] by (auto simp: pool_result_def split: option.splits)
qed



end
