(* ===== verification/Mount_Correct.thy ===== *)
theory Mount_Correct
  imports Chunk_Api Craq_Correct
begin

text \<open>
  The chunk client on a node: what a mount writes and reads back. The first part is a node that serves
  before the cluster is formed (no member is registered, so it keeps chunks locally); it meets the
  contract \<open>chunk_io\<close>, and files written by appending are read back. The second part shows what the
  buffers lose when a block is overwritten.
\<close>

section \<open>A node that serves alone\<close>

definition url_ok :: "string \<Rightarrow> bool" where
  "url_ok u \<longleftrightarrow> csv_ok [u] \<and> CHR ''?'' \<notin> set u"

definition alone :: "string \<Rightarrow> cluster \<Rightarrow> bool" where
  "alone u cl \<longleftrightarrow> (\<exists>nd cs. cl = [(u, nd)] \<and> nd_prefix nd = [] \<and> ListNodes (nd_kv nd) = [] \<and> AcceptsChunks (nd_life nd)
     \<and> nd_meta nd = [] \<and> nd_store nd = MemoryStore cs)"

definition reaches :: "env \<Rightarrow> string \<Rightarrow> string \<Rightarrow> bool" where
  "reaches en client u \<longleftrightarrow> (\<exists>c. en_post en client u = Deliver c)"

abbreviation mount_client :: "string \<Rightarrow> int \<Rightarrow> chunk_client" where
  "mount_client u rf \<equiv> newChunkStore [u] rf []"

abbreviation mount_transport :: "nat \<Rightarrow> env \<Rightarrow> string \<Rightarrow> cluster chunk_transport" where
  "mount_transport hops en client \<equiv> http_transport hops en client None id"

lemma chain_single: "\<exists>r. ChainFor [x] k rf = Inr \<lparr>ch_id = 0, ch_targets = [\<lparr>tg_url = x, tg_role = r\<rparr>]\<rparr>"
proof -
  have "fnv32a k mod (1 :: u32) = 0" by (simp add: word_eq_iff_unsigned)
  moreover have "clamp_rf rf 1 = 1" by (auto simp: clamp_rf_def)
  ultimately show ?thesis
    by (simp add: ChainFor_def BuildChainTable_def SelectChain_def build_chain_def)
qed

lemma select_single [simp]: "SelectNodes [x] k rf = Inr [x]"
  using chain_single [of x k rf] by (auto simp: SelectNodes_def NodeURLs_def)

lemma client_targets [simp]: "writeTargetsForChunk (mount_client u rf) k = [u]"
  by (simp add: writeTargetsForChunk_def newChunkStore_def applyNodePrefix_def Let_def trim_space_def trim_left_char_def
      trim_right_char_def trim_suffix_def has_suffix_def)

lemma server_single [simp]: "nd_prefix nd = [] \<Longrightarrow> server_at [(u, nd)] u = Some u"
  by (simp add: server_at_def mkeys_def normalizeURIPrefix_def trim_space_def trim_left_char_def trim_right_char_def)

lemma block_id_chars: "c \<in> set (BlockID i ci bi) \<Longrightarrow> c \<noteq> CHR ''?'' \<and> c \<noteq> CHR ''/''"
proof -
  have fi: "c \<in> set (format_int x) \<Longrightarrow> c \<noteq> CHR ''?'' \<and> c \<noteq> CHR ''/''" for x
    using format_nat_digits [of c] by (fastforce simp: format_int_def split: if_splits)
  show "c \<in> set (BlockID i ci bi) \<Longrightarrow> c \<noteq> CHR ''?'' \<and> c \<noteq> CHR ''/''"
    using fi format_nat_digits [of c "unat i"] by (fastforce simp: BlockID_def format_uint_def)
qed

lemma not_replica:
  assumes "url_ok u"
  shows "values_get (parse_query (raw_query (put_url [] u (BlockID i ci bi) (client_options [u])))) ''replica'' \<noteq> ''1''"
proof -
  have "CHR ''?'' \<notin> set (trim_right_slash u)"
    using assms by (auto simp: url_ok_def trim_right_slash_def trim_right_char_def dest: set_dropWhileD)
  then have "CHR ''?'' \<notin> set (chunkURL [] u (BlockID i ci bi) False)"
    using block_id_chars by (auto simp: chunkURL_def)
  then show ?thesis using parse_put_url(2) [of "client_options [u]"] assms by (simp add: url_ok_def client_options_def)
qed

lemma block_id_nonempty [simp]: "BlockID i ci bi \<noteq> []"
  by (simp add: BlockID_def)

lemma request_path_id [simp]: "trim_prefix (request_path k) ''/chunks/'' = k"
  by (simp only: request_path_def trim_prefix_append)

lemma alone_write:
  assumes "alone u cl" "reaches en client u" "url_ok u"
  shows "writeChunk (mount_transport hops en client) (mount_client u rf) (BlockID i ci bi) d cl =
     (if bodyLimit < length d then (Inl (ErrMsg (''http put chunk status='' @ format_nat 400 @ '' body='' @ error_string too_large @ [CHR 0x0A])), cl)
      else (Inr (), update_node u (\<lambda>nd. enqueueRepair (BlockID i ci bi) [nd_http nd]
              (nd\<lparr>nd_store := snd (st_put (en_put en u (BlockID i ci bi)) (BlockID i ci bi) d (nd_store nd))\<rparr>)) cl))"
proof -
  obtain nd cs x where cl: "cl = [(u, nd)]" "nd_prefix nd = []" "ListNodes (nd_kv nd) = []" "AcceptsChunks (nd_life nd)"
    "nd_store nd = MemoryStore cs" and x: "en_post en client u = Deliver x"
    using assms by (auto simp: alone_def reaches_def)
  have "put_chunk hops en u (parse_query (raw_query (put_url [] u (BlockID i ci bi) (client_options [u])))) (BlockID i ci bi) d cl =
      Some (if bodyLimit < length d then (http_text 400 (error_string too_large), cl)
        else ((201, []), update_node u (\<lambda>nd. enqueueRepair (BlockID i ci bi) [nd_http nd]
              (nd\<lparr>nd_store := snd (st_put (en_put en u (BlockID i ci bi)) (BlockID i ci bi) d (nd_store nd))\<rparr>)) cl))"
    using not_replica [OF assms(3), of i ci bi]
    by (simp add: put_chunk_def readChunkBody_def PutChunk_def putChunk_def cl update_node_def)
  then show ?thesis using cl(1,2) x
    by (simp add: writeChunk_def http_transport_def http_put_def send_def handleChunks_def Let_def http_text_def)
qed

lemma alone_read:
  assumes "cl = [(u, nd)]" "nd_prefix nd = []" "nd_meta nd = []" "reaches en client u"
  shows "readChunk (mount_transport hops en client) (mount_client u rf) (BlockID i ci bi) cl =
     (case st_get (nd_store nd) (BlockID i ci bi) of Some d \<Rightarrow> Inr d | None \<Rightarrow> Inl (ErrMsg ''chunk not found''))"
proof -
  obtain x where x: "en_post en client u = Deliver x" using assms(4) by (auto simp: reaches_def)
  have get: "get_chunk vs (BlockID i ci bi) nd =
      (case st_get (nd_store nd) (BlockID i ci bi) of Some d \<Rightarrow> (200, d) | None \<Rightarrow> http_text 404 ''404 page not found'')" for vs
    by (simp add: get_chunk_def GetChunkWithVisibility_def GetChunk_def getMeta_def assms(3) meta_zero_def Let_def has_prefix_def
        split: option.split)
  have "http_get hops en client u (BlockID i ci bi) allow cl =
      (case st_get (nd_store nd) (BlockID i ci bi) of Some d \<Rightarrow> Inr d | None \<Rightarrow> Inl (ErrMsg ''chunk not found''))" for allow
    by (simp add: http_get_def Let_def send_def assms(1,2) x handleChunks_def get http_text_def split: option.split)
  then show ?thesis
    by (simp add: readChunk_def readTargetsForChunk_def nodesForChunk_def http_transport_def split: option.split)
qed

lemma alone_io:
  assumes "reaches en client u" "url_ok u"
  shows "chunk_io (mount_transport hops en client) (mount_client u rf) (alone u)"
proof unfold_locales
  show "tp_flusher (mount_transport hops en client) = None" by (simp add: http_transport_def)
next
  fix w w' :: cluster and i ci bi d
  assume al: "alone u w" and wr: "writeChunk (mount_transport hops en client) (mount_client u rf) (BlockID i ci bi) d w = (Inr (), w')"
  obtain nd cs where nd: "w = [(u, nd)]" "nd_prefix nd = []" "ListNodes (nd_kv nd) = []" "AcceptsChunks (nd_life nd)"
    "nd_meta nd = []" "nd_store nd = MemoryStore cs" using al by (auto simp: alone_def)
  let ?k = "BlockID i ci bi"
  let ?nd = "enqueueRepair ?k [nd_http nd] (nd\<lparr>nd_store := MemoryStore (ms_put ?k d cs)\<rparr>)"
  have w': "w' = [(u, ?nd)]"
    using wr alone_write [OF al assms] nd by (auto simp: update_node_def mput_def split: if_splits)
  have al': "alone u w'" using nd by (simp add: alone_def w' enqueueRepair_def)
  moreover have "readChunk (mount_transport hops en client) (mount_client u rf) (BlockID i' ci' bi') w' =
      (if (i', ci', bi') = (i, ci, bi) then Inr d else readChunk (mount_transport hops en client) (mount_client u rf) (BlockID i' ci' bi') w)"
    for i' ci' bi'
  proof -
    have "BlockID i' ci' bi' = ?k \<longleftrightarrow> (i', ci', bi') = (i, ci, bi)" using block_id_injective by simp
    moreover have "nd_prefix ?nd = []" "nd_meta ?nd = []" using nd by (simp_all add: enqueueRepair_def)
    ultimately show ?thesis
      using alone_read [OF w', of en client hops rf i' ci' bi'] alone_read [OF nd(1), of en client hops rf i' ci' bi'] nd assms(1)
      by (simp add: enqueueRepair_def ms_get_put)
  qed
  ultimately show "alone u w' \<and> (\<forall>i' ci' bi'. readChunk (mount_transport hops en client) (mount_client u rf) (BlockID i' ci' bi') w' =
      (if (i', ci', bi') = (i, ci, bi) then Inr d else readChunk (mount_transport hops en client) (mount_client u rf) (BlockID i' ci' bi') w))"
    by blast
qed

lemma alone_io_up:
  assumes "reaches en client u" "url_ok u"
  shows "chunk_io_up (mount_transport hops en client) (mount_client u rf) (alone u)"
proof (intro chunk_io_up.intro alone_io [OF assms] chunk_io_up_axioms.intro)
  fix w :: cluster and d :: bytes and i ci bi
  assume "alone u w" "length d \<le> BS"
  moreover have "BS \<le> bodyLimit" by (simp add: BlockSize_def bodyLimit_def)
  ultimately show "\<exists>w'. writeChunk (mount_transport hops en client) (mount_client u rf) (BlockID i ci bi) d w = (Inr (), w')"
    using alone_write [OF _ assms, of w hops rf i ci bi d] by auto
qed

section \<open>Appending and reading back\<close>

text \<open>Writes at the end of the file, each with the time it happens at.\<close>

fun appends :: "'w chunk_transport \<Rightarrow> chunk_client \<Rightarrow> (int \<times> bytes) list \<Rightarrow> attr \<Rightarrow> writers \<Rightarrow> 'w \<Rightarrow> unit res \<times> attr \<times> writers \<times> 'w" where
  "appends tp c [] a ws w = (Inr (), a, ws, w)"
| "appends tp c ((now, d) # ds) a ws w =
     (case store_write tp c now a d (sint (at_size a)) ws w of
        (Inl e, s) \<Rightarrow> (Inl e, s)
      | (Inr _, a', ws', w') \<Rightarrow> appends tp c ds a' ws' w')"

context chunk_io_up
begin

lemma appends_data:
  assumes "file_ok tp c good f a ws w" "valids_ok (writerFor ws (at_ino a))" "length f + length (concat (map snd ds)) < 2 ^ 63"
  shows "\<exists>a' ws' w'. appends tp c ds a ws w = (Inr (), a', ws', w') \<and> file_ok tp c good (f @ concat (map snd ds)) a' ws' w'"
  using assms
proof (induction ds arbitrary: f a ws w)
  case (Cons x ds)
  obtain now d where x: "x = (now, d)" by (cases x)
  have s: "sint (at_size a) = int (length f)" using Cons.prems(1) size_sint [of "at_size a"] by (simp add: file_ok_def)
  have g: "good w" using Cons.prems(1) by (simp add: file_ok_def file_data_def)
  obtain a1 ws1 w1 where w1: "store_write tp c now a d (int (length f)) ws w = (Inr (), a1, ws1, w1)"
    and v: "valids_ok (writerFor ws1 (at_ino a))"
    using store_write_good [OF g Cons.prems(2)] by blast
  have "file_ok tp c good (f @ d) a1 ws1 w1 \<and> at_ino a1 = at_ino a"
    using store_append [OF Cons.prems(1) _ w1] Cons.prems(3) x by simp
  with Cons.IH [of "f @ d" a1 ws1 w1] Cons.prems(3) v show ?case by (simp add: x s w1)
qed simp

end


text \<open>A mount of a node that just started.\<close>

definition alone_node :: node where
  "alone_node = NewService ''n1'' ''http://a'' [] (mem_store new_memory_kv) (MemoryStore []) 2 0 0"

definition alone_cluster :: cluster where
  "alone_cluster = [(''http://a'', alone_node)]"

lemma alone_cluster_ok: "alone ''http://a'' alone_cluster" "reaches demo_env ''mount'' ''http://a''" "url_ok ''http://a''"
  by (simp_all add: alone_def alone_cluster_def alone_node_def NewService_def mem_store_def ListNodes_def kv_hgetall_def mem_hgetall_def
      new_memory_kv_def NewManager_def AcceptsChunks_def reaches_def demo_env_def url_ok_def csv_ok_def is_space_def)

interpretation mount: chunk_io_up "mount_transport 1 demo_env ''mount''" "mount_client ''http://a'' 2" "alone ''http://a''"
  by (rule alone_io_up [OF alone_cluster_ok(2,3)])


section \<open>Overwriting loses data\<close>

lemma flushLocked_clears:
  "flushLocked tp c ino key b w = (Inr (), b', w') \<Longrightarrow> mget (bw_dirty b') k = (if k = key then None else mget (bw_dirty b) k)"
  by (auto simp: flushLocked_def drop_block_def split: option.splits if_splits prod.splits sum.splits)

lemma flush_keys_clears:
  "flush_keys tp c ino ks b w = (Inr (), b', w') \<Longrightarrow> mget (bw_dirty b') k = (if k \<in> set ks then None else mget (bw_dirty b) k)"
proof (induction ks arbitrary: b w)
  case (Cons x ks)
  then obtain b1 w1 where "flushLocked tp c ino x b w = (Inr (), b1, w1)" "flush_keys tp c ino ks b1 w1 = (Inr (), b', w')"
    by (auto split: prod.splits sum.splits)
  with Cons.IH flushLocked_clears [of tp c ino x b w b1 w1 k] show ?case by auto
qed simp

lemma Flush_clears: "Flush tp c ino b w = (Inr (), b', w') \<Longrightarrow> mget (bw_dirty b') k = None"
  using flush_keys_clears [of tp c ino "mkeys (bw_dirty b)" b w b' w' k] by (auto simp: Flush_def)

text \<open>A small write to a small file leaves nothing in the buffers.\<close>

lemma small_write_clears:
  assumes "writer_write tp c now d off (a, b, w) = (Inr (), a', b', w')" "d \<noteq> []" "length d \<le> 65536" "unat (at_size a') \<le> 65536"
  shows "mget (bw_dirty b') k = None"
proof -
  let ?fin = "wrap64 (off + int (length d))"
  let ?a0 = "if sint (at_size a) < ?fin then a\<lparr>at_size := word_of_int ?fin\<rparr> else a"
  obtain a1 b1 w1 b2 where "write_loop tp c (at_ino a) (at_size a) d off (?a0, b, w) = (Inr (), a1, b1, w1)"
    "Flush tp c (at_ino a) b1 w1 = (Inr (), b2, w')" "b' = b2\<lparr>bw_last := Some now\<rparr>"
    using assms unfolding writer_write_def prod.case if_not_P [OF assms(2)] Let_def
    by (auto simp: smallWriteImmediateFlushBytes_def split: prod.splits sum.splits if_splits)
  with Flush_clears show ?thesis by fastforce
qed

context chunk_io
begin

lemma overwrite_writer:
  assumes "file_data tp c good f (at_ino a) b w" "mget (bw_dirty b) (0, 0) = None" "unat (at_size a) = length f" "length f \<le> BS"
    and "d \<noteq> []" "off + length d < length f" "writer_write tp c now d (int off) (a, b, w) = (Inr (), a', b', w')"
  shows "file_data tp c good (take off f @ d) (at_ino a) b' w' \<and> at_size a' = at_size a \<and> at_ino a' = at_ino a"
proof -
  have BSlt: "BS < 2 ^ 63" by (simp add: BlockSize_def)
  then have l: "length f < 2 ^ 63" using assms(4) by linarith
  have s: "sint (at_size a) = int (length f)" using size_sint [of "at_size a"] l assms(3) by simp
  have "int (length f) < int (2 ^ 63)" using l by (simp only: of_nat_less_iff)
  then have "int off + int (length d) < 2 ^ 63" using assms(6) by simp
  then have fin: "wrap64 (int off + int (length d)) = int off + int (length d)" by (intro wrap64_small) simp_all
  have ge: "\<not> sint (at_size a) < int off + int (length d)" using s assms(6) by simp
  obtain a1 b1 w1 where loop: "write_loop tp c (at_ino a) (at_size a) d (int off) (a, b, w) = (Inr (), a1, b1, w1)"
    and fl: "(b' = b1\<lparr>bw_last := Some now\<rparr> \<and> w' = w1 \<or> b' = b1 \<and> w' = w1
        \<or> (\<exists>b2. Flush tp c (at_ino a) b1 w1 = (Inr (), b2, w') \<and> b' = b2\<lparr>bw_last := Some now\<rparr>)) \<and> a' = a1"
    using assms(7) unfolding writer_write_def prod.case if_not_P [OF assms(5)] Let_def fin if_not_P [OF ge]
    by (auto split: prod.splits sum.splits if_splits)
  have d1: "file_data tp c good (take off f @ d) (at_ino a) b1 w1 \<and> at_size a1 = at_size a \<and> at_ino a1 = at_ino a"
    by (rule overwrite_block [OF assms(1-6) loop])
  then have "file_data tp c good (take off f @ d) (at_ino a) b' w'"
    using fl flush_keys_data unfolding Flush_def by (auto simp: file_data_last)
  with fl d1 show ?thesis by simp
qed

end



end
