(* ===== verification/Benchmark.thy ===== *)
theory Benchmark
  imports Workers Commands Mount_Correct
begin

text \<open>
  The benchmark of the command line (\<^verbatim>\<open>cli/benchmark.go\<close>): chunks are written by a pool of workers, read back by another and
  deleted at the end. \<open>RunBenchmark\<close> relates the options and the world before to the result and the world after, for every interleaving
  of the workers and every moment of a cancellation. The bytes of the random payload and the clock that names the chunks are arguments. The measured times, and
  what is derived from them, are left out. The client's contract is the locale \<open>chunk_server\<close>; a node that serves alone meets it.
\<close>

section \<open>The benchmark\<close>

record bench_options =
  bo_seed :: string
  bo_prefix :: string
  bo_token :: string
  bo_auto :: bool
  bo_size :: int
  bo_writes :: int
  bo_reads :: int
  bo_workers :: int
  bo_name :: string
  bo_cleanup :: bool

record bench_result =
  br_size :: int
  br_writes :: int
  br_reads :: int
  br_workers :: int

definition bench_defaults :: "bench_options \<Rightarrow> bench_options" where
  "bench_defaults opt =
     opt\<lparr>bo_size := (if bo_size opt \<le> 0 then 4 * 2 ^ 20 else bo_size opt),
         bo_writes := (if bo_writes opt \<le> 0 then 50 else bo_writes opt),
         bo_reads := (if bo_reads opt \<le> 0 then 50 else bo_reads opt),
         bo_workers := (if bo_workers opt \<le> 0 then 4 else bo_workers opt),
         bo_name := (if bo_name opt = [] then ''bench'' else bo_name opt)\<rparr>"

definition bench_client :: "(cli_client \<Rightarrow> cluster_overview res) \<Rightarrow> bench_options \<Rightarrow> cli_client" where
  "bench_client overview opt =
     (let prefix = (if bo_auto opt \<and> bo_prefix opt = [] then DetectPrefix overview (bo_seed opt) (bo_token opt) else bo_prefix opt) in
      NewClient (bo_seed opt) prefix (bo_token opt))"

definition bench_id :: "string \<Rightarrow> (nat \<Rightarrow> int) \<Rightarrow> nat \<Rightarrow> string" where
  "bench_id name now i = name @ ''_'' @ format_int (now i) @ ''_'' @ format_nat i"

definition bench_ids :: "(nat \<Rightarrow> int) \<Rightarrow> bench_options \<Rightarrow> string list" where
  "bench_ids now opt = map (bench_id (bo_name opt) now) [0..<nat (bo_writes opt)]"

definition bench_payload :: "(nat \<Rightarrow> char) \<Rightarrow> bench_options \<Rightarrow> bytes" where
  "bench_payload rand opt = map rand [0..<nat (bo_size opt)]"

definition write_job :: "'w web \<Rightarrow> cli_client \<Rightarrow> string list \<Rightarrow> bytes \<Rightarrow> 'w job" where
  "write_job web c ids payload i w =
     (case cli_put_chunk web c (ids ! i) payload w of (Inl e, w') \<Rightarrow> (Some e, w') | (Inr _, w') \<Rightarrow> (None, w'))"

definition size_mismatch :: "string \<Rightarrow> nat \<Rightarrow> nat \<Rightarrow> err" where
  "size_mismatch k got want = ErrMsg (''chunk '' @ k @ '' size mismatch: got '' @ format_nat got @ '' want '' @ format_nat want)"

definition read_job :: "'w web \<Rightarrow> cli_client \<Rightarrow> string list \<Rightarrow> bytes \<Rightarrow> 'w job" where
  "read_job web c ids payload i w =
     (let k = ids ! (i mod length ids) in
      case cli_get_chunk web c k w of
        (Inl e, w') \<Rightarrow> (Some e, w')
      | (Inr got, w') \<Rightarrow> (if length got \<noteq> length payload then Some (size_mismatch k (length got) (length payload)) else None, w'))"

definition cleanup_loop :: "'w web \<Rightarrow> cli_client \<Rightarrow> string list \<Rightarrow> 'w \<Rightarrow> 'w" where
  "cleanup_loop web c ids w = fold (\<lambda>k w. snd (cli_delete_chunk web c k w)) ids w"

text \<open>The two phases and the cleanup, for options in which the defaults are set.\<close>

inductive bench_run :: "'w web \<Rightarrow> cli_client \<Rightarrow> err \<Rightarrow> string list \<Rightarrow> bytes \<Rightarrow> bench_options \<Rightarrow> 'w \<Rightarrow> bench_result res \<Rightarrow> 'w \<Rightarrow> bool"
  for web :: "'w web" and c ctx ids payload opt where
  write_failed: "\<lbrakk>runWorkers ctx (nat (bo_workers opt)) (length ids) (write_job web c ids payload) w p; pool_result ctx p = Some e\<rbrakk> \<Longrightarrow>
    bench_run web c ctx ids payload opt w (Inl e) (po_world p)"
| read_failed: "\<lbrakk>runWorkers ctx (nat (bo_workers opt)) (length ids) (write_job web c ids payload) w p; pool_result ctx p = None;
    runWorkers ctx (nat (bo_workers opt)) (min (nat (bo_reads opt)) (length ids)) (read_job web c ids payload) (po_world p) q;
    pool_result ctx q = Some e\<rbrakk> \<Longrightarrow>
    bench_run web c ctx ids payload opt w (Inl e) (po_world q)"
| completed: "\<lbrakk>runWorkers ctx (nat (bo_workers opt)) (length ids) (write_job web c ids payload) w p; pool_result ctx p = None;
    runWorkers ctx (nat (bo_workers opt)) (min (nat (bo_reads opt)) (length ids)) (read_job web c ids payload) (po_world p) q;
    pool_result ctx q = None\<rbrakk> \<Longrightarrow>
    bench_run web c ctx ids payload opt w
      (Inr \<lparr>br_size = bo_size opt, br_writes = bo_writes opt, br_reads = int (min (nat (bo_reads opt)) (length ids)), br_workers = bo_workers opt\<rparr>)
      (if bo_cleanup opt then cleanup_loop web c ids (po_world q) else po_world q)"

definition RunBenchmark :: "'w web \<Rightarrow> (cli_client \<Rightarrow> cluster_overview res) \<Rightarrow> err \<Rightarrow> (nat \<Rightarrow> int) \<Rightarrow> (nat \<Rightarrow> char) \<Rightarrow> bench_options \<Rightarrow>
    'w \<Rightarrow> bench_result res \<Rightarrow> 'w \<Rightarrow> bool" where
  "RunBenchmark web overview ctx now rand opt0 w r w' \<longleftrightarrow>
     (let opt = bench_defaults opt0 in
      bench_run web (bench_client overview opt) ctx (bench_ids now opt) (bench_payload rand opt) opt w r w')"

section \<open>Against a chunk server\<close>

text \<open>What the benchmark relies on: the three requests of the client act on a map of chunks.\<close>

locale chunk_server =
  fixes web :: "'w web" and c :: cli_client and ok :: "'w \<Rightarrow> bool" and holds :: "'w \<Rightarrow> string \<Rightarrow> bytes option"
    and good_id :: "string \<Rightarrow> bool"
  assumes put: "\<lbrakk>ok w; good_id k; cli_put_chunk web c k d w = (r, w')\<rbrakk> \<Longrightarrow>
      ok w' \<and> (\<forall>j. j \<noteq> k \<longrightarrow> holds w' j = holds w j) \<and> (holds w' k = Some d \<or> isl r \<and> holds w' k = holds w k)"
    and get: "\<lbrakk>ok w; good_id k; cli_get_chunk web c k w = (x, w')\<rbrakk> \<Longrightarrow>
      ok w' \<and> holds w' = holds w \<and> (case holds w k of Some d \<Rightarrow> x = Inr d | None \<Rightarrow> isl x)"
    and del: "\<lbrakk>ok w; good_id k; cli_delete_chunk web c k w = (r, w')\<rbrakk> \<Longrightarrow>
      ok w' \<and> (\<forall>j. j \<noteq> k \<longrightarrow> holds w' j = holds w j) \<and> (holds w' k = None \<or> isl r \<and> holds w' k = holds w k)"
begin

text \<open>The pool of writers: the ids of the jobs done hold the payload, and no other chunk changes.\<close>

lemma writes:
  assumes "ok w" "\<And>k. k \<in> set ids \<Longrightarrow> good_id k" "runWorkers ctx workers (length ids) (write_job web c ids d) w p"
  shows "ok (po_world p) \<and> (\<forall>j. j \<notin> set ids \<longrightarrow> holds (po_world p) j = holds w j)
     \<and> (\<forall>i \<in> set (po_done p). i < length ids \<and> holds (po_world p) (ids ! i) = Some d)"
  using assms(3)
proof (rule run_world [where P = "\<lambda>D v. ok v \<and> (\<forall>j. j \<notin> set ids \<longrightarrow> holds v j = holds w j)
    \<and> (\<forall>i \<in> D. i < length ids \<and> holds v (ids ! i) = Some d)"])
  fix i D v v' e
  assume i: "i < length ids" and P: "ok v \<and> (\<forall>j. j \<notin> set ids \<longrightarrow> holds v j = holds w j)
    \<and> (\<forall>i \<in> D. i < length ids \<and> holds v (ids ! i) = Some d)"
  obtain r v1 where r: "cli_put_chunk web c (ids ! i) d v = (r, v1)" by fastforce
  note put = put [OF conjunct1 [OF P] assms(2) [OF nth_mem [OF i]] r]
  have keep: "holds v1 (ids ! j) = Some d" if "j \<in> D" for j using put P that by (cases "ids ! j = ids ! i") auto
  have other: "\<forall>j. j \<notin> set ids \<longrightarrow> holds v1 j = holds w j" using put P i by (metis nth_mem)
  show "write_job web c ids d i v = (None, v') \<Longrightarrow> ok v' \<and> (\<forall>j. j \<notin> set ids \<longrightarrow> holds v' j = holds w j)
      \<and> (\<forall>i \<in> insert i D. i < length ids \<and> holds v' (ids ! i) = Some d)"
    using put P i keep other by (auto simp: write_job_def r split: sum.splits)
  show "write_job web c ids d i v = (Some e, v') \<Longrightarrow> ok v' \<and> (\<forall>j. j \<notin> set ids \<longrightarrow> holds v' j = holds w j)
      \<and> (\<forall>i \<in> D. i < length ids \<and> holds v' (ids ! i) = Some d)"
    using put P keep other by (auto simp: write_job_def r split: sum.splits)
qed (use assms(1) in simp)

lemma reads:
  assumes "ok w" "\<And>k. k \<in> set ids \<Longrightarrow> good_id k" "n \<le> length ids" "runWorkers ctx workers n (read_job web c ids d) w q"
  shows "ok (po_world q) \<and> holds (po_world q) = holds w"
    and "\<forall>k \<in> set ids. holds w k = Some d \<Longrightarrow> po_err q = None"
proof -
  have get: "ok (snd (read_job web c ids d i v)) \<and> holds (snd (read_job web c ids d i v)) = holds v
      \<and> (holds v (ids ! i) = Some d \<longrightarrow> fst (read_job web c ids d i v) = None)" if "i < n" "ok v" for i v
  proof -
    obtain x v' where x: "cli_get_chunk web c (ids ! i) v = (x, v')" by fastforce
    have "ids ! i \<in> set ids" "i mod length ids = i" using that(1) assms(3) by auto
    with get [OF that(2) assms(2) x] x show ?thesis by (auto simp: read_job_def split: sum.splits option.splits)
  qed
  show "ok (po_world q) \<and> holds (po_world q) = holds w"
    by (rule run_world [where P = "\<lambda>D v. ok v \<and> holds v = holds w", OF assms(4)]) (use get assms(1) in \<open>auto, (metis snd_conv)+\<close>)
  assume all: "\<forall>k \<in> set ids. holds w k = Some d"
  then show "po_err q = None"
    by (intro run_no_error [where Q = "\<lambda>v. ok v \<and> holds v = holds w", OF assms(4)]) (use get all assms(1,3) in auto)
qed

lemma cleanup:
  assumes "ok w" "\<And>k. k \<in> set ids \<Longrightarrow> good_id k"
  shows "ok (cleanup_loop web c ids w) \<and> (\<forall>j. j \<notin> set ids \<longrightarrow> holds (cleanup_loop web c ids w) j = holds w j)"
  using assms
proof (induction ids arbitrary: w)
  case (Cons k ks)
  obtain r w1 where r: "cli_delete_chunk web c k w = (r, w1)" by fastforce
  have "ok w1 \<and> (\<forall>j. j \<noteq> k \<longrightarrow> holds w1 j = holds w j)" using del [OF Cons.prems(1) _ r] Cons.prems(2) by auto
  with Cons.IH [of w1] Cons.prems(2) r show ?case by (auto simp: cleanup_loop_def)
qed (simp add: cleanup_loop_def)

end

text \<open>A server that can be reached and has room.\<close>

locale chunk_server_up = chunk_server +
  fixes limit :: nat
  assumes put_up: "\<lbrakk>ok w; good_id k; length d \<le> limit\<rbrakk> \<Longrightarrow> fst (cli_put_chunk web c k d w) = Inr ()"
    and del_up: "\<lbrakk>ok w; good_id k\<rbrakk> \<Longrightarrow> fst (cli_delete_chunk web c k w) = Inr ()"
begin

lemma writes_up:
  assumes "ok w" "\<And>k. k \<in> set ids \<Longrightarrow> good_id k" "runWorkers ctx workers (length ids) (write_job web c ids d) w p"
    and "length d \<le> limit"
  shows "po_err p = None"
proof (rule run_no_error [where Q = ok, OF assms(3,1)])
  fix i v assume i: "i < length ids" and v: "ok v"
  obtain r v1 where r: "cli_put_chunk web c (ids ! i) d v = (r, v1)" by fastforce
  have "good_id (ids ! i)" using i assms(2) by simp
  then show "fst (write_job web c ids d i v) = None \<and> ok (snd (write_job web c ids d i v))"
    using put [OF v _ r] put_up [OF v _ assms(4)] r by (force simp: write_job_def)
qed

lemma cleanup_up:
  assumes "ok w" "\<And>k. k \<in> set ids \<Longrightarrow> good_id k" "k \<in> set ids"
  shows "holds (cleanup_loop web c ids w) k = None"
  using assms
proof (induction ids arbitrary: w)
  case (Cons j ks)
  obtain r w1 where r: "cli_delete_chunk web c j w = (r, w1)" by fastforce
  have gone: "ok w1" "holds w1 j = None" using del [OF Cons.prems(1) _ r] del_up [OF Cons.prems(1), of j] Cons.prems(2) r by auto
  show ?case
  proof (cases "k \<in> set ks")
    case False
    then have "k = j" using Cons.prems(3) by simp
    then show ?thesis using cleanup [OF gone(1), of ks] Cons.prems(2) gone False r by (simp add: cleanup_loop_def)
  qed (use Cons.IH [OF gone(1)] Cons.prems(2) r in \<open>simp add: cleanup_loop_def\<close>)
qed simp

lemma all_written:
  assumes "ok w" "0 < bo_workers opt" "\<And>k. k \<in> set ids \<Longrightarrow> good_id k"
    and "runWorkers ctx (nat (bo_workers opt)) (length ids) (write_job web c ids d) w p" "pool_result ctx p = None" "k \<in> set ids"
  shows "holds (po_world p) k = Some d"
proof -
  have "set (po_done p) = {..<length ids}"
    using mset_eq_setD [OF run_all_done(1) [OF _ assms(4,5)]] assms(2) by (simp add: atLeast0LessThan)
  then show ?thesis using writes [OF assms(1,3,4)] assms(6) by (auto simp: in_set_conv_nth)
qed

lemma bench_run_data:
  assumes "ok w" "0 < bo_workers opt" "\<And>k. k \<in> set ids \<Longrightarrow> good_id k" "bench_run web c ctx ids d opt w r w'"
  shows "ok w' \<and> (\<forall>j. j \<notin> set ids \<longrightarrow> holds w' j = holds w j)
     \<and> (\<not> isl r \<longrightarrow> (\<forall>k \<in> set ids. holds w' k = (if bo_cleanup opt then None else Some d)))"
  using assms(4)
proof cases
  case (write_failed p e)
  with writes [OF assms(1,3) write_failed(3)] show ?thesis by simp
next
  case (read_failed p q e)
  with writes [OF assms(1,3) read_failed(3)] reads(1) [OF _ assms(3) _ read_failed(5)] show ?thesis by simp
next
  case (completed p q)
  with writes [OF assms(1,3) completed(3)] all_written [OF assms(1-3) completed(3,4)] reads(1) [OF _ assms(3) _ completed(5)]
    cleanup [OF _ assms(3), of "po_world q"] cleanup_up [OF _ assms(3), of "po_world q"]
  show ?thesis by auto
qed

lemma bench_run_error:
  assumes "ok w" "0 < bo_workers opt" "\<And>k. k \<in> set ids \<Longrightarrow> good_id k" "bench_run web c ctx ids d opt w (Inl e) w'" "length d \<le> limit"
  shows "e = ctx"
  using assms(4)
proof cases
  case (write_failed p)
  then show ?thesis using writes_up [OF assms(1,3) write_failed(2) assms(5)] by (simp add: pool_result_def split: if_splits)
next
  case (read_failed p q)
  have "ok (po_world p)" using writes [OF assms(1,3) read_failed(2)] by simp
  from reads(2) [OF this assms(3) _ read_failed(4)] all_written [OF assms(1-3) read_failed(2,3)] read_failed(5)
  show ?thesis by (simp add: pool_result_def split: if_splits)
qed

lemma bench_run_exists:
  assumes "ok w" "0 < bo_workers opt" "\<And>k. k \<in> set ids \<Longrightarrow> good_id k" "length d \<le> limit"
  shows "\<exists>r w'. bench_run web c ctx ids d opt w (Inr r) w'"
proof -
  let ?W = "nat (bo_workers opt)" and ?m = "min (nat (bo_reads opt)) (length ids)"
  obtain p where p: "runWorkers ctx ?W (length ids) (write_job web c ids d) w p" "\<not> po_cancelled p" using run_exists by metis
  have pn: "pool_result ctx p = None" using writes_up [OF assms(1,3) p(1) assms(4)] p(2) by (simp add: pool_result_def)
  obtain q where q: "runWorkers ctx ?W ?m (read_job web c ids d) (po_world p) q" "\<not> po_cancelled q" using run_exists by metis
  have "ok (po_world p)" using writes [OF assms(1,3) p(1)] by simp
  from reads(2) [OF this assms(3) _ q(1)] all_written [OF assms(1-3) p(1) pn] q(2)
  have "pool_result ctx q = None" by (simp add: pool_result_def)
  with bench_run.completed [OF p(1) pn q(1)] show ?thesis by blast
qed

end

section \<open>A node that serves alone\<close>

text \<open>
  The client's requests to the chunk route of a cluster of theory \<open>Craq\<close>: the URL is split at the base the client was made with, and the node
  there answers, unless the request or the reply is lost.
\<close>

definition node_web :: "nat \<Rightarrow> env \<Rightarrow> string \<Rightarrow> string \<Rightarrow> cluster web" where
  "node_web hops en client base meth url token body cl =
     send en client base (\<lambda>u. handleChunks hops en u meth (takeWhile (\<lambda>c. c \<noteq> CHR ''?'') (trim_prefix url base)) (parse_query (raw_query url)) body) cl"

text \<open>A node without members: no chunk has a write that is not committed. What it stores.\<close>

definition solo :: "string \<Rightarrow> cluster \<Rightarrow> bool" where
  "solo u cl \<longleftrightarrow> (\<exists>nd cs. cl = [(u, nd)] \<and> nd_prefix nd = [] \<and> ListNodes (nd_kv nd) = [] \<and> AcceptsChunks (nd_life nd)
     \<and> nd_store nd = MemoryStore cs \<and> (\<forall>k. Committed (getMeta nd k) \<or> cm_update (getMeta nd k) = 0))"

definition chunk_at :: "string \<Rightarrow> cluster \<Rightarrow> string \<Rightarrow> bytes option" where
  "chunk_at u cl k = (case mget cl u of None \<Rightarrow> None | Some nd \<Rightarrow> st_get (nd_store nd) k)"

definition plain_char :: "char \<Rightarrow> bool" where
  "plain_char c \<longleftrightarrow> (let n = (of_char c :: nat) in 97 \<le> n \<and> n \<le> 122 \<or> 48 \<le> n \<and> n \<le> 57 \<or> n = 95 \<or> n = 45)"

definition plain_id :: "string \<Rightarrow> bool" where
  "plain_id k \<longleftrightarrow> k \<noteq> [] \<and> list_all plain_char k"

lemma plain_char_not: "plain_char c \<Longrightarrow> c \<noteq> CHR ''?'' \<and> c \<noteq> CHR ''/'' \<and> (of_char c :: nat) < 128"
  by (auto simp: plain_char_def Let_def)

lemma plain_id_facts: "plain_id k \<Longrightarrow> k \<noteq> [] \<and> CHR ''?'' \<notin> set k \<and> CHR ''/'' \<notin> set k \<and> valid_utf8 k"
  by (auto simp: plain_id_def list_all_iff dest: plain_char_not intro!: valid_utf8_ascii)

lemma plain_bench_id: "list_all plain_char name \<Longrightarrow> plain_id (bench_id name now i)"
proof -
  have d: "list_all plain_char (format_nat n)" for n
    using format_nat_digits by (force simp: list_all_iff plain_char_def Let_def is_digit_def)
  then show "list_all plain_char name \<Longrightarrow> plain_id (bench_id name now i)"
    by (simp add: plain_id_def bench_id_def format_int_def plain_char_def)
qed

lemma web_request:
  assumes "CHR ''?'' \<notin> set base" "plain_id k"
  shows "node_web hops en client base meth (base @ ''/chunks/'' @ k) token d cl =
     send en client base (\<lambda>u. handleChunks hops en u meth (request_path k) [] d) cl"
proof -
  have "CHR ''?'' \<notin> set (''/chunks/'' @ k)" "CHR ''?'' \<notin> set (base @ ''/chunks/'' @ k)" using assms plain_id_facts by auto
  then have "takeWhile (\<lambda>c. c \<noteq> CHR ''?'') (''/chunks/'' @ k) = ''/chunks/'' @ k" "dropWhile (\<lambda>c. c \<noteq> CHR ''?'') (base @ ''/chunks/'' @ k) = []"
    by (auto simp: takeWhile_eq_all_conv dropWhile_eq_Nil_conv)
  then show ?thesis by (simp only: node_web_def trim_prefix_append raw_query_def request_path_def) (simp add: parse_query_def parse_pair_def)
qed

text \<open>The three requests on such a node.\<close>

lemma solo_node_put:
  assumes "cl = [(u, nd)]" "nd_prefix nd = []" "ListNodes (nd_kv nd) = []" "AcceptsChunks (nd_life nd)" "nd_store nd = MemoryStore cs"
    and "reaches en client u" "CHR ''?'' \<notin> set u" "plain_id k" "cc_seed c = u" "cc_prefix c = []"
  shows "cli_put_chunk (node_web hops en client u) c k d cl =
     (if bodyLimit < length d then (Inl (http_status_error 400 (snd (http_text 400 (error_string too_large)))), cl)
      else (Inr (), [(u, enqueueRepair k [nd_http nd] (nd\<lparr>nd_store := MemoryStore (ms_put k d cs)\<rparr>))]))"
proof -
  obtain x where x: "en_post en client u = Deliver x" using assms(6) by (auto simp: reaches_def)
  have path: "client_path c (''/chunks/'' @ k) = u @ ''/chunks/'' @ k" using assms(9,10) by (simp add: client_path_def has_prefix_def)
  have "put_chunk hops en u [] k d cl = Some (if bodyLimit < length d then (http_text 400 (error_string too_large), cl)
      else ((201, []), [(u, enqueueRepair k [nd_http nd] (nd\<lparr>nd_store := MemoryStore (ms_put k d cs)\<rparr>))]))"
    by (simp add: put_chunk_def readChunkBody_def PutChunk_def putChunk_def assms(1-5) values_get_def mput_def)
  then have "send en client u (\<lambda>v. handleChunks hops en v ''PUT'' (request_path k) [] d) cl =
      (if bodyLimit < length d then (Inr (http_text 400 (error_string too_large)), cl)
       else (Inr (201, []), [(u, enqueueRepair k [nd_http nd] (nd\<lparr>nd_store := MemoryStore (ms_put k d cs)\<rparr>))]))"
    using plain_id_facts [OF assms(8)] assms(1,2) x by (simp add: send_def handleChunks_def Let_def)
  then show ?thesis
    unfolding cli_put_chunk_def client_do_def path web_request [OF assms(7,8)] by (simp add: http_text_def)
qed

lemma solo_node_get:
  assumes "cl = [(u, nd)]" "nd_prefix nd = []" "Committed (getMeta nd k) \<or> cm_update (getMeta nd k) = 0"
    and "reaches en client u" "CHR ''?'' \<notin> set u" "plain_id k" "cc_seed c = u" "cc_prefix c = []"
  shows "snd (cli_get_chunk (node_web hops en client u) c k cl) = cl"
    and "case st_get (nd_store nd) k of
       Some d \<Rightarrow> fst (cli_get_chunk (node_web hops en client u) c k cl) = Inr d
     | None \<Rightarrow> isl (fst (cli_get_chunk (node_web hops en client u) c k cl))"
proof -
  obtain x where x: "en_post en client u = Deliver x" using assms(4) by (auto simp: reaches_def)
  have path: "client_path c (''/chunks/'' @ k) = u @ ''/chunks/'' @ k" using assms(7,8) by (simp add: client_path_def has_prefix_def)
  have get: "get_chunk [] k nd = (case st_get (nd_store nd) k of Some d \<Rightarrow> (200, d) | None \<Rightarrow> http_text 404 ''404 page not found'')"
    using assms(3) by (auto simp: get_chunk_def GetChunkWithVisibility_def GetChunk_def Let_def values_get_def has_prefix_def split: option.split)
  have "send en client u (\<lambda>v. handleChunks hops en v ''GET'' (request_path k) [] []) cl = (Inr (get_chunk [] k nd), cl)"
    using plain_id_facts [OF assms(6)] assms(1,2) x by (simp add: send_def handleChunks_def Let_def)
  then have "cli_get_chunk (node_web hops en client u) c k cl =
      (case st_get (nd_store nd) k of Some d \<Rightarrow> Inr d | None \<Rightarrow> Inl (http_status_error 404 (snd (http_text 404 ''404 page not found''))), cl)"
    unfolding cli_get_chunk_def client_do_def path web_request [OF assms(5,6)]
    by (simp add: get http_text_def split: option.split)
  then show "snd (cli_get_chunk (node_web hops en client u) c k cl) = cl"
    "case st_get (nd_store nd) k of
       Some d \<Rightarrow> fst (cli_get_chunk (node_web hops en client u) c k cl) = Inr d
     | None \<Rightarrow> isl (fst (cli_get_chunk (node_web hops en client u) c k cl))" by (auto split: option.split)
qed

text \<open>Deleting a record of the registry, here or through the leader, leaves the members and everything but the key-value store alone.\<close>

lemma reg_delete_nodes:
  assumes "valid_utf8 k"
  shows "ListNodes (snd (reg_delete k s)) = ListNodes s"
proof -
  have srem: "kv_hash (kv_mem (snd (kv_srem chunkIndexKey [k] s))) = kv_hash (kv_mem s)"
    using kv_effect_single [OF kv_srem_effect [of chunkIndexKey k s]] assms by (auto simp: mem_srem_def Let_def split: option.split)
  have ne: "chunkLocKey k \<noteq> raftnodeNodesKey" by (simp add: chunkLocKey_def raftnodeNodesKey_def)
  have "kv_effect (fst (kv_del [chunkLocKey k] t)) [op_del (chunkLocKey k)] (kv_mem t) (kv_mem (snd (kv_del [chunkLocKey k] t)))" for t
    using kv_del_effect [of "[chunkLocKey k]" t] assms by simp
  from kv_effect_single [OF this [of "snd (kv_srem chunkIndexKey [k] s)"]] srem ne show ?thesis
    by (auto simp: reg_delete_def ListNodes_def kv_reads mem_hgetall_def mem_del1_def)
qed

definition kv_only :: "node \<Rightarrow> node \<Rightarrow> bool" where
  "kv_only nd nd' \<longleftrightarrow> (\<exists>s. nd' = nd\<lparr>nd_kv := s\<rparr> \<and> ListNodes s = ListNodes (nd_kv nd))"

lemma kv_only_delete: "valid_utf8 k \<Longrightarrow> kv_only nd (snd (with_kv (reg_delete k) nd))"
  using reg_delete_nodes [of k "nd_kv nd"] by (auto simp: kv_only_def with_kv_def split: prod.splits)

lemma kv_only_refl: "kv_only nd nd"
  unfolding kv_only_def by (rule exI [of _ "nd_kv nd"]) simp

lemma kv_only_handler: "valid_utf8 k \<Longrightarrow> kv_only nd (snd (registry_delete_handler k nd))"
proof -
  assume v: "valid_utf8 k"
  then have "unmarshal_location (delete_request k) = Inr (location_zero\<lparr>lo_chunk := k\<rparr>)"
    unfolding unmarshal_location_def delete_request_def
    by (subst unmarshal_print) (simp_all add: dec_struct_def set_location_field_def fold_name_def lower_char_def location_zero_def)
  then show ?thesis using kv_only_delete [OF v, of nd]
    by (auto simp: registry_delete_handler_def ApplyRegistryDelete_def kv_only_refl split: prod.split sum.split)
qed

lemma solo_registry_delete:
  assumes "valid_utf8 k"
  shows "\<exists>nd'. snd (DeleteChunkRegistry en u k [(u, nd)]) = [(u, nd')] \<and> kv_only nd nd'"
proof -
  have put: "mput u x [(u, nd)] = [(u, x)]" for x by (simp add: mput_def)
  have "\<exists>nd'. snd (post_node en u v what (registry_delete_handler k) [(u, nd)]) = [(u, nd')] \<and> kv_only nd nd'" for v what
    using kv_only_handler [OF assms, of nd] kv_only_refl [of nd] put
    by (auto simp: post_node_def split: link.split prod.split option.split)
  then show ?thesis using kv_only_delete [OF assms, of nd] kv_only_refl [of nd] put
    by (auto simp: DeleteChunkRegistry_def split: prod.split sum.split)
qed

lemma solo_node_delete:
  assumes "cl = [(u, nd)]" "nd_prefix nd = []" "ListNodes (nd_kv nd) = []" "nd_store nd = MemoryStore cs"
    and "reaches en client u" "CHR ''?'' \<notin> set u" "plain_id k" "cc_seed c = u" "cc_prefix c = []"
  obtains nd' m where "cli_delete_chunk (node_web hops en client u) c k cl = (Inr (), [(u, nd')])" "nd_prefix nd' = []"
    "ListNodes (nd_kv nd') = []" "lc_state (nd_life nd') = lc_state (nd_life nd)" "nd_store nd' = MemoryStore (ms_delete k cs)"
    "nd_meta nd' = mput k m (nd_meta nd)" "Committed m"
proof -
  obtain x where x: "en_post en client u = Deliver x" using assms(5) by (auto simp: reaches_def)
  have path: "client_path c (''/chunks/'' @ k) = u @ ''/chunks/'' @ k" using assms(8,9) by (simp add: client_path_def has_prefix_def)
  obtain e nd2 where sync: "syncClusterEpoch (nd\<lparr>nd_store := MemoryStore (ms_delete k cs)\<rparr>) = (e, nd2)" by fastforce
  have nd2: "nd_prefix nd2 = []" "nd_kv nd2 = nd_kv nd" "lc_state (nd_life nd2) = lc_state (nd_life nd)" "nd_store nd2 = MemoryStore (ms_delete k cs)"
    "nd_meta nd2 = nd_meta nd"
    using sync assms(2) by (auto simp: syncClusterEpoch_def SetEpoch_def split: sum.splits)
  define v where "v = cm_update (getMeta nd k) + 1"
  define m where "m = \<lparr>cm_id = k, cm_chain = cm_chain (getMeta nd k), cm_chain_ver = e, cm_update = v, cm_commit = v, cm_state = ChunkStateCommitted\<rparr>"
  obtain nd' r where nd': "DeleteChunkRegistry en u k [(u, setMeta m nd2)] = (r, [(u, nd')])" "kv_only (setMeta m nd2) nd'"
    using solo_registry_delete [of k en u "setMeta m nd2"] plain_id_facts [OF assms(7)] by (metis prod.collapse)
  have "DeleteChunk hops en u k cl = Some (r, [(u, nd')])"
    by (simp add: DeleteChunk_def assms(1,3,4) sync Let_def v_def [symmetric] m_def [symmetric] nd'(1) mput_def)
  then have "send en client u (\<lambda>v. handleChunks hops en v ''DELETE'' (request_path k) [] []) cl = (Inr (204, []), [(u, nd')])"
    using plain_id_facts [OF assms(7)] assms(1,2) x by (simp add: send_def handleChunks_def Let_def)
  then have del: "cli_delete_chunk (node_web hops en client u) c k cl = (Inr (), [(u, nd')])"
    unfolding cli_delete_chunk_def client_do_def path web_request [OF assms(6,7)] by simp
  show thesis
    by (rule that [OF del, of m]) (use nd'(2) nd2 assms(3) in \<open>auto simp: kv_only_def setMeta_def m_def Committed_def\<close>)
qed

lemma solo_server:
  assumes "reaches en client u" "CHR ''?'' \<notin> set u" "cc_seed c = u" "cc_prefix c = []"
  shows "chunk_server_up (node_web hops en client u) c (solo u) (chunk_at u) plain_id bodyLimit"
proof unfold_locales
  fix w :: cluster and k d r w'
  assume "solo u w" and k: "plain_id k"
  then obtain nd cs where nd: "w = [(u, nd)]" "nd_prefix nd = []" "ListNodes (nd_kv nd) = []" "AcceptsChunks (nd_life nd)"
    "nd_store nd = MemoryStore cs" "\<forall>k. Committed (getMeta nd k) \<or> cm_update (getMeta nd k) = 0" by (auto simp: solo_def)
  note put = solo_node_put [OF nd(1-5) assms(1,2) k assms(3,4)]
  show "cli_put_chunk (node_web hops en client u) c k d w = (r, w') \<Longrightarrow> solo u w' \<and> (\<forall>j. j \<noteq> k \<longrightarrow> chunk_at u w' j = chunk_at u w j)
      \<and> (chunk_at u w' k = Some d \<or> isl r \<and> chunk_at u w' k = chunk_at u w k)"
    using nd put [of hops d] by (auto simp: solo_def chunk_at_def ms_get_put enqueueRepair_def getMeta_def split: if_splits)
  show "length d \<le> bodyLimit \<Longrightarrow> fst (cli_put_chunk (node_web hops en client u) c k d w) = Inr ()" by (simp add: put)
  note get = solo_node_get [OF nd(1,2) nd(6) [rule_format] assms(1,2) k assms(3,4), of hops]
  fix y
  show "cli_get_chunk (node_web hops en client u) c k w = (y, w') \<Longrightarrow> solo u w' \<and> chunk_at u w' = chunk_at u w
      \<and> (case chunk_at u w k of Some d \<Rightarrow> y = Inr d | None \<Rightarrow> isl y)"
    using get \<open>solo u w\<close> nd(1) by (auto simp: chunk_at_def split: option.splits)
  obtain nd' m where del: "cli_delete_chunk (node_web hops en client u) c k w = (Inr (), [(u, nd')])" "nd_prefix nd' = []"
    "ListNodes (nd_kv nd') = []" "lc_state (nd_life nd') = lc_state (nd_life nd)" "nd_store nd' = MemoryStore (ms_delete k cs)"
    "nd_meta nd' = mput k m (nd_meta nd)" "Committed m"
    using solo_node_delete [OF nd(1-3,5) assms(1,2) k assms(3,4)] by metis
  show "cli_delete_chunk (node_web hops en client u) c k w = (r, w') \<Longrightarrow> solo u w' \<and> (\<forall>j. j \<noteq> k \<longrightarrow> chunk_at u w' j = chunk_at u w j)
      \<and> (chunk_at u w' k = None \<or> isl r \<and> chunk_at u w' k = chunk_at u w k)"
    using nd del by (auto simp: solo_def chunk_at_def ms_get_delete AcceptsChunks_def getMeta_def)
  show "fst (cli_delete_chunk (node_web hops en client u) c k w) = Inr ()" by (simp add: del(1))
qed

section \<open>Property\<close>


definition demo_bench :: bench_options where
  "demo_bench = \<lparr>bo_seed = ''http://a/'', bo_prefix = [], bo_token = [], bo_auto = False, bo_size = 1024, bo_writes = 3, bo_reads = 8,
     bo_workers = 2, bo_name = ''bench'', bo_cleanup = True\<rparr>"

definition demo_cli :: cli_client where
  "demo_cli = \<lparr>cc_seed = ''http://a'', cc_prefix = [], cc_token = []\<rparr>"

lemma demo_bench_ok: "solo ''http://a'' alone_cluster" "reaches demo_env ''cli'' ''http://a''" "CHR ''?'' \<notin> set ''http://a''"
    "bench_client ov (bench_defaults demo_bench) = demo_cli" "cc_seed demo_cli = ''http://a''" "cc_prefix demo_cli = []"
    "list_all plain_char (bo_name demo_bench)"
  by (simp_all add: solo_def alone_cluster_def alone_node_def NewService_def mem_store_def ListNodes_def kv_hgetall_def mem_hgetall_def
      new_memory_kv_def NewManager_def AcceptsChunks_def reaches_def demo_env_def getMeta_def meta_zero_def bench_client_def bench_defaults_def
      demo_bench_def demo_cli_def NewClient_def trim_space_def trim_left_char_def trim_right_char_def trim_right_slash_def is_space_def plain_char_def
      normalizeURIPrefix_def)

interpretation solo_node: chunk_server_up "node_web 1 demo_env ''cli'' ''http://a''" demo_cli "solo ''http://a''" "chunk_at ''http://a''" plain_id bodyLimit
  by (rule solo_server [OF demo_bench_ok(2,3,5,6)])


end
