(* ===== verification/Cli.thy ===== *)
theory Cli
  imports Cli_Config Benchmark
begin

text \<open>
  The commands around the client: fetching and printing the status of the cluster (\<^verbatim>\<open>cli/client.go\<close>, \<^verbatim>\<open>cli/status.go\<close>,
  \<^verbatim>\<open>cmd/memoryfs/status.go\<close>), the benchmark command (\<^verbatim>\<open>cmd/memoryfs/benchmark.go\<close>) and the dispatch of \<^verbatim>\<open>cmd/memoryfs/main.go\<close>. The
  values of flags are arguments, as their parsing is the \<^verbatim>\<open>flag\<close> package's; so is the alignment of columns by \<^verbatim>\<open>text/tabwriter\<close>.
\<close>

section \<open>Fetching the overview\<close>

text \<open>Counts are natural numbers here: a negative one, which no node sends, is refused. Time stamps are only checked.\<close>

definition dec_count :: "json \<Rightarrow> nat \<Rightarrow> nat res" where
  "dec_count j old = (case dec_int j (int old) of Inl e \<Rightarrow> Inl e | Inr i \<Rightarrow> if i < 0 then Inl json_err else Inr (nat i))"

definition check_time :: "(string \<Rightarrow> bool) \<Rightarrow> json \<Rightarrow> 'r \<Rightarrow> 'r res" where
  "check_time time_ok j r = map_sum id (\<lambda>_. r) (dec_time time_ok j None)"

definition set_job_field :: "(string \<Rightarrow> bool) \<Rightarrow> string \<Rightarrow> json \<Rightarrow> repair_job \<Rightarrow> repair_job res" where
  "set_job_field time_ok k j r =
     (if k = ''chunk_id'' then map_sum id (\<lambda>x. r\<lparr>rj_chunk := x\<rparr>) (dec_string j (rj_chunk r))
      else if k = ''replicas'' then map_sum id (\<lambda>x. r\<lparr>rj_replicas := x\<rparr>) (dec_list (\<lambda>j. dec_string j []) j (rj_replicas r))
      else if k = ''attempts'' then map_sum id (\<lambda>x. r\<lparr>rj_attempts := x\<rparr>) (dec_count j (rj_attempts r))
      else if k = ''enqueued'' then check_time time_ok j r
      else if k = ''last_error'' then map_sum id (\<lambda>x. r\<lparr>rj_error := x\<rparr>) (dec_string j (rj_error r))
      else Inr r)"

definition job_zero :: repair_job where
  "job_zero = \<lparr>rj_chunk = [], rj_replicas = [], rj_attempts = 0, rj_error = []\<rparr>"

definition set_repair_field :: "(string \<Rightarrow> bool) \<Rightarrow> string \<Rightarrow> json \<Rightarrow> repair_info \<Rightarrow> repair_info res" where
  "set_repair_field time_ok k j r =
     (if k = ''pending'' then map_sum id (\<lambda>x. r\<lparr>ri_pending := x\<rparr>) (dec_count j (ri_pending r))
      else if k = ''jobs'' then
        map_sum id (\<lambda>x. r\<lparr>ri_jobs := x\<rparr>) (dec_list (\<lambda>j. dec_struct (set_job_field time_ok) j job_zero) j (ri_jobs r))
      else Inr r)"

definition set_storage_field :: "string \<Rightarrow> json \<Rightarrow> cluster_storage \<Rightarrow> cluster_storage res" where
  "set_storage_field k j s =
     (if k = ''total_disk_quota_bytes'' then map_sum id (\<lambda>x. s\<lparr>cs_quota := x\<rparr>) (dec_int j (cs_quota s))
      else if k = ''total_disk_bytes'' then map_sum id (\<lambda>x. s\<lparr>cs_disk := x\<rparr>) (dec_int j (cs_disk s))
      else if k = ''total_mem_bytes'' then map_sum id (\<lambda>x. s\<lparr>cs_mem := x\<rparr>) (dec_int j (cs_mem s))
      else if k = ''reachable_nodes'' then map_sum id (\<lambda>x. s\<lparr>cs_reachable := x\<rparr>) (dec_count j (cs_reachable s))
      else if k = ''total_nodes'' then map_sum id (\<lambda>x. s\<lparr>cs_total := x\<rparr>) (dec_count j (cs_total s))
      else Inr s)"

definition set_node_field :: "string \<Rightarrow> json \<Rightarrow> node_overview \<Rightarrow> node_overview res" where
  "set_node_field k j n =
     (if k = ''url'' then map_sum id (\<lambda>x. n\<lparr>no_url := x\<rparr>) (dec_string j (no_url n))
      else if k = ''status'' then map_sum id (\<lambda>x. n\<lparr>no_status := x\<rparr>) (dec_string j (no_status n))
      else if k = ''role'' then map_sum id (\<lambda>x. n\<lparr>no_role := x\<rparr>) (dec_string j (no_role n))
      else if k = ''node_state'' then map_sum id (\<lambda>x. n\<lparr>no_state := x\<rparr>) (dec_string j (no_state n))
      else if k = ''cluster_epoch'' then map_sum id (\<lambda>x. n\<lparr>no_epoch := x\<rparr>) (dec_word j (no_epoch n))
      else if k = ''remaining_chunks'' then map_sum id (\<lambda>x. n\<lparr>no_remaining := x\<rparr>) (dec_int j (no_remaining n))
      else if k = ''stats'' then map_sum id (\<lambda>x. n\<lparr>no_stats := x\<rparr>) (dec_struct set_stats_field j (no_stats n))
      else if k = ''reachable'' then map_sum id (\<lambda>x. n\<lparr>no_reachable := x\<rparr>) (dec_bool j (no_reachable n))
      else if k = ''error'' then map_sum id (\<lambda>x. n\<lparr>no_error := x\<rparr>) (dec_string j (no_error n))
      else Inr n)"

definition node_zero :: node_overview where
  "node_zero = \<lparr>no_url = [], no_status = [], no_role = [], no_state = [], no_epoch = 0, no_remaining = 0, no_stats = stats_zero,
     no_reachable = False, no_error = []\<rparr>"

definition set_overview_field :: "(string \<Rightarrow> bool) \<Rightarrow> string \<Rightarrow> json \<Rightarrow> cluster_overview \<Rightarrow> cluster_overview res" where
  "set_overview_field time_ok k j o' =
     (if k = ''node_id'' then map_sum id (\<lambda>x. o'\<lparr>ov_node := x\<rparr>) (dec_string j (ov_node o'))
      else if k = ''leader'' then map_sum id (\<lambda>x. o'\<lparr>ov_leader := x\<rparr>) (dec_string j (ov_leader o'))
      else if k = ''cluster_epoch'' then map_sum id (\<lambda>x. o'\<lparr>ov_epoch := x\<rparr>) (dec_word j (ov_epoch o'))
      else if k = ''replica_factor'' then map_sum id (\<lambda>x. o'\<lparr>ov_rf := x\<rparr>) (dec_int j (ov_rf o'))
      else if k = ''repair'' then map_sum id (\<lambda>x. o'\<lparr>ov_repair := x\<rparr>) (dec_struct (set_repair_field time_ok) j (ov_repair o'))
      else if k = ''storage'' then map_sum id (\<lambda>x. o'\<lparr>ov_storage := x\<rparr>) (dec_struct set_storage_field j (ov_storage o'))
      else if k = ''nodes'' then
        map_sum id (\<lambda>x. o'\<lparr>ov_nodes := x\<rparr>) (dec_list (\<lambda>j. dec_struct set_node_field j node_zero) j (ov_nodes o'))
      else if k = ''generated_at'' then check_time time_ok j o'
      else Inr o')"

definition overview_zero :: cluster_overview where
  "overview_zero = \<lparr>ov_node = [], ov_leader = [], ov_epoch = 0, ov_rf = 0, ov_repair = \<lparr>ri_pending = 0, ri_jobs = []\<rparr>,
     ov_storage = \<lparr>cs_quota = 0, cs_disk = 0, cs_mem = 0, cs_reachable = 0, cs_total = 0\<rparr>, ov_nodes = []\<rparr>"

text \<open>The answer holds the overview under a member; one without nodes there is read as the overview itself.\<close>

definition set_overview_wrap :: "(string \<Rightarrow> bool) \<Rightarrow> string \<Rightarrow> json \<Rightarrow> cluster_overview \<Rightarrow> cluster_overview res" where
  "set_overview_wrap time_ok k j o' = (if k = ''overview'' then dec_struct (set_overview_field time_ok) j o' else Inr o')"

definition decode_overview :: "(string \<Rightarrow> bool) \<Rightarrow> bytes \<Rightarrow> cluster_overview res" where
  "decode_overview time_ok raw =
     (case unmarshal (dec_struct (set_overview_wrap time_ok)) overview_zero raw of
        Inl e \<Rightarrow> Inl e
      | Inr o' \<Rightarrow> if ov_nodes o' = [] then unmarshal (dec_struct (set_overview_field time_ok)) o' raw else Inr o')"

definition client_overview :: "(string \<Rightarrow> bool) \<Rightarrow> 'w web \<Rightarrow> cli_client \<Rightarrow> 'w \<Rightarrow> cluster_overview res \<times> 'w" where
  "client_overview time_ok web c w =
     (case client_do web c ''GET'' ''/v1/cluster/overview'' [] w of
        (Inl e, w') \<Rightarrow> (Inl e, w')
      | (Inr raw, w') \<Rightarrow> (decode_overview time_ok raw, w'))"

section \<open>Printing the status\<close>

definition valueOr :: "string \<Rightarrow> string \<Rightarrow> string" where
  "valueOr v fallback = (if trim_space v = [] then fallback else v)"

text \<open>\<open>float64\<close> of a positive \<open>int64\<close>: 53 significant bits, rounded to the nearest, ties to even; and one decimal of a quotient, rounded so too.\<close>

definition round_div :: "int \<Rightarrow> int \<Rightarrow> int" where
  "round_div a b =
     (let q = a div b; r = a mod b in if b < 2 * r \<or> (2 * r = b \<and> odd q) then q + 1 else q)"

fun shift_to_53 :: "nat \<Rightarrow> int \<Rightarrow> int" where
  "shift_to_53 0 n = 1"
| "shift_to_53 (Suc k) n = (if n < 2 ^ 53 then 1 else 2 * shift_to_53 k (n div 2))"

definition float64_of_int :: "int \<Rightarrow> int" where
  "float64_of_int n = (let s = shift_to_53 64 n in round_div n s * s)"

definition one_decimal :: "int \<Rightarrow> int \<Rightarrow> string" where
  "one_decimal n d = (let t = round_div (10 * n) d in format_int (t div 10) @ ''.'' @ format_int (t mod 10))"

text \<open>The loop \<^verbatim>\<open>for v := n / unit; v >= unit; v /= unit\<close>, with the divisor at 64 bits.\<close>

function unit_loop :: "int \<Rightarrow> int \<Rightarrow> nat \<Rightarrow> int \<times> nat" where
  "unit_loop v d e = (if 1024 \<le> v then unit_loop (v div 1024) (wrap64 (d * 1024)) (Suc e) else (d, e))"
  by auto
termination by (relation "measure (\<lambda>(v, _, _). nat v)") auto

declare unit_loop.simps [simp del]

text \<open>\<open>None\<close> is the panic of an index behind the last unit.\<close>

definition FormatBytes :: "int \<Rightarrow> string option" where
  "FormatBytes n =
     (if n \<le> 0 then Some ''0 B''
      else if n < 1024 then Some (format_int n @ '' B'')
      else case unit_loop (n div 1024) 1024 0 of (d, e) \<Rightarrow>
        if e < 6 then Some (one_decimal (float64_of_int n) d @ '' '' @ [''KMGTPE'' ! e] @ ''iB'') else None)"

text \<open>The unit is the greatest power of 1024 that is not above the size; the divisor does not overflow and the index stays in range.\<close>

lemma unit_loop_spec:
  "1 \<le> v \<Longrightarrow> v < 1024 ^ Suc m \<Longrightarrow> e + m \<le> 5 \<Longrightarrow>
     \<exists>j \<le> m. unit_loop v (1024 ^ Suc e) e = (1024 ^ Suc (e + j), e + j) \<and> 1024 ^ j \<le> v \<and> v < 1024 ^ Suc j"
proof (induction m arbitrary: v e)
  case 0
  then show ?case by (simp add: unit_loop.simps [of v])
next
  case (Suc m)
  show ?case
  proof (cases "1024 \<le> v")
    case True
    have "(1024 :: int) ^ Suc e * 1024 \<le> 1024 ^ 6" using Suc.prems(3) power_increasing [of "Suc (Suc e)" 6 "1024 :: int"] by simp
    then have w: "wrap64 (1024 ^ Suc e * 1024) = 1024 ^ Suc (Suc e)" by (subst wrap64_small) simp_all
    have "1 \<le> v div 1024" "v div 1024 < 1024 ^ Suc m" "Suc e + m \<le> 5" using True Suc.prems by simp_all
    from Suc.IH [OF this] obtain j where j: "j \<le> m"
      "unit_loop (v div 1024) (1024 ^ Suc (Suc e)) (Suc e) = (1024 ^ Suc (Suc e + j), Suc e + j)" "1024 ^ j \<le> v div 1024" "v div 1024 < 1024 ^ Suc j"
      by blast
    then have "1024 ^ Suc j \<le> v" "v < 1024 ^ Suc (Suc j)" by simp_all
    moreover have "unit_loop v (1024 ^ Suc e) e = (1024 ^ Suc (e + Suc j), e + Suc j)"
      using True j(2) unfolding unit_loop.simps [of v] w by simp
    ultimately show ?thesis using j(1) by (intro exI [of _ "Suc j"]) simp
  next
    case False
    then show ?thesis using Suc.prems by (intro exI [of _ 0]) (simp add: unit_loop.simps [of v])
  qed
qed

lemma FormatBytes_unit:
  assumes "1024 \<le> n" "n < 2 ^ 63"
  shows "\<exists>e < 6. 1024 ^ Suc e \<le> n \<and> n < 1024 ^ Suc (Suc e)
     \<and> FormatBytes n = Some (one_decimal (float64_of_int n) (1024 ^ Suc e) @ '' '' @ [''KMGTPE'' ! e] @ ''iB'')"
proof -
  have "1 \<le> n div 1024" "n div 1024 < 1024 ^ Suc 5" using assms by simp_all
  from unit_loop_spec [OF this, of 0] obtain e where e: "e \<le> 5" "unit_loop (n div 1024) 1024 0 = (1024 ^ Suc e, e)"
    "1024 ^ e \<le> n div 1024" "n div 1024 < 1024 ^ Suc e" by auto
  then have "1024 ^ Suc e \<le> n" "n < 1024 ^ Suc (Suc e)" by simp_all
  with e assms show ?thesis by (intro exI [of _ e]) (simp add: FormatBytes_def)
qed

lemma FormatBytes_returns: "n < 2 ^ 63 \<Longrightarrow> \<exists>s. FormatBytes n = Some s"
  using FormatBytes_unit [of n] by (cases "n < 1024") (auto simp: FormatBytes_def)

definition tab :: string where "tab = [CHR 0x09]"

text \<open>A row of the table of nodes, with the separators \<^verbatim>\<open>tabwriter\<close> turns into columns.\<close>

definition status_row :: "node_overview \<Rightarrow> string option" where
  "status_row n =
     (case (FormatBytes (st_mem (no_stats n)), FormatBytes (st_disk (no_stats n))) of
        (Some mem, Some disk) \<Rightarrow>
          Some (join_with tab
            [no_url n, valueOr (if no_reachable n then no_role n else ''-'') ''-'', valueOr (if no_reachable n then no_state n else ''down'') ''-'',
             format_int (st_chunks (no_stats n)), mem, disk, format_uint (no_epoch n), format_bool (no_reachable n)] @ newline)
      | _ \<Rightarrow> None)"

definition status_table :: "node_overview list \<Rightarrow> string option" where
  "status_table ns =
     map_option (\<lambda>rows. join_with tab [''NODE'', ''ROLE'', ''STATE'', ''CHUNKS'', ''MEM'', ''DISK'', ''EPOCH'', ''REACH''] @ newline @ concat rows)
       (those (map status_row ns))"

definition printStatusText :: "(string \<Rightarrow> string) \<Rightarrow> string \<Rightarrow> string \<Rightarrow> cluster_overview \<Rightarrow> string option" where
  "printStatusText tabwriter seed prefix ov =
     (let st = ov_storage ov in
      case (those [FormatBytes (cs_quota st), FormatBytes (wrap64 (cs_disk st + cs_mem st)), FormatBytes (cs_disk st), FormatBytes (cs_mem st)],
            status_table (ov_nodes ov)) of
        (Some [quota, used, disk, mem], Some rows) \<Rightarrow>
          Some (''MemoryFS Cluster Status'' @ newline
            @ ''Seed:   '' @ seed @ newline
            @ (if prefix \<noteq> [] then ''Prefix: '' @ prefix @ newline else [])
            @ ''Leader: '' @ valueOr (ov_leader ov) ''-'' @ newline
            @ ''Epoch:  '' @ format_uint (ov_epoch ov) @ ''   RF: '' @ format_int (ov_rf ov) @ ''   Repair pending: ''
            @ format_nat (ri_pending (ov_repair ov)) @ ''   Local node: '' @ valueOr (ov_node ov) ''-'' @ newline
            @ ''Cluster: '' @ format_nat (cs_reachable st) @ ''/'' @ format_nat (cs_total st) @ '' nodes reachable   quota '' @ quota
            @ ''   used '' @ used @ '' (disk '' @ disk @ '' + mem '' @ mem @ '')'' @ newline @ newline
            @ tabwriter rows)
      | _ \<Rightarrow> None)"

record status_options =
  sp_seed :: string
  sp_prefix :: string
  sp_token :: string
  sp_json :: bool
  sp_auto :: bool

text \<open>The JSON of the overview, for \<^verbatim>\<open>-json\<close>, is an argument. \<open>Inr None\<close> would be a panic.\<close>

definition PrintStatus :: "(cli_client \<Rightarrow> cluster_overview res) \<Rightarrow> (cluster_overview \<Rightarrow> string) \<Rightarrow> (string \<Rightarrow> string) \<Rightarrow> status_options \<Rightarrow> string option res" where
  "PrintStatus overview enc tabwriter opt =
     (let prefix = (if sp_auto opt \<and> sp_prefix opt = [] then DetectPrefix overview (sp_seed opt) (sp_token opt) else sp_prefix opt) in
      case overview (NewClient (sp_seed opt) prefix (sp_token opt)) of
        Inl e \<Rightarrow> Inl e
      | Inr ov \<Rightarrow> if sp_json opt then Inr (Some (enc ov)) else Inr (printStatusText tabwriter (sp_seed opt) prefix ov))"

definition conn_status :: "conn_info \<Rightarrow> bool \<Rightarrow> status_options" where
  "conn_status c js = \<lparr>sp_seed = ci_seed c, sp_prefix = ci_prefix c, sp_token = ci_token c, sp_json = js, sp_auto = (ci_prefix c = [])\<rparr>"

definition runStatus :: "environ \<Rightarrow> cli_config res \<Rightarrow> (cli_client \<Rightarrow> cluster_overview res) \<Rightarrow> (cluster_overview \<Rightarrow> string) \<Rightarrow> (string \<Rightarrow> string) \<Rightarrow>
    string \<Rightarrow> string \<Rightarrow> string \<Rightarrow> bool \<Rightarrow> cmd_result option" where
  "runStatus env load overview enc tabwriter flagSeed flagPrefix flagToken js =
     (case PrintStatus overview enc tabwriter (conn_status (resolveConn env load flagSeed flagPrefix flagToken) js) of
        Inl e \<Rightarrow> Some \<lparr>cr_out = [], cr_err = ''status: '' @ error_string e @ newline, cr_code = 1\<rparr>
      | Inr out \<Rightarrow> map_option (\<lambda>s. \<lparr>cr_out = s, cr_err = [], cr_code = 0\<rparr>) out)"

text \<open>The status is printed for every overview whose sizes are 64-bit integers: no unit is out of range.\<close>

definition sizes_ok :: "cluster_overview \<Rightarrow> bool" where
  "sizes_ok ov \<longleftrightarrow> list_all (\<lambda>i. i < 2 ^ 63) [cs_quota (ov_storage ov), cs_disk (ov_storage ov), cs_mem (ov_storage ov)]
     \<and> list_all (\<lambda>n. st_mem (no_stats n) < 2 ^ 63 \<and> st_disk (no_stats n) < 2 ^ 63) (ov_nodes ov)"

lemma those_Some: "(\<And>x. x \<in> set xs \<Longrightarrow> \<exists>y. f x = Some y) \<Longrightarrow> \<exists>ys. those (map f xs) = Some ys \<and> length ys = length xs"
proof (induction xs)
  case (Cons x xs)
  then obtain y ys where "f x = Some y" "those (map f xs) = Some ys" "length ys = length xs" by fastforce
  then show ?case by simp
qed simp

lemma status_row_returns: "st_mem (no_stats n) < 2 ^ 63 \<Longrightarrow> st_disk (no_stats n) < 2 ^ 63 \<Longrightarrow> \<exists>s. status_row n = Some s"
  using FormatBytes_returns [of "st_mem (no_stats n)"] FormatBytes_returns [of "st_disk (no_stats n)"] by (auto simp: status_row_def)

lemma status_prints:
  assumes "sizes_ok ov"
  shows "\<exists>s. printStatusText tabwriter seed prefix ov = Some s"
proof -
  let ?s = "ov_storage ov"
  have "wrap64 (cs_disk ?s + cs_mem ?s) < 2 ^ 63" using sint_less [of "word_of_int (cs_disk ?s + cs_mem ?s) :: 64 word"] by (simp add: wrap64_def)
  then obtain a b c d where abcd: "FormatBytes (cs_quota ?s) = Some a" "FormatBytes (wrap64 (cs_disk ?s + cs_mem ?s)) = Some b"
    "FormatBytes (cs_disk ?s) = Some c" "FormatBytes (cs_mem ?s) = Some d"
    using assms FormatBytes_returns by (fastforce simp: sizes_ok_def)
  have "\<exists>rows. those (map status_row (ov_nodes ov)) = Some rows"
    using those_Some [of "ov_nodes ov" status_row] status_row_returns assms by (auto simp: sizes_ok_def list_all_iff)
  then show ?thesis by (auto simp: printStatusText_def Let_def abcd status_table_def)
qed

section \<open>The benchmark command\<close>

text \<open>The report; the four measured values are given as text.\<close>

record bench_times =
  bt_write_rate :: string
  bt_write_avg :: string
  bt_read_rate :: string
  bt_read_avg :: string

definition printBenchmark :: "bench_times \<Rightarrow> bench_options \<Rightarrow> string \<Rightarrow> bench_result \<Rightarrow> string option" where
  "printBenchmark t opt prefix res =
     map_option (\<lambda>chunk.
       ''MemoryFS Benchmark'' @ newline
       @ ''Seed:    '' @ bo_seed opt @ newline
       @ (if prefix \<noteq> [] then ''Prefix:  '' @ prefix @ newline else [])
       @ ''Chunk:   '' @ chunk @ ''   Workers: '' @ format_int (br_workers res) @ ''   Writes: '' @ format_int (br_writes res)
       @ ''   Reads: '' @ format_int (br_reads res) @ newline @ newline
       @ ''Write:   '' @ bt_write_rate t @ '' MiB/s   avg '' @ bt_write_avg t @ ''/op'' @ newline
       @ ''Read:    '' @ bt_read_rate t @ '' MiB/s   avg '' @ bt_read_avg t @ ''/op'' @ newline)
     (FormatBytes (br_size res))"

definition conn_bench :: "conn_info \<Rightarrow> bench_options \<Rightarrow> bench_options" where
  "conn_bench c opt = opt\<lparr>bo_seed := ci_seed c, bo_prefix := ci_prefix c, bo_token := ci_token c, bo_auto := (ci_prefix c = [])\<rparr>"

text \<open>The command: its exit code and what it prints on the error stream.\<close>

definition runBenchmark :: "'w web \<Rightarrow> (cli_client \<Rightarrow> cluster_overview res) \<Rightarrow> err \<Rightarrow> (nat \<Rightarrow> int) \<Rightarrow> (nat \<Rightarrow> char) \<Rightarrow> environ \<Rightarrow> cli_config res \<Rightarrow>
    string \<Rightarrow> string \<Rightarrow> string \<Rightarrow> bench_options \<Rightarrow> 'w \<Rightarrow> nat \<Rightarrow> string \<Rightarrow> 'w \<Rightarrow> bool" where
  "runBenchmark web overview ctx now rand env load flagSeed flagPrefix flagToken opt w code msg w' \<longleftrightarrow>
     (\<exists>r. RunBenchmark web overview ctx now rand (conn_bench (resolveConn env load flagSeed flagPrefix flagToken) opt) w r w'
        \<and> (case r of Inl e \<Rightarrow> code = 1 \<and> msg = ''benchmark: '' @ error_string e @ newline | Inr _ \<Rightarrow> code = 0 \<and> msg = []))"

section \<open>The dispatch\<close>

datatype main_action =
    RunNode "string list"
  | RunNodeEnv "string list"
  | RunMount "string list"
  | RunStatus "string list"
  | RunBenchmarkCmd "string list"
  | RunConfig "string list"
  | PrintVersion
  | PrintUsage
  | UsageError string

text \<open>The arguments with the name of the program first; a wrong or missing command prints the usage and exits with code 2.\<close>

definition main_dispatch :: "string list \<Rightarrow> main_action" where
  "main_dispatch argv =
     (case argv of
        _ # cmd # args \<Rightarrow>
          if cmd = ''node'' then RunNode args
          else if cmd = ''node-env'' then RunNodeEnv args
          else if cmd = ''mount'' then RunMount args
          else if cmd = ''status'' then RunStatus args
          else if cmd = ''benchmark'' then RunBenchmarkCmd args
          else if cmd = ''config'' then RunConfig args
          else if cmd = ''version'' \<or> cmd = ''-v'' \<or> cmd = ''--version'' then PrintVersion
          else if cmd = ''help'' \<or> cmd = ''-h'' \<or> cmd = ''--help'' then PrintUsage
          else UsageError (''unknown command: '' @ cmd @ newline @ newline)
      | _ \<Rightarrow> UsageError [])"

end
