(* ===== verification/Fuse.thy ===== *)
theory Fuse
  imports Storage Remote_Meta
begin

text \<open>
  The FUSE file system of a mount (\<^verbatim>\<open>fusefs/fs.go\<close>): directories, files and links, as callbacks that call
  a metadata backend (the Go interface \<^verbatim>\<open>meta.Backend\<close>, here a record of functions on the state \<open>'w\<close> of the
  servers) and the chunk client of theory \<open>Storage\<close>.

  A callback returns a value, an error number, or panics: a backend may return a nil attribute
  without an error (the HTTP client does when an answer has no \<open>attr\<close>), and using it panics. \<open>File.Write\<close>
  recovers from that. The library go-fuse keeps one node for an inode number; the state of a file
  node is its \<open>dirtyAttr\<close>. Times are nanoseconds.
\<close>

section \<open>Backend and results\<close>

record 'w backend =
  be_getattr :: "u64 \<Rightarrow> 'w \<Rightarrow> attr option res \<times> 'w"
  be_lookup :: "u64 \<Rightarrow> string \<Rightarrow> 'w \<Rightarrow> attr option res \<times> 'w"
  be_readdir :: "u64 \<Rightarrow> 'w \<Rightarrow> (string, attr option) gomap res \<times> 'w"
  be_mkdir :: "u64 \<Rightarrow> string \<Rightarrow> u32 \<Rightarrow> u32 \<Rightarrow> u32 \<Rightarrow> 'w \<Rightarrow> attr option res \<times> 'w"
  be_create :: "u64 \<Rightarrow> string \<Rightarrow> u32 \<Rightarrow> u32 \<Rightarrow> u32 \<Rightarrow> 'w \<Rightarrow> attr option res \<times> 'w"
  be_symlink :: "u64 \<Rightarrow> string \<Rightarrow> string \<Rightarrow> u32 \<Rightarrow> u32 \<Rightarrow> 'w \<Rightarrow> attr option res \<times> 'w"
  be_unlink :: "u64 \<Rightarrow> string \<Rightarrow> 'w \<Rightarrow> attr option res \<times> 'w"
  be_rmdir :: "u64 \<Rightarrow> string \<Rightarrow> 'w \<Rightarrow> unit res \<times> 'w"
  be_rename :: "u64 \<Rightarrow> u64 \<Rightarrow> string \<Rightarrow> string \<Rightarrow> 'w \<Rightarrow> unit res \<times> 'w"
  be_update :: "attr \<Rightarrow> 'w \<Rightarrow> unit res \<times> 'w"

datatype errno = EEXIST | ENOENT | ENOTEMPTY | EIO | EXDEV

datatype 'a fuse_result = Ret 'a | Errno errno | Panic

definition mapMetaErr :: "err \<Rightarrow> errno" where
  "mapMetaErr e =
     (if e = ErrExists then EEXIST else if e = ErrNotFound then ENOENT else if e = ErrNotEmpty then ENOTEMPTY else EIO)"

record fuse_attr =
  fa_ino :: u64
  fa_mode :: u32
  fa_size :: u64
  fa_uid :: u32
  fa_gid :: u32
  fa_nlink :: u32
  fa_mtime :: u64
  fa_ctime :: u64
  fa_atime :: u64
  fa_blocks :: u64

definition fillAttr :: "attr \<Rightarrow> fuse_attr" where
  "fillAttr a =
     \<lparr>fa_ino = at_ino a, fa_mode = at_mode a, fa_size = at_size a, fa_uid = at_uid a, fa_gid = at_gid a, fa_nlink = at_nlink a,
      fa_mtime = word_of_int (at_mtime a), fa_ctime = word_of_int (at_mtime a), fa_atime = word_of_int (at_mtime a),
      fa_blocks = (at_size a + 511) div 512\<rparr>"

text \<open>An entry whose attributes cannot be read keeps the zero values of \<open>EntryOut\<close> (\<open>None\<close>).\<close>

definition fillEntryOut :: "'w backend \<Rightarrow> u64 \<Rightarrow> 'w \<Rightarrow> fuse_attr option fuse_result \<times> 'w" where
  "fillEntryOut be ino w =
     (case be_getattr be ino w of
        (Inl _, w') \<Rightarrow> (Ret None, w')
      | (Inr None, w') \<Rightarrow> (Panic, w')
      | (Inr (Some a), w') \<Rightarrow> (Ret (Some (fillAttr a)), w'))"

section \<open>Nodes\<close>

datatype fnode = RootNode | DirNode u64 | FileNode u64 | LinkNode u64 string

type_synonym entry = "fnode \<times> fuse_attr option"

definition with_entry :: "'w backend \<Rightarrow> fnode \<Rightarrow> u64 \<Rightarrow> 'w \<Rightarrow> entry fuse_result \<times> 'w" where
  "with_entry be nd ino w =
     (case fillEntryOut be ino w of
        (Ret e, w') \<Rightarrow> (Ret (nd, e), w') | (Errno x, w') \<Rightarrow> (Errno x, w') | (Panic, w') \<Rightarrow> (Panic, w'))"

definition child_node :: "attr \<Rightarrow> fnode" where
  "child_node a =
     (let t = at_mode a AND 0xF000 in
      if t = 0x4000 then DirNode (at_ino a) else if t = 0xA000 then LinkNode (at_ino a) (at_target a) else FileNode (at_ino a))"

definition newChildNode :: "'w backend \<Rightarrow> attr \<Rightarrow> 'w \<Rightarrow> entry fuse_result \<times> 'w" where
  "newChildNode be a w = with_entry be (child_node a) (at_ino a) w"

definition answer_child :: "'w backend \<Rightarrow> (err \<Rightarrow> errno) \<Rightarrow> attr option res \<times> 'w \<Rightarrow> entry fuse_result \<times> 'w" where
  "answer_child be f x =
     (case x of
        (Inl e, w) \<Rightarrow> (Errno (f e), w) | (Inr None, w) \<Rightarrow> (Panic, w) | (Inr (Some a), w) \<Rightarrow> newChildNode be a w)"

definition answer_errno :: "unit res \<times> 'w \<Rightarrow> unit fuse_result \<times> 'w" where
  "answer_errno x = (case x of (Inl e, w) \<Rightarrow> (Errno (mapMetaErr e), w) | (Inr _, w) \<Rightarrow> (Ret (), w))"

section \<open>Directories\<close>

definition node_getattr :: "'w backend \<Rightarrow> u64 \<Rightarrow> 'w \<Rightarrow> fuse_attr fuse_result \<times> 'w" where
  "node_getattr be ino w =
     (case be_getattr be ino w of
        (Inl _, w') \<Rightarrow> (Errno ENOENT, w') | (Inr None, w') \<Rightarrow> (Panic, w') | (Inr (Some a), w') \<Rightarrow> (Ret (fillAttr a), w'))"

definition root_lookup :: "'w backend \<Rightarrow> string \<Rightarrow> 'w \<Rightarrow> entry fuse_result \<times> 'w" where
  "root_lookup be n w =
     (if n = ''.'' \<or> n = ''..'' then with_entry be RootNode rootIno w
      else answer_child be (\<lambda>_. ENOENT) (be_lookup be rootIno n w))"

definition dir_lookup :: "'w backend \<Rightarrow> u64 \<Rightarrow> string \<Rightarrow> 'w \<Rightarrow> entry fuse_result \<times> 'w" where
  "dir_lookup be ino n w =
     (if n = ''.'' then with_entry be (DirNode ino) ino w
      else if n = ''..'' then
        (case be_lookup be ino ''..'' w of
           (Inr (Some p), w') \<Rightarrow> with_entry be (DirNode (at_ino p)) (at_ino p) w'
         | (Inr None, w') \<Rightarrow> (Panic, w')
         | (Inl _, w') \<Rightarrow> answer_child be (\<lambda>_. ENOENT) (be_lookup be ino n w'))
      else answer_child be (\<lambda>_. ENOENT) (be_lookup be ino n w))"

type_synonym dir_entry = "string \<times> u64 \<times> u32"

fun list_entries :: "(string \<Rightarrow> bool) \<Rightarrow> (string, attr option) gomap \<Rightarrow> dir_entry list fuse_result" where
  "list_entries skip [] = Ret []"
| "list_entries skip ((n, x) # m) =
     (if skip n then list_entries skip m
      else case x of None \<Rightarrow> Panic | Some a \<Rightarrow>
        (case list_entries skip m of
           Ret es \<Rightarrow> Ret ((n, at_ino a, at_mode a AND 0xFFF) # es) | Errno e \<Rightarrow> Errno e | Panic \<Rightarrow> Panic))"

definition dots :: "u64 \<Rightarrow> u64 \<Rightarrow> dir_entry list fuse_result \<Rightarrow> dir_entry list fuse_result" where
  "dots ino parent r =
     (case r of Ret es \<Rightarrow> Ret ((''.'', ino, 0x4000) # (''..'', parent, 0x4000) # es) | Errno e \<Rightarrow> Errno e | Panic \<Rightarrow> Panic)"

definition root_readdir :: "'w backend \<Rightarrow> 'w \<Rightarrow> dir_entry list fuse_result \<times> 'w" where
  "root_readdir be w =
     (case be_readdir be rootIno w of
        (Inl _, w') \<Rightarrow> (Errno EIO, w')
      | (Inr m, w') \<Rightarrow> (dots rootIno rootIno (list_entries (\<lambda>_. False) m), w'))"

definition dir_readdir :: "'w backend \<Rightarrow> u64 \<Rightarrow> 'w \<Rightarrow> dir_entry list fuse_result \<times> 'w" where
  "dir_readdir be ino w =
     (case be_readdir be ino w of
        (Inl _, w1) \<Rightarrow> (Errno EIO, w1)
      | (Inr m, w1) \<Rightarrow>
          (case be_lookup be ino ''..'' w1 of
             (Inl _, w2) \<Rightarrow> (dots ino ino (list_entries (\<lambda>n. n = ''.'' \<or> n = ''..'') m), w2)
           | (Inr None, w2) \<Rightarrow> (Panic, w2)
           | (Inr (Some p), w2) \<Rightarrow> (dots ino (at_ino p) (list_entries (\<lambda>n. n = ''.'' \<or> n = ''..'') m), w2)))"

definition dir_mkdir :: "'w backend \<Rightarrow> u32 \<Rightarrow> u32 \<Rightarrow> u64 \<Rightarrow> string \<Rightarrow> u32 \<Rightarrow> 'w \<Rightarrow> entry fuse_result \<times> 'w" where
  "dir_mkdir be uid gid ino n mode w = answer_child be mapMetaErr (be_mkdir be ino n mode uid gid w)"

definition dir_create :: "'w backend \<Rightarrow> u32 \<Rightarrow> u32 \<Rightarrow> u64 \<Rightarrow> string \<Rightarrow> u32 \<Rightarrow> 'w \<Rightarrow> entry fuse_result \<times> 'w" where
  "dir_create be uid gid ino n mode w = answer_child be mapMetaErr (be_create be ino n mode uid gid w)"

definition dir_symlink :: "'w backend \<Rightarrow> u32 \<Rightarrow> u32 \<Rightarrow> u64 \<Rightarrow> string \<Rightarrow> string \<Rightarrow> 'w \<Rightarrow> entry fuse_result \<times> 'w" where
  "dir_symlink be uid gid ino target n w = answer_child be mapMetaErr (be_symlink be ino n target uid gid w)"

definition dir_unlink :: "'w backend \<Rightarrow> 'w chunk_transport \<Rightarrow> chunk_client \<Rightarrow> u64 \<Rightarrow> string \<Rightarrow> writers \<Rightarrow> 'w \<Rightarrow> unit fuse_result \<times> writers \<times> 'w" where
  "dir_unlink be tp c ino n ws w =
     (case be_unlink be ino n w of
        (Inl _, w') \<Rightarrow> (Errno ENOENT, ws, w')
      | (Inr None, w') \<Rightarrow> (Panic, ws, w')
      | (Inr (Some a), w') \<Rightarrow> (Ret (), DeleteChunks tp c a ws w'))"

definition dir_rmdir :: "'w backend \<Rightarrow> u64 \<Rightarrow> string \<Rightarrow> 'w \<Rightarrow> unit fuse_result \<times> 'w" where
  "dir_rmdir be ino n w = answer_errno (be_rmdir be ino n w)"

definition dir_rename :: "'w backend \<Rightarrow> u64 \<Rightarrow> string \<Rightarrow> fnode \<Rightarrow> string \<Rightarrow> 'w \<Rightarrow> unit fuse_result \<times> 'w" where
  "dir_rename be ino n parent n' w =
     (case parent of
        RootNode \<Rightarrow> answer_errno (be_rename be ino rootIno n n' w)
      | DirNode i \<Rightarrow> answer_errno (be_rename be ino i n n' w)
      | _ \<Rightarrow> (Errno EXDEV, w))"

text \<open>The callbacks of the root node are those of a directory at the root inode, \<open>Lookup\<close> and \<open>Readdir\<close> apart.\<close>

definition root_getattr :: "'w backend \<Rightarrow> 'w \<Rightarrow> fuse_attr fuse_result \<times> 'w" where
  "root_getattr be = node_getattr be rootIno"

definition root_mkdir :: "'w backend \<Rightarrow> u32 \<Rightarrow> u32 \<Rightarrow> string \<Rightarrow> u32 \<Rightarrow> 'w \<Rightarrow> entry fuse_result \<times> 'w" where
  "root_mkdir be uid gid n mode w = answer_child be mapMetaErr (be_mkdir be rootIno n mode uid gid w)"

definition root_create :: "'w backend \<Rightarrow> u32 \<Rightarrow> u32 \<Rightarrow> string \<Rightarrow> u32 \<Rightarrow> 'w \<Rightarrow> entry fuse_result \<times> 'w" where
  "root_create be uid gid n mode w = answer_child be mapMetaErr (be_create be rootIno n mode uid gid w)"

definition root_symlink :: "'w backend \<Rightarrow> u32 \<Rightarrow> u32 \<Rightarrow> string \<Rightarrow> string \<Rightarrow> 'w \<Rightarrow> entry fuse_result \<times> 'w" where
  "root_symlink be uid gid target n w = answer_child be mapMetaErr (be_symlink be rootIno n target uid gid w)"

definition root_unlink :: "'w backend \<Rightarrow> 'w chunk_transport \<Rightarrow> chunk_client \<Rightarrow> string \<Rightarrow> writers \<Rightarrow> 'w \<Rightarrow> unit fuse_result \<times> writers \<times> 'w" where
  "root_unlink be tp c = dir_unlink be tp c rootIno"

definition root_rmdir :: "'w backend \<Rightarrow> string \<Rightarrow> 'w \<Rightarrow> unit fuse_result \<times> 'w" where
  "root_rmdir be n w = answer_errno (be_rmdir be rootIno n w)"

definition root_rename :: "'w backend \<Rightarrow> string \<Rightarrow> fnode \<Rightarrow> string \<Rightarrow> 'w \<Rightarrow> unit fuse_result \<times> 'w" where
  "root_rename be n parent n' w =
     (case parent of
        DirNode i \<Rightarrow> answer_errno (be_rename be rootIno i n n' w)
      | RootNode \<Rightarrow> answer_errno (be_rename be rootIno rootIno n n' w)
      | _ \<Rightarrow> (Errno EXDEV, w))"

definition node_readlink :: "'w backend \<Rightarrow> u64 \<Rightarrow> 'w \<Rightarrow> bytes fuse_result \<times> 'w" where
  "node_readlink be ino w =
     (case be_getattr be ino w of
        (Inl _, w') \<Rightarrow> (Errno ENOENT, w') | (Inr None, w') \<Rightarrow> (Panic, w') | (Inr (Some a), w') \<Rightarrow> (Ret (at_target a), w'))"

record statfs =
  sf_bsize :: u32
  sf_frsize :: u32
  sf_blocks :: u64
  sf_bfree :: u64
  sf_bavail :: u64
  sf_namelen :: u32

definition Statfs :: "u64 \<Rightarrow> u64 option \<Rightarrow> u64 option \<Rightarrow> statfs" where
  "Statfs size0 capacity used =
     (let t0 = (case capacity of Some t \<Rightarrow> if 0 < t then t else size0 | None \<Rightarrow> size0);
          u = (case used of Some x \<Rightarrow> x | None \<Rightarrow> 0);
          total = (if t0 < u then u else t0) in
      \<lparr>sf_bsize = 4096, sf_frsize = 4096, sf_blocks = total div 4096, sf_bfree = (total - u) div 4096, sf_bavail = (total - u) div 4096, sf_namelen = 255\<rparr>)"

section \<open>Files\<close>

record fuse_file =
  fl_ino :: u64
  fl_dirty :: "attr option"

type_synonym 'w fstate = "fuse_file \<times> writers \<times> 'w"

definition file_getattr :: "'w backend \<Rightarrow> 'w fstate \<Rightarrow> fuse_attr fuse_result \<times> 'w fstate" where
  "file_getattr be s =
     (case s of (f, ws, w) \<Rightarrow>
      case fl_dirty f of
        Some a \<Rightarrow> (Ret (fillAttr a), s)
      | None \<Rightarrow> (case node_getattr be (fl_ino f) w of (r, w') \<Rightarrow> (r, f, ws, w')))"

definition file_read :: "'w backend \<Rightarrow> 'w chunk_transport \<Rightarrow> chunk_client \<Rightarrow> nat \<Rightarrow> int \<Rightarrow> 'w fstate \<Rightarrow> bytes fuse_result \<times> 'w fstate" where
  "file_read be tp c n off s =
     (case s of (f, ws, w) \<Rightarrow>
      case be_getattr be (fl_ino f) w of
        (Inl _, w') \<Rightarrow> (Errno ENOENT, f, ws, w')
      | (Inr None, w') \<Rightarrow> (Panic, f, ws, w')
      | (Inr (Some a), w') \<Rightarrow> (Ret (store_read tp c a n off ws w'), f, ws, w'))"

text \<open>The write changes the cached attributes in place, also when it fails.\<close>

definition file_write :: "'w backend \<Rightarrow> 'w chunk_transport \<Rightarrow> chunk_client \<Rightarrow> int \<Rightarrow> bytes \<Rightarrow> int \<Rightarrow> 'w fstate \<Rightarrow> u32 fuse_result \<times> 'w fstate" where
  "file_write be tp c now d off s =
     (case s of (f, ws, w) \<Rightarrow>
      case (case fl_dirty f of Some a \<Rightarrow> (Inr (Some a), w) | None \<Rightarrow> be_getattr be (fl_ino f) w) of
        (Inl _, w1) \<Rightarrow> (Errno ENOENT, f, ws, w1)
      | (Inr None, w1) \<Rightarrow> (Errno EIO, f, ws, w1)
      | (Inr (Some a), w1) \<Rightarrow>
          (case store_write tp c now a d off ws w1 of
             (Inl _, a', ws', w2) \<Rightarrow> (Errno EIO, f\<lparr>fl_dirty := Some a'\<rparr>, ws', w2)
           | (Inr _, a', ws', w2) \<Rightarrow> (Ret (of_nat (length d)), f\<lparr>fl_dirty := Some a'\<rparr>, ws', w2)))"

definition syncAttr :: "'w backend \<Rightarrow> int \<Rightarrow> 'w fstate \<Rightarrow> 'w fstate" where
  "syncAttr be now s =
     (case s of (f, ws, w) \<Rightarrow>
      (f\<lparr>fl_dirty := None\<rparr>, ws,
       case fl_dirty f of None \<Rightarrow> w | Some a \<Rightarrow> snd (be_update be (a\<lparr>at_mtime := now div 10 ^ 9\<rparr>) w)))"

definition file_fsync :: "'w backend \<Rightarrow> 'w chunk_transport \<Rightarrow> chunk_client \<Rightarrow> int \<Rightarrow> 'w fstate \<Rightarrow> unit fuse_result \<times> 'w fstate" where
  "file_fsync be tp c now s =
     (case s of (f, ws, w) \<Rightarrow>
      case FlushFile tp c (fl_ino f) ws w of
        (Inl _, ws', w') \<Rightarrow> (Errno EIO, f, ws', w')
      | (Inr _, ws', w') \<Rightarrow> (Ret (), syncAttr be now (f, ws', w')))"

definition file_release :: "'w backend \<Rightarrow> 'w chunk_transport \<Rightarrow> chunk_client \<Rightarrow> int \<Rightarrow> 'w fstate \<Rightarrow> 'w fstate" where
  "file_release be tp c now s =
     (case s of (f, ws, w) \<Rightarrow> case FlushFile tp c (fl_ino f) ws w of (_, ws', w') \<Rightarrow> syncAttr be now (f, ws', w'))"

text \<open>The attributes \<open>Setattr\<close> changes are those of \<open>dirtyAttr\<close>, when there are any, so a failure leaves them changed.\<close>

definition keep_dirty :: "fuse_file \<Rightarrow> attr \<Rightarrow> fuse_file" where
  "keep_dirty f a = (if fl_dirty f = None then f else f\<lparr>fl_dirty := Some a\<rparr>)"

definition set_mode :: "u32 option \<Rightarrow> attr \<Rightarrow> attr" where
  "set_mode m a = (case m of None \<Rightarrow> a | Some x \<Rightarrow> a\<lparr>at_mode := (at_mode a AND 0xF000) OR (x AND 0xFFF)\<rparr>)"

definition file_setattr :: "'w backend \<Rightarrow> 'w chunk_transport \<Rightarrow> chunk_client \<Rightarrow> int \<Rightarrow> u32 option \<Rightarrow> u64 option \<Rightarrow> 'w fstate \<Rightarrow>
    fuse_attr fuse_result \<times> 'w fstate" where
  "file_setattr be tp c now mode sz0 s =
     (case s of (f, ws, w) \<Rightarrow>
      case (case fl_dirty f of Some a \<Rightarrow> (Inr (Some a), w) | None \<Rightarrow> be_getattr be (fl_ino f) w) of
        (Inl _, w1) \<Rightarrow> (Errno ENOENT, f, ws, w1)
      | (Inr None, w1) \<Rightarrow> (Panic, f, ws, w1)
      | (Inr (Some a), w1) \<Rightarrow>
          (case (case sz0 of None \<Rightarrow> (Inr (), set_mode mode a, ws, w1) | Some sz \<Rightarrow> Truncate tp c (set_mode mode a) sz ws w1) of
             (Inl _, a1, ws1, w2) \<Rightarrow> (Errno EIO, keep_dirty f a1, ws1, w2)
           | (Inr _, a1, ws1, w2) \<Rightarrow>
               let a2 = a1\<lparr>at_mtime := now div 10 ^ 9\<rparr> in
               (case be_update be a2 w2 of
                  (Inl _, w3) \<Rightarrow> (Errno EIO, keep_dirty f a2, ws1, w3)
                | (Inr _, w3) \<Rightarrow> (Ret (fillAttr a2), f\<lparr>fl_dirty := None\<rparr>, ws1, w3))))"

section \<open>The backend of a mount\<close>

definition curried :: "('r \<Rightarrow> 'w \<Rightarrow> 'a \<times> 'r \<times> 'w) \<Rightarrow> 'r \<times> 'w \<Rightarrow> 'a \<times> 'r \<times> 'w" where
  "curried f s = f (fst s) (snd s)"

definition remote_backend :: "'w net \<Rightarrow> (remote_meta \<times> 'w) backend" where
  "remote_backend net =
     \<lparr>be_getattr = (\<lambda>i. curried (rm_getattr net i)), be_lookup = (\<lambda>p n. curried (rm_lookup net p n)),
      be_readdir = (\<lambda>p. curried (rm_readdir net p)), be_mkdir = (\<lambda>p n m u g. curried (rm_mkdir net p n m u g)),
      be_create = (\<lambda>p n m u g. curried (rm_create net p n m u g)), be_symlink = (\<lambda>p n t u g. curried (rm_symlink net p n t u g)),
      be_unlink = (\<lambda>p n. curried (rm_unlink net p n)), be_rmdir = (\<lambda>p n. curried (rm_rmdir net p n)),
      be_rename = (\<lambda>p p' n n'. curried (rm_rename net p p' n n')), be_update = (\<lambda>a. curried (rm_update net a))\<rparr>"

text \<open>The chunk client asks the metadata client where a chunk is registered (\<^verbatim>\<open>ReplicaLookup\<close>).\<close>

definition mounted :: "'w net \<Rightarrow> 'w chunk_transport \<Rightarrow> (remote_meta \<times> 'w) chunk_transport" where
  "mounted net tp =
     \<lparr>tp_put = (\<lambda>n k d opts (rm, w). case tp_put tp n k d opts w of (r, w') \<Rightarrow> (r, rm, w')),
      tp_get = (\<lambda>n k allow (rm, w). tp_get tp n k allow w),
      tp_delete = (\<lambda>n k (rm, w). case tp_delete tp n k w of (r, w') \<Rightarrow> (r, rm, w')),
      tp_replicas = Some (\<lambda>k (rm, w). fst (ChunkReplicas net k rm w)),
      tp_order = tp_order tp, tp_flusher = None\<rparr>"

end
