(* ===== verification/Fuse_Correct.thy ===== *)
theory Fuse_Correct
  imports Fuse Remote_Correct Mount_Correct
begin

text \<open>
  Files of a mount. The locale \<open>file_mount\<close> states what a file needs of the metadata backend beside the
  chunk servers: attributes that were updated are read back, and neither side disturbs the other. In it,
  writes at the end of a file followed by \<open>fsync\<close> are read back. The locale is interpreted on the
  HTTP metadata client and the HTTP chunk transport against a node that serves alone.
\<close>

section \<open>Attributes stay fit for JSON\<close>

lemma chunk_id_utf8 [simp]: "valid_utf8 (ChunkID i ci)"
proof -
  have "valid_utf8 (format_int ci)"
    by (rule valid_utf8_ascii) (use format_nat_digits in \<open>fastforce simp: format_int_def split: if_splits\<close>)
  then show ?thesis unfolding ChunkID_def by (intro valid_utf8_append) (simp_all add: valid_utf8_Cons_ascii)
qed

lemma attr_ok_ensure [simp]: "attr_ok a \<Longrightarrow> attr_ok (ensureChunk a ci)"
  by (auto simp: attr_ok_def ensureChunk_def Let_def dest!: subsetD [OF set_update_subset_insert])

lemma ensure_fields [simp]: "at_ino (ensureChunk a ci) = at_ino a" "at_size (ensureChunk a ci) = at_size a"
  by (simp_all add: ensureChunk_def Let_def)

lemma write_block_attr: "fst (snd (write_block tp c ino old ci bi bo d (a, s))) = ensureChunk a ci"
  by (cases s) (simp add: write_block_def Let_def split: prod.split)

lemma write_loop_attr:
  "attr_ok (fst s) \<Longrightarrow> attr_ok (fst (snd (write_loop tp c ino old d off s)))"
proof (induction tp c ino old d off s rule: write_loop.induct)
  case (2 tp c ino old x xs off s)
  obtain ci bi bo where lb: "LocateBlock off = (ci, bi, bo)" by (cases "LocateBlock off")
  let ?n = "min (length (x # xs)) (in_block off)"
  obtain r s1 where wb: "write_block tp c ino old ci bi bo (take ?n (x # xs)) s = (r, s1)"
    by (cases "write_block tp c ino old ci bi bo (take ?n (x # xs)) s")
  have ok: "attr_ok (fst s1)"
    using write_block_attr [of tp c ino old ci bi bo "take ?n (x # xs)" "fst s" "snd s"] wb 2(2) by (cases s) simp
  show ?case
  proof (cases r)
    case (Inl e)
    then show ?thesis using ok wb lb unfolding write_loop.simps Let_def by simp
  next
    case (Inr u)
    then show ?thesis using 2(1) [OF lb [symmetric] refl refl wb [symmetric] Inr ok] wb lb
      unfolding write_loop.simps Let_def by simp
  qed
qed simp

lemma writer_write_attr:
  assumes "attr_ok a"
  shows "attr_ok (fst (snd (writer_write tp c now d off (a, b, w))))"
proof (cases "d = []")
  case False
  define a0 where "a0 = (if sint (at_size a) < wrap64 (off + int (length d)) then a\<lparr>at_size := word_of_int (wrap64 (off + int (length d)))\<rparr> else a)"
  obtain r a1 b1 w1 where l: "write_loop tp c (at_ino a) (at_size a) d off (a0, b, w) = (r, a1, b1, w1)"
    by (cases "write_loop tp c (at_ino a) (at_size a) d off (a0, b, w)")
  have "attr_ok (fst (a0, b, w))" using assms by (simp add: attr_ok_def a0_def)
  from write_loop_attr [OF this, of tp c "at_ino a" "at_size a" d off] l have ok: "attr_ok a1" by simp
  obtain r' b2 w2 where f: "Flush tp c (at_ino a) b1 w1 = (r', b2, w2)" by (cases "Flush tp c (at_ino a) b1 w1")
  show ?thesis unfolding writer_write_def prod.case if_not_P [OF False] Let_def a0_def [symmetric] l
    by (cases r; cases r') (simp_all add: f ok)
qed (simp add: writer_write_def assms)

lemma store_write_attr:
  assumes "attr_ok a" "store_write tp c now a d off ws w = (r, a', s)"
  shows "attr_ok a'"
  using writer_write_attr [OF assms(1), of tp c now d off "writerFor ws (at_ino a)" w] assms
  by (cases "writer_write tp c now d off (a, writerFor ws (at_ino a), w)")
    (auto simp: store_write_def split: if_splits option.splits prod.splits)

section \<open>Files over a backend\<close>

text \<open>
  The file behind a node has the contents \<open>F\<close>, in buffers and stored blocks, while the backend has the
  attributes \<open>a0\<close> of it; the current attributes are the dirty ones of the node, if there are any.
\<close>

definition file_inv :: "'w chunk_transport \<Rightarrow> chunk_client \<Rightarrow> ('w \<Rightarrow> bool) \<Rightarrow> (u64 \<Rightarrow> 'w \<Rightarrow> attr option) \<Rightarrow> bytes \<Rightarrow> attr \<Rightarrow> 'w fstate \<Rightarrow> bool" where
  "file_inv tp c good attr_at F a0 s \<longleftrightarrow> (case s of (f, ws, w) \<Rightarrow>
     let a = (case fl_dirty f of None \<Rightarrow> a0 | Some a \<Rightarrow> a) in
     attr_ok a \<and> at_ino a = fl_ino f \<and> valids_ok (writerFor ws (fl_ino f))
     \<and> file_ok tp c (\<lambda>w. good w \<and> attr_at (fl_ino f) w = Some a0) F a ws w)"

locale file_mount = chunk_io_up +
  fixes be :: "'a backend" and attr_at :: "u64 \<Rightarrow> 'a \<Rightarrow> attr option"
  assumes getattr: "good w \<Longrightarrow> attr_at i w = Some a \<Longrightarrow> be_getattr be i w = (Inr (Some a), w)"
    and update: "good w \<Longrightarrow> attr_ok a \<Longrightarrow> \<exists>w'. be_update be a w = (Inr (), w') \<and> good w' \<and> attr_at (at_ino a) w' = Some a
          \<and> (\<forall>i ci bi. readChunk tp c (BlockID i ci bi) w' = readChunk tp c (BlockID i ci bi) w)"
    and chunk_frame: "good w \<Longrightarrow> writeChunk tp c (BlockID i ci bi) d w = (Inr (), w') \<Longrightarrow> attr_at j w' = attr_at j w"
begin

text \<open>The chunk operations keep the attributes of a file: they keep any part of the state that writing a block keeps.\<close>

lemma framed: "chunk_io_up tp c (\<lambda>w. good w \<and> attr_at j w = x)"
proof
  fix w i ci bi d w'
  assume g: "good w \<and> attr_at j w = x" and w: "writeChunk tp c (BlockID i ci bi) d w = (Inr (), w')"
  from write_read [OF _ w] chunk_frame [OF _ w, of j] g
  show "(good w' \<and> attr_at j w' = x) \<and> (\<forall>i' ci' bi'. readChunk tp c (BlockID i' ci' bi') w' =
      (if (i', ci', bi') = (i, ci, bi) then Inr d else readChunk tp c (BlockID i' ci' bi') w))" by simp
next
  show "tp_flusher tp = None" by (rule no_flusher)
next
  fix w d i ci bi
  assume "good w \<and> attr_at j w = x" "length (d :: bytes) \<le> BS"
  then show "\<exists>w'. writeChunk tp c (BlockID i ci bi) d w = (Inr (), w')" using up by blast
qed

lemma file_append:
  assumes "file_inv tp c good attr_at F a0 s" "length F + length d < 2 ^ 63"
  shows "\<exists>s'. file_write be tp c now d (int (length F)) s = (Ret (of_nat (length d)), s') \<and> file_inv tp c good attr_at (F @ d) a0 s'
     \<and> fl_dirty (fst s') \<noteq> None \<and> fl_ino (fst s') = fl_ino (fst s)"
proof -
  obtain f ws w where s: "s = (f, ws, w)" by (cases s)
  let ?good = "\<lambda>w. good w \<and> attr_at (fl_ino f) w = Some a0"
  define a where "a = (case fl_dirty f of None \<Rightarrow> a0 | Some a \<Rightarrow> a)"
  have inv: "attr_ok a" "at_ino a = fl_ino f" "valids_ok (writerFor ws (at_ino a))" "file_ok tp c ?good F a ws w"
    using assms(1) by (auto simp: file_inv_def s a_def Let_def)
  then have g: "?good w" by (simp add: file_ok_def file_data_def)
  have got: "(case fl_dirty f of Some a \<Rightarrow> (Inr (Some a), w) | None \<Rightarrow> be_getattr be (fl_ino f) w) = (Inr (Some a), w)"
    using getattr g by (auto simp: a_def split: option.split)
  obtain a' ws' w' where wr: "store_write tp c now a d (int (length F)) ws w = (Inr (), a', ws', w')" and v: "valids_ok (writerFor ws' (at_ino a))"
    using chunk_io_up.store_write_good [OF framed g inv(3)] by blast
  have "chunk_io tp c ?good" using framed chunk_io_up_def by blast
  from chunk_io.store_append [OF this inv(4) assms(2) wr]
  have ok: "file_ok tp c ?good (F @ d) a' ws' w'" "at_ino a' = at_ino a" by simp_all
  show ?thesis using got wr v ok store_write_attr [OF inv(1) wr] inv(2)
    by (simp add: file_write_def s file_inv_def Let_def)
qed

end

text \<open>Writes at the end of a file, each with the time it happens at.\<close>

fun file_appends :: "'w backend \<Rightarrow> 'w chunk_transport \<Rightarrow> chunk_client \<Rightarrow> (int \<times> bytes) list \<Rightarrow> nat \<Rightarrow> 'w fstate \<Rightarrow> unit fuse_result \<times> 'w fstate" where
  "file_appends be tp c [] off s = (Ret (), s)"
| "file_appends be tp c ((now, d) # ds) off s =
     (case file_write be tp c now d (int off) s of
        (Ret _, s') \<Rightarrow> file_appends be tp c ds (off + length d) s'
      | (Errno e, s') \<Rightarrow> (Errno e, s')
      | (Panic, s') \<Rightarrow> (Panic, s'))"

lemma valids_ok_new [simp]: "valids_ok new_writer"
  by (simp add: new_writer_def valids_ok_def valid_of_def)

context file_mount
begin

lemma file_inv_good: "file_inv tp c good attr_at F a0 (f, ws, w) \<Longrightarrow> good w \<and> attr_at (fl_ino f) w = Some a0"
  by (simp add: file_inv_def Let_def file_ok_def file_data_def)

lemma file_appends_ok:
  assumes "file_inv tp c good attr_at F a0 s" "length F + length (concat (map snd ds)) < 2 ^ 63"
  shows "\<exists>s'. file_appends be tp c ds (length F) s = (Ret (), s') \<and> file_inv tp c good attr_at (F @ concat (map snd ds)) a0 s'
     \<and> fl_ino (fst s') = fl_ino (fst s)"
  using assms
proof (induction ds arbitrary: F s)
  case (Cons x ds)
  obtain now d where x: "x = (now, d)" by (cases x)
  obtain s1 where s1: "file_write be tp c now d (int (length F)) s = (Ret (of_nat (length d)), s1)"
    "file_inv tp c good attr_at (F @ d) a0 s1" "fl_ino (fst s1) = fl_ino (fst s)"
    using file_append [OF Cons.prems(1), of d now] Cons.prems(2) x by auto
  show ?case using Cons.IH [OF s1(2)] s1 Cons.prems(2) x by simp
qed auto

text \<open>Until the attributes are sent, a read sees the size the backend has.\<close>

lemma read_unsynced:
  assumes "file_inv tp c good attr_at F a0 s"
  shows "file_read be tp c n off s = (Ret (store_read tp c a0 n off (fst (snd s)) (snd (snd s))), s)"
  using file_inv_good [of F a0 "fst s" "fst (snd s)" "snd (snd s)"] assms getattr
  by (cases s) (simp add: file_read_def)

lemma read_synced:
  assumes "file_inv tp c good attr_at F a0 s" "fl_dirty (fst s) = None"
  shows "file_read be tp c n (int off) s = (Ret (take n (drop off F)), s)
     \<and> file_getattr be s = (Ret (fillAttr a0), s) \<and> unat (at_size a0) = length F"
proof -
  obtain f ws w where s: "s = (f, ws, w)" by (cases s)
  let ?good = "\<lambda>w. good w \<and> attr_at (fl_ino f) w = Some a0"
  have ok: "file_ok tp c ?good F a0 ws w" using assms by (simp add: s file_inv_def Let_def)
  have "chunk_io tp c ?good" using framed chunk_io_up_def by blast
  from chunk_io.store_read_data [OF this ok, of n off] have "store_read tp c a0 n (int off) ws w = take n (drop off F)" .
  moreover have "file_getattr be s = (Ret (fillAttr a0), s)"
    using assms(2) file_inv_good [of F a0 f ws w] assms(1) getattr by (simp add: s file_getattr_def node_getattr_def)
  ultimately show ?thesis using read_unsynced [OF assms(1), of n "int off"] ok by (simp add: s file_ok_def)
qed

lemma flush_file:
  assumes "file_inv tp c good attr_at F a0 (f, ws, w)"
  shows "\<exists>ws' w'. FlushFile tp c (fl_ino f) ws w = (Inr (), ws', w') \<and> file_inv tp c good attr_at F a0 (f, ws', w')
     \<and> file_inv tp c good attr_at F a0 (f, [], w')"
proof (cases "mget ws (fl_ino f)")
  case (Some b)
  let ?good = "\<lambda>w. good w \<and> attr_at (fl_ino f) w = Some a0"
  define a where "a = (case fl_dirty f of None \<Rightarrow> a0 | Some a \<Rightarrow> a)"
  have b: "writerFor ws (fl_ino f) = b" using Some by (simp add: writerFor_def)
  have inv: "attr_ok a" "at_ino a = fl_ino f" "valids_ok b" "file_ok tp c ?good F a ws w"
    using assms b by (simp_all add: file_inv_def Let_def a_def)
  obtain b' w' where fl: "Flush tp c (fl_ino f) b w = (Inr (), b', w')" and v: "valids_ok b'"
    using chunk_io_up.flush_keys_good [OF framed file_inv_good [OF assms] inv(3)] unfolding Flush_def by blast
  have io: "chunk_io tp c ?good" using framed chunk_io_up_def by blast
  have "file_data tp c ?good F (fl_ino f) b w" using inv b by (simp add: file_ok_def)
  from chunk_io.flush_keys_data [OF io this fl [unfolded Flush_def]]
  have "file_data tp c ?good F (fl_ino f) b' w'" .
  moreover from this have "file_data tp c ?good F (fl_ino f) new_writer w'"
    using Flush_clears [OF fl] by (simp add: file_data_def block_ok_def new_writer_def)
  ultimately have "file_inv tp c good attr_at F a0 (f, mput (fl_ino f) b' ws, w') \<and> file_inv tp c good attr_at F a0 (f, [], w')"
    using inv v by (simp add: file_inv_def Let_def a_def [symmetric] file_ok_def writerFor_def valids_ok_new)
  then show ?thesis using fl Some by (simp add: FlushFile_def)
next
  case None
  then have "writerFor [] (fl_ino f) = writerFor ws (fl_ino f)" by (simp add: writerFor_def)
  then have "file_inv tp c good attr_at F a0 (f, [], w)"
    using assms by (auto simp: file_inv_def Let_def file_ok_def split: option.splits)
  then show ?thesis using None assms by (simp add: FlushFile_def)
qed

lemma fsync_file:
  assumes "file_inv tp c good attr_at F a0 s" "in_int64 (now div 10 ^ 9)"
  shows "\<exists>s' a1. file_fsync be tp c now s = (Ret (), s') \<and> file_inv tp c good attr_at F a1 s' \<and> file_inv tp c good attr_at F a1 (fst s', [], snd (snd s')) \<and> fst s' = (fst s)\<lparr>fl_dirty := None\<rparr>"
proof -
  obtain f ws w where s: "s = (f, ws, w)" by (cases s)
  obtain ws' w1 where fl: "FlushFile tp c (fl_ino f) ws w = (Inr (), ws', w1)" and inv: "file_inv tp c good attr_at F a0 (f, ws', w1)"
    and inv0: "file_inv tp c good attr_at F a0 (f, [], w1)"
    using flush_file assms(1) s by blast
  show ?thesis
  proof (cases "fl_dirty f")
    case None
    then have same: "f\<lparr>fl_dirty := None\<rparr> = f" by simp
    show ?thesis using None fl inv inv0 by (auto simp: s file_fsync_def syncAttr_def same)
  next
    case (Some a)
    let ?a = "a\<lparr>at_mtime := now div 10 ^ 9\<rparr>"
    have a: "attr_ok ?a" "at_ino ?a = fl_ino f"
      using inv Some assms(2) by (simp_all add: file_inv_def Let_def attr_ok_def)
    obtain w2 where up: "be_update be ?a w1 = (Inr (), w2)" "good w2" "attr_at (fl_ino f) w2 = Some ?a"
      "\<And>i ci bi. readChunk tp c (BlockID i ci bi) w2 = readChunk tp c (BlockID i ci bi) w1"
      using update [OF _ a(1), of w1] file_inv_good [OF inv] a(2) by auto
    have same: "block_ok tp c F i b w2 = block_ok tp c F i b w1" for i b
      by (rule ext) (simp add: block_ok_def up(4) split: option.split)
    have ino: "at_ino a = fl_ino f" using a(2) by simp
    have "file_inv tp c good attr_at F ?a (f\<lparr>fl_dirty := None\<rparr>, vs, w2)" if "file_inv tp c good attr_at F a0 (f, vs, w1)" for vs
      using that Some up(2,3) a by (auto simp: file_inv_def Let_def file_ok_def file_data_def same ino)
    with inv inv0 show ?thesis using Some fl up(1) by (auto simp: s file_fsync_def syncAttr_def)
  qed
qed

end

section \<open>A mount of a node that serves alone\<close>

text \<open>Networks that differ only in how they present the state of the server.\<close>

lemma post_mapped:
  assumes "\<And>url body w. net' url body (g w) = apsnd g (net url body w)"
  shows "post net' path q wr rm (g w) = apsnd (apsnd g) (post net path q wr rm w)"
proof -
  have do: "doPost net' url q r (g w) = apsnd g (doPost net url q r w)" for url r w
    by (simp add: doPost_def assms split: prod.split sum.split)
  have tr: "tryPost net' url path q wr r rm (g w) = apsnd (apsnd g) (tryPost net url path q wr r rm w)" for url r rm w
    by (simp add: tryPost_def do Let_def split: prod.split sum.split)
  have "post_loop net' bs path q wr e r rm (g w) = apsnd (apsnd g) (post_loop net bs path q wr e r rm w)" for bs e r rm w
    by (induction bs arbitrary: e r rm w) (simp_all add: tr split: prod.split sum.split)
  then show ?thesis by (simp add: post_def)
qed

text \<open>The requests of a mount to its only node.\<close>

definition mount_net :: "int \<Rightarrow> string \<Rightarrow> cluster net" where
  "mount_net now u url body cl =
     (case mget cl u of
        None \<Rightarrow> (Inl conn_refused, cl)
      | Some nd \<Rightarrow> (case leader_net now u url body nd of (r, nd') \<Rightarrow> (r, mput u nd' cl)))"

lemma mount_net_single: "mount_net now u url body [(u, nd)] = apsnd (\<lambda>n. [(u, n)]) (leader_net now u url body nd)"
  by (simp add: mount_net_def mput_def split: prod.split)

lemmas post_single = post_mapped [where g = "\<lambda>n. [(u, n)]" and net = "leader_net now u" and net' = "mount_net now u" for now u, OF mount_net_single]

text \<open>A key-value store that takes every write: a plain one, or a replicated one whose proposals commit.\<close>

definition kv_up :: "kv \<Rightarrow> bool" where
  "kv_up s \<longleftrightarrow> (\<forall>r. kv_raft s = Some r \<longrightarrow> (\<forall>n. r_plan r n = Commit))"

lemma kv_set_up:
  assumes "kv_up s" "valid_utf8 k"
  shows "\<exists>s'. kv_set k v s = (Inr (), s') \<and> kv_mem s' = mem_set k v (kv_mem s) \<and> kv_up s'"
  using assms by (auto simp: kv_set_def with_raft_def kv_up_def raft_apply_def raft_submit_def Let_def fsm_apply_marshal_op
      split: option.split)

lemma kv_up_leader: "kv_up (nd_kv nd) \<Longrightarrow> IsLeader nd"
  by (auto simp: kv_up_def IsLeader_def is_leader_def split: option.split)

lemma ino_not_location: "chunkLocKey k \<noteq> inoKey i"
  by (simp add: chunkLocKey_def inoKey_def)

lemma update_attr_up:
  assumes "kv_up s" "attr_ok a"
  shows "\<exists>s'. UpdateAttr a s = (Inr (), s') \<and> kv_up s' \<and> GetAttr s' (at_ino a) = Inr a \<and> ListNodes s' = ListNodes s
     \<and> (\<forall>k. reg_get s' k = reg_get s k)"
proof -
  obtain s' where s': "kv_set (inoKey (at_ino a)) (marshal_attr a) s = (Inr (), s')" "kv_mem s' = mem_set (inoKey (at_ino a)) (marshal_attr a) (kv_mem s)" "kv_up s'"
    using kv_set_up [OF assms(1), of "inoKey (at_ino a)"] by auto
  then show ?thesis using unmarshal_marshal_attr [OF assms(2)]
    by (simp add: UpdateAttr_def GetAttr_def ListNodes_def kv_reads mem_get_def mem_hgetall_def mem_set_def reg_get_def ino_not_location)
qed

text \<open>
  The mount of the node \<open>u\<close>: its metadata client talks to \<open>u\<close> only, and \<open>u\<close> serves alone, with a store
  that takes writes and no chunk in the registry.
\<close>

definition at_mount :: "string \<Rightarrow> remote_meta \<times> cluster \<Rightarrow> bool" where
  "at_mount u s \<longleftrightarrow> alone u (snd s) \<and> nodeList True (fst s) = [u] \<and> nodeList False (fst s) = [u]
     \<and> (\<forall>nd. mget (snd s) u = Some nd \<longrightarrow> kv_up (nd_kv nd) \<and> (\<forall>k. isl (GetChunkRegistry nd k)))"

definition stored_attr :: "string \<Rightarrow> u64 \<Rightarrow> remote_meta \<times> cluster \<Rightarrow> attr option" where
  "stored_attr u i s =
     (case mget (snd s) u of None \<Rightarrow> None
      | Some nd \<Rightarrow> (case GetAttr (nd_kv nd) i of Inl _ \<Rightarrow> None | Inr a \<Rightarrow> if attr_ok a then Some a else None))"

lemma at_mountE:
  assumes "at_mount u (rm, cl)"
  obtains nd cs where "cl = [(u, nd)]" "alone u [(u, nd)]" "nd_prefix nd = []" "nd_meta nd = []" "nd_store nd = MemoryStore cs"
    "nodeList True rm = [u]" "nodeList False rm = [u]" "kv_up (nd_kv nd)" "\<And>k. isl (GetChunkRegistry nd k)"
  using assms by (auto simp: at_mount_def alone_def)

lemma not_found_answer: "answered url raw 404 r \<noteq> Inr ()"
  by (simp add: answered_def)

lemma no_replicas:
  assumes "at_mount u (rm, cl)" "valid_utf8 k"
  shows "isl (fst (ChunkReplicas (mount_net now u) k rm cl))"
proof -
  obtain nd cs where nd: "cl = [(u, nd)]" "nodeList False rm = [u]" "isl (GetChunkRegistry nd k)"
    using assms(1) by (elim at_mountE) auto
  let ?q = "request_zero\<lparr>fq_chunk := k\<rparr>"
  have ok: "request_ok ?q" using assms(2) by (simp add: request_ok_def request_zero_def)
  obtain m code where h: "registryGet ?q nd = ((resp_error m, code), nd)" "code \<ge> 400" "valid_utf8 m" "code \<noteq> 307"
  proof (cases "k = []")
    case True
    then show ?thesis using that [of "''missing chunk_id''" 400] by (simp add: registryGet_def valid_utf8_Cons_ascii)
  next
    case False
    then show ?thesis using that [of "''not found''" 404] nd(3)
      by (cases "GetChunkRegistry nd k") (simp_all add: registryGet_def valid_utf8_Cons_ascii)
  qed
  have "post (leader_net now u) ''/v1/chunks/registry/get'' ?q False rm nd =
    ((answered (u @ ''/v1/chunks/registry/get'') (json_print (enc_response (resp_error m)) @ [CHR 0x0A]) code
        (resp_zero\<lparr>rs_attr := None, rs_error := m\<rparr>), resp_zero\<lparr>rs_attr := None, rs_error := m\<rparr>), rm, nd)"
    using post_served [where f = registryGet and q = ?q and r = "resp_error m", OF _ h(1) _ nd(2)] h(3)
    by (simp add: serve_def serve_read [OF ok])
  moreover have "isl (answered x y code z)" for x y z using h(2) by (simp add: answered_def)
  ultimately show ?thesis
    by (simp add: ChunkReplicas_def nd(1) post_single split: sum.split) (metis sum.disc(2))
qed

lemma mounted_write:
  "writeChunk (mounted net tp) c k d (rm, cl) = (case writeChunk tp c k d cl of (r, cl') \<Rightarrow> (r, rm, cl'))"
  by (simp add: writeChunk_def mounted_def split: list.split)

lemma mounted_read:
  assumes "isl (fst (ChunkReplicas net k rm cl))" "tp_replicas tp = None"
  shows "readChunk (mounted net tp) c k (rm, cl) = readChunk tp c k cl"
proof -
  have "read_targets (mounted net tp) ns k (rm, cl) e = read_targets tp ns k cl e" for ns e
    by (induction ns arbitrary: e) (simp_all add: mounted_def split: sum.split)
  moreover have "nodesForChunk (mounted net tp) c k (rm, cl) = nodesForChunk tp c k cl"
    using assms by (cases "fst (ChunkReplicas net k rm cl)") (simp_all add: nodesForChunk_def mounted_def)
  ultimately show ?thesis by (simp add: readChunk_def readTargetsForChunk_def)
qed

lemma block_id_utf8 [simp]: "valid_utf8 (BlockID i ci bi)"
proof -
  have "valid_utf8 (format_int x)" for x
    by (rule valid_utf8_ascii) (use format_nat_digits in \<open>fastforce simp: format_int_def split: if_splits\<close>)
  then show ?thesis unfolding BlockID_def by (intro valid_utf8_append) (simp_all add: valid_utf8_Cons_ascii)
qed

abbreviation fuse_transport :: "int \<Rightarrow> string \<Rightarrow> nat \<Rightarrow> env \<Rightarrow> string \<Rightarrow> (remote_meta \<times> cluster) chunk_transport" where
  "fuse_transport now u hops en client \<equiv> mounted (mount_net now u) (mount_transport hops en client)"

abbreviation fuse_backend :: "int \<Rightarrow> string \<Rightarrow> (remote_meta \<times> cluster) backend" where
  "fuse_backend now u \<equiv> remote_backend (mount_net now u)"

lemma fuse_read:
  assumes "at_mount u (rm, cl)"
  shows "readChunk (fuse_transport now u hops en client) c (BlockID i ci bi) (rm, cl) = readChunk (mount_transport hops en client) c (BlockID i ci bi) cl"
  using no_replicas [OF assms block_id_utf8] by (intro mounted_read) (simp_all add: http_transport_def)

lemma fuse_write:
  assumes "at_mount u (rm, cl)" "reaches en client u" "url_ok u"
    and "writeChunk (mount_transport hops en client) (mount_client u rf) (BlockID i ci bi) d cl = (Inr (), cl')"
  shows "at_mount u (rm, cl') \<and> stored_attr u j (rm, cl') = stored_attr u j (rm, cl)"
proof -
  obtain nd cs where nd: "cl = [(u, nd)]" "alone u [(u, nd)]" "nd_store nd = MemoryStore cs" "nodeList True rm = [u]" "nodeList False rm = [u]"
    "kv_up (nd_kv nd)" "\<And>k. isl (GetChunkRegistry nd k)" using assms(1) by (elim at_mountE) blast
  let ?k = "BlockID i ci bi"
  let ?nd = "enqueueRepair ?k [nd_http nd] (nd\<lparr>nd_store := MemoryStore (ms_put ?k d cs)\<rparr>)"
  have al: "alone u cl" using nd by simp
  have cl': "cl' = [(u, ?nd)]"
    using assms(4) alone_write [OF al assms(2,3)] nd by (auto simp: update_node_def mput_def split: if_splits)
  have "alone u cl'" using nd(2) by (simp add: alone_def cl' enqueueRepair_def)
  moreover have "GetChunkRegistry ?nd k = GetChunkRegistry nd k" for k by (simp add: GetChunkRegistry_def enqueueRepair_def)
  ultimately show ?thesis using nd by (simp add: at_mount_def stored_attr_def cl' enqueueRepair_def)
qed

lemma fuse_update:
  assumes "at_mount u (rm, cl)" "attr_ok a"
  shows "\<exists>cl'. rm_update (mount_net now u) a rm cl = (Inr (), rm, cl') \<and> at_mount u (rm, cl') \<and> stored_attr u (at_ino a) (rm, cl') = Some a
     \<and> (\<exists>nd s. cl = [(u, nd)] \<and> cl' = [(u, nd\<lparr>nd_kv := s\<rparr>)])"
proof -
  obtain nd cs where nd: "cl = [(u, nd)]" "alone u [(u, nd)]" "nodeList True rm = [u]" "nodeList False rm = [u]"
    "kv_up (nd_kv nd)" "\<And>k. isl (GetChunkRegistry nd k)" using assms(1) by (elim at_mountE) blast
  obtain s where s: "UpdateAttr a (nd_kv nd) = (Inr (), s)" "kv_up s" "GetAttr s (at_ino a) = Inr a" "ListNodes s = ListNodes (nd_kv nd)"
    "\<And>k. reg_get s k = reg_get (nd_kv nd) k"
    using update_attr_up [OF nd(5) assms(2)] by blast
  let ?nd = "nd\<lparr>nd_kv := s\<rparr>"
  let ?q = "request_zero\<lparr>fq_attr := Some a\<rparr>"
  have ok: "request_ok ?q" using assms(2) by (simp add: request_ok_def request_zero_def)
  have h: "setattr ?q nd = ((resp_attr a, 200), ?nd)" by (simp add: setattr_def on_kv_def s)
  have "post (leader_net now u) ''/v1/fs/setattr'' ?q True rm nd = ((Inr (), resp_zero\<lparr>rs_attr := Some a, rs_error := []\<rparr>), rm, ?nd)"
    using post_served [where f = setattr and q = ?q, OF _ h _ nd(3)] assms(2) kv_up_leader [OF nd(5)]
    by (simp add: serve_def serve_write [OF ok])
  then have "rm_update (mount_net now u) a rm cl = (Inr (), rm, [(u, ?nd)])"
    by (simp add: rm_update_def post_unit_def nd(1) post_single)
  moreover have "at_mount u (rm, [(u, ?nd)])"
    using nd s by (simp add: at_mount_def alone_def GetChunkRegistry_def)
  ultimately show ?thesis using nd(1) s(3) assms(2) by (auto simp: stored_attr_def)
qed

lemma fuse_getattr:
  assumes "at_mount u (rm, cl)" "stored_attr u i (rm, cl) = Some a"
  shows "rm_getattr (mount_net now u) i rm cl = (Inr (Some a), rm, cl)"
proof -
  obtain nd where nd: "cl = [(u, nd)]" "nodeList False rm = [u]" "GetAttr (nd_kv nd) i = Inr a" "attr_ok a"
    using assms by (elim at_mountE) (auto simp: stored_attr_def split: option.splits sum.splits if_splits)
  let ?q = "request_zero\<lparr>fq_ino := i\<rparr>"
  have ok: "request_ok ?q" by (simp add: request_ok_def request_zero_def)
  have h: "getattr ?q nd = ((resp_attr a, 200), nd)" by (simp add: getattr_def answer_attr_def nd)
  have "post (leader_net now u) ''/v1/fs/getattr'' ?q False rm nd = ((Inr (), resp_zero\<lparr>rs_attr := Some a, rs_error := []\<rparr>), rm, nd)"
    using post_served [where f = getattr and q = ?q, OF _ h _ nd(2)] nd(4) by (simp add: serve_def serve_read [OF ok])
  then show ?thesis by (simp add: rm_getattr_def post_attr_def nd(1) post_single)
qed

lemma fuse_mount:
  assumes "reaches en client u" "url_ok u"
  shows "file_mount (fuse_transport now u hops en client) (mount_client u rf) (at_mount u) (fuse_backend now u) (stored_attr u)"
proof
  let ?tp = "fuse_transport now u hops en client" and ?c = "mount_client u rf" and ?hp = "mount_transport hops en client"
  note io = alone_io [OF assms, of hops rf]
  show "tp_flusher ?tp = None" by (simp add: mounted_def)
  fix w :: "remote_meta \<times> cluster"
  assume good: "at_mount u w"
  obtain rm cl where w: "w = (rm, cl)" by (cases w)
  have m: "at_mount u (rm, cl)" and al: "alone u cl" using good w by (simp_all add: at_mount_def)
  {
    fix w' i ci bi d j
    assume wr: "writeChunk ?tp ?c (BlockID i ci bi) d w = (Inr (), w')"
    then obtain cl' where wr': "writeChunk ?hp ?c (BlockID i ci bi) d cl = (Inr (), cl')" and w': "w' = (rm, cl')"
      by (auto simp: w mounted_write split: prod.splits)
    have m': "at_mount u (rm, cl')" and "stored_attr u j (rm, cl') = stored_attr u j (rm, cl)"
      using fuse_write [OF m assms wr'] by blast+
    then show "stored_attr u j w' = stored_attr u j w" by (simp add: w w')
    from chunk_io.write_read [OF io al wr'] m' fuse_read [OF m'] fuse_read [OF m]
    show "at_mount u w' \<and> (\<forall>i' ci' bi'. readChunk ?tp ?c (BlockID i' ci' bi') w' =
        (if (i', ci', bi') = (i, ci, bi) then Inr d else readChunk ?tp ?c (BlockID i' ci' bi') w))" by (simp add: w w')
  next
    fix d :: bytes and i ci bi
    assume "length d \<le> BS"
    then show "\<exists>w'. writeChunk ?tp ?c (BlockID i ci bi) d w = (Inr (), w')"
      using chunk_io_up.up [OF alone_io_up [OF assms, of hops rf] al, of d i ci bi] by (auto simp: w mounted_write)
  next
    fix i a
    assume "stored_attr u i w = Some a"
    then show "be_getattr (fuse_backend now u) i w = (Inr (Some a), w)"
      using fuse_getattr [OF m] by (simp add: remote_backend_def curried_def w)
  next
    fix a
    assume "attr_ok a"
    from fuse_update [OF m this, of now] obtain cl' nd s where up: "rm_update (mount_net now u) a rm cl = (Inr (), rm, cl')"
      "at_mount u (rm, cl')" "stored_attr u (at_ino a) (rm, cl') = Some a" "cl = [(u, nd)]" "cl' = [(u, nd\<lparr>nd_kv := s\<rparr>)]" by blast
    have p: "nd_prefix nd = []" "nd_meta nd = []" using m up(4) by (auto elim: at_mountE)
    have "readChunk ?hp ?c (BlockID i ci bi) cl' = readChunk ?hp ?c (BlockID i ci bi) cl" for i ci bi
      using alone_read [OF up(4) p assms(1)] alone_read [OF up(5) _ _ assms(1)] p by simp
    then show "\<exists>w'. be_update (fuse_backend now u) a w = (Inr (), w') \<and> at_mount u w' \<and> stored_attr u (at_ino a) w' = Some a
        \<and> (\<forall>i ci bi. readChunk ?tp ?c (BlockID i ci bi) w' = readChunk ?tp ?c (BlockID i ci bi) w)"
      using up fuse_read [OF up(2)] fuse_read [OF m] by (auto simp: remote_backend_def curried_def w)
  }
qed

section \<open>What a mount writes is read\<close>


text \<open>A file of inode 7 on a node that just started.\<close>

definition file_node :: node where
  "file_node = alone_node\<lparr>nd_kv := snd (UpdateAttr (attr_zero\<lparr>at_ino := 7\<rparr>) (mem_store new_memory_kv))\<rparr>"

lemma file_attr: "attr_ok (attr_zero\<lparr>at_ino := 7\<rparr>)"
  by (simp add: attr_ok_def attr_zero_def in_int64_def)

lemma file_node_ok:
  "at_mount ''http://a'' (fresh_client, [(''http://a'', file_node)])"
  "stored_attr ''http://a'' 7 (fresh_client, [(''http://a'', file_node)]) = Some (attr_zero\<lparr>at_ino := 7\<rparr>)"
proof -
  have up: "kv_up (mem_store new_memory_kv)" by (simp add: kv_up_def mem_store_def)
  obtain s where s: "UpdateAttr (attr_zero\<lparr>at_ino := 7\<rparr>) (mem_store new_memory_kv) = (Inr (), s)" "kv_up s"
    "GetAttr s 7 = Inr (attr_zero\<lparr>at_ino := 7\<rparr>)" "ListNodes s = ListNodes (mem_store new_memory_kv)"
    "\<And>k. reg_get s k = reg_get (mem_store new_memory_kv) k" using update_attr_up [OF up file_attr] by auto
  have kv: "nd_kv file_node = s" "nd_kv alone_node = mem_store new_memory_kv"
    by (simp_all add: file_node_def s alone_node_def NewService_def)
  have "isl (reg_get (mem_store new_memory_kv) k)" for k
    by (simp add: reg_get_def kv_get_def mem_get_def mem_store_def new_memory_kv_def)
  then have reg: "isl (GetChunkRegistry file_node k)" for k by (simp add: GetChunkRegistry_def kv s)
  have "alone ''http://a'' [(''http://a'', file_node)]"
    using alone_cluster_ok(1) by (simp add: alone_def alone_cluster_def kv s) (simp add: file_node_def)
  then show "at_mount ''http://a'' (fresh_client, [(''http://a'', file_node)])"
    using reg s(2) by (simp add: at_mount_def nodeList_def fresh_client_def kv)
  show "stored_attr ''http://a'' 7 (fresh_client, [(''http://a'', file_node)]) = Some (attr_zero\<lparr>at_ino := 7\<rparr>)"
    using s(3) file_attr by (simp add: stored_attr_def kv)
qed

interpretation fmount: file_mount "fuse_transport 0 ''http://a'' 1 demo_env ''mount''" "mount_client ''http://a'' 2" "at_mount ''http://a''"
    "fuse_backend 0 ''http://a''" "stored_attr ''http://a''"
  by (rule fuse_mount [OF alone_cluster_ok(2,3)])


end
