(* ===== verification/Mount.thy ===== *)
theory Mount
  imports Cli Fuse_Correct
begin

text \<open>
  The mount command (\<^verbatim>\<open>cmd/memoryfs/mount.go\<close>): from its flags to the clients the FUSE file system runs on. What the overview of the cluster
  answers is an argument, and may differ from request to request, as is the network of the metadata client. Mounting itself is
  go-fuse's: its answer is an argument. The log lines are left out.
\<close>

section \<open>Starting a mount\<close>

record mount_flags =
  mf_mount :: string
  mf_nodes :: string
  mf_token :: string

text \<open>A flag that is not given has the value of its environment variable.\<close>

definition flag_or_env :: "environ \<Rightarrow> string option \<Rightarrow> string \<Rightarrow> string" where
  "flag_or_env env flag key = (case flag of Some v \<Rightarrow> v | None \<Rightarrow> envOr env key [])"

definition parse_mount :: "environ \<Rightarrow> string option \<Rightarrow> string option \<Rightarrow> string option \<Rightarrow> mount_flags" where
  "parse_mount env mount nodes token =
     \<lparr>mf_mount = flag_or_env env mount ''MEMORYFS_MOUNT_POINT'', mf_nodes = flag_or_env env nodes ''MEMORYFS_NODES'',
      mf_token = flag_or_env env token ''MEMORYFS_API_TOKEN''\<rparr>"

record mount_state =
  mm_meta :: remote_meta
  mm_chunks :: chunk_client
  mm_api :: cli_client
  mm_config :: cli_config

datatype mount_end = MountFatal string | MountPanic | MountUp mount_state

definition NewHTTPChunkStore :: "string list \<Rightarrow> int \<Rightarrow> string \<Rightarrow> chunk_client" where
  "NewHTTPChunkStore seeds rf prefix = newChunkStore seeds rf prefix"

text \<open>The flusher that is passed is not used.\<close>

definition NewMountedChunkStore :: "string list \<Rightarrow> int \<Rightarrow> string \<Rightarrow> chunk_client" where
  "NewMountedChunkStore seeds rf prefix = NewHTTPChunkStore seeds rf prefix"

text \<open>The refresh of the chunk client asks the metadata client for the nodes.\<close>

definition refresh_nodes :: "'w net \<Rightarrow> chunk_client \<Rightarrow> remote_meta \<Rightarrow> 'w \<Rightarrow> chunk_client \<times> remote_meta \<times> 'w" where
  "refresh_nodes net c rm w = (case rm_list_nodes net rm w of (r, rm', w') \<Rightarrow> (snd (RefreshNodes r c), rm', w'))"

type_synonym probes = "nat \<Rightarrow> cli_client \<Rightarrow> cluster_overview res"

text \<open>The metadata client is made with the prefix of its own detection, and sent to the leader of the overview.\<close>

definition mount_meta :: "probes \<Rightarrow> string list \<Rightarrow> string \<Rightarrow> cluster_overview \<Rightarrow> remote_meta" where
  "mount_meta probe ns prefix ov =
     (let seed = trim_right_slash (trim_space (hd ns));
          rm = NewRemoteMeta ns (normalizeURIPrefix (DetectPrefix (probe 0) seed [])) in
      if ov_leader ov \<noteq> [] then SetLeader (prefixedLeaderURL (ov_leader ov) prefix) rm else rm)"

definition mount_factor :: "probes \<Rightarrow> string list \<Rightarrow> cluster_overview \<Rightarrow> int" where
  "mount_factor probe ns ov = (if ov_rf ov \<le> 0 then detectReplicaFactor (probe 3) ns else ov_rf ov)"

definition mount_config :: "string list \<Rightarrow> string \<Rightarrow> mount_flags \<Rightarrow> cluster_overview \<Rightarrow> int \<Rightarrow> cli_config" where
  "mount_config ns prefix fl ov rf =
     \<lparr>cf_nodes = ns, cf_prefix = prefix, cf_token = mf_token fl, cf_mount = mf_mount fl, cf_leader = ov_leader ov, cf_rf = rf, cf_updated = None\<rparr>"

definition runMount :: "probes \<Rightarrow> 'w net \<Rightarrow> err option \<Rightarrow> mount_flags \<Rightarrow> 'w \<Rightarrow> mount_end \<times> 'w" where
  "runMount probe net fuse fl w =
     (if mf_mount fl = [] then (MountFatal ''mount point is required: -mount /path/to/mount'', w)
      else if mf_nodes fl = [] then (MountFatal (''nodes is required: -nodes '' @ default_url), w)
      else let ns = mount_nodes (mf_nodes fl) in
        case ns of
          [] \<Rightarrow> (MountPanic, w)
        | n # _ \<Rightarrow>
            (let seed = trim_right_slash (trim_space n);
                 prefix = normalizeURIPrefix (DetectPrefix (probe 1) seed []);
                 api = NewClient seed prefix (mf_token fl) in
             case probe 2 api of
               Inl e \<Rightarrow> (MountFatal (''cluster unreachable at '' @ seed @ '': '' @ error_string e), w)
             | Inr ov \<Rightarrow>
                 (case rm_list_nodes net (mount_meta probe ns prefix ov) w of (_, rm1, w1) \<Rightarrow>
                  let rf = mount_factor probe ns ov in
                  case refresh_nodes net (NewMountedChunkStore (rm_nodes rm1) rf prefix) rm1 w1 of (chunks, rm2, w2) \<Rightarrow>
                    if ck_nodes chunks = [] then (MountFatal ''no cluster nodes available; check -nodes URLs'', w2)
                    else case fuse of
                      Some e \<Rightarrow> (MountFatal (''mount: '' @ error_string e), w2)
                    | None \<Rightarrow> (MountUp \<lparr>mm_meta = rm2, mm_chunks = chunks, mm_api = api, mm_config = mount_config ns prefix fl ov rf\<rparr>, w2))))"

text \<open>The configuration is saved once the file system is mounted; an error is only logged.\<close>

definition mount_save :: "save_os \<Rightarrow> string \<Rightarrow> string \<Rightarrow> mount_state \<Rightarrow> files \<Rightarrow> files" where
  "mount_save os path now m f = last (snd (Save os path now (Some (mm_config m)) f))"

text \<open>What \<^verbatim>\<open>df\<close> shows: the sums of the overview, else those of its nodes; nothing when the cluster does not answer.\<close>

definition mount_capacity :: "cluster_overview res \<Rightarrow> u64" where
  "mount_capacity r = (case r of
     Inl _ \<Rightarrow> 0
   | Inr ov \<Rightarrow> if 0 < cs_quota (ov_storage ov) then word_of_int (cs_quota (ov_storage ov)) else SumDiskQuotaBytes (ov_nodes ov) [])"

definition mount_used :: "cluster_overview res \<Rightarrow> u64" where
  "mount_used r = (case r of
     Inl _ \<Rightarrow> 0
   | Inr ov \<Rightarrow>
       if 0 < cs_disk (ov_storage ov) \<or> 0 < cs_mem (ov_storage ov) then word_of_int (wrap64 (cs_disk (ov_storage ov) + cs_mem (ov_storage ov)))
       else SumDiskUsageBytes (ov_nodes ov) [])"

text \<open>A tick of the heartbeat: the nodes are refreshed; what it logs.\<close>

definition heartbeat :: "'w net \<Rightarrow> (cli_client \<Rightarrow> cluster_overview res) \<Rightarrow> cli_client \<Rightarrow> chunk_client \<Rightarrow> remote_meta \<Rightarrow> 'w \<Rightarrow>
    string \<times> chunk_client \<times> remote_meta \<times> 'w" where
  "heartbeat net overview api c rm w =
     (case refresh_nodes net c rm w of (c', s) \<Rightarrow>
        (case overview api of
           Inl e \<Rightarrow> ''heartbeat: cluster unreachable: '' @ error_string e
         | Inr ov \<Rightarrow> ''heartbeat: leader='' @ ov_leader ov @ '' epoch='' @ format_uint (ov_epoch ov) @ '' chunk_nodes='' @ format_nat (length (ck_nodes c'))
             @ '' cluster_nodes='' @ format_nat (reachableNodes ov), c', s))"

text \<open>On Windows there is no mount.\<close>

definition runMount_windows :: cmd_result where
  "runMount_windows = \<lparr>cr_out = [], cr_err = ''memoryfs mount is not supported on Windows (requires FUSE)'' @ newline, cr_code = 2\<rparr>"

section \<open>A mount that comes up\<close>

text \<open>Requests that only read leave the metadata client with the leader it had.\<close>

lemma post_read_keeps: "fst (snd (post net path q False rm w)) = rm"
proof -
  have tr: "tryPost net url path q False r rm w = (x, rm', w') \<Longrightarrow> rm' = rm" for url r w x rm' w'
    by (auto simp: tryPost_def split: prod.splits sum.splits)
  have "post_loop net bs path q False e r rm w = (x, rm', w') \<Longrightarrow> rm' = rm" for bs e r w x rm' w'
  proof (induction bs arbitrary: e r w)
    case (Cons b bs)
    then show ?case by (auto split: prod.splits sum.splits if_splits dest!: tr)
  qed simp
  then show ?thesis by (cases "post net path q False rm w") (auto simp: post_def)
qed

lemma list_nodes_keeps: "rm_list_nodes net rm w = (r, rm', w') \<Longrightarrow> rm_leader rm' = rm_leader rm \<and> rm_prefix rm' = rm_prefix rm"
  using post_read_keeps [of net "''/v1/cluster/nodes''" request_zero rm w]
  by (auto simp: rm_list_nodes_def Let_def split: prod.splits sum.splits if_splits)

lemma refresh_keeps:
  assumes "refresh_nodes net c rm w = (c', rm', w')"
  shows "rm_leader rm' = rm_leader rm" "ck_rf c' = ck_rf c"
  using assms list_nodes_keeps [of net rm w] by (auto simp: refresh_nodes_def RefreshNodes_def split: prod.splits sum.splits)

text \<open>What holds of every mount: which requests and answers it rests on.\<close>

lemma mount_up_cases:
  assumes "runMount probe net fuse fl w = (MountUp m, w')"
  obtains n ns ov where "mount_nodes (mf_nodes fl) = n # ns" "mf_mount fl \<noteq> []" "fuse = None" "probe 2 (mm_api m) = Inr ov"
    "cf_nodes (mm_config m) = n # ns" "cf_token (mm_config m) = mf_token fl" "cf_leader (mm_config m) = ov_leader ov"
    "mm_api m = NewClient (trim_right_slash (trim_space n)) (cf_prefix (mm_config m)) (mf_token fl)"
    "cf_prefix (mm_config m) = normalizeURIPrefix (DetectPrefix (probe 1) (trim_right_slash (trim_space n)) [])" "ck_nodes (mm_chunks m) \<noteq> []"
    "rm_leader (mm_meta m) = rm_leader (mount_meta probe (n # ns) (cf_prefix (mm_config m)) ov)"
    "ck_rf (mm_chunks m) = (if cf_rf (mm_config m) \<le> 0 then DefaultReplicaFactor else cf_rf (mm_config m))"
proof -
  have fl: "mf_mount fl \<noteq> []" "mf_nodes fl \<noteq> []" using assms by (auto simp: runMount_def split: if_splits)
  obtain n ns where n: "mount_nodes (mf_nodes fl) = n # ns" using assms fl by (cases "mount_nodes (mf_nodes fl)") (auto simp: runMount_def)
  define seed where "seed = trim_right_slash (trim_space n)"
  define prefix where "prefix = normalizeURIPrefix (DetectPrefix (probe 1) seed [])"
  define api where "api = NewClient seed prefix (mf_token fl)"
  obtain ov where ov: "probe 2 api = Inr ov"
    using assms fl n by (cases "probe 2 api") (auto simp: runMount_def Let_def seed_def prefix_def api_def)
  define rf where "rf = mount_factor probe (n # ns) ov"
  obtain x rm1 w1 where l: "rm_list_nodes net (mount_meta probe (n # ns) prefix ov) w = (x, rm1, w1)" by (metis prod_cases3)
  obtain c rm2 w2 where r: "refresh_nodes net (NewMountedChunkStore (rm_nodes rm1) rf prefix) rm1 w1 = (c, rm2, w2)" by (metis prod_cases3)
  have run: "runMount probe net fuse fl w = (if ck_nodes c = [] then (MountFatal ''no cluster nodes available; check -nodes URLs'', w2)
      else case fuse of Some e \<Rightarrow> (MountFatal (''mount: '' @ error_string e), w2)
        | None \<Rightarrow> (MountUp \<lparr>mm_meta = rm2, mm_chunks = c, mm_api = api, mm_config = mount_config (n # ns) prefix fl ov rf\<rparr>, w2))"
    using fl n ov l r by (cases fuse) (simp_all add: runMount_def Let_def seed_def prefix_def api_def rf_def)
  then have m: "fuse = None" "ck_nodes c \<noteq> []" "m = \<lparr>mm_meta = rm2, mm_chunks = c, mm_api = api, mm_config = mount_config (n # ns) prefix fl ov rf\<rparr>"
    using assms by (auto split: if_splits option.splits)
  have "rm_leader rm2 = rm_leader (mount_meta probe (n # ns) prefix ov)" using list_nodes_keeps [OF l] refresh_keeps(1) [OF r] by simp
  moreover have "ck_rf c = (if rf \<le> 0 then DefaultReplicaFactor else rf)"
    using refresh_keeps(2) [OF r] by (simp add: NewMountedChunkStore_def NewHTTPChunkStore_def newChunkStore_def)
  ultimately show thesis
    by (intro that [OF n fl(1) m(1)]) (use m ov in \<open>simp_all add: mount_config_def api_def seed_def prefix_def\<close>)
qed

text \<open>The nodes of a mount are trimmed, not empty and without commas, so they survive the saved configuration.\<close>

lemma mount_nodes_ok: "n \<in> set (mount_nodes s) \<Longrightarrow> n \<noteq> [] \<and> trim_space n = n \<and> CHR '','' \<notin> set n"
  using set_trim_space split_on_sep by (fastforce simp: mount_nodes_def trim_space_idem)

lemma mount_panics:
  "fst (runMount probe net fuse fl w) = MountPanic \<longleftrightarrow> mf_mount fl \<noteq> [] \<and> mf_nodes fl \<noteq> [] \<and> mount_nodes (mf_nodes fl) = []"
  by (auto simp: runMount_def Let_def split: list.split sum.split prod.split option.split)

text \<open>A leader of the overview is where the changes of a mount go, below the prefix.\<close>

lemma detected_prefix: "DetectPrefix ov seed token \<in> {[], ''/memoryfs''}"
  by (auto simp: DetectPrefix_def)

lemma normalize_detected: "normalizeURIPrefix (DetectPrefix ov seed token) \<in> {[], ''/memoryfs''}"
proof -
  have "normalizeURIPrefix ''/memoryfs'' = ''/memoryfs''"
    by (simp add: normalizeURIPrefix_def trim_space_def trim_left_char_def trim_right_char_def is_space_def has_prefix_def has_suffix_def trim_suffix_def)
  then show ?thesis using detected_prefix [of ov seed token] by auto
qed

definition plain_url :: "string \<Rightarrow> bool" where
  "plain_url u \<longleftrightarrow> u \<noteq> [] \<and> (\<forall>c \<in> set u. \<not> is_space c) \<and> trim_right_slash u = u"

lemma prefixed_leader:
  assumes "plain_url l" "p \<in> {[], ''/memoryfs''}"
  shows "trim_space (prefixedLeaderURL l p) = prefixedNodeURL l p" "prefixedNodeURL (prefixedNodeURL l p) p = prefixedNodeURL l p"
    "prefixedNodeURL l p \<noteq> []"
proof -
  have l: "trim_space l = l" "trim_right_slash l = l" "l \<noteq> []" using assms(1) by (auto simp: plain_url_def intro!: trim_space_no_space)
  then have e: "prefixedLeaderURL l p = prefixedNodeURL l p" by (simp add: prefixedLeaderURL_def prefixedNodeURL_def Let_def)
  have "\<not> is_space c" if "c \<in> set (prefixedNodeURL l p)" for c
    using that assms l by (auto simp: prefixedNodeURL_def plain_url_def Let_def is_space_def split: if_splits)
  then show "trim_space (prefixedLeaderURL l p) = prefixedNodeURL l p" unfolding e by (rule trim_space_no_space)
  have "trim_right_slash (l @ ''/memoryfs'') = l @ ''/memoryfs''" by (simp add: trim_right_slash_def trim_right_char_def)
  then show "prefixedNodeURL (prefixedNodeURL l p) p = prefixedNodeURL l p"
    using assms(2) l by (auto simp: prefixedNodeURL_def Let_def has_suffix_def has_prefix_def)
  show "prefixedNodeURL l p \<noteq> []" using l by (simp add: prefixedNodeURL_def Let_def)
qed

lemma mount_meta_leader:
  assumes "plain_url (ov_leader ov)" "ns = n # ns'" "prefix = normalizeURIPrefix (DetectPrefix (probe 0) (trim_right_slash (trim_space n)) [])"
  shows "rm_leader (mount_meta probe ns prefix ov) = prefixedNodeURL (ov_leader ov) prefix"
proof -
  note P = prefixed_leader [OF assms(1), of prefix] normalize_detected [of "probe 0" "trim_right_slash (trim_space n)" "[]", folded assms(3)]
  have "ov_leader ov \<noteq> []" using assms(1) by (simp add: plain_url_def)
  then show ?thesis using P assms(3) by (simp add: mount_meta_def assms(2) SetLeader_def NewRemoteMeta_def Let_def)
qed

section \<open>Properties\<close>

text \<open>The changes of the metadata client go to the leader the overview named, and the saved configuration leads the other commands to the same place.\<close>

definition to_leader :: "probes \<Rightarrow> mount_state \<Rightarrow> bool" where
  "to_leader probe m \<longleftrightarrow> (\<exists>ov. probe 2 (mm_api m) = Inr ov
     \<and> (plain_url (ov_leader ov) \<longrightarrow> nodeList True (mm_meta m) = [prefixedNodeURL (ov_leader ov) (cf_prefix (mm_config m))]))"

definition no_settings :: "environ \<Rightarrow> bool" where
  "no_settings env \<longleftrightarrow> env ''MEMORYFS_NODES'' = [] \<and> env ''MEMORYFS_URI_PREFIX'' = [] \<and> env ''MEMORYFS_API_TOKEN'' = []"

definition remembered :: "mount_state \<Rightarrow> bool" where
  "remembered m \<longleftrightarrow> (\<forall>env. no_settings env \<longrightarrow>
     (let conn = resolveConn env (Inr (mm_config m)) [] [] [] in NewClient (ci_seed conn) (ci_prefix conn) (ci_token conn) = mm_api m))"

text \<open>
  C28. What a mount has when it comes up, whatever the network answered: its chunk client knows nodes and has a positive replica factor; when the
  overview names a leader, the changes of its metadata client go to that leader, below the prefix that was detected; and the
  configuration it leaves makes the other commands, run without flags and environment, use the same node, prefix and token. It panics exactly when
  its list of nodes holds nothing but commas and spaces.
\<close>

theorem mount_ready:
  assumes "runMount probe net fuse fl w = (r, w')" "probe 1 = probe 0"
  shows "(r = MountPanic \<longleftrightarrow> mf_mount fl \<noteq> [] \<and> mf_nodes fl \<noteq> [] \<and> mount_nodes (mf_nodes fl) = [])
     \<and> (\<forall>m. r = MountUp m \<longrightarrow> ck_nodes (mm_chunks m) \<noteq> [] \<and> 0 < ck_rf (mm_chunks m) \<and> to_leader probe m
          \<and> (trim_right_slash (hd (mount_nodes (mf_nodes fl))) \<noteq> [] \<longrightarrow> remembered m))"
proof -
  have "ck_nodes (mm_chunks m) \<noteq> [] \<and> 0 < ck_rf (mm_chunks m) \<and> to_leader probe m
      \<and> (trim_right_slash (hd (mount_nodes (mf_nodes fl))) \<noteq> [] \<longrightarrow> remembered m)" if m: "r = MountUp m" for m
    using assms(1) [unfolded m]
  proof (cases rule: mount_up_cases)
    case (1 n ns ov)
    have n: "n \<noteq> []" "trim_space n = n" "CHR '','' \<notin> set n" using mount_nodes_ok [of n "mf_nodes fl"] 1(1) by simp_all
    let ?p = "cf_prefix (mm_config m)"
    note p = 1(9) [unfolded assms(2)]
    have "nodeList True (mm_meta m) = [prefixedNodeURL (ov_leader ov) ?p]" if "plain_url (ov_leader ov)"
      using mount_meta_leader [of ov "n # ns" n ns ?p probe] that p 1(11) prefixed_leader(3) [OF that, of ?p]
        normalize_detected [of "probe 0" "trim_right_slash (trim_space n)" "[]"] by (simp add: nodeList_def)
    then have "to_leader probe m" using 1(4) by (auto simp: to_leader_def)
    moreover have "remembered m" if "trim_right_slash n \<noteq> []"
      using saved_connection [OF 1(5) n(3,1,2) that] 1(6,8) n(2) by (simp add: remembered_def no_settings_def Let_def)
    moreover have "0 < ck_rf (mm_chunks m)" using 1(12) by (simp add: DefaultReplicaFactor_def)
    ultimately show ?thesis using 1(1,10) by simp
  qed
  then show ?thesis using mount_panics [of probe net fuse fl w] assms(1) by simp
qed

section \<open>A mount of a node that serves alone\<close>

lemma list_nodes_alone:
  assumes "nodeList False rm = [u]" "ListNodes (nd_kv nd) = []"
  shows "rm_list_nodes (mount_net now u) rm [(u, nd)] = (Inr [], rm, [(u, nd)])"
proof -
  let ?path = "''/v1/cluster/nodes''" and ?raw = "json_print (enc_response response_zero) @ [CHR 0x0A]"
  have net: "leader_net now u (u @ ?path) (json_print (enc_request request_zero)) nd = (Inr (200, ?raw), nd)"
    using assms(2) by (simp add: leader_net_def serve_def handleNodes_def writeJSON_def response_zero_def)
  have dec: "unmarshal (dec_struct set_resp_field) resp_zero ?raw = Inr resp_zero"
    using decode_response [of response_zero] by (simp add: response_ok_def response_zero_def resp_zero_def)
  have z: "rs_error resp_zero = []" "rs_nodes resp_zero = []" by (simp_all add: resp_zero_def)
  have "post (leader_net now u) ?path request_zero False rm nd = ((Inr (), resp_zero), rm, nd)"
    by (simp add: post_def assms(1) tryPost_def doPost_def net dec answered_def error_field_def z)
  then show ?thesis using post_single [of now u ?path request_zero False rm nd] by (simp add: rm_list_nodes_def z)
qed

definition answers_plain :: "probes \<Rightarrow> cluster_overview \<Rightarrow> bool" where
  "answers_plain probe ov \<longleftrightarrow> (\<forall>i c. probe i c = (if cc_prefix c = [] then Inr ov else Inl (ErrMsg ''HTTP 404: 404 page not found'')))"

lemma detect_plain: "answers_plain probe ov \<Longrightarrow> DetectPrefix (probe i) seed token = []"
  by (simp add: answers_plain_def DetectPrefix_def NewClient_def normalizeURIPrefix_def trim_space_def trim_left_char_def trim_right_char_def
      is_space_def has_prefix_def has_suffix_def trim_suffix_def)

lemma mount_nodes_single: "url_ok u \<Longrightarrow> mount_nodes u = [u]"
  by (simp add: mount_nodes_def url_ok_def csv_ok_def split_on_no_sep trim_space_no_space)

text \<open>The mount comes up with the clients for which files are read back (theory \<open>Fuse_Correct\<close>), and leaves the node as it was.\<close>

lemma mount_alone:
  assumes "url_ok u" "trim_right_slash u = u" "mf_nodes fl = u" "mf_mount fl \<noteq> []" "answers_plain probe ov" "0 < ov_rf ov" "ov_leader ov \<in> {[], u}"
    and "cl = [(u, nd)]" "alone u cl" "kv_up (nd_kv nd)" "\<And>k. isl (GetChunkRegistry nd k)"
  obtains m where "runMount probe (mount_net now u) None fl cl = (MountUp m, cl)" "at_mount u (mm_meta m, cl)" "mm_chunks m = mount_client u (ov_rf ov)"
proof -
  have u: "u \<noteq> []" "trim_space u = u" "mount_nodes u = [u]" "normalizeURIPrefix [] = []"
    using assms(1) mount_nodes_single by (auto simp: url_ok_def csv_ok_def trim_space_no_space)
  have api: "cc_prefix (NewClient u [] t) = []" for t by (simp add: NewClient_def)
  define rm where "rm = mount_meta probe [u] [] ov"
  have rm: "rm_nodes rm = [u]" "nodeList True rm = [u]" "nodeList False rm = [u]"
    using assms(7) u detect_plain [OF assms(5)] assms(2)
    by (auto simp: rm_def mount_meta_def NewRemoteMeta_def prefixed_nodes_def prefixedNodeURL_def SetLeader_def prefixedLeaderURL_def nodeList_def Let_def)
  have ln: "ListNodes (nd_kv nd) = []" using assms(8,9) by (simp add: alone_def)
  note l = list_nodes_alone [OF rm(3) ln, of now]
  have rf: "mount_factor probe [u] ov = ov_rf ov" using assms(6) by (simp add: mount_factor_def)
  have "mergeNodeURLs [u] [] = [u]" using u by (simp add: mergeNodeURLs_def Let_def)
  then have ref: "refresh_nodes (mount_net now u) (NewMountedChunkStore [u] (ov_rf ov) []) rm [(u, nd)] = (mount_client u (ov_rf ov), rm, [(u, nd)])"
    by (simp add: refresh_nodes_def l RefreshNodes_def NewMountedChunkStore_def NewHTTPChunkStore_def newChunkStore_def)
  have "ck_nodes (mount_client u (ov_rf ov)) = [u]" by (simp add: newChunkStore_def)
  then have run: "runMount probe (mount_net now u) None fl cl =
      (MountUp \<lparr>mm_meta = rm, mm_chunks = mount_client u (ov_rf ov), mm_api = NewClient u [] (mf_token fl), mm_config = mount_config [u] [] fl ov (ov_rf ov)\<rparr>, cl)"
    using assms(2-5) u api rf l ref rm(1) detect_plain [OF assms(5)]
    by (simp add: runMount_def Let_def assms(8) answers_plain_def rm_def [symmetric] api)
  have "at_mount u (rm, cl)" using assms(8-11) rm by (simp add: at_mount_def)
  then show thesis by (intro that [OF run]) simp_all
qed

text \<open>A mount of the node of theory \<open>Fuse_Correct\<close> that holds a file.\<close>

definition demo_overview :: cluster_overview where
  "demo_overview = overview_zero\<lparr>ov_leader := ''http://a'', ov_rf := 2\<rparr>"

definition demo_probe :: probes where
  "demo_probe i c = (if cc_prefix c = [] then Inr demo_overview else Inl (ErrMsg ''HTTP 404: 404 page not found''))"

definition demo_mount :: mount_flags where
  "demo_mount = \<lparr>mf_mount = ''/mnt'', mf_nodes = ''http://a'', mf_token = ''t''\<rparr>"

theorem mount_ready_witness:
  "\<exists>m. runMount demo_probe (mount_net 0 ''http://a'') None demo_mount [(''http://a'', file_node)] = (MountUp m, [(''http://a'', file_node)])
     \<and> at_mount ''http://a'' (mm_meta m, [(''http://a'', file_node)]) \<and> to_leader demo_probe m \<and> remembered m"
proof -
  have plain: "answers_plain demo_probe demo_overview" by (simp add: answers_plain_def demo_probe_def)
  have at: "alone ''http://a'' [(''http://a'', file_node)]" "kv_up (nd_kv file_node)" "isl (GetChunkRegistry file_node k)" for k
    using file_node_ok(1) by (simp_all add: at_mount_def)
  have slash: "trim_right_slash ''http://a'' = ''http://a''" by (simp add: trim_right_slash_def trim_right_char_def)
  have fl: "mf_nodes demo_mount = ''http://a''" "mf_mount demo_mount \<noteq> []" "0 < ov_rf demo_overview" "ov_leader demo_overview \<in> {[], ''http://a''}"
    by (simp_all add: demo_mount_def demo_overview_def)
  obtain m where m: "runMount demo_probe (mount_net 0 ''http://a'') None demo_mount [(''http://a'', file_node)] = (MountUp m, [(''http://a'', file_node)])"
    "at_mount ''http://a'' (mm_meta m, [(''http://a'', file_node)])"
    using mount_alone [OF alone_cluster_ok(3) slash fl(1,2) plain fl(3,4) refl at, of 0] by metis
  have "demo_probe 1 = demo_probe 0" by (rule ext) (simp add: demo_probe_def)
  from mount_ready [OF m(1) this] m slash mount_nodes_single [OF alone_cluster_ok(3)] show ?thesis by (auto simp: fl(1))
qed

end
