(* ===== verification/Spec2Isabelle.thy ===== *)
theory Spec2Isabelle
  imports Base64 Drain_Correct Repair_Correct Meta_Props Service_Props Grpc_Correct Startup_Correct Mount
begin

text \<open>
  \<^bold>\<open>MemoryFS.\<close> A distributed file system that keeps file data in the memory of a cluster. Every node keeps the metadata (directories,
  inodes, chunk locations, members) in a key-value store that Raft replicates, and chunks of file data in a local store; a chunk is written
  to a chain of nodes in the style of CRAQ. A mount is a FUSE file system that talks to the nodes over HTTP. This library models the Go
  program from the byte strings on the wire up to the FUSE callbacks and proves what its parts promise, and where they do not keep it.

  \<^bold>\<open>Conventions\<close> (\<open>Prelude\<close>, \<open>Go_Strings\<close>, \<open>Json\<close>, \<open>Base64\<close>, \<open>Codec\<close>). Go strings and byte slices are lists of characters with 256 values. A
  \<open>uintN\<close> is a word of that width; a Go \<open>int\<close> or \<open>int64\<close> is an \<open>int\<close>, with \<open>wrap64\<close> where the code can overflow. A Go map is an association list
  with distinct keys whose order stands for the unspecified iteration order. An error is a value of \<open>err\<close> (the sentinel errors, or a text) and a
  fallible function returns \<open>err + 'a\<close>. Mutable state is passed and returned. What lies outside the repository is an argument: what Raft
  does with a proposal (\<open>r_plan\<close>), what the network does to a request (\<open>env\<close>: delivered, lost, or the reply lost), which writes the disk refuses, the
  clock, and the transport and metadata backend of a mount, which are the Go interfaces as records of functions. JSON is printed and parsed
  byte by byte as \<^verbatim>\<open>encoding/json\<close> does. A panic is a result of its own. Texts of parse errors of the standard library are shortened.

  \<^bold>\<open>The theories\<close>, from the bottom up.

  \<^item> \<open>Kv\<close>, \<open>Kv_Codec\<close>, \<open>Raft_Kv\<close>: \<^verbatim>\<open>pkg/kv\<close> and \<^verbatim>\<open>pkg/raftnode/fsm.go\<close>. \<open>memkv\<close> is \<^verbatim>\<open>MemoryKV\<close> with its four maps, one definition per method; \<open>kv\<close> is the interface
    over a plain or a replicated store. The replicated store proposes JSON log entries that the state machine decodes. Shown: a snapshot and the rest of the
    log give the store of the whole log; a replicated method that commits does what the plain one does; batches are atomic for their
    callers; a batch with an unknown operation stops half way and over Raft reports success.
  \<^item> \<open>Layout\<close>, \<open>Meta_Store\<close>, \<open>Meta_Spec\<close>, \<open>Meta_Correct\<close>, \<open>Meta_Props\<close>: \<^verbatim>\<open>pkg/meta\<close>. \<open>Meta_Store\<close> has \<^verbatim>\<open>LocalStore\<close>; \<open>Meta_Spec\<close> is a file system of inodes, entries and
    back links with a step relation, and \<open>Meta_Correct\<close> shows that every operation, over either store, is a step of it (also a failed one, and one
    whose outcome Raft leaves open), with the invariant that goes with it. \<open>Meta_Props\<close> has what callers see, and the cases in which
    directories break.
  \<^item> \<open>Chunk_Store\<close>, \<open>Chain\<close>, \<open>Chunk_Registry\<close>: \<^verbatim>\<open>pkg/chunk\<close>. The five kinds of store share the contracts \<open>chunk_store\<close> and \<open>sized_store\<close> (locales, interpreted on the
    model of every store and on their sum \<open>store\<close>), the table of chains is balanced and depends on the set of nodes only, the registry is read back, and a rebuild
    is complete.
  \<^item> \<open>Lifecycle\<close>, \<open>Repair_Queue\<close>, \<open>Transport\<close>: \<^verbatim>\<open>pkg/lifecycle\<close>, \<^verbatim>\<open>service/repair.go\<close>, and the options of a chunk write on the wire.
  \<^item> \<open>Node\<close>, \<open>Craq\<close>, \<open>Craq_Correct\<close>: the state of a node (\<^verbatim>\<open>service.Service\<close>) and \<^verbatim>\<open>service/craq.go\<close>. A \<open>cluster\<close> maps URLs to nodes; a request that a node
    forwards runs on the cluster. Shown: an acknowledged write is committed with its data on every replica, whatever the network did; without
    failures a write succeeds; a failed write cannot be read at the head; the first answer to a write is final, also when it should not be.
  \<^item> \<open>Service\<close>, \<open>Service_Props\<close>, \<open>Maintenance\<close>, \<open>Overview\<close>, \<open>Membership\<close>: the rest of \<^verbatim>\<open>pkg/service\<close> and \<^verbatim>\<open>pkg/cluster\<close>: putting and deleting chunks, draining, repair, expiry, GC, the overview, joining
    and leaving.
  \<^item> \<open>Cluster_Frame\<close>, \<open>Drain_Correct\<close>, \<open>Repair_Correct\<close>: what work on one chunk leaves alone in the whole cluster, and over it the loops of \<^verbatim>\<open>Drain\<close> and \<^verbatim>\<open>RunRepair\<close>. Shown: a
    drain that succeeds leaves every chunk with all its replicas and recorded; a repair run settles every job of the queue.
  \<^item> \<open>Http_Filter\<close>, \<open>Fs_Api\<close>, \<open>Chunk_Api\<close>, \<open>Admin_Api\<close>, \<open>Api_Invariant\<close>: \<^verbatim>\<open>pkg/node\<close>, the token and prefix middleware, and every route with its requests, answers and status codes;
    what one node serves keeps its state well formed.
  \<^item> \<open>Grpc\<close>, \<open>Grpc_Transport\<close>, \<open>Grpc_Correct\<close>: \<^verbatim>\<open>pkg/grpcserver\<close> and the other transports of \<^verbatim>\<open>pkg/transport\<close>. Every method of the gRPC server with its status codes, the gRPC and RDMA
    transports over libraries that are arguments, and the fallback between transports. Shown: chunks over gRPC and over HTTP have the same effect and the same success; the metadata
    methods do what the HTTP routes do; whatever a node is sent over both, its state stays well formed.
  \<^item> \<open>Startup\<close>, \<open>Commands\<close>, \<open>Startup_Correct\<close>: \<^verbatim>\<open>cmd/memoryfs\<close>, \<^verbatim>\<open>pkg/raftnode\<close>, \<^verbatim>\<open>cluster/client.go\<close> and \<^verbatim>\<open>pkg/cli\<close>. The settings of a container, the check of Raft's peers, the steps of \<^verbatim>\<open>runNode\<close>, the request
    to join, and which cluster a command talks to. Shown: a node that runs alone comes up with the invariants of the file system and of the node; a node whose request to join was
    accepted is a member; the pods of a stateful set agree on who bootstraps.
  \<^item> \<open>Storage\<close>, \<open>Storage_Correct\<close>: \<^verbatim>\<open>pkg/storage\<close>, the chunk client of a mount with its block buffers, over any transport. The locales \<open>chunk_io\<close> and \<open>chunk_io_up\<close> state what
    it needs of the servers.
  \<^item> \<open>Remote_Meta\<close>, \<open>Remote_Correct\<close>: \<^verbatim>\<open>pkg/client\<close>, the metadata client, against the routes of \<open>Fs_Api\<close>.
  \<^item> \<open>Fuse\<close>, \<open>Mount_Correct\<close>, \<open>Fuse_Correct\<close>: \<^verbatim>\<open>pkg/fusefs\<close>, and whole mounts: \<open>chunk_io_up\<close> and the locale \<open>file_mount\<close> are interpreted on the HTTP transport and the HTTP metadata
    client against a node that serves alone, so that files are written and read back through every layer of the program.
  \<^item> \<open>Workers\<close>, \<open>Benchmark\<close>: \<^verbatim>\<open>cli/benchmark.go\<close>. The pool of workers is a step relation with one action of one goroutine per step, so that every interleaving and every moment of a
    cancellation is covered. Shown: the pool ends, runs every job once and reports truly; a benchmark that returns a result has written and read every chunk and, with cleanup, left nothing. The
    locales \<open>chunk_server\<close> and \<open>chunk_server_up\<close> state what it needs of a node and are interpreted on the chunk route of a node that serves alone.
  \<^item> \<open>Cli_Config\<close>, \<open>Cli\<close>, \<open>Mount\<close>: \<^verbatim>\<open>pkg/cliconfig\<close>, \<^verbatim>\<open>cli/status.go\<close> and the commands of \<^verbatim>\<open>cmd/memoryfs\<close>. Shown: the saved configuration is replaced as a whole and read back, whichever
    system call fails; the status of a cluster is always printed, with the right units; a mount that comes up has nodes, a replica factor and its leader, and leaves a configuration that leads the
    other commands to the same place.

  \<^bold>\<open>Fuel.\<close> Only requests along a chain can call each other without end: \<open>applyReplicaWrite\<close> and what uses it take a number of \<open>hops\<close> and return \<open>None\<close> when it is
  used up. A chain over distinct replicas needs as many hops as it has replicas (\<open>chain_request_ends\<close>), so every theorem that says that a write returns holds for that
  number or more. All other loops are total functions; the ones that are not structural have a measure (what is left of the data in \<open>write_loop\<close> and \<open>read_loop\<close>, the length of the
  input in the JSON parser).

  \<^bold>\<open>Concurrency.\<close> The requests of one chunk are served one after the other, which the lock of the chunk gives, and the store and metadata
  operations are atomic, which their mutexes and the Raft log give. Requests of different chunks interleave only as whole requests. The parallel deletions of the chunk client
  are served in an order that is an argument; the goroutines of the benchmark interleave freely, with a request as one action.

  \<^bold>\<open>Not modelled.\<close> Parsing of flags, listeners, signals, and the inside of hashicorp/raft, go-fuse and gRPC, which are I/O or libraries; Prometheus metrics, the page of the dashboard and
  log lines; the times a benchmark measures; the alignment of columns by \<^verbatim>\<open>text/tabwriter\<close>; fsync of chunk files, which changes nothing in the model of the disk, and the modes of files; time
  stamps that are only displayed; the limit of concurrent chunk writes; generated protobuf code, whose messages are records here.
\<close>

end
